(* ===== verification/Prelude.thy ===== *)
theory Prelude
  imports Main "HOL-Library.Word"
begin

text \<open>
  Shared vocabulary of the development: the base types of the API (UUIDs, timestamps), the
  result type of a fallible operation, and the relational operations that the SQL statements
  of the repositories are made of (select, update, delete, order by, limit) on tables that are
  lists of rows.

  A table is the list of its rows in insertion order. \<open>INSERT\<close> appends, \<open>UPDATE\<close> is
  \<open>update_where\<close>, \<open>DELETE\<close> is \<open>delete_where\<close>, \<open>fetch_optional\<close> is \<open>select_one\<close>,
  \<open>EXISTS\<close> is \<open>exists_where\<close> and \<open>ORDER BY\<close> is the stable sort \<open>sort_key\<close>. The order of a
  result without \<open>ORDER BY\<close> is unspecified in SQL; the model returns the table's order and no
  property depends on it.
\<close>

named_theorems table_simps \<open>rewrite rules for the table operations\<close>

section \<open>Base types\<close>

type_synonym uuid = "128 word"

text \<open>A \<open>DateTime<Utc>\<close> / \<open>TIMESTAMPTZ\<close>: microseconds since the Unix epoch.\<close>

type_synonym timestamp = int

type_synonym i32 = "32 word"
type_synonym i64 = "64 word"
type_synonym u64 = "64 word"

definition uuid_nil :: uuid where
  "uuid_nil = 0"

definition seconds :: "int \<Rightarrow> int" where
  "seconds n = n * 1000000"

text \<open>\<open>Option::unwrap_or\<close> and \<open>COALESCE(a, b)\<close>: the first value that is there.\<close>

definition unwrap_or :: "'a option \<Rightarrow> 'a \<Rightarrow> 'a" where
  "unwrap_or a b = (case a of None \<Rightarrow> b | Some x \<Rightarrow> x)"

definition coalesce :: "'a option \<Rightarrow> 'a option \<Rightarrow> 'a option" where
  "coalesce a b = (case a of None \<Rightarrow> b | Some x \<Rightarrow> Some x)"

lemma unwrap_or_simps [simp]:
  "unwrap_or None b = b"
  "unwrap_or (Some x) b = x"
  by (simp_all add: unwrap_or_def)

lemma coalesce_simps [simp]:
  "coalesce None b = b"
  "coalesce (Some x) b = Some x"
  "coalesce a None = a"
  by (simp_all add: coalesce_def split: option.splits)

section \<open>Fallible operations\<close>

text \<open>
  A pure fallible computation is a value of \<open>'e + 'a\<close> (\<open>Inl\<close> the error). An operation on a
  state returns its result and the new state.
\<close>

type_synonym ('s, 'e, 'a) op = "'s \<Rightarrow> ('e + 'a) \<times> 's"

definition is_ok :: "'e + 'a \<Rightarrow> bool" where
  "is_ok r \<longleftrightarrow> (case r of Inl _ \<Rightarrow> False | Inr _ \<Rightarrow> True)"

lemma is_ok_simps [simp]:
  "is_ok (Inl e) \<longleftrightarrow> False"
  "is_ok (Inr x) \<longleftrightarrow> True"
  by (simp_all add: is_ok_def)

lemma is_ok_iff: "is_ok r \<longleftrightarrow> (\<exists>x. r = Inr x)"
  by (cases r) auto

text \<open>
  The \<open>?\<close> operator on operations: \<open>and_then m f\<close> runs \<open>m\<close>, returns its error with the state it
  left, and continues with \<open>f\<close> on its value otherwise.
\<close>

definition and_then :: "('s, 'e, 'a) op \<Rightarrow> ('a \<Rightarrow> ('s, 'e, 'b) op) \<Rightarrow> ('s, 'e, 'b) op" where
  "and_then m f s = (case m s of (Inl e, s') \<Rightarrow> (Inl e, s') | (Inr x, s') \<Rightarrow> f x s')"

definition ret :: "'a \<Rightarrow> ('s, 'e, 'a) op" where
  "ret x s = (Inr x, s)"

definition throw :: "'e \<Rightarrow> ('s, 'e, 'a) op" where
  "throw e s = (Inl e, s)"

text \<open>A computed result, and a read of the state.\<close>

definition lift_result :: "'e + 'a \<Rightarrow> ('s, 'e, 'a) op" where
  "lift_result r s = (r, s)"

definition query :: "('s \<Rightarrow> 'e + 'a) \<Rightarrow> ('s, 'e, 'a) op" where
  "query q s = (q s, s)"

text \<open>A statement that either fails and leaves the state, or yields the new state.\<close>

definition execute :: "('s \<Rightarrow> 'e + 's) \<Rightarrow> ('s, 'e, unit) op" where
  "execute w s = (case w s of Inl e \<Rightarrow> (Inl e, s) | Inr s' \<Rightarrow> (Inr (), s'))"

text \<open>A transaction: on an error every change made since \<open>begin()\<close> is rolled back.\<close>

definition transaction :: "('s, 'e, 'a) op \<Rightarrow> ('s, 'e, 'a) op" where
  "transaction m s = (case m s of (Inl e, s') \<Rightarrow> (Inl e, s) | (Inr x, s') \<Rightarrow> (Inr x, s'))"

lemma ret_apply [simp]: "ret x s = (Inr x, s)"
  and throw_apply [simp]: "throw e s = (Inl e, s)"
  and lift_result_apply [simp]: "lift_result r s = (r, s)"
  and query_apply [simp]: "query q s = (q s, s)"
  by (simp_all add: ret_def throw_def lift_result_def query_def)

lemma and_then_Inl: "m s = (Inl e, s') \<Longrightarrow> and_then m f s = (Inl e, s')"
  and and_then_Inr: "m s = (Inr x, s') \<Longrightarrow> and_then m f s = f x s'"
  by (simp_all add: and_then_def)

lemma and_then_simps [simp]:
  "and_then (ret x) f s = f x s"
  "and_then (throw e) f s = (Inl e, s)"
  "and_then (lift_result (Inl e)) f s = (Inl e, s)"
  "and_then (lift_result (Inr x)) f s = f x s"
  by (simp_all add: and_then_def)

lemma and_then_query:
  "and_then (query q) f s = (case q s of Inl e \<Rightarrow> (Inl e, s) | Inr x \<Rightarrow> f x s)"
  by (simp add: and_then_def split: sum.splits)

lemma and_then_execute:
  "and_then (execute w) f s = (case w s of Inl e \<Rightarrow> (Inl e, s) | Inr s' \<Rightarrow> f () s')"
  by (simp add: and_then_def execute_def split: sum.splits)

lemma and_then_lift_result:
  "and_then (lift_result r) f s = (case r of Inl e \<Rightarrow> (Inl e, s) | Inr x \<Rightarrow> f x s)"
  by (simp add: and_then_def)

lemmas op_simps = and_then_query and_then_execute and_then_lift_result

lemma and_then_Inr_iff:
  "and_then m f s = (Inr y, s'') \<longleftrightarrow> (\<exists>x s'. m s = (Inr x, s') \<and> f x s' = (Inr y, s''))"
  by (auto simp: and_then_def split: prod.splits sum.splits)

lemma transaction_Inr_iff [simp]: "transaction m s = (Inr x, s') \<longleftrightarrow> m s = (Inr x, s')"
  by (auto simp: transaction_def split: prod.splits sum.splits)

lemma transaction_Inl_iff: "transaction m s = (Inl e, s') \<longleftrightarrow> s' = s \<and> (\<exists>t. m s = (Inl e, t))"
  by (auto simp: transaction_def split: prod.splits sum.splits)

text \<open>\<open>iter().map(f).collect::<Result<Vec<_>, _>>()\<close>: the first error, or all the results.\<close>

fun collect_results :: "('e + 'a) list \<Rightarrow> 'e + 'a list" where
  "collect_results [] = Inr []"
| "collect_results (r # rs) =
     (case r of
        Inl e \<Rightarrow> Inl e
      | Inr x \<Rightarrow> (case collect_results rs of Inl e \<Rightarrow> Inl e | Inr xs \<Rightarrow> Inr (x # xs)))"

lemma collect_results_map_Inr [simp]: "collect_results (map (\<lambda>x. Inr (f x)) xs) = Inr (map f xs)"
  by (induction xs) simp_all

lemma collect_results_Inr_iff:
  "collect_results rs = Inr xs \<longleftrightarrow> rs = map Inr xs"
proof (induction rs arbitrary: xs)
  case Nil
  then show ?case by auto
next
  case (Cons r rs)
  then show ?case
    by (cases xs) (auto split: sum.splits)
qed

lemma collect_results_total:
  assumes "\<And>x. x \<in> set xs \<Longrightarrow> f x = Inr (g x)"
  shows "collect_results (map f xs) = Inr (map g xs)"
  using assms by (induction xs) auto

section \<open>Tables\<close>

definition select_where :: "('r \<Rightarrow> bool) \<Rightarrow> 'r list \<Rightarrow> 'r list" where
  "select_where P t = filter P t"

definition select_one :: "('r \<Rightarrow> bool) \<Rightarrow> 'r list \<Rightarrow> 'r option" where
  "select_one P t = find P t"

definition exists_where :: "('r \<Rightarrow> bool) \<Rightarrow> 'r list \<Rightarrow> bool" where
  "exists_where P t \<longleftrightarrow> list_ex P t"

definition count_where :: "('r \<Rightarrow> bool) \<Rightarrow> 'r list \<Rightarrow> nat" where
  "count_where P t = length (filter P t)"

definition update_where :: "('r \<Rightarrow> bool) \<Rightarrow> ('r \<Rightarrow> 'r) \<Rightarrow> 'r list \<Rightarrow> 'r list" where
  "update_where P f t = map (\<lambda>r. if P r then f r else r) t"

definition delete_where :: "('r \<Rightarrow> bool) \<Rightarrow> 'r list \<Rightarrow> 'r list" where
  "delete_where P t = filter (\<lambda>r. \<not> P r) t"

lemma exists_where_iff [table_simps]: "exists_where P t \<longleftrightarrow> (\<exists>r\<in>set t. P r)"
  by (simp add: exists_where_def list_ex_iff)

lemma set_select_where [table_simps]: "set (select_where P t) = {r \<in> set t. P r}"
  by (simp add: select_where_def)

lemma set_update_where [table_simps]:
  "set (update_where P f t) = (\<lambda>r. if P r then f r else r) ` set t"
  by (simp add: update_where_def)

lemma set_delete_where [table_simps]: "set (delete_where P t) = {r \<in> set t. \<not> P r}"
  by (simp add: delete_where_def)

lemma in_update_whereE:
  assumes "r \<in> set (update_where P f t)"
  obtains (hit) x where "x \<in> set t" "P x" "r = f x" | (miss) "r \<in> set t" "\<not> P r"
  using assms by (auto simp: update_where_def split: if_splits)

lemma select_one_None_iff [table_simps]: "select_one P t = None \<longleftrightarrow> (\<forall>r\<in>set t. \<not> P r)"
  by (auto simp: select_one_def find_None_iff)

lemma select_one_SomeD: "select_one P t = Some r \<Longrightarrow> r \<in> set t \<and> P r"
  by (auto simp: select_one_def find_Some_iff)

lemma select_one_Nil [simp]: "select_one P [] = None"
  by (simp add: select_one_def)

lemma select_one_Cons [simp]:
  "select_one P (x # xs) = (if P x then Some x else select_one P xs)"
  by (simp add: select_one_def)

lemma select_one_append:
  "select_one P (xs @ ys) = coalesce (select_one P xs) (select_one P ys)"
  by (induction xs) auto

lemma count_where_Nil [simp]: "count_where P [] = 0"
  by (simp add: count_where_def)

lemma count_where_Cons [simp]:
  "count_where P (x # xs) = (if P x then Suc (count_where P xs) else count_where P xs)"
  by (simp add: count_where_def)

lemma count_where_append [table_simps]:
  "count_where P (xs @ ys) = count_where P xs + count_where P ys"
  by (simp add: count_where_def)

lemma count_where_0_iff [table_simps]: "count_where P t = 0 \<longleftrightarrow> (\<forall>r\<in>set t. \<not> P r)"
  by (simp add: count_where_def filter_empty_conv)

lemma update_where_Nil [simp]: "update_where P f [] = []"
  by (simp add: update_where_def)

lemma update_where_Cons [simp]:
  "update_where P f (x # xs) = (if P x then f x else x) # update_where P f xs"
  by (simp add: update_where_def)

lemma update_where_append [table_simps]:
  "update_where P f (xs @ ys) = update_where P f xs @ update_where P f ys"
  by (simp add: update_where_def)

lemma length_update_where [simp]: "length (update_where P f t) = length t"
  by (simp add: update_where_def)

lemma update_where_none: "\<forall>r\<in>set t. \<not> P r \<Longrightarrow> update_where P f t = t"
  by (simp add: update_where_def map_idI)

lemma map_update_where:
  assumes "\<And>r. r \<in> set t \<Longrightarrow> P r \<Longrightarrow> g (f r) = g r"
  shows "map g (update_where P f t) = map g t"
  using assms by (simp add: update_where_def)

lemma count_where_update_same:
  assumes "\<And>r. r \<in> set t \<Longrightarrow> P r \<Longrightarrow> Q (f r) = Q r"
  shows "count_where Q (update_where P f t) = count_where Q t"
  using assms by (induction t) auto

text \<open>A lookup by a condition that the update does not touch.\<close>

lemma select_one_update_same:
  assumes "\<And>r. P r \<Longrightarrow> Q (f r) = Q r"
  shows "select_one Q (update_where P f t) =
    map_option (\<lambda>r. if P r then f r else r) (select_one Q t)"
  using assms by (induction t) auto

lemma select_one_update_hit:
  assumes "\<And>r. P r \<Longrightarrow> P (f r)"
  shows "select_one P (update_where P f t) = map_option f (select_one P t)"
  using assms by (induction t) auto

lemma exists_where_update_same:
  assumes "\<And>r. P r \<Longrightarrow> Q (f r) = Q r"
  shows "exists_where Q (update_where P f t) = exists_where Q t"
  using assms by (induction t) (auto simp: exists_where_def)

section \<open>Unique keys\<close>

text \<open>A primary key or a UNIQUE constraint: no two rows of the table share the key.\<close>

definition unique_on :: "('r \<Rightarrow> 'k) \<Rightarrow> 'r list \<Rightarrow> bool" where
  "unique_on k t \<longleftrightarrow> distinct (map k t)"

lemma unique_on_Nil [simp]: "unique_on k []"
  by (simp add: unique_on_def)

lemma unique_on_snoc:
  "unique_on k (t @ [r]) \<longleftrightarrow> unique_on k t \<and> (\<forall>x\<in>set t. k x \<noteq> k r)"
  unfolding unique_on_def by (auto simp: image_iff)

lemma unique_on_eq: "unique_on k t \<Longrightarrow> r \<in> set t \<Longrightarrow> s \<in> set t \<Longrightarrow> k r = k s \<Longrightarrow> r = s"
  by (auto simp: unique_on_def distinct_map inj_on_def)

lemma unique_on_update_where:
  assumes "\<And>r. r \<in> set t \<Longrightarrow> P r \<Longrightarrow> k (f r) = k r"
  shows "unique_on k (update_where P f t) \<longleftrightarrow> unique_on k t"
proof -
  have "map k (update_where P f t) = map k t"
    by (rule map_update_where) (rule assms)
  then show ?thesis by (simp add: unique_on_def)
qed

lemma unique_on_delete_where: "unique_on k t \<Longrightarrow> unique_on k (delete_where P t)"
  by (simp add: unique_on_def delete_where_def distinct_map_filter)

lemma select_one_unique:
  assumes "unique_on k t" "r \<in> set t" "\<And>s. s \<in> set t \<Longrightarrow> P s \<longleftrightarrow> k s = k r"
  shows "select_one P t = Some r"
proof (cases "select_one P t")
  case None
  with assms show ?thesis by (auto simp: select_one_None_iff)
next
  case (Some s)
  with assms have "s \<in> set t" "k s = k r" by (auto dest: select_one_SomeD)
  with assms(1,2) Some show ?thesis by (auto dest: unique_on_eq)
qed

lemma count_where_unique_le_1:
  assumes "unique_on k t" "\<And>r s. r \<in> set t \<Longrightarrow> s \<in> set t \<Longrightarrow> P r \<Longrightarrow> P s \<Longrightarrow> k r = k s"
  shows "count_where P t \<le> 1"
proof (rule ccontr)
  assume "\<not> count_where P t \<le> 1"
  then obtain x y zs where f: "filter P t = x # y # zs"
    unfolding count_where_def by (cases "filter P t" rule: remdups_adj.cases) auto
  have "distinct (map k (filter P t))"
    using assms(1) by (simp add: unique_on_def distinct_map_filter)
  then have "k x \<noteq> k y" by (simp add: f)
  moreover have "x \<in> set (filter P t)" "y \<in> set (filter P t)" by (simp_all add: f)
  ultimately show False using assms(2) [of x y] by simp
qed

lemma count_where_1I:
  assumes "unique_on k t" "r \<in> set t" "P r"
    and "\<And>s. s \<in> set t \<Longrightarrow> P s \<Longrightarrow> k s = k r"
  shows "count_where P t = 1"
proof -
  have "k s = k s'" if "s \<in> set t" "s' \<in> set t" "P s" "P s'" for s s'
    using that assms(4) by metis
  then have "count_where P t \<le> 1"
    by (rule count_where_unique_le_1 [OF assms(1)])
  moreover have "count_where P t \<noteq> 0"
    using assms(2,3) by (auto simp: count_where_0_iff)
  ultimately show ?thesis by simp
qed

text \<open>Changing the one row with a given key changes a count by that row only.\<close>

lemma count_where_update_key:
  assumes "unique_on k t" "p \<in> set t" "\<And>x. x \<in> set t \<Longrightarrow> Q x \<longleftrightarrow> k x = k p"
  shows "count_where P (update_where Q f t) + of_bool (P p) = count_where P t + of_bool (P (f p))"
  using assms
proof (induction t)
  case (Cons x t)
  have u: "unique_on k t" and x: "\<forall>y\<in>set t. k y \<noteq> k x"
    using Cons.prems(1) by (auto simp: unique_on_def image_iff)
  show ?case
  proof (cases "x = p")
    case True
    then have "\<forall>y\<in>set t. \<not> Q y" using Cons.prems(3) x by auto
    then have "update_where Q f t = t" by (rule update_where_none)
    then show ?thesis using True Cons.prems(3) [of x] by auto
  next
    case False
    then have "p \<in> set t" using Cons.prems(2) by simp
    moreover have "\<not> Q x" using x Cons.prems(3) [of x] \<open>p \<in> set t\<close> by auto
    ultimately show ?thesis using Cons.IH [OF u] Cons.prems(3) by auto
  qed
qed simp

end
