(* ===== verification/Text.thy ===== *)
theory Text
  imports Prelude
begin

text \<open>
  Operations of \<open>str\<close>/\<open>String\<close> that the code uses. A string is the list of its UTF-8 bytes, so
  \<open>len()\<close> is \<open>length\<close>. \<open>trim\<close> removes every character with the Unicode property White_Space
  at both ends; \<open>white_space\<close> lists the encodings of these characters.
\<close>

definition white_space :: "string list" where
  "white_space =
     [[CHR 0x09], [CHR 0x0A], [CHR 0x0B], [CHR 0x0C], [CHR 0x0D], [CHR 0x20],
      [CHR 0xC2, CHR 0x85], [CHR 0xC2, CHR 0xA0], [CHR 0xE1, CHR 0x9A, CHR 0x80],
      [CHR 0xE2, CHR 0x80, CHR 0x80], [CHR 0xE2, CHR 0x80, CHR 0x81], [CHR 0xE2, CHR 0x80, CHR 0x82],
      [CHR 0xE2, CHR 0x80, CHR 0x83], [CHR 0xE2, CHR 0x80, CHR 0x84], [CHR 0xE2, CHR 0x80, CHR 0x85],
      [CHR 0xE2, CHR 0x80, CHR 0x86], [CHR 0xE2, CHR 0x80, CHR 0x87], [CHR 0xE2, CHR 0x80, CHR 0x88],
      [CHR 0xE2, CHR 0x80, CHR 0x89], [CHR 0xE2, CHR 0x80, CHR 0x8A], [CHR 0xE2, CHR 0x80, CHR 0xA8],
      [CHR 0xE2, CHR 0x80, CHR 0xA9], [CHR 0xE2, CHR 0x80, CHR 0xAF], [CHR 0xE2, CHR 0x81, CHR 0x9F],
      [CHR 0xE3, CHR 0x80, CHR 0x80]]"

definition starts_with :: "string \<Rightarrow> string \<Rightarrow> bool" where
  "starts_with w s \<longleftrightarrow> take (length w) s = w"

text \<open>Removes the words \<open>ws\<close> from the front of a string as long as one matches.\<close>

function strip_front :: "string list \<Rightarrow> string \<Rightarrow> string" where
  "strip_front ws s =
     (case find (\<lambda>w. w \<noteq> [] \<and> starts_with w s) ws of
        None \<Rightarrow> s
      | Some w \<Rightarrow> strip_front ws (drop (length w) s))"
  by pat_completeness auto

termination strip_front
proof (relation "measure (\<lambda>(ws, s). length s)")
  fix ws s w
  assume "find (\<lambda>w. w \<noteq> [] \<and> starts_with w s) ws = Some w"
  then have "w \<noteq> []" "take (length w) s = w"
    by (auto simp: find_Some_iff starts_with_def)
  then have "s \<noteq> []" "0 < length w" by auto
  then have "length (drop (length w) s) < length s" by simp
  then show "((ws, drop (length w) s), ws, s) \<in> measure (\<lambda>(ws, s). length s)" by simp
qed simp

declare strip_front.simps [simp del]

definition trim :: "string \<Rightarrow> string" where
  "trim s = rev (strip_front (map rev white_space) (rev (strip_front white_space s)))"

lemma strip_front_stops:
  assumes "w \<in> set ws" "w \<noteq> []"
  shows "\<not> starts_with w (strip_front ws s)"
  using assms
proof (induction ws s rule: strip_front.induct)
  case (1 ws s)
  show ?case
  proof (cases "find (\<lambda>w. w \<noteq> [] \<and> starts_with w s) ws")
    case None
    then have "strip_front ws s = s" by (subst strip_front.simps) simp
    then show ?thesis using 1(2,3) None by (auto simp: find_None_iff)
  next
    case (Some v)
    then show ?thesis using 1 by (subst strip_front.simps) simp
  qed
qed

lemma strip_front_suffix: "\<exists>p. s = p @ strip_front ws s"
proof (induction ws s rule: strip_front.induct)
  case (1 ws s)
  show ?case
  proof (cases "find (\<lambda>w. w \<noteq> [] \<and> starts_with w s) ws")
    case None
    then show ?thesis by (subst strip_front.simps) simp
  next
    case (Some v)
    from 1 [OF Some] obtain p where "drop (length v) s = p @ strip_front ws (drop (length v) s)" ..
    moreover have "strip_front ws s = strip_front ws (drop (length v) s)"
      by (subst strip_front.simps) (simp add: Some)
    ultimately have "s = (take (length v) s @ p) @ strip_front ws s"
      by (metis append.assoc append_take_drop_id)
    then show ?thesis by blast
  qed
qed

text \<open>Trimming cuts at both ends only, and leaves no white space at the end.\<close>

lemma trim_infix: "\<exists>p q. s = p @ trim s @ q"
proof -
  obtain p where p: "s = p @ strip_front white_space s" using strip_front_suffix by blast
  obtain q where "rev (strip_front white_space s) = q @ strip_front (map rev white_space) (rev (strip_front white_space s))"
    using strip_front_suffix by blast
  then have "strip_front white_space s = trim s @ rev q"
    by (metis rev_append rev_rev_ident trim_def)
  with p show ?thesis by metis
qed

lemma trim_no_trailing:
  assumes "w \<in> set white_space"
  shows "\<not> starts_with (rev w) (rev (trim s))"
proof -
  have "w \<noteq> []" using assms by (auto simp: white_space_def)
  then show ?thesis
    unfolding trim_def rev_rev_ident using assms by (intro strip_front_stops) auto
qed

definition is_ascii_digit :: "char \<Rightarrow> bool" where
  "is_ascii_digit c \<longleftrightarrow> of_char c \<ge> (48 :: nat) \<and> of_char c \<le> (57 :: nat)"

text \<open>\<open>to_lowercase\<close> and \<open>to_uppercase\<close> on the ASCII letters; the code applies them to ASCII text.\<close>

definition ascii_lower :: "char \<Rightarrow> char" where
  "ascii_lower c = (if of_char c \<ge> (65 :: nat) \<and> of_char c \<le> (90 :: nat) then char_of (of_char c + 32 :: nat) else c)"

definition to_lowercase :: "string \<Rightarrow> string" where
  "to_lowercase s = map ascii_lower s"

lemma length_to_lowercase [simp]: "length (to_lowercase s) = length s"
  by (simp add: to_lowercase_def)

text \<open>Decimal text of a number, as \<open>to_string\<close> and \<open>format!\<close> write it.\<close>

definition digit_char :: "nat \<Rightarrow> char" where
  "digit_char n = char_of (48 + n mod 10)"

fun nat_to_string :: "nat \<Rightarrow> string" where
  "nat_to_string n = (if n < 10 then [digit_char n] else nat_to_string (n div 10) @ [digit_char n])"

declare nat_to_string.simps [simp del]

definition int_to_string :: "int \<Rightarrow> string" where
  "int_to_string n = (if n < 0 then CHR ''-'' # nat_to_string (nat (- n)) else nat_to_string (nat n))"

text \<open>\<open>format!("{:06}", n)\<close>: at least \<open>w\<close> digits.\<close>

definition pad_zeros :: "nat \<Rightarrow> string \<Rightarrow> string" where
  "pad_zeros w s = replicate (w - length s) (CHR ''0'') @ s"

lemma is_ascii_digit_digit_char [simp]: "is_ascii_digit (digit_char n)"
proof -
  have "48 + n mod 10 < 256" by simp
  then show ?thesis
    by (simp add: is_ascii_digit_def digit_char_def of_char_of)
qed

lemma nat_to_string_digits: "list_all is_ascii_digit (nat_to_string n)"
proof (induction n rule: nat_to_string.induct)
  case (1 n)
  then show ?case by (subst nat_to_string.simps) simp
qed

lemma length_nat_to_string_le:
  "n < 10 ^ w \<Longrightarrow> 0 < w \<Longrightarrow> length (nat_to_string n) \<le> w"
proof (induction w arbitrary: n)
  case (Suc w)
  show ?case
  proof (cases "n < 10")
    case True
    then show ?thesis by (subst nat_to_string.simps) simp
  next
    case False
    then have "w \<noteq> 0" using Suc.prems(1) by (cases w) auto
    moreover have "n div 10 < 10 ^ w" using Suc.prems(1) by (simp add: less_mult_imp_div_less mult.commute)
    ultimately have "length (nat_to_string (n div 10)) \<le> w" using Suc.IH by simp
    then show ?thesis using False by (subst nat_to_string.simps) simp
  qed
qed simp

section \<open>Characters\<close>

text \<open>
  \<open>chars()\<close>: a string cut into the encodings of its characters. Every byte of a character but its
  first has the form 10xxxxxx.
\<close>

definition is_continuation :: "char \<Rightarrow> bool" where
  "is_continuation c \<longleftrightarrow> of_char c \<ge> (128 :: nat) \<and> of_char c < (192 :: nat)"

function chars :: "string \<Rightarrow> string list" where
  "chars [] = []"
| "chars (c # cs) = (c # takeWhile is_continuation cs) # chars (dropWhile is_continuation cs)"
  by pat_completeness auto

termination chars
  by (relation "measure length") (simp_all add: le_imp_less_Suc length_dropWhile_le)

lemma concat_chars [simp]: "concat (chars s) = s"
  by (induction s rule: chars.induct) simp_all

definition is_ascii :: "string \<Rightarrow> bool" where
  "is_ascii s \<longleftrightarrow> list_all (\<lambda>c. of_char c < (128 :: nat)) s"

lemma chars_ascii: "is_ascii s \<Longrightarrow> chars s = map (\<lambda>c. [c]) s"
proof (induction s)
  case (Cons c s)
  then have "chars s = map (\<lambda>c. [c]) s" by (simp add: is_ascii_def)
  moreover have "takeWhile is_continuation s = [] \<and> dropWhile is_continuation s = s"
    using Cons.prems by (cases s) (auto simp: is_ascii_def is_continuation_def)
  ultimately show ?case by simp
qed simp

text \<open>\<open>char::is_alphanumeric\<close>: on ASCII the letters and digits; \<open>uni\<close> is the Unicode table beyond it.\<close>

definition is_ascii_alphanumeric :: "char \<Rightarrow> bool" where
  "is_ascii_alphanumeric c \<longleftrightarrow>
     is_ascii_digit c \<or> of_char c \<ge> (65 :: nat) \<and> of_char c \<le> (90 :: nat) \<or>
     of_char c \<ge> (97 :: nat) \<and> of_char c \<le> (122 :: nat)"

definition is_alphanumeric :: "(string \<Rightarrow> bool) \<Rightarrow> string \<Rightarrow> bool" where
  "is_alphanumeric uni ch = (case ch of [c] \<Rightarrow> is_ascii_alphanumeric c | _ \<Rightarrow> uni ch)"

end
