(* ===== verification/Errors.thy ===== *)
theory Errors
  imports Prelude
begin

text \<open>
  The error types of the workspace: \<open>DomainError\<close> of \<open>crates/shared/src/error.rs\<close>, the service
  errors of \<open>crates/api/src/services/error.rs\<close>, the translation of database errors, and the HTTP
  status each error is answered with (\<open>crates/api/src/error.rs\<close>).

  A database error carries the SQLSTATE code of the failed statement. The codes that the
  migrations can raise are named below; a failed cast of a text to an ENUM is \<open>22P02\<close>.
\<close>

section \<open>Domain errors\<close>

datatype domain_error =
    Validation string
  | NotFound string
  | AlreadyExists string
  | Internal string
  | Unauthorized string
  | BadRequest string
  | Conflict string

type_synonym 'a dres = "domain_error + 'a"

text \<open>The \<open>Display\<close> of \<open>thiserror\<close>: the \<open>#[error(..)]\<close> format of each variant.\<close>

fun error_to_string :: "domain_error \<Rightarrow> string" where
  "error_to_string (Validation m) = ''Validation error: '' @ m"
| "error_to_string (NotFound m) = ''Not found: '' @ m"
| "error_to_string (AlreadyExists m) = ''Already exists: '' @ m"
| "error_to_string (Internal m) = ''Internal error: '' @ m"
| "error_to_string (Unauthorized m) = ''Unauthorized: '' @ m"
| "error_to_string (BadRequest m) = ''Bad request: '' @ m"
| "error_to_string (Conflict m) = ''Conflict: '' @ m"

section \<open>Database errors\<close>

datatype sqlx_error =
    RowNotFound
  | Database "string option"
  | PoolTimedOut
  | OtherSqlx

fun from_sqlx :: "sqlx_error \<Rightarrow> domain_error" where
  "from_sqlx RowNotFound = NotFound ''Resource not found''"
| "from_sqlx (Database code) =
     (if code = Some ''23505'' then AlreadyExists ''Resource already exists''
      else if code = Some ''23503'' then Validation ''Referenced resource not found''
      else if code = Some ''23514'' then Validation ''Validation constraint failed''
      else Internal ''Database operation failed'')"
| "from_sqlx PoolTimedOut = Internal ''Service temporarily unavailable''"
| "from_sqlx OtherSqlx = Internal ''An unexpected error occurred''"

datatype boxed_error = BoxedSqlx sqlx_error | BoxedOther

fun from_boxed_err :: "boxed_error \<Rightarrow> domain_error" where
  "from_boxed_err (BoxedSqlx e) = from_sqlx e"
| "from_boxed_err BoxedOther = Internal ''An unexpected error occurred''"

abbreviation unique_violation :: sqlx_error where
  "unique_violation \<equiv> Database (Some ''23505'')"

abbreviation foreign_key_violation :: sqlx_error where
  "foreign_key_violation \<equiv> Database (Some ''23503'')"

abbreviation check_violation :: sqlx_error where
  "check_violation \<equiv> Database (Some ''23514'')"

abbreviation invalid_enum :: sqlx_error where
  "invalid_enum \<equiv> Database (Some ''22P02'')"

abbreviation invalid_parameter :: sqlx_error where
  "invalid_parameter \<equiv> Database (Some ''22023'')"

text \<open>\<open>map_err(DomainError::from_sqlx)\<close>\<close>

definition map_sqlx :: "sqlx_error + 'a \<Rightarrow> 'a dres" where
  "map_sqlx r = (case r of Inl e \<Rightarrow> Inl (from_sqlx e) | Inr x \<Rightarrow> Inr x)"

lemma map_sqlx_simps [simp]:
  "map_sqlx (Inl e) = Inl (from_sqlx e)"
  "map_sqlx (Inr x) = Inr x"
  by (simp_all add: map_sqlx_def)

lemma map_sqlx_Inr_iff [simp]: "map_sqlx r = Inr x \<longleftrightarrow> r = Inr x"
  by (cases r) simp_all

text \<open>\<open>fetch_one\<close> of a statement that returned the optional row \<open>r\<close>.\<close>

definition fetch_one :: "'a option \<Rightarrow> sqlx_error + 'a" where
  "fetch_one r = (case r of None \<Rightarrow> Inl RowNotFound | Some x \<Rightarrow> Inr x)"

lemma fetch_one_simps [simp]:
  "fetch_one None = Inl RowNotFound"
  "fetch_one (Some x) = Inr x"
  by (simp_all add: fetch_one_def)

text \<open>\<open>ok_or_else(|| e)\<close>\<close>

definition ok_or :: "'a option \<Rightarrow> 'e \<Rightarrow> 'e + 'a" where
  "ok_or r e = (case r of None \<Rightarrow> Inl e | Some x \<Rightarrow> Inr x)"

lemma ok_or_simps [simp]:
  "ok_or None e = Inl e"
  "ok_or (Some x) e = Inr x"
  by (simp_all add: ok_or_def)

section \<open>Service errors\<close>

datatype service_error =
    SInternal string
  | SUnauthorized string
  | SNotFound string
  | SAlreadyExists string
  | SValidation string

fun service_error_to_string :: "service_error \<Rightarrow> string" where
  "service_error_to_string (SInternal m) = ''Internal error: '' @ m"
| "service_error_to_string (SUnauthorized m) = ''Unauthorized: '' @ m"
| "service_error_to_string (SNotFound m) = ''Not found: '' @ m"
| "service_error_to_string (SAlreadyExists m) = ''Already exists: '' @ m"
| "service_error_to_string (SValidation m) = ''Validation error: '' @ m"

fun domain_of_service :: "service_error \<Rightarrow> domain_error" where
  "domain_of_service (SInternal m) = Internal m"
| "domain_of_service (SUnauthorized m) = Unauthorized m"
| "domain_of_service (SNotFound m) = NotFound m"
| "domain_of_service (SAlreadyExists m) = AlreadyExists m"
| "domain_of_service (SValidation m) = Validation m"

section \<open>HTTP answers\<close>

text \<open>\<open>ApiError::into_response\<close>: the status code and the message of the JSON body.\<close>

fun into_response :: "domain_error \<Rightarrow> nat \<times> string" where
  "into_response (Validation m) = (400, m)"
| "into_response (NotFound m) = (404, m)"
| "into_response (AlreadyExists m) = (409, m)"
| "into_response (Unauthorized m) = (401, m)"
| "into_response (Internal m) = (500, m)"
| "into_response (BadRequest m) = (400, m)"
| "into_response (Conflict m) = (409, m)"

lemma service_error_text_kept:
  "error_to_string (domain_of_service e) = service_error_to_string e"
  by (cases e) simp_all

lemma into_response_is_error:
  "fst (into_response e) \<in> {400, 401, 404, 409, 500}"
  by (cases e) simp_all

text \<open>
  Only the codes of a uniqueness, foreign key or check violation and a missing row are answered
  as client errors; every other database failure is a 500 whose message is one of three fixed
  texts, so no detail of the database reaches the client.
\<close>

lemma from_sqlx_status_500_iff:
  "fst (into_response (from_sqlx e)) = 500 \<longleftrightarrow>
     e \<noteq> RowNotFound \<and> e \<noteq> unique_violation \<and> e \<noteq> foreign_key_violation \<and> e \<noteq> check_violation"
  by (cases e) auto

end
