(* ===== verification/Redis.thy ===== *)
theory Redis
  imports Text Errors
begin

text \<open>
  The part of Redis that the code uses. A database maps a key to a value with an optional time of
  expiry; an expired entry is as if it were not there. A value is a string, a counter (a string that
  \<open>INCR\<close> made), a sorted set or a set. The commands have their documented behaviour; a command on a value of
  another kind fails. A Lua script runs atomically, so it is one function. Times are in microseconds.
\<close>

datatype redis_value =
    RStr string
  | RInt int
  | RZset "(int \<times> string) list"
  | RSet "string list"

record redis_entry =
  re_value :: redis_value
  re_expires :: "timestamp option"

type_synonym redis = "string \<Rightarrow> redis_entry option"

datatype redis_error = WrongType | NotAnInteger | TypeError string | IoError string

type_synonym 'a rop = "(redis, redis_error, 'a) op"

definition empty_redis :: redis where
  "empty_redis = (\<lambda>_. None)"

section \<open>Commands\<close>

definition lookup :: "timestamp \<Rightarrow> string \<Rightarrow> redis \<Rightarrow> redis_entry option" where
  "lookup now k r =
     (case r k of
        None \<Rightarrow> None
      | Some e \<Rightarrow> (case re_expires e of None \<Rightarrow> Some e | Some t \<Rightarrow> if now < t then Some e else None))"

definition redis_get :: "timestamp \<Rightarrow> string \<Rightarrow> string option rop" where
  "redis_get now k r =
     (case lookup now k r of
        None \<Rightarrow> (Inr None, r)
      | Some e \<Rightarrow>
          (case re_value e of
             RStr s \<Rightarrow> (Inr (Some s), r)
           | RInt n \<Rightarrow> (Inr (Some (int_to_string n)), r)
           | _ \<Rightarrow> (Inl WrongType, r)))"

definition redis_set_ex :: "timestamp \<Rightarrow> string \<Rightarrow> string \<Rightarrow> int \<Rightarrow> redis \<Rightarrow> redis" where
  "redis_set_ex now k v ttl r =
     r(k \<mapsto> \<lparr>re_value = RStr v, re_expires = Some (now + seconds ttl)\<rparr>)"

definition redis_del :: "string \<Rightarrow> redis \<Rightarrow> redis" where
  "redis_del k r = r(k := None)"

definition redis_exists :: "timestamp \<Rightarrow> string \<Rightarrow> redis \<Rightarrow> bool" where
  "redis_exists now k r \<longleftrightarrow> lookup now k r \<noteq> None"

definition redis_incr :: "timestamp \<Rightarrow> string \<Rightarrow> int rop" where
  "redis_incr now k r =
     (case lookup now k r of
        None \<Rightarrow> (Inr 1, r(k \<mapsto> \<lparr>re_value = RInt 1, re_expires = None\<rparr>))
      | Some e \<Rightarrow>
          (case re_value e of
             RInt n \<Rightarrow> (Inr (n + 1), r(k \<mapsto> e\<lparr>re_value := RInt (n + 1)\<rparr>))
           | RStr _ \<Rightarrow> (Inl NotAnInteger, r)
           | _ \<Rightarrow> (Inl WrongType, r)))"

definition redis_expire :: "timestamp \<Rightarrow> string \<Rightarrow> int \<Rightarrow> redis \<Rightarrow> redis" where
  "redis_expire now k secs r =
     (case lookup now k r of
        None \<Rightarrow> r
      | Some e \<Rightarrow> r(k \<mapsto> e\<lparr>re_expires := Some (now + seconds secs)\<rparr>))"

text \<open>\<open>TTL\<close>: the remaining seconds, rounded; -1 without an expiry, -2 without the key.\<close>

definition redis_ttl :: "timestamp \<Rightarrow> string \<Rightarrow> redis \<Rightarrow> int" where
  "redis_ttl now k r =
     (case lookup now k r of
        None \<Rightarrow> -2
      | Some e \<Rightarrow> (case re_expires e of None \<Rightarrow> -1 | Some t \<Rightarrow> (t - now + 500000) div 1000000))"

text \<open>A sorted set as the list of its scores and members; a missing key is the empty set.\<close>

definition zset_at :: "timestamp \<Rightarrow> string \<Rightarrow> redis \<Rightarrow> redis_error + (int \<times> string) list" where
  "zset_at now k r =
     (case lookup now k r of
        None \<Rightarrow> Inr []
      | Some e \<Rightarrow> (case re_value e of RZset z \<Rightarrow> Inr z | _ \<Rightarrow> Inl WrongType))"

definition put_zset :: "timestamp \<Rightarrow> string \<Rightarrow> (int \<times> string) list \<Rightarrow> redis \<Rightarrow> redis" where
  "put_zset now k z r =
     (if z = [] then r(k := None)
      else r(k \<mapsto> \<lparr>re_value = RZset z,
                     re_expires = Option.bind (lookup now k r) re_expires\<rparr>))"

text \<open>A set as the list of its members; it has no member twice.\<close>

definition set_at :: "timestamp \<Rightarrow> string \<Rightarrow> redis \<Rightarrow> redis_error + string list" where
  "set_at now k r =
     (case lookup now k r of
        None \<Rightarrow> Inr []
      | Some e \<Rightarrow> (case re_value e of RSet m \<Rightarrow> Inr m | _ \<Rightarrow> Inl WrongType))"

definition put_set :: "timestamp \<Rightarrow> string \<Rightarrow> string list \<Rightarrow> redis \<Rightarrow> redis" where
  "put_set now k m r =
     (if m = [] then r(k := None)
      else r(k \<mapsto> \<lparr>re_value = RSet m, re_expires = Option.bind (lookup now k r) re_expires\<rparr>))"

definition redis_sadd :: "timestamp \<Rightarrow> string \<Rightarrow> string \<Rightarrow> unit rop" where
  "redis_sadd now k v r =
     (case set_at now k r of Inl e \<Rightarrow> (Inl e, r) | Inr m \<Rightarrow> (Inr (), put_set now k (List.insert v m) r))"

definition redis_srem :: "timestamp \<Rightarrow> string \<Rightarrow> string \<Rightarrow> unit rop" where
  "redis_srem now k v r =
     (case set_at now k r of Inl e \<Rightarrow> (Inl e, r) | Inr m \<Rightarrow> (Inr (), put_set now k (removeAll v m) r))"

definition redis_smismember :: "timestamp \<Rightarrow> string \<Rightarrow> string list \<Rightarrow> bool list rop" where
  "redis_smismember now k vs r =
     (case set_at now k r of Inl e \<Rightarrow> (Inl e, r) | Inr m \<Rightarrow> (Inr (map (\<lambda>v. v \<in> set m) vs), r))"

section \<open>Laws\<close>

lemma lookup_set_ex [simp]:
  "lookup t k (redis_set_ex now k' v ttl r) =
     (if k = k' then (if t < now + seconds ttl
        then Some \<lparr>re_value = RStr v, re_expires = Some (now + seconds ttl)\<rparr> else None)
      else lookup t k r)"
  by (simp add: lookup_def redis_set_ex_def)

lemma lookup_del [simp]: "lookup t k (redis_del k' r) = (if k = k' then None else lookup t k r)"
  by (simp add: lookup_def redis_del_def)

lemma redis_get_snd [simp]: "snd (redis_get now k r) = r"
  by (simp add: redis_get_def split: option.split redis_value.split)

lemma redis_get_None: "lookup now k r = None \<Longrightarrow> redis_get now k r = (Inr None, r)"
  by (simp add: redis_get_def)

lemma redis_get_set_ex:
  "now' < now + seconds ttl \<Longrightarrow>
     redis_get now' k (redis_set_ex now k v ttl r) = (Inr (Some v), redis_set_ex now k v ttl r)"
  by (simp add: redis_get_def)

text \<open>An entry that is not there at a time is not there later.\<close>

lemma lookup_later: "lookup now k r = None \<Longrightarrow> now \<le> t \<Longrightarrow> lookup t k r = None"
  by (auto simp: lookup_def split: option.splits if_splits)

lemma lookup_stays:
  "lookup t k r = Some e \<Longrightarrow> now \<le> t \<Longrightarrow> lookup now k r = Some e"
  by (auto simp: lookup_def split: option.splits if_splits)

end
