(* ===== verification/OneTime.thy ===== *)
theory OneTime
  imports Redis
begin

text \<open>
  The contract of a value that may be used once: a one-time code or a refresh token.
  \<open>use\<close> is an attempt to use it with some \<open>allowed\<close> input at some time, \<open>good\<close> says that the attempt was
  accepted, \<open>present\<close> that the value is still stored. The locale's lemmas hold for every sequence of
  attempts in the order of time.
\<close>

fun takes :: "(timestamp \<Rightarrow> 'a \<Rightarrow> 's \<Rightarrow> 'r \<times> 's) \<Rightarrow> (timestamp \<times> 'a) list \<Rightarrow> 's \<Rightarrow> 'r list \<times> 's" where
  "takes use [] s = ([], s)"
| "takes use ((t, a) # as) s =
     (let (r, s') = use t a s; (rs, s'') = takes use as s' in (r # rs, s''))"

lemma takes_Cons:
  "use t a s = (r, s') \<Longrightarrow>
     takes use ((t, a) # as) s = (r # fst (takes use as s'), snd (takes use as s'))"
  by (simp add: Let_def split: prod.split)

declare takes.simps(2) [simp del]

locale one_time =
  fixes allowed :: "'a \<Rightarrow> bool"
    and use :: "timestamp \<Rightarrow> 'a \<Rightarrow> 's \<Rightarrow> 'r \<times> 's"
    and present :: "timestamp \<Rightarrow> 's \<Rightarrow> bool"
    and good :: "'r \<Rightarrow> bool"
  assumes good_use: "allowed a \<Longrightarrow> use t a s = (r, s') \<Longrightarrow> good r \<Longrightarrow> present t s \<and> \<not> present t s'"
    and absent_use: "allowed a \<Longrightarrow> use t a s = (r, s') \<Longrightarrow> \<not> present t s \<Longrightarrow> \<not> present t s'"
    and absent_later: "\<not> present t s \<Longrightarrow> t \<le> t' \<Longrightarrow> \<not> present t' s"
begin

lemma absent_none:
  assumes "\<not> present t s" "sorted (t # map fst as)" "\<forall>x\<in>set as. allowed (snd x)"
  shows "filter good (fst (takes use as s)) = []"
  using assms
proof (induction as arbitrary: t s)
  case (Cons x as)
  obtain t' a where x: "x = (t', a)" by fastforce
  obtain r s' where r: "use t' a s = (r, s')" by fastforce
  have al: "allowed a" using Cons.prems by (simp add: x)
  have p: "\<not> present t' s" using Cons.prems absent_later by (auto simp: x)
  have p': "\<not> present t' s'" using absent_use [OF al r p] .
  have "\<not> good r" using good_use [OF al r] p by blast
  moreover have "filter good (fst (takes use as s')) = []"
    using Cons.IH [OF p'] Cons.prems(2,3) by (simp add: x)
  ultimately show ?case by (simp add: x takes_Cons [where use = use, OF r])
qed simp

lemma at_most_once:
  assumes "sorted (map fst as)" "\<forall>x\<in>set as. allowed (snd x)"
  shows "length (filter good (fst (takes use as s))) \<le> 1"
  using assms
proof (induction as arbitrary: s)
  case (Cons x as)
  obtain t a where x: "x = (t, a)" by fastforce
  obtain r s' where r: "use t a s = (r, s')" by fastforce
  have al: "allowed a" using Cons.prems by (simp add: x)
  show ?case
  proof (cases "good r")
    case True
    then have "\<not> present t s'" using good_use [OF al r] by blast
    then have "filter good (fst (takes use as s')) = []"
      using absent_none [of t s' as] Cons.prems by (simp add: x)
    then show ?thesis using True by (simp add: x takes_Cons [where use = use, OF r])
  next
    case False
    then show ?thesis using Cons.IH [of s'] Cons.prems by (simp add: x takes_Cons [where use = use, OF r])
  qed
qed simp

end

end
