(* ===== verification/Otp.thy ===== *)
theory Otp
  imports OneTime
begin

text \<open>
  One-time codes: \<open>crates/api/src/services/otp.rs\<close>. A code is stored under a key for \<open>otp_ttl\<close>
  seconds; the verification is a Lua script that compares, counts the failures in a second key and
  removes both after a match or the last allowed failure. The script is atomic; a failing
  \<open>redis.call\<close> aborts it.
\<close>

datatype otp_verify_result =
    Matched
  | Invalid u64
  | Exceeded
  | OtpNotFound

text \<open>\<open>generate\<close>: \<open>rand\<close> is the random \<open>u32\<close>.\<close>

definition otp_generate :: "32 word \<Rightarrow> string" where
  "otp_generate rand = pad_zeros 6 (nat_to_string (unat (rand mod 1000000)))"

section \<open>Keys and storage\<close>

definition register_key :: "string \<Rightarrow> string" where
  "register_key phone = ''otp:register:'' @ phone"

definition login_key :: "string \<Rightarrow> string" where
  "login_key phone = ''otp:login:'' @ phone"

definition recover_key :: "string \<Rightarrow> string" where
  "recover_key phone = ''otp:recover:'' @ phone"

definition two_fa_setup_key :: "string \<Rightarrow> string" where
  "two_fa_setup_key user = ''otp:2fa:setup:'' @ user"

definition two_fa_login_key :: "string \<Rightarrow> string" where
  "two_fa_login_key user = ''otp:2fa:login:'' @ user"

definition store_otp :: "int \<Rightarrow> timestamp \<Rightarrow> string \<Rightarrow> string \<Rightarrow> unit rop" where
  "store_otp otp_ttl now key code r = (Inr (), redis_set_ex now key code otp_ttl r)"

definition store_register_otp :: "int \<Rightarrow> timestamp \<Rightarrow> string \<Rightarrow> string \<Rightarrow> unit rop" where
  "store_register_otp ttl now phone code = store_otp ttl now (register_key phone) code"

definition store_login_otp :: "int \<Rightarrow> timestamp \<Rightarrow> string \<Rightarrow> string \<Rightarrow> unit rop" where
  "store_login_otp ttl now phone code = store_otp ttl now (login_key phone) code"

definition store_recover_otp :: "int \<Rightarrow> timestamp \<Rightarrow> string \<Rightarrow> string \<Rightarrow> unit rop" where
  "store_recover_otp ttl now phone code = store_otp ttl now (recover_key phone) code"

definition store_two_fa_setup_otp :: "int \<Rightarrow> timestamp \<Rightarrow> string \<Rightarrow> string \<Rightarrow> unit rop" where
  "store_two_fa_setup_otp ttl now user code = store_otp ttl now (two_fa_setup_key user) code"

definition store_two_fa_login_otp :: "int \<Rightarrow> timestamp \<Rightarrow> string \<Rightarrow> string \<Rightarrow> unit rop" where
  "store_two_fa_login_otp ttl now user code = store_otp ttl now (two_fa_login_key user) code"

section \<open>Verification\<close>

definition attempts_key :: "string \<Rightarrow> string" where
  "attempts_key k = k @ '':attempts''"

text \<open>The script: the two numbers it returns.\<close>

definition verify_script :: "timestamp \<Rightarrow> string \<Rightarrow> string \<Rightarrow> string \<Rightarrow> int \<Rightarrow> (int \<times> int) rop" where
  "verify_script now k1 k2 submitted limit =
     and_then (redis_get now k1) (\<lambda>stored.
       case stored of
         None \<Rightarrow> ret (-1, 0)
       | Some code \<Rightarrow>
           if code = submitted then (\<lambda>r. (Inr (1, 0), redis_del k2 (redis_del k1 r)))
           else
             and_then (redis_incr now k2) (\<lambda>attempts r.
               let ttl = redis_ttl now k1 r;
                   r' = (if attempts = 1 \<and> ttl > 0 then redis_expire now k2 ttl r else r)
               in if attempts \<ge> limit then (Inr (-2, 0), redis_del k2 (redis_del k1 r'))
                  else (Inr (0, limit - attempts), r')))"

definition otp_result :: "int \<times> int \<Rightarrow> otp_verify_result" where
  "otp_result p =
     (case p of (status, n) \<Rightarrow>
        let remaining = word_of_int (if n < 0 then 0 else n)
        in if status = 1 then Matched
           else if status = 0 then Invalid remaining
           else if status = -2 then Exceeded
           else OtpNotFound)"

definition verify_otp_with_limit ::
  "timestamp \<Rightarrow> string \<Rightarrow> string \<Rightarrow> int \<Rightarrow> otp_verify_result rop" where
  "verify_otp_with_limit now key submitted limit =
     and_then (verify_script now key (attempts_key key) submitted limit) (\<lambda>p. ret (otp_result p))"

definition verify_register_otp :: "timestamp \<Rightarrow> string \<Rightarrow> string \<Rightarrow> otp_verify_result rop" where
  "verify_register_otp now phone code = verify_otp_with_limit now (register_key phone) code 3"

definition verify_login_otp :: "timestamp \<Rightarrow> string \<Rightarrow> string \<Rightarrow> otp_verify_result rop" where
  "verify_login_otp now phone code = verify_otp_with_limit now (login_key phone) code 3"

definition verify_recover_otp :: "timestamp \<Rightarrow> string \<Rightarrow> string \<Rightarrow> otp_verify_result rop" where
  "verify_recover_otp now phone code = verify_otp_with_limit now (recover_key phone) code 3"

definition verify_two_fa_setup_otp :: "timestamp \<Rightarrow> string \<Rightarrow> string \<Rightarrow> otp_verify_result rop" where
  "verify_two_fa_setup_otp now user code = verify_otp_with_limit now (two_fa_setup_key user) code 3"

definition verify_two_fa_login_otp :: "timestamp \<Rightarrow> string \<Rightarrow> string \<Rightarrow> otp_verify_result rop" where
  "verify_two_fa_login_otp now user code = verify_otp_with_limit now (two_fa_login_key user) code 3"

section \<open>What a verification does\<close>

lemma attempts_key_neq [simp]: "attempts_key k \<noteq> k" "k \<noteq> attempts_key k"
  by (simp_all add: attempts_key_def)

lemma lookup_incr_other:
  "redis_incr now k r = (x, r') \<Longrightarrow> k' \<noteq> k \<Longrightarrow> lookup t k' r' = lookup t k' r"
  by (auto simp: redis_incr_def lookup_def split: option.splits redis_value.splits)

lemma lookup_expire_other: "k' \<noteq> k \<Longrightarrow> lookup t k' (redis_expire now k n r) = lookup t k' r"
  by (simp add: redis_expire_def lookup_def split: option.split)

lemma verify_absent:
  "lookup now k r = None \<Longrightarrow> verify_otp_with_limit now k c m r = (Inr OtpNotFound, r)"
  by (simp add: verify_otp_with_limit_def verify_script_def redis_get_None and_then_def otp_result_def)

definition stored_code :: "timestamp \<Rightarrow> string \<Rightarrow> string \<Rightarrow> redis \<Rightarrow> timestamp \<Rightarrow> bool" where
  "stored_code now k code r e \<longleftrightarrow> lookup now k r = Some \<lparr>re_value = RStr code, re_expires = Some e\<rparr>"

lemma verify_match:
  assumes "stored_code now k code r e"
  shows "verify_otp_with_limit now k code m r = (Inr Matched, redis_del (attempts_key k) (redis_del k r))"
  using assms
  by (simp add: stored_code_def verify_otp_with_limit_def verify_script_def redis_get_def and_then_def
      otp_result_def)

text \<open>The key of the code stays as it is on a wrong code below the limit, and is absent otherwise.\<close>

lemma verify_keeps_or_removes:
  assumes "verify_otp_with_limit now k c m r = (x, r')"
  shows "lookup t k r' = lookup t k r \<and> x \<noteq> Inr Matched \<or> lookup t k r' = None"
proof (cases "redis_get now k r")
  case (Pair g r1)
  then have r1: "r1 = r" by (metis redis_get_snd snd_conv)
  show ?thesis
  proof (cases g)
    case (Inl e)
    then show ?thesis
      using assms Pair r1 by (auto simp: verify_otp_with_limit_def verify_script_def and_then_def)
  next
    case (Inr stored)
    show ?thesis
    proof (cases stored)
      case None
      then show ?thesis
        using assms Pair Inr r1
        by (auto simp: verify_otp_with_limit_def verify_script_def and_then_def otp_result_def)
    next
      case (Some code)
      show ?thesis
      proof (cases "code = c")
        case True
        then show ?thesis
          using assms Pair Inr Some r1
          by (auto simp: verify_otp_with_limit_def verify_script_def and_then_def otp_result_def)
      next
        case False
        obtain n r2 where i: "redis_incr now (attempts_key k) r = (n, r2)" by fastforce
        note o = lookup_incr_other [OF i attempts_key_neq(2)]
        show ?thesis
          using assms Pair Inr Some r1 False i o
          by (cases n)
            (auto simp: verify_otp_with_limit_def verify_script_def and_then_def otp_result_def Let_def
              lookup_expire_other split: if_splits)
      qed
    qed
  qed
qed

section \<open>A code is used once\<close>

interpretation otp: one_time "\<lambda>_. True" "\<lambda>now code. verify_otp_with_limit now k code limit"
    "\<lambda>now r. lookup now k r \<noteq> None" "\<lambda>x. x = Inr Matched"
  for k limit
proof unfold_locales
  show "lookup t k r \<noteq> None \<and> \<not> lookup t k r' \<noteq> None"
    if "verify_otp_with_limit t k a limit r = (x, r')" "x = Inr Matched" for t a r x r'
    using verify_keeps_or_removes [OF that(1), of t] verify_absent [of t k r a limit] that by auto
  show "\<not> lookup t k r' \<noteq> None"
    if "verify_otp_with_limit t k a limit r = (x, r')" "\<not> lookup t k r \<noteq> None" for t a r x r'
    using verify_absent [of t k r a limit] that by auto
  show "\<not> lookup t' k r \<noteq> None" if "\<not> lookup t k r \<noteq> None" "t \<le> t'" for t t' r
    using lookup_later [of t k r t'] that by simp
qed

text \<open>
  C12. However many verifications of a phone's login code are tried, with whatever codes, and in
  whatever state Redis is: as long as no new code is stored, at most one of them is accepted.
\<close>

theorem otp_single_use:
  assumes "sorted (map fst guesses)"
  shows "length (filter (\<lambda>x. x = Inr Matched)
     (fst (takes (\<lambda>now code. verify_login_otp now phone code) guesses r))) \<le> 1"
  unfolding verify_login_otp_def using assms by (intro otp.at_most_once) simp_all

text \<open>Storing a code and presenting it twice: the second attempt finds nothing.\<close>

theorem otp_single_use_witness:
  "let r = snd (store_login_otp 600 0 ''+573001234567'' ''123456'' empty_redis);
       rs = fst (takes (\<lambda>now code. verify_login_otp now ''+573001234567'' code)
              [(1, ''123456''), (2, ''123456'')] r)
   in rs = [Inr Matched, Inr OtpNotFound] \<and> length (filter (\<lambda>x. x = Inr Matched) rs) \<le> 1"
proof -
  have "fst (takes (\<lambda>now code. verify_login_otp now ''+573001234567'' code)
      [(1, ''123456''), (2, ''123456'')] (snd (store_login_otp 600 0 ''+573001234567'' ''123456'' empty_redis)))
    = [Inr Matched, Inr OtpNotFound]"
    by code_simp
  then show ?thesis
    using otp_single_use [of "[(1, ''123456''), (2, ''123456'')]" "''+573001234567''"
        "snd (store_login_otp 600 0 ''+573001234567'' ''123456'' empty_redis)"]
    by (simp add: Let_def)
qed

section \<open>Three wrong codes\<close>







text \<open>
  The counter of an old code outlives it: a failure just before a code is replaced is counted
  for the new code, but with the old expiry, after which the count starts again. So three wrong codes
  can be tried against one code with the right one still accepted afterwards.
\<close>

theorem otp_limit_stretched:
  "let r = snd (store_login_otp 600 0 ''+573001234567'' ''111111'' empty_redis);
       (a, r) = verify_login_otp (seconds 598) ''+573001234567'' ''000000'' r;
       r = snd (store_login_otp 600 (seconds 599) ''+573001234567'' ''123456'' r)
   in a = Inr (Invalid 2) \<and>
      fst (takes (\<lambda>now c. verify_login_otp now ''+573001234567'' c)
        [(seconds 599, ''000001''), (seconds 601, ''000002''), (seconds 602, ''000003''),
         (seconds 603, ''123456'')] r) =
      [Inr (Invalid 1), Inr (Invalid 2), Inr (Invalid 1), Inr Matched]"
  by code_simp

text \<open>
  A generated code has exactly six characters, all of them digits.
\<close>

theorem otp_generate_six_digits:
  "length (otp_generate rand) = 6 \<and> list_all is_ascii_digit (otp_generate rand)"
proof -
  have "unat (rand mod 1000000) < 10 ^ 6"
    by (simp add: unat_mod)
  then have "length (nat_to_string (unat (rand mod 1000000))) \<le> 6"
    by (rule length_nat_to_string_le) simp
  moreover have "is_ascii_digit (CHR ''0'')" by code_simp
  ultimately show ?thesis
    by (simp add: otp_generate_def pad_zeros_def nat_to_string_digits list_all_iff)
      (use nat_to_string_digits in \<open>auto simp: list_all_iff\<close>)
qed

end
