(* ===== verification/Database.thy ===== *)
theory Database
  imports Errors
begin

text \<open>
  The relational state: one record type per table of \<open>migrations/\<close> with the columns that the
  repositories read or write, and the database as the record of all tables. A column of an ENUM
  type holds the text of the enum value, because the code reads it as \<open>col::text\<close> and writes it
  with a cast; \<open>enum_cast\<close> is that cast. \<open>NOW()\<close> and \<open>gen_random_uuid()\<close> are arguments of the
  operations that use them.
\<close>

section \<open>Enumerated types (001 and 019)\<close>

definition chat_type_values :: "string list" where
  "chat_type_values = [''private'', ''group'', ''channel'', ''self'']"

definition participant_role_values :: "string list" where
  "participant_role_values = [''owner'', ''admin'', ''moderator'', ''member'']"

definition message_type_values :: "string list" where
  "message_type_values =
     [''text'', ''image'', ''video'', ''audio'', ''file'', ''location'', ''contact'', ''sticker'',
      ''deleted'', ''system'']"

definition message_status_values :: "string list" where
  "message_status_values = [''sending'', ''sent'', ''delivered'', ''read'', ''failed'']"

definition story_privacy_values :: "string list" where
  "story_privacy_values = [''everyone'', ''contacts'', ''contacts_except'', ''only_me'', ''selected'']"

definition device_type_values :: "string list" where
  "device_type_values = [''android'', ''ios'', ''web'', ''desktop'']"

definition notification_type_values :: "string list" where
  "notification_type_values =
     [''message'', ''reaction'', ''group_invite'', ''story_view'', ''call'', ''system'']"

definition call_status_values :: "string list" where
  "call_status_values =
     [''initiated'', ''ringing'', ''answered'', ''ended'', ''missed'', ''rejected'', ''busy'']"

definition call_type_values :: "string list" where
  "call_type_values = [''audio'', ''video'']"

text \<open>\<open>$n::some_enum\<close>: fails with SQLSTATE 22P02 on a text that is no value of the type.\<close>

definition enum_cast :: "string list \<Rightarrow> string \<Rightarrow> sqlx_error + string" where
  "enum_cast vs s = (if s \<in> set vs then Inr s else Inl invalid_enum)"

section \<open>Users and what belongs to them (002 to 008, 012, 017)\<close>

record user_row =
  u_id :: uuid
  u_username :: "string option"
  u_phone :: string
  u_phone_hash :: string
  u_email :: "string option"
  u_avatar_url :: "string option"
  u_status_text :: "string option"
  u_two_fa_enabled :: bool
  u_two_fa_secret :: "string option"
  u_is_active :: bool
  u_last_seen_at :: "timestamp option"
  u_created_at :: timestamp
  u_updated_at :: timestamp
  u_deleted_at :: "timestamp option"

record profile_row =
  up_user_id :: uuid
  up_display_name :: string
  up_bio :: "string option"

record user_keys_row =
  uk_user_id :: uuid
  uk_identity_key :: string
  uk_signed_prekey :: string
  uk_signed_prekey_id :: int
  uk_signed_prekey_sig :: string
  uk_prekey_count :: int
  uk_updated_at :: timestamp

record prekey_row =
  opk_id :: nat
  opk_user_id :: uuid
  opk_key_id :: int
  opk_public_key :: string
  opk_is_consumed :: bool
  opk_consumed_at :: "timestamp option"

record session_row =
  us_id :: uuid
  us_user_id :: uuid
  us_device_id :: string
  us_device_name :: string
  us_device_type :: string
  us_push_token :: "string option"
  us_ip_address :: "string option"
  us_last_active_at :: timestamp
  us_expires_at :: timestamp

record contact_row =
  co_id :: uuid
  co_owner_id :: uuid
  co_contact_id :: "uuid option"
  co_phone :: string
  co_nickname :: "string option"
  co_is_favorite :: bool
  co_created_at :: timestamp

record block_row =
  ub_id :: uuid
  ub_blocker_id :: uuid
  ub_blocked_id :: uuid
  ub_created_at :: timestamp

section \<open>Chats and messages (009, 010, 013)\<close>

record chat_row =
  c_id :: uuid
  c_type :: string
  c_name :: "string option"
  c_description :: "string option"
  c_avatar_url :: "string option"
  c_created_by :: "uuid option"
  c_invite_link :: "string option"
  c_created_at :: timestamp
  c_updated_at :: timestamp
  c_deleted_at :: "timestamp option"

record participant_row =
  cp_chat_id :: uuid
  cp_user_id :: uuid
  cp_role :: string
  cp_encryption_key_enc :: "string option"
  cp_added_by :: "uuid option"
  cp_joined_at :: timestamp
  cp_left_at :: "timestamp option"

record settings_row =
  cs_user_id :: uuid
  cs_chat_id :: uuid
  cs_is_muted :: bool
  cs_muted_until :: "timestamp option"
  cs_is_pinned :: bool
  cs_pin_order :: int
  cs_is_archived :: bool
  cs_updated_at :: timestamp

text \<open>A JSONB column is kept as its text: the code stores and returns it unread.\<close>

type_synonym json = string

record message_row =
  m_id :: uuid
  m_chat_id :: uuid
  m_sender_id :: "uuid option"
  m_reply_to_id :: "uuid option"
  m_content_encrypted :: "string option"
  m_content_iv :: "string option"
  m_message_type :: string
  m_metadata :: "json option"
  m_is_forwarded :: bool
  m_created_at :: timestamp
  m_edited_at :: "timestamp option"
  m_deleted_at :: "timestamp option"

record attachment_row =
  ma_id :: uuid
  ma_message_id :: "uuid option"
  ma_uploader_id :: "uuid option"
  ma_chat_id :: "uuid option"
  ma_object_key :: string
  ma_file_url :: string
  ma_file_type :: string
  ma_file_size :: int
  ma_file_name :: "string option"
  ma_encryption_key_enc :: "string option"
  ma_encryption_iv :: "string option"
  ma_confirmed :: bool
  ma_confirmed_at :: "timestamp option"
  ma_created_at :: timestamp

record reaction_row =
  mr_id :: uuid
  mr_message_id :: uuid
  mr_user_id :: uuid
  mr_reaction :: string
  mr_created_at :: timestamp

record status_row =
  ms_message_id :: uuid
  ms_user_id :: uuid
  ms_status :: string
  ms_updated_at :: timestamp

section \<open>Stories, notifications, calls (011, 019)\<close>

record story_row =
  s_id :: uuid
  s_user_id :: uuid
  s_content_url :: string
  s_content_type :: string
  s_caption :: "string option"
  s_privacy :: string
  s_created_at :: timestamp
  s_expires_at :: timestamp
  s_deleted_at :: "timestamp option"

record exception_row =
  spe_story_id :: uuid
  spe_user_id :: uuid
  spe_is_excluded :: bool

record view_row =
  sv_id :: uuid
  sv_story_id :: uuid
  sv_viewer_id :: uuid
  sv_reaction :: "string option"
  sv_viewed_at :: timestamp

record notification_row =
  n_id :: uuid
  n_user_id :: uuid
  n_type :: string
  n_data :: json
  n_is_read :: bool
  n_read_at :: "timestamp option"
  n_created_at :: timestamp

record call_row =
  ca_id :: uuid
  ca_caller_id :: uuid
  ca_receiver_id :: uuid
  ca_type :: string
  ca_status :: string
  ca_started_at :: "timestamp option"
  ca_ended_at :: "timestamp option"
  ca_created_at :: timestamp
  ca_updated_at :: timestamp

section \<open>The database\<close>

record db =
  users :: "user_row list"
  user_profiles :: "profile_row list"
  user_keys :: "user_keys_row list"
  one_time_prekeys :: "prekey_row list"
  user_sessions :: "session_row list"
  contacts :: "contact_row list"
  user_blocks :: "block_row list"
  chats :: "chat_row list"
  chat_settings :: "settings_row list"
  chat_participants :: "participant_row list"
  messages :: "message_row list"
  message_attachments :: "attachment_row list"
  message_reactions :: "reaction_row list"
  message_status :: "status_row list"
  stories :: "story_row list"
  story_privacy_exceptions :: "exception_row list"
  story_views :: "view_row list"
  notifications :: "notification_row list"
  calls :: "call_row list"

definition empty_db :: db where
  "empty_db = \<lparr>users = [], user_profiles = [], user_keys = [], one_time_prekeys = [],
     user_sessions = [], contacts = [], user_blocks = [], chats = [], chat_settings = [],
     chat_participants = [], messages = [], message_attachments = [], message_reactions = [],
     message_status = [], stories = [], story_privacy_exceptions = [], story_views = [],
     notifications = [], calls = []\<rparr>"

text \<open>The target of a \<open>REFERENCES users(id)\<close>, \<open>chats(id)\<close> or \<open>messages(id)\<close>.\<close>

definition user_exists :: "db \<Rightarrow> uuid \<Rightarrow> bool" where
  "user_exists d u \<longleftrightarrow> exists_where (\<lambda>r. u_id r = u) (users d)"

definition chat_exists :: "db \<Rightarrow> uuid \<Rightarrow> bool" where
  "chat_exists d c \<longleftrightarrow> exists_where (\<lambda>r. c_id r = c) (chats d)"

definition message_exists :: "db \<Rightarrow> uuid \<Rightarrow> bool" where
  "message_exists d m \<longleftrightarrow> exists_where (\<lambda>r. m_id r = m) (messages d)"

text \<open>A user with default columns, for concrete runs.\<close>

definition sample_user :: "uuid \<Rightarrow> string \<Rightarrow> user_row" where
  "sample_user u phone = \<lparr>u_id = u, u_username = None, u_phone = phone, u_phone_hash = '''',
     u_email = None, u_avatar_url = None, u_status_text = Some '''', u_two_fa_enabled = False,
     u_two_fa_secret = None, u_is_active = True, u_last_seen_at = None, u_created_at = 0,
     u_updated_at = 0, u_deleted_at = None\<rparr>"

end
