(* ===== verification/Chats.thy ===== *)
theory Chats
  imports Database
begin

text \<open>
  Chats and membership: the entities of \<open>crates/domain/src/chat/entity.rs\<close>, the constraints of the
  tables \<open>chats\<close> and \<open>chat_participants\<close> (migrations 009, 010) and the chat operations of
  \<open>PostgresChatRepository\<close> (\<open>crates/infrastructure/src/repositories/chat.rs\<close>): creating, reading,
  renaming and leaving chats, and the membership checks that the other operations start with.
\<close>

section \<open>Entities\<close>

datatype chat_type = Private | Group | Channel | SelfChat

fun chat_type_as_db_str :: "chat_type \<Rightarrow> string" where
  "chat_type_as_db_str Private = ''private''"
| "chat_type_as_db_str Group = ''group''"
| "chat_type_as_db_str Channel = ''channel''"
| "chat_type_as_db_str SelfChat = ''self''"

definition chat_type_from_db_str :: "string \<Rightarrow> chat_type option" where
  "chat_type_from_db_str s =
     (if s = ''private'' then Some Private
      else if s = ''group'' then Some Group
      else if s = ''channel'' then Some Channel
      else if s = ''self'' then Some SelfChat
      else None)"

datatype participant_role = Member | Moderator | Admin | Owner

fun role_rank :: "participant_role \<Rightarrow> nat" where
  "role_rank Member = 1"
| "role_rank Moderator = 2"
| "role_rank Admin = 3"
| "role_rank Owner = 4"

text \<open>The derived \<open>Ord\<close> of the enum: the order of its discriminants.\<close>

instantiation participant_role :: linorder
begin

definition less_eq_participant_role :: "participant_role \<Rightarrow> participant_role \<Rightarrow> bool" where
  "less_eq_participant_role a b \<longleftrightarrow> role_rank a \<le> role_rank b"

definition less_participant_role :: "participant_role \<Rightarrow> participant_role \<Rightarrow> bool" where
  "less_participant_role a b \<longleftrightarrow> role_rank a < role_rank b"

instance
proof
  fix x y :: participant_role
  show "x \<le> y \<Longrightarrow> y \<le> x \<Longrightarrow> x = y"
    by (cases x; cases y) (simp_all add: less_eq_participant_role_def)
qed (auto simp: less_eq_participant_role_def less_participant_role_def)

end

lemma role_less_iff: "a < b \<longleftrightarrow> role_rank a < role_rank b" for a b :: participant_role
  by (simp add: less_participant_role_def)

lemma role_le_iff: "a \<le> b \<longleftrightarrow> role_rank a \<le> role_rank b" for a b :: participant_role
  by (simp add: less_eq_participant_role_def)

lemma role_le_Owner [simp]: "(r::participant_role) \<le> Owner"
  by (cases r) (simp_all add: role_le_iff)

lemma not_Owner_less [simp]: "\<not> Owner < (r::participant_role)"
  by (simp add: not_less)

fun role_as_db_str :: "participant_role \<Rightarrow> string" where
  "role_as_db_str Member = ''member''"
| "role_as_db_str Moderator = ''moderator''"
| "role_as_db_str Admin = ''admin''"
| "role_as_db_str Owner = ''owner''"

definition role_from_db_str :: "string \<Rightarrow> participant_role option" where
  "role_from_db_str s =
     (if s = ''member'' then Some Member
      else if s = ''moderator'' then Some Moderator
      else if s = ''admin'' then Some Admin
      else if s = ''owner'' then Some Owner
      else None)"

lemma chat_type_roundtrip [simp]: "chat_type_from_db_str (chat_type_as_db_str t) = Some t"
  by (cases t) (simp_all add: chat_type_from_db_str_def)

lemma chat_type_from_db_str_Some:
  "chat_type_from_db_str s = Some t \<longleftrightarrow> s = chat_type_as_db_str t"
  by (cases t) (auto simp: chat_type_from_db_str_def)

lemma role_roundtrip [simp]: "role_from_db_str (role_as_db_str r) = Some r"
  by (cases r) (simp_all add: role_from_db_str_def)

lemma role_from_db_str_Some: "role_from_db_str s = Some r \<longleftrightarrow> s = role_as_db_str r"
  by (cases r) (auto simp: role_from_db_str_def)

lemma role_as_db_str_inject [simp]: "role_as_db_str r = role_as_db_str r' \<longleftrightarrow> r = r'"
  by (metis role_roundtrip option.inject)

lemma role_db_value [simp]: "enum_cast participant_role_values (role_as_db_str r) = Inr (role_as_db_str r)"
  by (cases r) (simp_all add: enum_cast_def participant_role_values_def)

lemma role_value_parses:
  "s \<in> set participant_role_values \<Longrightarrow> \<exists>r. role_from_db_str s = Some r"
  by (auto simp: participant_role_values_def role_from_db_str_def)

record chat =
  ch_id :: uuid
  ch_chat_type :: chat_type
  ch_name :: "string option"
  ch_description :: "string option"
  ch_avatar_url :: "string option"
  ch_created_by :: "uuid option"
  ch_created_at :: timestamp

record participant_detail =
  pd_user_id :: uuid
  pd_chat_id :: uuid
  pd_role :: participant_role
  pd_encryption_key_enc :: "string option"
  pd_added_by :: "uuid option"
  pd_joined_at :: timestamp

section \<open>The constraints of \<open>chats\<close>\<close>

text \<open>\<open>chk_group_has_name\<close> and \<open>chk_private_no_invite\<close>\<close>

definition chat_checks :: "chat_row \<Rightarrow> bool" where
  "chat_checks r \<longleftrightarrow>
     (c_type r \<in> {''group'', ''channel''} \<longrightarrow> c_name r \<noteq> None \<and> c_name r \<noteq> Some '''') \<and>
     (c_type r = ''private'' \<longrightarrow> c_invite_link r = None)"

text \<open>UNIQUE on \<open>invite_link\<close>: NULLs never clash.\<close>

definition invite_links_distinct :: "chat_row list \<Rightarrow> bool" where
  "invite_links_distinct t \<longleftrightarrow> unique_on c_invite_link (select_where (\<lambda>r. c_invite_link r \<noteq> None) t)"

definition insert_chat :: "chat_row \<Rightarrow> db \<Rightarrow> sqlx_error + db" where
  "insert_chat r d =
     (if \<not> chat_checks r then Inl check_violation
      else if exists_where (\<lambda>x. c_id x = c_id r) (chats d) \<or> \<not> invite_links_distinct (chats d @ [r])
        then Inl unique_violation
      else if (case c_created_by r of None \<Rightarrow> False | Some u \<Rightarrow> \<not> user_exists d u)
        then Inl foreign_key_violation
      else Inr (d\<lparr>chats := chats d @ [r]\<rparr>))"

text \<open>
  \<open>UPDATE chats SET .. WHERE P\<close>: the trigger \<open>chats_updated_at\<close> sets \<open>updated_at\<close>, the constraints
  are checked on the new rows, and a violation leaves the table as it was.
\<close>

definition update_chats ::
  "timestamp \<Rightarrow> (chat_row \<Rightarrow> bool) \<Rightarrow> (chat_row \<Rightarrow> chat_row) \<Rightarrow> db \<Rightarrow> sqlx_error + db" where
  "update_chats now P f d =
     (let t = update_where P (\<lambda>r. (f r)\<lparr>c_updated_at := now\<rparr>) (chats d)
      in if exists_where (\<lambda>r. \<not> chat_checks r) t then Inl check_violation
         else if \<not> invite_links_distinct t then Inl unique_violation
         else Inr (d\<lparr>chats := t\<rparr>))"

section \<open>The constraints of \<open>chat_participants\<close>\<close>

definition same_member :: "participant_row \<Rightarrow> participant_row \<Rightarrow> bool" where
  "same_member r x \<longleftrightarrow> cp_chat_id x = cp_chat_id r \<and> cp_user_id x = cp_user_id r"

definition active_in :: "uuid \<Rightarrow> participant_row \<Rightarrow> bool" where
  "active_in c p \<longleftrightarrow> cp_chat_id p = c \<and> cp_left_at p = None"

text \<open>The trigger \<open>enforce_private_chat_limit\<close>, which runs before every insert.\<close>

definition enforce_private_chat_limit :: "db \<Rightarrow> uuid \<Rightarrow> bool" where
  "enforce_private_chat_limit d c \<longleftrightarrow>
     \<not> (map_option c_type (select_one (\<lambda>r. c_id r = c) (chats d)) = Some ''private'' \<and>
        count_where (active_in c) (chat_participants d) \<ge> 2)"

text \<open>What an insert does when the row \<open>(chat_id, user_id)\<close> exists.\<close>

datatype on_conflict =
    ConflictError
  | DoNothing
  | DoUpdate "participant_row \<Rightarrow> participant_row"

definition participant_fks :: "db \<Rightarrow> participant_row \<Rightarrow> bool" where
  "participant_fks d r \<longleftrightarrow>
     chat_exists d (cp_chat_id r) \<and> user_exists d (cp_user_id r) \<and>
     (case cp_added_by r of None \<Rightarrow> True | Some u \<Rightarrow> user_exists d u)"

definition insert_participant :: "on_conflict \<Rightarrow> participant_row \<Rightarrow> db \<Rightarrow> sqlx_error + db" where
  "insert_participant onc r d =
     (if \<not> enforce_private_chat_limit d (cp_chat_id r) then Inl check_violation
      else if exists_where (same_member r) (chat_participants d)
        then (case onc of
                ConflictError \<Rightarrow> Inl unique_violation
              | DoNothing \<Rightarrow> Inr d
              | DoUpdate f \<Rightarrow>
                  (let t = update_where (same_member r) f (chat_participants d)
                   in if exists_where (\<lambda>x. same_member r x \<and> \<not> participant_fks d x) t
                      then Inl foreign_key_violation
                      else Inr (d\<lparr>chat_participants := t\<rparr>)))
      else if \<not> participant_fks d r then Inl foreign_key_violation
      else Inr (d\<lparr>chat_participants := chat_participants d @ [r]\<rparr>))"

definition new_participant ::
  "timestamp \<Rightarrow> uuid \<Rightarrow> uuid \<Rightarrow> string \<Rightarrow> string option \<Rightarrow> uuid option \<Rightarrow> participant_row" where
  "new_participant now c u role key added_by =
     \<lparr>cp_chat_id = c, cp_user_id = u, cp_role = role, cp_encryption_key_enc = key,
      cp_added_by = added_by, cp_joined_at = now, cp_left_at = None\<rparr>"

section \<open>Membership\<close>

definition active_member :: "db \<Rightarrow> uuid \<Rightarrow> uuid \<Rightarrow> bool" where
  "active_member d u c \<longleftrightarrow> exists_where (\<lambda>p. active_in c p \<and> cp_user_id p = u) (chat_participants d)"

text \<open>
  The join \<open>chats c JOIN chat_participants cp ON cp.chat_id = c.id WHERE c.id = .. AND cp.user_id = ..
  AND cp.left_at IS NULL AND c.deleted_at IS NULL\<close> that most operations begin with: the row of \<open>c\<close>.
\<close>

definition chat_of_member :: "db \<Rightarrow> uuid \<Rightarrow> uuid \<Rightarrow> chat_row option" where
  "chat_of_member d u c =
     (case [r. r \<leftarrow> chats d, p \<leftarrow> chat_participants d,
              cp_chat_id p = c_id r \<and> c_id r = c \<and> cp_user_id p = u \<and>
              cp_left_at p = None \<and> c_deleted_at r = None] of
        [] \<Rightarrow> None
      | r # _ \<Rightarrow> Some r)"

definition chat_of_row :: "chat_row \<Rightarrow> chat dres" where
  "chat_of_row r =
     (case chat_type_from_db_str (c_type r) of
        None \<Rightarrow> Inl (Internal (''invalid chat type: '' @ c_type r))
      | Some ty \<Rightarrow>
          Inr \<lparr>ch_id = c_id r, ch_chat_type = ty, ch_name = c_name r, ch_description = c_description r,
               ch_avatar_url = c_avatar_url r, ch_created_by = c_created_by r,
               ch_created_at = c_created_at r\<rparr>)"

definition get_chat_for_user :: "uuid \<Rightarrow> uuid \<Rightarrow> db \<Rightarrow> chat option dres" where
  "get_chat_for_user u c d =
     (case chat_of_member d u c of
        None \<Rightarrow> Inr None
      | Some r \<Rightarrow> (case chat_of_row r of Inl e \<Rightarrow> Inl e | Inr x \<Rightarrow> Inr (Some x)))"

definition verify_participant :: "uuid \<Rightarrow> uuid \<Rightarrow> db \<Rightarrow> unit dres" where
  "verify_participant u c d =
     (if chat_of_member d u c = None
      then Inl (NotFound ''chat not found or not a participant'') else Inr ())"

definition ensure_active_membership_pool :: "uuid \<Rightarrow> uuid \<Rightarrow> db \<Rightarrow> unit dres" where
  "ensure_active_membership_pool u c d =
     (if chat_of_member d u c = None
      then Inl (NotFound ''chat not found or not a participant'') else Inr ())"

definition ensure_active_membership :: "uuid \<Rightarrow> uuid \<Rightarrow> db \<Rightarrow> string dres" where
  "ensure_active_membership u c d =
     ok_or (map_option c_type (chat_of_member d u c))
       (NotFound ''chat not found or not a participant'')"

text \<open>Without an \<open>ORDER BY\<close>; the order of the result is the order of the table.\<close>

definition get_chat_participants :: "uuid \<Rightarrow> db \<Rightarrow> uuid list dres" where
  "get_chat_participants c d = Inr (map cp_user_id (select_where (active_in c) (chat_participants d)))"

section \<open>Creating a chat\<close>

text \<open>
  The lookup of an existing private chat: a row of \<open>chats\<close> that joins an active membership of both.
  There is no \<open>ORDER BY\<close> under the \<open>LIMIT 1\<close>; the model takes the first in table order.
\<close>

definition existing_private_chat :: "uuid \<Rightarrow> uuid \<Rightarrow> db \<Rightarrow> uuid option" where
  "existing_private_chat a b d =
     map_option c_id
       (select_one
          (\<lambda>r. c_type r = ''private'' \<and> c_deleted_at r = None \<and>
               active_member d a (c_id r) \<and> active_member d b (c_id r))
          (chats d))"

definition new_chat_row ::
  "uuid \<Rightarrow> timestamp \<Rightarrow> string \<Rightarrow> string option \<Rightarrow> uuid \<Rightarrow> chat_row" where
  "new_chat_row i now ty name creator =
     \<lparr>c_id = i, c_type = ty, c_name = name, c_description = None, c_avatar_url = None,
      c_created_by = Some creator, c_invite_link = None, c_created_at = now, c_updated_at = now,
      c_deleted_at = None\<rparr>"

definition sql :: "(db \<Rightarrow> sqlx_error + db) \<Rightarrow> (db, domain_error, unit) op" where
  "sql w = execute (\<lambda>d. map_sqlx (w d))"

definition found_chat :: "uuid \<Rightarrow> uuid \<Rightarrow> (db, domain_error, chat) op" where
  "found_chat u c =
     and_then (query (get_chat_for_user u c)) (\<lambda>r. lift_result (ok_or r (NotFound ''chat not found'')))"

definition create_private_chat ::
  "uuid \<Rightarrow> timestamp \<Rightarrow> uuid \<Rightarrow> uuid \<Rightarrow> (db, domain_error, chat) op" where
  "create_private_chat new_id now creator participant d =
     (case existing_private_chat creator participant d of
        Some c \<Rightarrow> found_chat creator c d
      | None \<Rightarrow>
          and_then
            (transaction
               (and_then (sql (insert_chat (new_chat_row new_id now ''private'' None creator))) (\<lambda>_.
                and_then (sql (insert_participant ConflictError
                  (new_participant now new_id creator ''member'' None (Some creator)))) (\<lambda>_.
                sql (insert_participant ConflictError
                  (new_participant now new_id participant ''member'' None (Some creator)))))))
            (\<lambda>_. found_chat creator new_id) d)"

fun insert_members :: "timestamp \<Rightarrow> uuid \<Rightarrow> uuid \<Rightarrow> uuid list \<Rightarrow> (db, domain_error, unit) op" where
  "insert_members now c creator [] = ret ()"
| "insert_members now c creator (u # us) =
     (if u = creator then insert_members now c creator us
      else and_then (sql (insert_participant DoNothing
                       (new_participant now c u ''member'' None (Some creator))))
             (\<lambda>_. insert_members now c creator us))"

definition create_group_chat ::
  "uuid \<Rightarrow> timestamp \<Rightarrow> uuid \<Rightarrow> string \<Rightarrow> uuid list \<Rightarrow> (db, domain_error, chat) op" where
  "create_group_chat new_id now creator name participant_ids =
     and_then
       (transaction
          (and_then (sql (insert_chat (new_chat_row new_id now ''group'' (Some name) creator))) (\<lambda>_.
           and_then (sql (insert_participant ConflictError
             (new_participant now new_id creator ''owner'' None (Some creator)))) (\<lambda>_.
           insert_members now new_id creator participant_ids))))
       (\<lambda>_. found_chat creator new_id)"

section \<open>Changing and leaving a chat\<close>

definition update_chat ::
  "timestamp \<Rightarrow> uuid \<Rightarrow> uuid \<Rightarrow> string option \<Rightarrow> string option \<Rightarrow> string option
     \<Rightarrow> (db, domain_error, chat) op" where
  "update_chat now u c name description avatar_url d =
     (case map_sqlx (fetch_one (chat_of_member d u c)) of
        Inl e \<Rightarrow> (Inl e, d)
      | Inr r \<Rightarrow>
          (let new_name = coalesce name (c_name r);
               new_desc = coalesce description (c_description r);
               new_avatar = coalesce avatar_url (c_avatar_url r)
           in case map_sqlx (update_chats now (\<lambda>x. c_id x = c)
                  (\<lambda>x. x\<lparr>c_name := new_name, c_description := new_desc, c_avatar_url := new_avatar\<rparr>) d) of
                Inl e \<Rightarrow> (Inl e, d)
              | Inr d' \<Rightarrow>
                  (case chat_type_from_db_str (c_type r) of
                     None \<Rightarrow> (Inl (Internal ''invalid chat type''), d')
                   | Some ty \<Rightarrow>
                       (Inr \<lparr>ch_id = c, ch_chat_type = ty, ch_name = new_name,
                             ch_description = new_desc, ch_avatar_url = new_avatar,
                             ch_created_by = c_created_by r, ch_created_at = now\<rparr>, d'))))"

definition leave_chat :: "timestamp \<Rightarrow> uuid \<Rightarrow> uuid \<Rightarrow> db \<Rightarrow> db" where
  "leave_chat now u c d =
     d\<lparr>chat_participants := update_where (\<lambda>p. cp_chat_id p = c \<and> cp_user_id p = u)
         (\<lambda>p. p\<lparr>cp_left_at := Some now\<rparr>) (chat_participants d)\<rparr>"

definition delete_chat :: "timestamp \<Rightarrow> uuid \<Rightarrow> uuid \<Rightarrow> (db, domain_error, unit) op" where
  "delete_chat now u c d =
     (case chat_of_member d u c of
        None \<Rightarrow> (Inl (NotFound ''chat not found or not a participant''), d)
      | Some r \<Rightarrow>
          if c_type r = ''private'' then (Inr (), leave_chat now u c d)
          else if exists_where (\<lambda>p. cp_chat_id p = c \<and> cp_user_id p = u \<and> cp_role p = ''owner'')
                    (chat_participants d)
            then sql (update_chats now (\<lambda>x. c_id x = c) (\<lambda>x. x\<lparr>c_deleted_at := Some now\<rparr>)) d
          else (Inr (), leave_chat now u c d))"

section \<open>What the schema keeps\<close>

text \<open>
  The constraints that every state of the database satisfies: the primary keys, UNIQUE
  \<open>(chat_id, user_id)\<close>, the CHECKs of \<open>chats\<close>, the values of the two ENUM columns, and the foreign
  key from participants to chats.
\<close>

definition chat_schema :: "db \<Rightarrow> bool" where
  "chat_schema d \<longleftrightarrow>
     unique_on c_id (chats d) \<and>
     unique_on (\<lambda>p. (cp_chat_id p, cp_user_id p)) (chat_participants d) \<and>
     (\<forall>r\<in>set (chats d). chat_checks r \<and> c_type r \<in> set chat_type_values) \<and>
     invite_links_distinct (chats d) \<and>
     (\<forall>p\<in>set (chat_participants d). cp_role p \<in> set participant_role_values \<and> participant_fks d p)"

lemma first_of_join:
  assumes "\<And>r x xs. g r = x # xs \<Longrightarrow> x = r" "\<And>r. g r = [] \<longleftrightarrow> \<not> Q r"
  shows "(case concat (map g t) of [] \<Rightarrow> None | r # _ \<Rightarrow> Some r) = select_one Q t"
proof (induction t)
  case (Cons r t)
  then show ?case using assms(1,2) [of r] by (cases "g r") auto
qed simp

lemma chat_of_member_eq:
  "chat_of_member d u c =
     (if active_member d u c then select_one (\<lambda>r. c_id r = c \<and> c_deleted_at r = None) (chats d) else None)"
proof -
  let ?P = "\<lambda>r p. cp_chat_id p = c_id r \<and> c_id r = c \<and> cp_user_id p = u \<and>
              cp_left_at p = None \<and> c_deleted_at r = None"
  define g where "g r = concat (map (\<lambda>p. if ?P r p then [r] else []) (chat_participants d))"
    for r :: chat_row
  let ?Q = "\<lambda>r. c_id r = c \<and> c_deleted_at r = None \<and> active_member d u c"
  have none: "concat (map (\<lambda>p. if ?P r p then [r] else []) ps) = [] \<longleftrightarrow> \<not> (\<exists>p\<in>set ps. ?P r p)"
    for r :: chat_row and ps
    by (induction ps) auto
  have nil: "g r = [] \<longleftrightarrow> \<not> ?Q r" for r
    unfolding g_def none by (auto simp: active_member_def active_in_def exists_where_iff)
  have hd: "concat (map (\<lambda>p. if ?P r p then [r] else []) ps) = x # xs \<Longrightarrow> x = r"
    for r x :: chat_row and xs ps
    by (induction ps) (auto split: if_splits)
  have "chat_of_member d u c = (case concat (map g (chats d)) of [] \<Rightarrow> None | r # _ \<Rightarrow> Some r)"
    unfolding chat_of_member_def g_def by simp
  also have "\<dots> = select_one ?Q (chats d)"
    by (rule first_of_join) (use hd nil in \<open>auto simp: g_def\<close>)
  also have "\<dots> = (if active_member d u c
      then select_one (\<lambda>r. c_id r = c \<and> c_deleted_at r = None) (chats d) else None)"
    by (auto simp: select_one_None_iff)
  finally show ?thesis .
qed

end
