(* ===== verification/Server.thy ===== *)
theory Server
  imports Chats Redis
begin

text \<open>
  What the HTTP handlers act on: the database, the keys of Redis, and the list of what was sent to
  Redis channels and to the push queue, in order. \<open>redis_env\<close> is the behaviour of Redis during one
  request (which publications succeed, whether the queue accepts a job) and two library functions, the text of a UUID and of
  a Redis error.

  A channel name (\<open>chat:{id}:events\<close>, \<open>user:{id}:events\<close>) is the constructor with the id, and a
  JSON payload is a constructor with its fields.
\<close>

datatype channel = ChatEvents uuid | UserEvents uuid

datatype group_extra =
    ExtraUser uuid
  | ExtraUserRole uuid string
  | ExtraChat uuid
  | ExtraOwners uuid uuid

datatype event =
    EvNewMessage uuid uuid "uuid option" timestamp
  | EvNewMessageFor uuid uuid "uuid option" "string option" "string option" string timestamp
  | EvMessagesRead uuid uuid timestamp
  | EvReaction uuid uuid uuid string string
  | EvGroup string uuid group_extra
  | EvAddedToGroup uuid

datatype push_payload =
    MessagePush uuid uuid "uuid option"
  | StoryViewPush uuid uuid
  | StoryReactionPush uuid uuid string
  | CallPush uuid uuid string string string

record push_job =
  job_user_id :: uuid
  job_notification_type :: string
  job_payload :: push_payload

datatype outgoing = Published channel event | Queued push_job

record srv =
  srv_db :: db
  srv_redis :: redis
  srv_out :: "outgoing list"

record redis_env =
  re_publish_ok :: "channel \<Rightarrow> bool"
  re_queue_ok :: bool
  re_show :: "uuid \<Rightarrow> string"
  re_error_text :: "redis_error \<Rightarrow> string"

type_synonym 'a handler = "(srv, domain_error, 'a) op"

text \<open>A repository operation inside a handler.\<close>

definition on_db :: "(db, domain_error, 'a) op \<Rightarrow> 'a handler" where
  "on_db m s = (case m (srv_db s) of (r, d) \<Rightarrow> (r, s\<lparr>srv_db := d\<rparr>))"

definition read_db :: "(db \<Rightarrow> 'a dres) \<Rightarrow> 'a handler" where
  "read_db q s = (q (srv_db s), s)"

text \<open>A Redis command whose failure is \<open>Internal(e.to_string())\<close>, and the presence of a user.\<close>

definition on_redis :: "redis_env \<Rightarrow> 'a rop \<Rightarrow> 'a handler" where
  "on_redis env m s =
     (case m (srv_redis s) of
        (Inl e, r) \<Rightarrow> (Inl (Internal (re_error_text env e)), s\<lparr>srv_redis := r\<rparr>)
      | (Inr x, r) \<Rightarrow> (Inr x, s\<lparr>srv_redis := r\<rparr>))"

definition presence_key :: "redis_env \<Rightarrow> uuid \<Rightarrow> string" where
  "presence_key env u = ''presence:'' @ re_show env u"

definition is_online :: "redis_env \<Rightarrow> timestamp \<Rightarrow> uuid \<Rightarrow> srv \<Rightarrow> bool" where
  "is_online env now u s \<longleftrightarrow> redis_exists now (presence_key env u) (srv_redis s)"

text \<open>\<open>enqueue_push_notification\<close>; its failure is only logged.\<close>

definition enqueue_push :: "redis_env \<Rightarrow> push_job \<Rightarrow> unit handler" where
  "enqueue_push env job s =
     (Inr (), if re_queue_ok env then s\<lparr>srv_out := srv_out s @ [Queued job]\<rparr> else s)"

text \<open>A publication whose result is ignored, and one whose failure is an error of the request.\<close>

definition publish_quiet :: "redis_env \<Rightarrow> channel \<Rightarrow> event \<Rightarrow> unit handler" where
  "publish_quiet env ch ev s =
     (Inr (), if re_publish_ok env ch then s\<lparr>srv_out := srv_out s @ [Published ch ev]\<rparr> else s)"

definition publish :: "redis_env \<Rightarrow> string \<Rightarrow> channel \<Rightarrow> event \<Rightarrow> unit handler" where
  "publish env what ch ev s =
     (if re_publish_ok env ch then (Inr (), s\<lparr>srv_out := srv_out s @ [Published ch ev]\<rparr>)
      else (Inl (Internal what), s))"

definition require :: "bool \<Rightarrow> domain_error \<Rightarrow> (unit \<Rightarrow> ('s, domain_error, 'a) op) \<Rightarrow> ('s, domain_error, 'a) op" where
  "require b e f = (if b then f () else throw e)"

lemma on_db_result: "fst (on_db m s) = fst (m (srv_db s))"
  and on_db_db: "srv_db (snd (on_db m s)) = snd (m (srv_db s))"
  and on_db_out: "srv_out (snd (on_db m s)) = srv_out s"
  by (simp_all add: on_db_def split: prod.split)

lemma read_db_apply [simp]: "read_db q s = (q (srv_db s), s)"
  by (simp add: read_db_def)

lemma publish_quiet_db [simp]: "srv_db (snd (publish_quiet env ch ev s)) = srv_db s"
  by (simp add: publish_quiet_def)

lemma publish_db [simp]: "srv_db (snd (publish env w ch ev s)) = srv_db s"
  by (simp add: publish_def)

lemma enqueue_push_db [simp]:
  "srv_db (snd (enqueue_push env job s)) = srv_db s"
  "srv_redis (snd (enqueue_push env job s)) = srv_redis s"
  by (simp_all add: enqueue_push_def)

lemma publish_redis [simp]:
  "srv_redis (snd (publish env w ch ev s)) = srv_redis s"
  "srv_redis (snd (publish_quiet env ch ev s)) = srv_redis s"
  by (simp_all add: publish_def publish_quiet_def)

lemma on_redis_db [simp]: "srv_db (snd (on_redis env m s)) = srv_db s"
  and on_redis_out [simp]: "srv_out (snd (on_redis env m s)) = srv_out s"
  by (simp_all add: on_redis_def split: prod.split sum.split)

lemma require_simps [simp]:
  "require True e f s = f () s"
  "require False e f s = (Inl e, s)"
  by (simp_all add: require_def)

text \<open>Only the database part of a run, when the rest does not matter.\<close>

lemma and_then_db:
  "srv_db (snd (and_then m f s)) =
     (case fst (m s) of Inl e \<Rightarrow> srv_db (snd (m s)) | Inr x \<Rightarrow> srv_db (snd (f x (snd (m s)))))"
  by (simp add: and_then_def split: prod.split sum.split)

end
