(* ===== verification/Paging.thy ===== *)
theory Paging
  imports Errors "HOL-Library.Product_Lexorder" "HOL-Library.Countable"
begin

text \<open>
  Keyset pagination, as the listings of chats, messages and notifications do it: rows in the order
  of a key, a cursor that carries the key of the last row seen, a query for the rows beyond the
  cursor with a \<open>LIMIT\<close>, and a handler that asks for one row more than the page to learn whether
  there are more. The locale \<open>keyset_source\<close> states what such a query promises; its lemmas say
  that consecutive pages are consecutive slices, and that following the cursors returns every
  row once.

  Cursors travel as base64 of JSON. Both codecs are libraries; \<open>cursor_codec\<close> is the four functions
  the code calls and \<open>codec_ok\<close> the round trip they document.
\<close>

section \<open>Limits and pages\<close>

text \<open>\<open>i64::clamp\<close>. The values are kept as integers: after the clamp nothing can overflow.\<close>

definition clamp :: "int \<Rightarrow> int \<Rightarrow> int \<Rightarrow> int" where
  "clamp lo hi x = (if x < lo then lo else if hi < x then hi else x)"

text \<open>\<open>has_more\<close> and \<open>truncate\<close> of the list handlers.\<close>

definition cut_page :: "int \<Rightarrow> 'a list \<Rightarrow> 'a list \<times> bool" where
  "cut_page limit items =
     (let has_more = int (length items) > limit
      in (if has_more then take (nat limit) items else items, has_more))"

text \<open>\<open>items.last().map(..)\<close>\<close>

definition last_opt :: "'a list \<Rightarrow> 'a option" where
  "last_opt xs = (if xs = [] then None else Some (last xs))"

text \<open>\<open>ORDER BY k DESC\<close>\<close>

definition order_by_desc :: "('r \<Rightarrow> 'k::linorder) \<Rightarrow> 'r list \<Rightarrow> 'r list" where
  "order_by_desc k t = rev (sort_key k t)"

lemma clamp_bounds: "lo \<le> hi \<Longrightarrow> lo \<le> clamp lo hi x \<and> clamp lo hi x \<le> hi"
  by (simp add: clamp_def)

lemma clamp_id: "lo \<le> x \<Longrightarrow> x \<le> hi \<Longrightarrow> clamp lo hi x = x"
  by (simp add: clamp_def)

lemma cut_page_simps:
  assumes "0 \<le> limit"
  shows "fst (cut_page limit items) = take (nat limit) items"
    and "snd (cut_page limit items) \<longleftrightarrow> nat limit < length items"
  using assms by (auto simp: cut_page_def Let_def)

lemma last_opt_simps [simp]:
  "last_opt [] = None"
  "xs \<noteq> [] \<Longrightarrow> last_opt xs = Some (last xs)"
  by (simp_all add: last_opt_def)

lemma set_order_by_desc [simp]: "set (order_by_desc k t) = set t"
  by (simp add: order_by_desc_def)

lemma order_by_desc_sorted:
  assumes "inj_on k (set t)" "distinct t"
  shows "sorted_wrt (\<lambda>x y. k y < k x) (order_by_desc k t)"
proof -
  have "sorted (map k (sort_key k t))" by simp
  moreover have "distinct (map k (sort_key k t))"
    using assms by (simp add: distinct_map)
  ultimately have "sorted_wrt (<) (map k (sort_key k t))"
    by (simp add: strict_sorted_iff)
  then show ?thesis by (simp add: order_by_desc_def sorted_wrt_rev sorted_wrt_map)
qed

section \<open>Cursors\<close>

record 'c cursor_codec =
  cd_base64_decode :: "string \<Rightarrow> string option"
  cd_base64_encode :: "string \<Rightarrow> string"
  cd_from_slice :: "string \<Rightarrow> 'c option"
  cd_to_vec :: "'c \<Rightarrow> string + string"

definition codec_ok :: "'c cursor_codec \<Rightarrow> bool" where
  "codec_ok cc \<longleftrightarrow>
     (\<forall>c. \<exists>v. cd_to_vec cc c = Inr v \<and> cd_base64_decode cc (cd_base64_encode cc v) = Some v \<and>
        cd_from_slice cc v = Some c)"

text \<open>\<open>decode_cursor\<close> and \<open>build_cursor\<close>; \<open>what\<close> is the word in their messages.\<close>

definition decode_cursor :: "string \<Rightarrow> 'c cursor_codec \<Rightarrow> string option \<Rightarrow> 'c option dres" where
  "decode_cursor what cc raw =
     (case raw of
        None \<Rightarrow> Inr None
      | Some r \<Rightarrow>
          (case cd_base64_decode cc r of
             None \<Rightarrow> Inl (Validation (''invalid '' @ what @ ''cursor encoding''))
           | Some bytes \<Rightarrow>
               (case cd_from_slice cc bytes of
                  None \<Rightarrow> Inl (Validation (''invalid '' @ what @ ''cursor payload''))
                | Some c \<Rightarrow> Inr (Some c))))"

definition build_cursor :: "string \<Rightarrow> 'c cursor_codec \<Rightarrow> 'c \<Rightarrow> string dres" where
  "build_cursor what cc c =
     (case cd_to_vec cc c of
        Inl e \<Rightarrow> Inl (Internal (''failed to serialize '' @ what @ ''cursor: '' @ e))
      | Inr v \<Rightarrow> Inr (cd_base64_encode cc v))"

text \<open>\<open>items.last().map(build_cursor).transpose()?\<close>\<close>

definition next_cursor :: "string \<Rightarrow> 'c cursor_codec \<Rightarrow> ('a \<Rightarrow> 'c) \<Rightarrow> 'a list \<Rightarrow> string option dres" where
  "next_cursor what cc key items =
     (case last_opt items of
        None \<Rightarrow> Inr None
      | Some x \<Rightarrow> (case build_cursor what cc (key x) of Inl e \<Rightarrow> Inl e | Inr s \<Rightarrow> Inr (Some s)))"

lemma cursor_roundtrip:
  assumes "codec_ok cc"
  obtains s where "build_cursor w cc c = Inr s" "decode_cursor w' cc (Some s) = Inr (Some c)"
  using assms that unfolding codec_ok_def build_cursor_def decode_cursor_def
  by (metis (no_types, lifting) option.simps(5) sum.case(2))

text \<open>A codec for any countable type, which shows that \<open>codec_ok\<close> can hold.\<close>

definition unary_codec :: "'c::countable cursor_codec" where
  "unary_codec = \<lparr>cd_base64_decode = Some, cd_base64_encode = (\<lambda>s. s),
     cd_from_slice = (\<lambda>v. Some (from_nat (length v))),
     cd_to_vec = (\<lambda>c. Inr (replicate (to_nat c) (CHR ''a'')))\<rparr>"

lemma unary_codec_ok: "codec_ok unary_codec"
  by (simp add: codec_ok_def unary_codec_def)

section \<open>The list handlers\<close>

text \<open>
  The common shape of \<open>list_chats\<close>, \<open>list_messages\<close> and \<open>list_notifications\<close> after their limit is
  clamped: decode the cursor, fetch \<open>limit + 1\<close> items from the repository, cut the page, and build
  the cursor of its last item. \<open>follow\<close> is a client that sends the cursors back.
\<close>

definition list_handler ::
  "string \<Rightarrow> 'c cursor_codec \<Rightarrow> ('a \<Rightarrow> 'c) \<Rightarrow> ('c option \<Rightarrow> int \<Rightarrow> 's \<Rightarrow> 'a list dres) \<Rightarrow> int
     \<Rightarrow> string option \<Rightarrow> 's \<Rightarrow> ('a list \<times> string option \<times> bool) dres" where
  "list_handler what cc to_cursor repo limit raw s =
     (case decode_cursor what cc raw of
        Inl e \<Rightarrow> Inl e
      | Inr c \<Rightarrow>
          (case repo c (limit + 1) s of
             Inl e \<Rightarrow> Inl e
           | Inr fetched \<Rightarrow>
               (let (items, has_more) = cut_page limit fetched
                in case next_cursor what cc to_cursor items of
                     Inl e \<Rightarrow> Inl e
                   | Inr nc \<Rightarrow> Inr (items, nc, has_more))))"

fun follow ::
  "(string option \<Rightarrow> ('a list \<times> string option \<times> bool) dres) \<Rightarrow> nat \<Rightarrow> string option \<Rightarrow> 'a list dres" where
  "follow req 0 c = Inr []"
| "follow req (Suc n) c =
     (case req c of
        Inl e \<Rightarrow> Inl e
      | Inr (items, nc, has_more) \<Rightarrow>
          if has_more
          then (case follow req n nc of Inl e \<Rightarrow> Inl e | Inr rest \<Rightarrow> Inr (items @ rest))
          else Inr items)"

section \<open>What a keyset query promises\<close>

definition beyond :: "('r \<Rightarrow> 'k::linorder) \<Rightarrow> 'k option \<Rightarrow> 'r list \<Rightarrow> 'r list" where
  "beyond key c rows = filter (\<lambda>r. case c of None \<Rightarrow> True | Some k \<Rightarrow> key r < k) rows"

locale keyset_source =
  fixes inv :: "'s \<Rightarrow> bool"
    and rows :: "'s \<Rightarrow> 'r list"
    and key :: "'r \<Rightarrow> 'k::linorder"
    and fetch :: "'s \<Rightarrow> 'k option \<Rightarrow> nat \<Rightarrow> 'r list"
  assumes fetch_law: "inv s \<Longrightarrow> fetch s c n = take n (beyond key c (rows s))"
    and sorted_law: "inv s \<Longrightarrow> sorted_wrt (\<lambda>x y. key y < key x) (rows s)"
begin

lemma beyond_prefix:
  assumes "inv s"
  shows "\<exists>n. beyond key c (rows s) = drop n (rows s)"
proof -
  have "\<exists>n. filter (\<lambda>r. case c of None \<Rightarrow> True | Some k \<Rightarrow> key r < k) xs = drop n xs"
    if "sorted_wrt (\<lambda>x y. key y < key x) xs" for xs
    using that
  proof (induction xs)
    case (Cons x xs)
    show ?case
    proof (cases "case c of None \<Rightarrow> True | Some k \<Rightarrow> key x < k")
      case True
      then have "\<forall>y\<in>set xs. case c of None \<Rightarrow> True | Some k \<Rightarrow> key y < k"
        using Cons.prems by (auto split: option.splits)
      then have "filter (\<lambda>r. case c of None \<Rightarrow> True | Some k \<Rightarrow> key r < k) (x # xs) = drop 0 (x # xs)"
        using True by (simp add: filter_id_conv)
      then show ?thesis by blast
    next
      case False
      from Cons obtain n where "filter (\<lambda>r. case c of None \<Rightarrow> True | Some k \<Rightarrow> key r < k) xs = drop n xs"
        by auto
      then have "filter (\<lambda>r. case c of None \<Rightarrow> True | Some k \<Rightarrow> key r < k) (x # xs) = drop (Suc n) (x # xs)"
        using False by simp
      then show ?thesis by blast
    qed
  qed simp
  then show ?thesis using sorted_law [OF assms] by (simp add: beyond_def)
qed

lemma beyond_sorted:
  assumes "inv s"
  shows "sorted_wrt (\<lambda>x y. key y < key x) (beyond key c (rows s))"
  using sorted_law [OF assms] by (simp add: beyond_def sorted_wrt_filter)

text \<open>The rows beyond the last row of a page are the rows after the page.\<close>

lemma next_page:
  assumes "inv s" "0 < n" "n \<le> length (beyond key c (rows s))"
  shows "beyond key (Some (key (last (take n (beyond key c (rows s)))))) (rows s) = drop n (beyond key c (rows s))"
proof -
  let ?b = "beyond key c (rows s)"
  let ?k = "key (last (take n ?b))"
  have split: "?b = take n ?b @ drop n ?b" by simp
  have ne: "take n ?b \<noteq> []" using assms(2,3) by auto
  have sorted: "sorted_wrt (\<lambda>x y. key y < key x) (take n ?b @ drop n ?b)"
    using beyond_sorted [OF assms(1)] by simp
  then have before: "\<not> key x < ?k" if "x \<in> set (take n ?b)" for x
  proof -
    obtain ys l where l: "take n ?b = ys @ [l]" using ne by (metis rev_exhaust)
    have "sorted_wrt (\<lambda>x y. key y < key x) (take n ?b)"
      using sorted by (simp add: sorted_wrt_append)
    then show ?thesis using that by (auto simp: l sorted_wrt_append dest: less_asym)
  qed
  have after: "key x < ?k" if "x \<in> set (drop n ?b)" for x
    using sorted that last_in_set [OF ne] unfolding sorted_wrt_append by blast
  have k_c: "case c of None \<Rightarrow> True | Some k \<Rightarrow> ?k < k"
  proof -
    have "last (take n ?b) \<in> set ?b" using last_in_set [OF ne] by (rule in_set_takeD)
    moreover have "case c of None \<Rightarrow> True | Some k \<Rightarrow> key x < k" if "x \<in> set ?b" for x
      using that by (simp add: beyond_def)
    ultimately show ?thesis by blast
  qed
  have "beyond key (Some ?k) (rows s) = filter (\<lambda>r. key r < ?k) ?b"
    using k_c by (auto simp: beyond_def intro!: filter_cong split: option.splits)
  also have "\<dots> = filter (\<lambda>r. key r < ?k) (take n ?b) @ filter (\<lambda>r. key r < ?k) (drop n ?b)"
    using split by (metis filter_append)
  also have "\<dots> = drop n ?b" using before after by (simp add: filter_empty_conv filter_id_conv)
  finally show ?thesis .
qed

text \<open>A handler that fetches one row more than its page.\<close>

lemma page_and_more:
  assumes "inv s" "0 \<le> limit"
  shows "cut_page limit (fetch s c (nat (limit + 1))) =
    (take (nat limit) (beyond key c (rows s)), nat limit < length (beyond key c (rows s)))"
proof -
  have n: "nat (limit + 1) = Suc (nat limit)" using assms(2) by simp
  show ?thesis
    by (rule prod_eqI) (simp_all add: cut_page_simps assms fetch_law n min_def)
qed

text \<open>
  Following the cursors returns every row once, in order. The repository may map the rows to items;
  \<open>ckey\<close> is the key a cursor stands for.
\<close>

lemma follow_complete:
  assumes s: "inv s" and cc: "codec_ok cc" and limit: "1 \<le> limit"
    and repo: "\<And>c. repo c (limit + 1) s = Inr (map g (fetch s (map_option ckey c) (nat (limit + 1))))"
    and ckey: "\<And>r. ckey (to_cursor (g r)) = key r"
    and n: "length (rows s) < n"
  shows "follow (\<lambda>raw. list_handler what cc to_cursor repo limit raw s) n None = Inr (map g (rows s))"
proof -
  have "follow (\<lambda>raw. list_handler what cc to_cursor repo limit raw s) n raw =
      Inr (map g (beyond key (map_option ckey c) (rows s)))"
    if "decode_cursor what cc raw = Inr c" "length (beyond key (map_option ckey c) (rows s)) < n" for n raw c
    using that
  proof (induction n arbitrary: raw c)
    case (Suc n)
    let ?b = "beyond key (map_option ckey c) (rows s)"
    have "cut_page limit (map g (fetch s (map_option ckey c) (nat (limit + 1)))) =
        (map g (take (nat limit) ?b), nat limit < length ?b)"
      using page_and_more [OF s, of limit "map_option ckey c"] limit
      by (auto simp: cut_page_def Let_def take_map split: if_splits)
    then have req: "list_handler what cc to_cursor repo limit raw s =
        (case next_cursor what cc to_cursor (map g (take (nat limit) ?b)) of
           Inl e \<Rightarrow> Inl e
         | Inr nc \<Rightarrow> Inr (map g (take (nat limit) ?b), nc, nat limit < length ?b))"
      using Suc.prems(1) by (simp add: list_handler_def repo)
    show ?case
    proof (cases "take (nat limit) ?b = []")
      case True
      then have "?b = []" using limit by auto
      then show ?thesis using req by (simp add: next_cursor_def)
    next
      case False
      let ?l = "last (take (nat limit) ?b)"
      obtain str where build: "build_cursor what cc (to_cursor (g ?l)) = Inr str"
        and dec: "decode_cursor what cc (Some str) = Inr (Some (to_cursor (g ?l)))"
        using cursor_roundtrip [OF cc] by metis
      have nc: "next_cursor what cc to_cursor (map g (take (nat limit) ?b)) = Inr (Some str)"
        using False build by (simp add: next_cursor_def last_map)
      show ?thesis
      proof (cases "nat limit < length ?b")
        case True
        have nx: "beyond key (map_option ckey (Some (to_cursor (g ?l)))) (rows s) = drop (nat limit) ?b"
          using next_page [OF s, of "nat limit" "map_option ckey c"] True limit by (simp add: ckey)
        have "follow (\<lambda>raw. list_handler what cc to_cursor repo limit raw s) n (Some str) =
            Inr (map g (drop (nat limit) ?b))"
          using Suc.IH [OF dec] Suc.prems(2) True limit unfolding nx by simp
        then show ?thesis
          using req nc True by (simp flip: map_append)
      next
        case False
        then show ?thesis using req nc by simp
      qed
    qed
  qed simp
  from this [of None None n] show ?thesis
    using n by (simp add: decode_cursor_def beyond_def)
qed

end

end
