(* ===== verification/Users.thy ===== *)
theory Users
  imports Server Paging "HOL-Library.List_Lexorder" "HOL-Library.Char_ord"
begin

text \<open>
  Users: the value objects and the entity of \<open>crates/domain/src/user/\<close> and
  \<open>PostgresUserRepository\<close> (\<open>crates/infrastructure/src/repositories/user.rs\<close>) with the constraints
  and triggers of migrations 002, 006, 007 and 017. The repository also maintains the Redis set
  \<open>phone_hashes\<close>. \<open>user_env\<close> collects what the code gets from elsewhere: Redis' behaviour, whether the
  repository has a connection to it, the Unicode table of alphanumeric characters, the case folding
  and the sort keys of the database's collation, and the JSON text of a cached profile.
\<close>

record profile =
  pf_id :: uuid
  pf_username :: "string option"
  pf_display_name :: string
  pf_bio :: "string option"
  pf_avatar_url :: "string option"
  pf_status_text :: "string option"

record user_env =
  ue_redis :: redis_env
  ue_has_redis :: bool
  ue_alphanumeric :: "string \<Rightarrow> bool"
  ue_fold :: "string \<Rightarrow> string"
  ue_sort_key :: "string \<Rightarrow> string"
  ue_profile_json :: "profile \<Rightarrow> string + string"
  ue_profile_parse :: "string \<Rightarrow> string + profile"

section \<open>Value objects\<close>

datatype email = Email (email_str: string)
datatype phone_number = PhoneNumber (phone_str: string)
datatype username = Username (username_str: string)

definition email_new :: "string \<Rightarrow> email dres" where
  "email_new v =
     (if CHR ''@'' \<in> set v \<and> CHR ''.'' \<in> set v then Inr (Email v)
      else Inl (Validation (''Invalid email format: '' @ v)))"

definition phone_ok :: "string \<Rightarrow> bool" where
  "phone_ok v \<longleftrightarrow>
     starts_with ''+'' v \<and> length v \<ge> 8 \<and> length v \<le> 16 \<and> list_all is_ascii_digit (tl v)"

definition phone_number_new :: "string \<Rightarrow> phone_number dres" where
  "phone_number_new v =
     (if phone_ok v then Inr (PhoneNumber v)
      else Inl (Validation (''Invalid phone number format (E.164 required): '' @ v)))"

definition username_ok :: "(string \<Rightarrow> bool) \<Rightarrow> string \<Rightarrow> bool" where
  "username_ok uni v \<longleftrightarrow>
     length v \<ge> 3 \<and> length v \<le> 32 \<and>
     list_all (\<lambda>ch. is_alphanumeric uni ch \<or> ch = ''_'') (chars v)"

definition username_new :: "(string \<Rightarrow> bool) \<Rightarrow> string \<Rightarrow> username dres" where
  "username_new uni v =
     (if username_ok uni v then Inr (Username v) else Inl (Validation (''Invalid username: '' @ v)))"

section \<open>The entity\<close>

text \<open>
  An entity has its times as \<open>DateTime<Utc>\<close>, nanoseconds since the Unix epoch; the columns are
  \<open>TIMESTAMPTZ\<close>, microseconds (\<open>timestamp\<close>). Binding a time drops the rest below a microsecond (rounding down,
  for times from 2000 on), decoding a column gives whole microseconds.
\<close>

type_synonym chrono_time = int

definition to_micros :: "chrono_time \<Rightarrow> timestamp" where
  "to_micros t = t div 1000"

definition of_micros :: "timestamp \<Rightarrow> chrono_time" where
  "of_micros t = 1000 * t"

lemma to_of_micros [simp]: "to_micros (of_micros t) = t"
  by (simp add: to_micros_def of_micros_def)

record user =
  usr_id :: uuid
  usr_username :: "username option"
  usr_phone :: phone_number
  usr_phone_hash :: string
  usr_email :: "email option"
  usr_status_text :: string
  usr_two_fa_enabled :: bool
  usr_two_fa_secret :: "string option"
  usr_is_active :: bool
  usr_last_seen_at :: "chrono_time option"
  usr_created_at :: chrono_time
  usr_updated_at :: chrono_time
  usr_deleted_at :: "chrono_time option"

text \<open>\<open>User::new\<close>; \<open>hash\<close> is \<open>hash_phone\<close> with the server's secret, an HMAC in hexadecimal.\<close>

definition user_new ::
  "(string \<Rightarrow> string) \<Rightarrow> uuid \<Rightarrow> chrono_time \<Rightarrow> username option \<Rightarrow> phone_number \<Rightarrow> email option \<Rightarrow> user" where
  "user_new hash new_id now un phone em =
     \<lparr>usr_id = new_id, usr_username = un, usr_phone = phone, usr_phone_hash = hash (phone_str phone),
      usr_email = em, usr_status_text = '''', usr_two_fa_enabled = False, usr_two_fa_secret = None,
      usr_is_active = True, usr_last_seen_at = None, usr_created_at = now, usr_updated_at = now,
      usr_deleted_at = None\<rparr>"

section \<open>The table\<close>

text \<open>\<open>normalize_e164\<close> (007), which the triggers apply to every written phone; its errors are 22023.\<close>

definition normalize_e164 :: "string \<Rightarrow> sqlx_error + string" where
  "normalize_e164 phone =
     (let cleaned = filter (\<lambda>c. is_ascii_digit c \<or> c = CHR ''+'') phone
      in if starts_with ''+'' cleaned \<and> list_all is_ascii_digit (tl cleaned) \<and>
            7 \<le> length (tl cleaned) \<and> length (tl cleaned) \<le> 15
         then Inr cleaned else Inl invalid_parameter)"

text \<open>Whether two rows violate one of UNIQUE (username), (phone), (email); NULLs never do.\<close>

definition users_clash :: "user_row \<Rightarrow> user_row \<Rightarrow> bool" where
  "users_clash x r \<longleftrightarrow>
     u_phone x = u_phone r \<or> u_username x \<noteq> None \<and> u_username x = u_username r \<or>
     u_email x \<noteq> None \<and> u_email x = u_email r"

definition insert_user :: "user_row \<Rightarrow> db \<Rightarrow> sqlx_error + db" where
  "insert_user r d =
     (case normalize_e164 (u_phone r) of
        Inl e \<Rightarrow> Inl e
      | Inr p \<Rightarrow>
          (let r' = r\<lparr>u_phone := p\<rparr>
           in if exists_where (\<lambda>x. u_id x = u_id r' \<or> users_clash x r') (users d)
              then Inl unique_violation
              else Inr (d\<lparr>users := users d @ [r']\<rparr>)))"

text \<open>\<open>UPDATE users SET .., phone = .. WHERE id = i AND deleted_at IS NULL\<close>: at most one row, by the
  primary key. The trigger of 002 sets \<open>updated_at\<close>.\<close>

definition update_user :: "timestamp \<Rightarrow> uuid \<Rightarrow> (user_row \<Rightarrow> user_row) \<Rightarrow> db \<Rightarrow> sqlx_error + db" where
  "update_user now i f d =
     (let P = (\<lambda>r. u_id r = i \<and> u_deleted_at r = None)
      in case select_one P (users d) of
           None \<Rightarrow> Inr d
         | Some r \<Rightarrow>
             (case normalize_e164 (u_phone (f r)) of
                Inl e \<Rightarrow> Inl e
              | Inr p \<Rightarrow>
                  (let r' = (f r)\<lparr>u_phone := p, u_updated_at := now\<rparr>
                   in if exists_where (\<lambda>x. u_id x \<noteq> i \<and> users_clash x r') (users d)
                      then Inl unique_violation
                      else Inr (d\<lparr>users := update_where P (\<lambda>_. r') (users d)\<rparr>))))"

section \<open>Repository\<close>

text \<open>\<open>map_record_to_user\<close>\<close>

definition opt_new :: "('a \<Rightarrow> 'e + 'b) \<Rightarrow> 'a option \<Rightarrow> 'e + 'b option" where
  "opt_new f v =
     (case v of None \<Rightarrow> Inr None | Some x \<Rightarrow> (case f x of Inl e \<Rightarrow> Inl e | Inr y \<Rightarrow> Inr (Some y)))"

definition user_of_row :: "user_env \<Rightarrow> user_row \<Rightarrow> user dres" where
  "user_of_row env r =
     (case opt_new (username_new (ue_alphanumeric env)) (u_username r) of
        Inl e \<Rightarrow> Inl e
      | Inr un \<Rightarrow>
          (case phone_number_new (u_phone r) of
             Inl e \<Rightarrow> Inl e
           | Inr ph \<Rightarrow>
               (case opt_new email_new (u_email r) of
                  Inl e \<Rightarrow> Inl e
                | Inr em \<Rightarrow>
                    Inr \<lparr>usr_id = u_id r, usr_username = un, usr_phone = ph, usr_phone_hash = u_phone_hash r,
                      usr_email = em, usr_status_text = unwrap_or (u_status_text r) '''',
                      usr_two_fa_enabled = u_two_fa_enabled r, usr_two_fa_secret = u_two_fa_secret r,
                      usr_is_active = u_is_active r, usr_last_seen_at = map_option of_micros (u_last_seen_at r),
                      usr_created_at = of_micros (u_created_at r), usr_updated_at = of_micros (u_updated_at r),
                      usr_deleted_at = map_option of_micros (u_deleted_at r)\<rparr>)))"

definition find_user :: "user_env \<Rightarrow> (user_row \<Rightarrow> bool) \<Rightarrow> db \<Rightarrow> user option dres" where
  "find_user env P d = opt_new (user_of_row env) (select_one P (users d))"

definition find_by_id :: "user_env \<Rightarrow> uuid \<Rightarrow> db \<Rightarrow> user option dres" where
  "find_by_id env i d = find_user env (\<lambda>r. u_id r = i \<and> u_deleted_at r = None) d"

definition find_by_phone :: "user_env \<Rightarrow> phone_number \<Rightarrow> db \<Rightarrow> user option dres" where
  "find_by_phone env p d = find_user env (\<lambda>r. u_phone r = phone_str p \<and> u_deleted_at r = None) d"

definition find_by_username :: "user_env \<Rightarrow> username \<Rightarrow> db \<Rightarrow> user option dres" where
  "find_by_username env n d =
     find_user env (\<lambda>r. u_username r = Some (username_str n) \<and> u_deleted_at r = None) d"

text \<open>The bound columns of an entity; \<open>avatar_url\<close> is not among them.\<close>

definition row_of_user :: "user \<Rightarrow> string option \<Rightarrow> user_row" where
  "row_of_user u avatar =
     \<lparr>u_id = usr_id u, u_username = map_option username_str (usr_username u), u_phone = phone_str (usr_phone u),
      u_phone_hash = usr_phone_hash u, u_email = map_option email_str (usr_email u), u_avatar_url = avatar,
      u_status_text = Some (usr_status_text u), u_two_fa_enabled = usr_two_fa_enabled u,
      u_two_fa_secret = usr_two_fa_secret u, u_is_active = usr_is_active u,
      u_last_seen_at = map_option to_micros (usr_last_seen_at u), u_created_at = to_micros (usr_created_at u),
      u_updated_at = to_micros (usr_updated_at u), u_deleted_at = map_option to_micros (usr_deleted_at u)\<rparr>"

definition phone_hashes :: string where
  "phone_hashes = ''phone_hashes''"

definition if_redis :: "user_env \<Rightarrow> unit rop \<Rightarrow> unit handler" where
  "if_redis env m = (if ue_has_redis env then on_redis (ue_redis env) m else ret ())"

definition sql_on_db :: "(db \<Rightarrow> sqlx_error + db) \<Rightarrow> unit handler" where
  "sql_on_db w = on_db (sql w)"

definition create_user :: "user_env \<Rightarrow> timestamp \<Rightarrow> user \<Rightarrow> unit handler" where
  "create_user env now u =
     and_then (sql_on_db (insert_user (row_of_user u None))) (\<lambda>_.
       if_redis env (redis_sadd now phone_hashes (usr_phone_hash u)))"

definition set_user :: "user \<Rightarrow> user_row \<Rightarrow> user_row" where
  "set_user u r =
     r\<lparr>u_username := map_option username_str (usr_username u), u_phone := phone_str (usr_phone u),
       u_phone_hash := usr_phone_hash u, u_email := map_option email_str (usr_email u),
       u_status_text := Some (usr_status_text u), u_two_fa_enabled := usr_two_fa_enabled u,
       u_two_fa_secret := usr_two_fa_secret u, u_is_active := usr_is_active u,
       u_last_seen_at := map_option to_micros (usr_last_seen_at u)\<rparr>"

definition update_user_entity :: "user_env \<Rightarrow> timestamp \<Rightarrow> user \<Rightarrow> unit handler" where
  "update_user_entity env now u =
     and_then (sql_on_db (update_user now (usr_id u) (set_user u))) (\<lambda>_.
       if_redis env (redis_sadd now phone_hashes (usr_phone_hash u)))"

definition touch_user :: "timestamp \<Rightarrow> (user_row \<Rightarrow> user_row) \<Rightarrow> (user_row \<Rightarrow> bool) \<Rightarrow> db \<Rightarrow> db" where
  "touch_user now f P d = d\<lparr>users := update_where P (\<lambda>r. (f r)\<lparr>u_updated_at := now\<rparr>) (users d)\<rparr>"

definition delete_soft :: "user_env \<Rightarrow> timestamp \<Rightarrow> uuid \<Rightarrow> unit handler" where
  "delete_soft env now i =
     and_then (read_db (find_by_id env i)) (\<lambda>found.
     and_then (sql_on_db (\<lambda>d. Inr (touch_user now (\<lambda>r. r\<lparr>u_deleted_at := Some now\<rparr>) (\<lambda>r. u_id r = i) d))) (\<lambda>_.
       case found of
         None \<Rightarrow> ret ()
       | Some u \<Rightarrow> if_redis env (redis_srem now phone_hashes (usr_phone_hash u))))"

definition update_last_seen :: "timestamp \<Rightarrow> uuid \<Rightarrow> chrono_time \<Rightarrow> unit handler" where
  "update_last_seen now i t =
     sql_on_db (\<lambda>d. Inr (touch_user now (\<lambda>r. r\<lparr>u_last_seen_at := Some (to_micros t)\<rparr>)
       (\<lambda>r. u_id r = i \<and> u_deleted_at r = None) d))"

definition find_id_by_phone :: "string \<Rightarrow> db \<Rightarrow> uuid option dres" where
  "find_id_by_phone phone d =
     Inr (map_option u_id
       (select_one (\<lambda>r. u_phone r = phone \<and> u_deleted_at r = None \<and> u_is_active r) (users d)))"


section \<open>Sessions\<close>

text \<open>
  \<open>INSERT INTO user_sessions .. ON CONFLICT (user_id, device_id) DO UPDATE\<close>: a device has one
  session row, whose id the new login replaces.
\<close>

definition upsert_session ::
  "uuid \<Rightarrow> timestamp \<Rightarrow> uuid \<Rightarrow> string \<Rightarrow> string \<Rightarrow> string \<Rightarrow> string option \<Rightarrow> timestamp
     \<Rightarrow> (db, domain_error, uuid) op" where
  "upsert_session new_id now u device_id device_name device_type push_token expires_at d =
     (case map_sqlx (enum_cast device_type_values device_type) of
        Inl e \<Rightarrow> (Inl e, d)
      | Inr ty \<Rightarrow>
          (let same = (\<lambda>s. us_user_id s = u \<and> us_device_id s = device_id)
           in if exists_where same (user_sessions d)
              then if exists_where (\<lambda>s. us_id s = new_id \<and> \<not> same s) (user_sessions d)
                   then (Inl (from_sqlx unique_violation), d)
                   else (Inr new_id, d\<lparr>user_sessions := update_where same
                          (\<lambda>s. s\<lparr>us_id := new_id, us_device_name := device_name, us_device_type := ty,
                             us_push_token := push_token, us_expires_at := expires_at,
                             us_last_active_at := now\<rparr>) (user_sessions d)\<rparr>)
              else if exists_where (\<lambda>s. us_id s = new_id) (user_sessions d)
                   then (Inl (from_sqlx unique_violation), d)
              else if \<not> user_exists d u then (Inl (from_sqlx foreign_key_violation), d)
              else (Inr new_id, d\<lparr>user_sessions := user_sessions d @
                     [\<lparr>us_id = new_id, us_user_id = u, us_device_id = device_id, us_device_name = device_name,
                       us_device_type = ty, us_push_token = push_token, us_ip_address = None,
                       us_last_active_at = now, us_expires_at = expires_at\<rparr>]\<rparr>)))"

definition list_sessions :: "uuid \<Rightarrow> db \<Rightarrow> session_row list dres" where
  "list_sessions u d =
     Inr (order_by_desc us_last_active_at (select_where (\<lambda>s. us_user_id s = u) (user_sessions d)))"

definition delete_session :: "uuid \<Rightarrow> uuid \<Rightarrow> (db, domain_error, bool) op" where
  "delete_session u sid d =
     (let P = (\<lambda>s. us_id s = sid \<and> us_user_id s = u)
      in (Inr (count_where P (user_sessions d) > 0),
          d\<lparr>user_sessions := delete_where P (user_sessions d)\<rparr>))"

definition is_session_valid :: "timestamp \<Rightarrow> uuid \<Rightarrow> uuid \<Rightarrow> db \<Rightarrow> bool dres" where
  "is_session_valid now u sid d =
     Inr (exists_where (\<lambda>s. us_id s = sid \<and> us_user_id s = u \<and> us_expires_at s > now) (user_sessions d))"

section \<open>What the table keeps\<close>

definition on_some :: "('a \<Rightarrow> bool) \<Rightarrow> 'a option \<Rightarrow> bool" where
  "on_some P v = (case v of None \<Rightarrow> True | Some x \<Rightarrow> P x)"

lemma on_some_simps [simp]:
  "on_some P None"
  "on_some P (Some x) \<longleftrightarrow> P x"
  by (simp_all add: on_some_def)

definition valid_user :: "user_env \<Rightarrow> user \<Rightarrow> bool" where
  "valid_user env u \<longleftrightarrow>
     on_some (\<lambda>n. username_ok (ue_alphanumeric env) (username_str n)) (usr_username u) \<and>
     phone_ok (phone_str (usr_phone u)) \<and>
     on_some (\<lambda>e. CHR ''@'' \<in> set (email_str e) \<and> CHR ''.'' \<in> set (email_str e)) (usr_email u)"

definition row_ok :: "user_env \<Rightarrow> user_row \<Rightarrow> bool" where
  "row_ok env r \<longleftrightarrow>
     on_some (username_ok (ue_alphanumeric env)) (u_username r) \<and> phone_ok (u_phone r) \<and>
     on_some (\<lambda>e. CHR ''@'' \<in> set e \<and> CHR ''.'' \<in> set e) (u_email r)"

definition users_ok :: "user_env \<Rightarrow> db \<Rightarrow> bool" where
  "users_ok env d \<longleftrightarrow>
     unique_on u_id (users d) \<and>
     (\<forall>x\<in>set (users d). \<forall>y\<in>set (users d). u_id x \<noteq> u_id y \<longrightarrow> \<not> users_clash x y) \<and>
     (\<forall>r\<in>set (users d). row_ok env r)"

text \<open>The value objects accept what they print, and a row of a valid entity reads back as it.\<close>

lemma phone_number_new_str: "phone_ok (phone_str p) \<Longrightarrow> phone_number_new (phone_str p) = Inr p"
  by (simp add: phone_number_new_def)

lemma phone_number_new_ok: "phone_number_new v = Inr p \<Longrightarrow> phone_ok v \<and> phone_str p = v"
  by (auto simp: phone_number_new_def split: if_splits)

lemma opt_new_map:
  "on_some P v \<Longrightarrow> (\<And>x. P x \<Longrightarrow> f (g x) = Inr x) \<Longrightarrow> opt_new f (map_option g v) = Inr v"
  by (cases v) (simp_all add: opt_new_def)

definition whole_micros :: "user \<Rightarrow> user" where
  "whole_micros u =
     u\<lparr>usr_last_seen_at := map_option (\<lambda>t. t - t mod 1000) (usr_last_seen_at u),
       usr_created_at := usr_created_at u - usr_created_at u mod 1000,
       usr_updated_at := usr_updated_at u - usr_updated_at u mod 1000,
       usr_deleted_at := map_option (\<lambda>t. t - t mod 1000) (usr_deleted_at u)\<rparr>"

lemma of_to_micros: "of_micros (to_micros t) = t - t mod 1000"
  by (simp add: of_micros_def to_micros_def minus_mod_eq_mult_div)

lemma user_of_row_of_user:
  assumes "valid_user env u"
  shows "user_of_row env (row_of_user u a) = Inr (whole_micros u)"
proof -
  have "opt_new (username_new (ue_alphanumeric env)) (map_option username_str (usr_username u)) = Inr (usr_username u)"
    using assms by (intro opt_new_map) (auto simp: valid_user_def username_new_def)
  moreover have "opt_new email_new (map_option email_str (usr_email u)) = Inr (usr_email u)"
    using assms unfolding valid_user_def by (elim conjE, intro opt_new_map) (auto simp: email_new_def)
  moreover have "phone_number_new (phone_str (usr_phone u)) = Inr (usr_phone u)"
    using assms by (simp add: valid_user_def phone_number_new_str)
  ultimately show ?thesis
    by (simp add: user_of_row_def row_of_user_def whole_micros_def of_to_micros comp_def option.map_comp)
qed

lemma row_of_user_ok: "valid_user env u \<Longrightarrow> row_ok env (row_of_user u a)"
  by (cases "usr_username u"; cases "usr_email u") (auto simp: valid_user_def row_ok_def row_of_user_def)

lemma user_of_row_total: "row_ok env r \<Longrightarrow> is_ok (user_of_row env r)"
  by (cases "u_username r"; cases "u_email r")
    (auto simp: row_ok_def user_of_row_def opt_new_def username_new_def phone_number_new_def email_new_def)

lemma normalize_e164_id: "phone_ok p \<Longrightarrow> normalize_e164 p = Inr p"
proof -
  assume p: "phone_ok p"
  then obtain ds where ds: "p = CHR ''+'' # ds" "list_all is_ascii_digit ds" "7 \<le> length ds" "length ds \<le> 15"
    by (cases p) (auto simp: phone_ok_def starts_with_def)
  have "filter (\<lambda>c. is_ascii_digit c \<or> c = CHR ''+'') p = p"
    using ds by (auto simp: filter_id_conv list_all_iff)
  then show ?thesis using ds by (simp add: normalize_e164_def starts_with_def)
qed

lemma normalize_e164_shape: "normalize_e164 s = Inr p \<Longrightarrow> phone_ok p"
  by (auto simp: normalize_e164_def Let_def phone_ok_def split: if_splits)

lemma users_ok_find:
  assumes "users_ok env d"
  shows "is_ok (find_user env P d)"
proof (cases "select_one P (users d)")
  case (Some r)
  then have "row_ok env r" using assms by (auto simp: users_ok_def dest: select_one_SomeD)
  then have "is_ok (user_of_row env r)" by (rule user_of_row_total)
  then show ?thesis by (auto simp: find_user_def Some opt_new_def is_ok_iff)
qed (simp add: find_user_def opt_new_def)

lemma users_clash_sym: "users_clash x y \<Longrightarrow> users_clash y x"
  unfolding users_clash_def by metis

lemma users_ok_insert:
  assumes "users_ok env d" "row_ok env r" "insert_user r d = Inr d'"
  shows "users_ok env d'"
proof -
  have n: "normalize_e164 (u_phone r) = Inr (u_phone r)"
    using assms(2) by (simp add: row_ok_def normalize_e164_id)
  have d: "d' = d\<lparr>users := users d @ [r]\<rparr>" "\<forall>x\<in>set (users d). u_id x \<noteq> u_id r \<and> \<not> users_clash x r"
    using assms(3) by (auto simp: insert_user_def n Let_def exists_where_iff split: if_splits)
  show ?thesis
    using assms(1,2) d(2) unfolding d(1) users_ok_def by (auto simp: unique_on_snoc dest: users_clash_sym)
qed

lemma set_user_ok: "valid_user env u \<Longrightarrow> row_ok env (set_user u r)"
  by (cases "usr_username u"; cases "usr_email u") (auto simp: valid_user_def row_ok_def set_user_def)

lemma users_ok_update:
  assumes ok: "users_ok env d" and f: "\<And>r. u_id (f r) = u_id r" "\<And>r. row_ok env (f r)"
    and u: "update_user now i f d = Inr d'"
  shows "users_ok env d'"
proof -
  let ?P = "\<lambda>r. u_id r = i \<and> u_deleted_at r = None"
  show ?thesis
  proof (cases "select_one ?P (users d)")
    case None
    then show ?thesis using ok u by (simp add: update_user_def)
  next
    case (Some r)
    have r: "u_id r = i" using select_one_SomeD [OF Some] by simp
    have n: "normalize_e164 (u_phone (f r)) = Inr (u_phone (f r))"
      using f(2) [of r] by (simp add: row_ok_def normalize_e164_id)
    define r' where "r' = (f r)\<lparr>u_updated_at := now\<rparr>"
    have d': "d' = d\<lparr>users := update_where ?P (\<lambda>_. r') (users d)\<rparr>"
      and c: "\<forall>x\<in>set (users d). u_id x \<noteq> i \<longrightarrow> \<not> users_clash x r'"
      using u by (auto simp: update_user_def Some n Let_def exists_where_iff r'_def split: if_splits)
    have r': "u_id r' = i" "row_ok env r'" using f [of r] r by (auto simp: r'_def row_ok_def)
    have s: "set (users d') \<subseteq> insert r' (set (users d))" by (auto simp: d' set_update_where)
    have "\<forall>x\<in>set (users d'). \<forall>y\<in>set (users d'). u_id x \<noteq> u_id y \<longrightarrow> \<not> users_clash x y"
    proof (intro ballI impI)
      fix x y assume x: "x \<in> set (users d')" and y: "y \<in> set (users d')" and n: "u_id x \<noteq> u_id y"
      consider "x = r'" "y \<in> set (users d)" | "y = r'" "x \<in> set (users d)" | "x \<in> set (users d)" "y \<in> set (users d)"
        using s x y n by auto
      then show "\<not> users_clash x y"
      proof cases
        case 1
        then show ?thesis using c n r'(1) users_clash_sym by metis
      next
        case 2
        then show ?thesis using c n r'(1) by metis
      next
        case 3
        then show ?thesis using ok n by (simp add: users_ok_def)
      qed
    qed
    moreover have "unique_on u_id (users d')"
    proof -
      have "unique_on u_id (update_where ?P (\<lambda>_. r') (users d)) \<longleftrightarrow> unique_on u_id (users d)"
        by (rule unique_on_update_where) (simp add: r'(1))
      then show ?thesis using ok by (simp add: d' users_ok_def)
    qed
    moreover have "\<forall>x\<in>set (users d'). row_ok env x"
      using ok s r'(2) by (auto simp: users_ok_def)
    ultimately show ?thesis by (simp add: users_ok_def)
  qed
qed

lemma users_ok_touch:
  assumes "users_ok env d"
    and "\<And>r. u_id (f r) = u_id r \<and> u_phone (f r) = u_phone r \<and> u_username (f r) = u_username r \<and> u_email (f r) = u_email r"
  shows "users_ok env (touch_user now f P d)"
proof -
  have "unique_on u_id (users (touch_user now f P d))"
    using assms by (simp add: touch_user_def users_ok_def unique_on_update_where)
  moreover have "\<exists>y\<in>set (users d). u_id x = u_id y \<and> u_phone x = u_phone y \<and> u_username x = u_username y \<and> u_email x = u_email y"
    if "x \<in> set (users (touch_user now f P d))" for x
    using that assms(2) by (auto simp: touch_user_def elim!: in_update_whereE)
  ultimately show ?thesis
    using assms(1) unfolding users_ok_def row_ok_def users_clash_def by metis
qed


text \<open>
  The steps that write the users table: the four writing operations of the repository, called with
  entities whose parts were made by the value objects, and anything that leaves the table alone.
\<close>

inductive user_step :: "user_env \<Rightarrow> srv \<Rightarrow> srv \<Rightarrow> bool" for env where
  step_create: "valid_user env u \<Longrightarrow> user_step env s (snd (create_user env now u s))"
| step_update: "valid_user env u \<Longrightarrow> user_step env s (snd (update_user_entity env now u s))"
| step_delete: "user_step env s (snd (delete_soft env now i s))"
| step_seen: "user_step env s (snd (update_last_seen now i t s))"
| step_other: "users (srv_db s') = users (srv_db s) \<Longrightarrow> user_step env s s'"

inductive user_reachable :: "user_env \<Rightarrow> srv \<Rightarrow> bool" for env where
  reach_init: "users (srv_db s) = [] \<Longrightarrow> user_reachable env s"
| reach_step: "user_reachable env s \<Longrightarrow> user_step env s s' \<Longrightarrow> user_reachable env s'"

lemma if_redis_db [simp]: "srv_db (snd (if_redis env m s)) = srv_db s"
  by (simp add: if_redis_def)

lemma sql_on_db_cases:
  obtains (ok) d' where "w (srv_db s) = Inr d'" "sql_on_db w s = (Inr (), s\<lparr>srv_db := d'\<rparr>)"
  | (err) e where "w (srv_db s) = Inl e" "sql_on_db w s = (Inl (from_sqlx e), s)"
  by (cases "w (srv_db s)") (auto simp: sql_on_db_def on_db_def sql_def execute_def)

lemma create_user_db:
  "srv_db (snd (create_user env now u s)) =
     (case insert_user (row_of_user u None) (srv_db s) of Inl e \<Rightarrow> srv_db s | Inr d \<Rightarrow> d)"
  by (cases rule: sql_on_db_cases [where w = "insert_user (row_of_user u None)" and s = s])
    (simp_all add: create_user_def and_then_def)

lemma update_user_entity_db:
  "srv_db (snd (update_user_entity env now u s)) =
     (case update_user now (usr_id u) (set_user u) (srv_db s) of Inl e \<Rightarrow> srv_db s | Inr d \<Rightarrow> d)"
  by (cases rule: sql_on_db_cases [where w = "update_user now (usr_id u) (set_user u)" and s = s])
    (simp_all add: update_user_entity_def and_then_def)

definition mark_deleted :: "timestamp \<Rightarrow> uuid \<Rightarrow> db \<Rightarrow> db" where
  "mark_deleted now i = touch_user now (\<lambda>r. r\<lparr>u_deleted_at := Some now\<rparr>) (\<lambda>r. u_id r = i)"

lemma delete_soft_db:
  "srv_db (snd (delete_soft env now i s)) =
     (if is_ok (find_by_id env i (srv_db s)) then mark_deleted now i (srv_db s) else srv_db s)"
  by (auto simp: delete_soft_def op_simps read_db_def and_then_def sql_on_db_def on_db_def sql_def execute_def
      mark_deleted_def split: sum.split option.split)

lemma update_last_seen_db:
  "srv_db (snd (update_last_seen now i t s)) =
     touch_user now (\<lambda>r. r\<lparr>u_last_seen_at := Some (to_micros t)\<rparr>) (\<lambda>r. u_id r = i \<and> u_deleted_at r = None) (srv_db s)"
  by (simp add: update_last_seen_def sql_on_db_def on_db_def sql_def execute_def)

lemma user_step_ok: "user_step env s s' \<Longrightarrow> users_ok env (srv_db s) \<Longrightarrow> users_ok env (srv_db s')"
proof (induction rule: user_step.induct)
  case (step_create u s now)
  then show ?case
    by (auto simp: create_user_db intro: users_ok_insert [OF _ row_of_user_ok] split: sum.split)
next
  case (step_update u s now)
  have "u_id (set_user u r) = u_id r" for r by (simp add: set_user_def)
  then show ?case
    using step_update users_ok_update [of env "srv_db s" "set_user u" now "usr_id u"] set_user_ok
    by (auto simp: update_user_entity_db split: sum.split)
next
  case (step_delete s now i)
  then show ?case by (auto simp: delete_soft_db mark_deleted_def intro: users_ok_touch)
next
  case (step_seen s now i t)
  then show ?case unfolding update_last_seen_db by (rule users_ok_touch) simp
next
  case (step_other s' s)
  then show ?case by (simp add: users_ok_def)
qed

lemma user_reachable_ok: "user_reachable env s \<Longrightarrow> users_ok env (srv_db s)"
proof (induction rule: user_reachable.induct)
  case (reach_init s)
  then show ?case by (simp add: users_ok_def unique_on_def)
next
  case (reach_step s s')
  then show ?case using user_step_ok by blast
qed

lemma create_user_Inr:
  assumes "create_user env now u s = (Inr (), s')"
  obtains d where "insert_user (row_of_user u None) (srv_db s) = Inr d" "srv_db s' = d"
proof (cases rule: sql_on_db_cases [where w = "insert_user (row_of_user u None)" and s = s])
  case (ok d)
  have "srv_db s' = d" using create_user_db [of env now u s] assms ok by simp
  then show thesis using that ok by blast
next
  case (err e)
  then show thesis using assms by (simp add: create_user_def and_then_def)
qed

text \<open>
  C29. Reading and writing users. In every state reached by the writing operations each lookup by id,
  phone number or username succeeds (no stored row fails the value objects). A user that was just
  created is found by id, by phone number and by username, as the entity that was created with its
  times cut to whole microseconds, which is what the columns hold; the lookups of every other id, number
  and name give what they gave before.
\<close>

theorem user_create_find:
  assumes "user_reachable env s" "valid_user env u" "usr_deleted_at u = None"
    and "create_user env now u s = (Inr (), s')"
  shows "(find_by_id env i (srv_db s) \<noteq> Inl e \<and> find_by_phone env p (srv_db s) \<noteq> Inl e \<and>
      find_by_username env m (srv_db s) \<noteq> Inl e) \<and>
    find_by_id env (usr_id u) (srv_db s') = Inr (Some (whole_micros u)) \<and>
    find_by_phone env (usr_phone u) (srv_db s') = Inr (Some (whole_micros u)) \<and>
    (usr_username u = Some n \<longrightarrow> find_by_username env n (srv_db s') = Inr (Some (whole_micros u))) \<and>
    (i \<noteq> usr_id u \<longrightarrow> find_by_id env i (srv_db s') = find_by_id env i (srv_db s)) \<and>
    (p \<noteq> usr_phone u \<longrightarrow> find_by_phone env p (srv_db s') = find_by_phone env p (srv_db s)) \<and>
    (usr_username u \<noteq> Some m \<longrightarrow> find_by_username env m (srv_db s') = find_by_username env m (srv_db s))"
proof -
  let ?r = "row_of_user u None"
  have ok: "users_ok env (srv_db s)" using assms(1) by (rule user_reachable_ok)
  have ok': "row_ok env ?r" using assms(2) by (rule row_of_user_ok)
  have n: "normalize_e164 (u_phone ?r) = Inr (u_phone ?r)"
    using ok' by (simp add: row_ok_def normalize_e164_id)
  obtain d where "insert_user ?r (srv_db s) = Inr d" "srv_db s' = d" using create_user_Inr [OF assms(4)] .
  then have d': "srv_db s' = srv_db s\<lparr>users := users (srv_db s) @ [?r]\<rparr>"
    and c: "\<forall>x\<in>set (users (srv_db s)). u_id x \<noteq> u_id ?r \<and> \<not> users_clash x ?r"
    by (auto simp: insert_user_def n Let_def exists_where_iff split: if_splits)
  have d: "users (srv_db s') = users (srv_db s) @ [?r]" by (simp add: d')
  have r: "user_of_row env ?r = Inr (whole_micros u)" using assms(2) by (rule user_of_row_of_user)
  have f: "find_user env P (srv_db s') = Inr (Some (whole_micros u))"
    if "P ?r" "\<And>x. P x \<Longrightarrow> u_id x = u_id ?r \<or> users_clash x ?r" for P
  proof -
    have "select_one P (users (srv_db s)) = None" using c that(2) by (auto simp: select_one_None_iff)
    then show ?thesis using that(1) by (simp add: find_user_def d select_one_append r opt_new_def)
  qed
  have other: "find_user env P (srv_db s') = find_user env P (srv_db s)" if "\<not> P ?r" for P
    using that by (simp add: find_user_def d select_one_append split: option.split)
  have "find_by_id env (usr_id u) (srv_db s') = Inr (Some (whole_micros u))"
    unfolding find_by_id_def by (rule f) (auto simp: row_of_user_def assms(3))
  moreover have "find_by_phone env (usr_phone u) (srv_db s') = Inr (Some (whole_micros u))"
    unfolding find_by_phone_def by (rule f) (auto simp: row_of_user_def users_clash_def assms(3))
  moreover have "find_by_username env n (srv_db s') = Inr (Some (whole_micros u))" if "usr_username u = Some n"
    unfolding find_by_username_def using that
    by (intro f) (auto simp: row_of_user_def users_clash_def assms(3))
  moreover have "find_user env P (srv_db s) \<noteq> Inl e" for P
    using users_ok_find [OF ok, of P] by auto
  moreover have "find_by_id env i (srv_db s') = find_by_id env i (srv_db s)" if "i \<noteq> usr_id u"
    unfolding find_by_id_def using that by (intro other) (simp add: row_of_user_def)
  moreover have "find_by_phone env p (srv_db s') = find_by_phone env p (srv_db s)" if "p \<noteq> usr_phone u"
    unfolding find_by_phone_def using that
    by (intro other) (auto simp: row_of_user_def intro: phone_number.expand)
  moreover have "find_by_username env m (srv_db s') = find_by_username env m (srv_db s)" if "usr_username u \<noteq> Some m"
    unfolding find_by_username_def using that
    by (intro other) (auto simp: row_of_user_def intro: username.expand)
  ultimately show ?thesis by (simp add: find_by_id_def find_by_phone_def find_by_username_def)
qed


definition sample_user_env :: user_env where
  "sample_user_env = \<lparr>ue_redis = \<lparr>re_publish_ok = (\<lambda>_. True), re_queue_ok = True,
       re_show = (\<lambda>u. nat_to_string (unat u)), re_error_text = (\<lambda>_. ''redis error'')\<rparr>,
     ue_has_redis = True, ue_alphanumeric = (\<lambda>_. False), ue_fold = to_lowercase, ue_sort_key = (\<lambda>s. s),
     ue_profile_json = (\<lambda>p. Inr (pf_display_name p)),
     ue_profile_parse = (\<lambda>s. Inr \<lparr>pf_id = 0, pf_username = None, pf_display_name = s, pf_bio = None,
       pf_avatar_url = None, pf_status_text = None\<rparr>)\<rparr>"

definition no_users :: srv where
  "no_users = \<lparr>srv_db = empty_db, srv_redis = empty_redis, srv_out = []\<rparr>"

definition julio :: user where
  "julio = user_new (\<lambda>p. ''hash of '' @ p) 7 5000 (Some (Username ''julio_dev'')) (PhoneNumber ''+573001234567'') None"

lemma julio_valid: "valid_user sample_user_env julio"
  by code_simp

lemma no_users_reachable: "user_reachable sample_user_env no_users"
  by (rule reach_init) (simp add: no_users_def empty_db_def)

lemma julio_created: "fst (create_user sample_user_env 5 julio no_users) = Inr ()"
  by code_simp

text \<open>The same user created in the middle of a microsecond.\<close>

definition julio_late :: user where
  "julio_late = julio\<lparr>usr_created_at := 5432, usr_updated_at := 5432\<rparr>"

theorem user_create_find_witness:
  "find_by_phone sample_user_env (PhoneNumber ''+573001234567'')
     (srv_db (snd (create_user sample_user_env 5 julio_late no_users))) = Inr (Some julio)"
proof -
  have "fst (create_user sample_user_env 5 julio_late no_users) = Inr ()" by code_simp
  then have c: "create_user sample_user_env 5 julio_late no_users =
      (Inr (), snd (create_user sample_user_env 5 julio_late no_users))" by (metis prod.collapse)
  have v: "valid_user sample_user_env julio_late" by code_simp
  have j: "usr_deleted_at julio_late = None" "usr_phone julio_late = PhoneNumber ''+573001234567''"
    "whole_micros julio_late = julio"
    by (simp_all add: julio_late_def julio_def user_new_def whole_micros_def)
  show ?thesis using user_create_find [OF no_users_reachable v j(1) c] j(2,3) by simp
qed

lemma mark_deleted_rows:
  assumes "x \<in> set (users (mark_deleted now i d))"
    and "\<And>y. y \<in> set (users d) \<Longrightarrow> u_phone y = ph \<Longrightarrow> u_id y = i"
    and "u_id x = i \<or> u_phone x = ph"
  shows "u_deleted_at x \<noteq> None"
proof -
  have "x \<in> set (update_where (\<lambda>r. u_id r = i) (\<lambda>r. r\<lparr>u_deleted_at := Some now, u_updated_at := now\<rparr>) (users d))"
    using assms(1) by (simp add: mark_deleted_def touch_user_def)
  then show ?thesis
  proof (cases rule: in_update_whereE)
    case (hit y)
    then show ?thesis by simp
  next
    case miss
    then show ?thesis using assms(2) [of x] assms(3) by blast
  qed
qed

text \<open>
  A soft-deleted user is gone for every lookup, but the phone number stays taken: no account
  can ever be created with it again, because the UNIQUE constraint counts deleted rows.
\<close>

theorem deleted_phone_stays_taken:
  assumes "user_reachable env s" "find_by_id env i (srv_db s) = Inr (Some u)"
    and "valid_user env v" "usr_phone v = usr_phone u"
    and s'_def: "s' = snd (delete_soft env now i s)"
  shows "find_by_id env i (srv_db s') = Inr None \<and> find_by_phone env (usr_phone u) (srv_db s') = Inr None \<and>
    find_id_by_phone (phone_str (usr_phone u)) (srv_db s') = Inr None \<and>
    create_user env now' v s' = (Inl (AlreadyExists ''Resource already exists''), s')"
proof -
  have ok: "users_ok env (srv_db s)" using assms(1) by (rule user_reachable_ok)
  obtain r where r: "r \<in> set (users (srv_db s))" "u_id r = i" "user_of_row env r = Inr u"
    using assms(2)
    by (auto simp: find_by_id_def find_user_def opt_new_def dest: select_one_SomeD split: option.splits sum.splits)
  have p: "u_phone r = phone_str (usr_phone u)"
    using r(3) by (auto simp: user_of_row_def phone_number_new_def split: sum.splits if_splits)
  have d: "srv_db s' = mark_deleted now i (srv_db s)"
    using assms(2) by (simp add: s'_def delete_soft_db)
  have keep: "\<exists>x. x \<in> set (users (srv_db s')) \<and> u_id x = i \<and> u_phone x = u_phone r"
    using r unfolding d mark_deleted_def touch_user_def by (auto simp: set_update_where)
  have gone: "u_deleted_at x \<noteq> None" if "x \<in> set (users (srv_db s'))" "u_id x = i \<or> u_phone x = u_phone r" for x
  proof -
    have o: "u_id y = i" if "y \<in> set (users (srv_db s))" "u_phone y = u_phone r" for y
    proof (rule ccontr)
      assume "u_id y \<noteq> i"
      then have "\<not> users_clash y r" using ok r(1,2) that(1) unfolding users_ok_def by blast
      then show False using that(2) by (simp add: users_clash_def)
    qed
    show ?thesis
      by (rule mark_deleted_rows [OF that(1) [unfolded d] _ that(2)]) (use o in blast)
  qed
  have none: "select_one P (users (srv_db s')) = None"
    if "\<And>x. P x \<Longrightarrow> (u_id x = i \<or> u_phone x = u_phone r) \<and> u_deleted_at x = None" for P
    unfolding select_one_None_iff using that gone by metis
  have "phone_ok (phone_str (usr_phone v))" using assms(3) by (simp add: valid_user_def)
  then have "normalize_e164 (u_phone (row_of_user v None)) = Inr (u_phone (row_of_user v None))"
    by (simp add: row_of_user_def normalize_e164_id)
  then have "insert_user (row_of_user v None) (srv_db s') = Inl unique_violation"
    using keep p assms(4)
    by (auto simp: insert_user_def Let_def exists_where_iff users_clash_def row_of_user_def)
  then have "create_user env now' v s' = (Inl (AlreadyExists ''Resource already exists''), s')"
    by (simp add: create_user_def and_then_def sql_on_db_def on_db_def sql_def execute_def)
  moreover have "find_by_id env i (srv_db s') = Inr None"
    unfolding find_by_id_def find_user_def by (subst none) (auto simp: opt_new_def)
  moreover have "find_by_phone env (usr_phone u) (srv_db s') = Inr None"
    unfolding find_by_phone_def find_user_def by (subst none) (auto simp: opt_new_def p)
  moreover have "find_id_by_phone (phone_str (usr_phone u)) (srv_db s') = Inr None"
    unfolding find_id_by_phone_def by (subst none) (auto simp: p)
  ultimately show ?thesis by simp
qed

definition with_julio :: srv where
  "with_julio = snd (create_user sample_user_env 5 julio no_users)"

theorem deleted_phone_stays_taken_witness:
  "fst (create_user sample_user_env 9 julio (snd (delete_soft sample_user_env 8 7 with_julio))) =
     Inl (AlreadyExists ''Resource already exists'')"
proof -
  have r: "user_reachable sample_user_env with_julio"
    unfolding with_julio_def by (rule reach_step [OF no_users_reachable step_create [OF julio_valid]])
  have c: "create_user sample_user_env 5 julio no_users = (Inr (), with_julio)"
    using julio_created by (metis prod.collapse with_julio_def)
  have "fst (create_user sample_user_env 9 julio (snd (delete_soft sample_user_env 8 7 with_julio))) =
      Inl (AlreadyExists ''Resource already exists'')"
    if "find_by_id sample_user_env 7 (srv_db with_julio) = Inr (Some julio)"
    using deleted_phone_stays_taken [OF r that julio_valid refl refl, of 8 9] by simp
  moreover have "find_by_id sample_user_env 7 (srv_db with_julio) = Inr (Some julio)"
    by code_simp
  ultimately show ?thesis by blast
qed

end
