(* ===== verification/RateLimit.thy ===== *)
theory RateLimit
  imports Redis
begin

text \<open>
  Request limits. \<open>check_rate_limit\<close> (\<open>crates/api/src/services/rate_limit.rs\<close>, and the same script in
  \<open>services/otp.rs\<close>) counts requests in a fixed window that begins with the first one.
  \<open>sliding_check\<close> (\<open>crates/infrastructure/src/cache/rate_limiter.rs\<close>) keeps the times of the admitted
  requests in a sorted set. \<open>admitted\<close> is the list of the times at which a sequence of requests was
  let through, and the properties bound how many of them fall into any window.
\<close>

fun admitted :: "('q \<Rightarrow> 's \<Rightarrow> bool \<times> 's) \<Rightarrow> ('q \<Rightarrow> timestamp) \<Rightarrow> 'q list \<Rightarrow> 's \<Rightarrow> timestamp list" where
  "admitted step at [] s = []"
| "admitted step at (q # qs) s =
     (let (ok, s') = step q s in (if ok then [at q] else []) @ admitted step at qs s')"

lemma set_admitted: "set (admitted step at qs s) \<subseteq> at ` set qs"
proof (induction qs arbitrary: s)
  case (Cons q qs)
  obtain ok s' where "step q s = (ok, s')" by fastforce
  then show ?case using Cons.IH [of s'] by auto
qed simp

lemma admitted_Cons:
  "step q s = (ok, s') \<Longrightarrow>
     admitted step at (q # qs) s = (if ok then [at q] else []) @ admitted step at qs s'"
  by simp

declare admitted.simps(2) [simp del]

section \<open>The fixed window\<close>

definition fixed_window_script :: "timestamp \<Rightarrow> string \<Rightarrow> int \<Rightarrow> int rop" where
  "fixed_window_script now k window =
     and_then (redis_incr now k) (\<lambda>count r.
       (Inr count, if count = 1 then redis_expire now k window r else r))"

definition check_rate_limit :: "timestamp \<Rightarrow> string \<Rightarrow> int \<Rightarrow> int \<Rightarrow> bool rop" where
  "check_rate_limit now key limit window =
     and_then (fixed_window_script now (''rate:'' @ key) window) (\<lambda>count. ret (count \<le> limit))"

text \<open>The method of \<open>OtpService\<close> runs the same script on the same key.\<close>

definition otp_check_rate_limit :: "timestamp \<Rightarrow> string \<Rightarrow> int \<Rightarrow> int \<Rightarrow> bool rop" where
  "otp_check_rate_limit now key limit window =
     and_then (fixed_window_script now (''rate:'' @ key) window) (\<lambda>count. ret (count \<le> limit))"

definition fixed_step :: "string \<Rightarrow> int \<Rightarrow> int \<Rightarrow> timestamp \<Rightarrow> redis \<Rightarrow> bool \<times> redis" where
  "fixed_step key limit window now r =
     (case check_rate_limit now key limit window r of (x, r') \<Rightarrow> (x = Inr True, r'))"

definition counter_at :: "string \<Rightarrow> int \<Rightarrow> timestamp \<Rightarrow> redis \<Rightarrow> bool" where
  "counter_at key n e r \<longleftrightarrow>
     r (''rate:'' @ key) = Some \<lparr>re_value = RInt n, re_expires = Some e\<rparr> \<and> 0 < n"

lemma fixed_step_fresh:
  assumes "lookup t (''rate:'' @ key) r = None" "0 < window"
  obtains r' where "fixed_step key limit window t r = (1 \<le> limit, r')"
    "counter_at key 1 (t + seconds window) r'"
  using assms
  by (simp add: fixed_step_def check_rate_limit_def fixed_window_script_def redis_incr_def and_then_def
      redis_expire_def lookup_def counter_at_def seconds_def)

lemma fixed_step_counted:
  assumes "counter_at key n e r" "t < e"
  obtains r' where "fixed_step key limit window t r = (n + 1 \<le> limit, r')"
    "counter_at key (n + 1) e r'"
  using assms
  by (simp add: fixed_step_def check_rate_limit_def fixed_window_script_def redis_incr_def and_then_def
      lookup_def counter_at_def)

lemma counter_expired: "counter_at key n e r \<Longrightarrow> e \<le> t \<Longrightarrow> lookup t (''rate:'' @ key) r = None"
  by (simp add: counter_at_def lookup_def)

text \<open>Requests after a window do not count in it.\<close>

lemma admitted_after:
  assumes "\<And>q. q \<in> set qs \<Longrightarrow> b \<le> at q"
  shows "filter (\<lambda>t. a \<le> t \<and> t < b) (admitted step at qs s) = []"
  using set_admitted [of step at qs s] assms by (fastforce simp: filter_empty_conv)

abbreviation fixed_admitted :: "string \<Rightarrow> int \<Rightarrow> int \<Rightarrow> timestamp list \<Rightarrow> redis \<Rightarrow> timestamp list" where
  "fixed_admitted key limit window \<equiv> admitted (fixed_step key limit window) (\<lambda>t. t)"

lemma fixed_admitted_Cons:
  "fixed_step key limit window t r = (ok, r') \<Longrightarrow>
     fixed_admitted key limit window (t # ts) r =
     (if ok then [t] else []) @ fixed_admitted key limit window ts r'"
  by (simp add: admitted.simps(2))

abbreviation in_window :: "timestamp \<Rightarrow> int \<Rightarrow> timestamp \<Rightarrow> bool" where
  "in_window a window t \<equiv> a \<le> t \<and> t < a + seconds window"

text \<open>The rest of a window that lies within one counting period.\<close>

lemma fixed_same_period:
  assumes "counter_at key n e r" "a + seconds window \<le> e" "sorted ts"
  shows "length (filter (in_window a window) (fixed_admitted key limit window ts r)) \<le> nat (limit - n)"
  using assms(1,3)
proof (induction ts arbitrary: n r)
  case (Cons t ts)
  show ?case
  proof (cases "t < e")
    case True
    then obtain r' where s: "fixed_step key limit window t r = (n + 1 \<le> limit, r')"
      "counter_at key (n + 1) e r'" using fixed_step_counted [OF Cons.prems(1)] by blast
    have "length (filter (in_window a window) (fixed_admitted key limit window ts r')) \<le> nat (limit - (n + 1))"
      using Cons.IH [OF s(2)] Cons.prems(2) by simp
    then show ?thesis by (auto simp: fixed_admitted_Cons [OF s(1)])
  next
    case False
    have "filter (in_window a window) (fixed_admitted key limit window (t # ts) r) = []"
      by (rule admitted_after) (use False assms(2) Cons.prems(2) in auto)
    then show ?thesis by (simp only: list.size le0)
  qed
qed simp

lemma fixed_from_fresh:
  assumes "lookup t (''rate:'' @ key) r = None" "a \<le> t" "sorted (t # ts)" "0 < window"
  shows "length (filter (in_window a window) (fixed_admitted key limit window (t # ts) r)) \<le> nat limit"
proof -
  obtain r' where s: "fixed_step key limit window t r = (1 \<le> limit, r')"
    "counter_at key 1 (t + seconds window) r'"
    using fixed_step_fresh [OF assms(1,4)] .
  have "length (filter (in_window a window) (fixed_admitted key limit window ts r')) \<le> nat (limit - 1)"
    by (rule fixed_same_period [OF s(2)]) (use assms(2,3) in auto)
  then show ?thesis by (auto simp: fixed_admitted_Cons [OF s(1)])
qed

lemma fixed_from_counted:
  assumes "counter_at key n e r" "sorted (a # ts)" "0 < window"
  shows "length (filter (in_window a window) (fixed_admitted key limit window ts r)) \<le> nat limit + nat (limit - n)"
  using assms(1,2)
proof (induction ts arbitrary: n r)
  case (Cons t ts)
  show ?case
  proof (cases "t < e")
    case True
    then obtain r' where s: "fixed_step key limit window t r = (n + 1 \<le> limit, r')"
      "counter_at key (n + 1) e r'" using fixed_step_counted [OF Cons.prems(1)] by blast
    have "length (filter (in_window a window) (fixed_admitted key limit window ts r'))
        \<le> nat limit + nat (limit - (n + 1))"
      using Cons.IH [OF s(2)] Cons.prems(2) by simp
    then show ?thesis by (auto simp: fixed_admitted_Cons [OF s(1)])
  next
    case False
    then have "lookup t (''rate:'' @ key) r = None" using counter_expired [OF Cons.prems(1)] by simp
    from fixed_from_fresh [OF this _ _ assms(3), of a ts limit] Cons.prems(2) show ?thesis by simp
  qed
qed simp

definition limiter_ok :: "string \<Rightarrow> redis \<Rightarrow> bool" where
  "limiter_ok key r \<longleftrightarrow> r (''rate:'' @ key) = None \<or> (\<exists>n e. counter_at key n e r)"

lemma limiter_ok_cases:
  assumes "limiter_ok key r"
  obtains (fresh) "lookup t (''rate:'' @ key) r = None"
  | (counted) n e where "counter_at key n e r" "t < e"
proof (cases "r (''rate:'' @ key)")
  case None
  then show ?thesis using fresh by (simp add: lookup_def)
next
  case Some
  then obtain n e where c: "counter_at key n e r" using assms by (auto simp: limiter_ok_def)
  show ?thesis
  proof (cases "t < e")
    case True
    then show ?thesis using counted c by blast
  next
    case False
    then show ?thesis using fresh counter_expired [OF c] by simp
  qed
qed

lemma fixed_step_ok:
  assumes "limiter_ok key r" "0 < window"
  obtains ok r' where "fixed_step key limit window t r = (ok, r')" "limiter_ok key r'"
proof (cases rule: limiter_ok_cases [OF assms(1), of t])
  case 1
  obtain r' where "fixed_step key limit window t r = (1 \<le> limit, r')"
    "counter_at key 1 (t + seconds window) r'" using fixed_step_fresh [OF 1 assms(2)] .
  then show ?thesis using that unfolding limiter_ok_def by blast
next
  case (2 n e)
  obtain r' where "fixed_step key limit window t r = (n + 1 \<le> limit, r')"
    "counter_at key (n + 1) e r'" using fixed_step_counted [OF 2] .
  then show ?thesis using that unfolding limiter_ok_def by blast
qed

text \<open>
  C16. However many requests are made and whenever: in any stretch of time as long as the window the
  fixed-window limiter lets at most twice its limit through.
\<close>

theorem fixed_window_bound:
  assumes "limiter_ok key r" "sorted ts" "0 < window"
  shows "length (filter (in_window a window) (fixed_admitted key limit window ts r)) \<le> 2 * nat limit"
  using assms(1,2)
proof (induction ts arbitrary: r)
  case (Cons t ts)
  show ?case
  proof (cases "t < a")
    case True
    obtain ok r' where s: "fixed_step key limit window t r = (ok, r')" "limiter_ok key r'"
      using fixed_step_ok [OF Cons.prems(1) assms(3)] .
    have "length (filter (in_window a window) (fixed_admitted key limit window ts r')) \<le> 2 * nat limit"
      using Cons.IH [OF s(2)] Cons.prems(2) by simp
    then show ?thesis using True by (auto simp: fixed_admitted_Cons [OF s(1)])
  next
    case False
    from Cons.prems(1) show ?thesis
    proof (cases rule: limiter_ok_cases [of key r t])
      case fresh
      from fixed_from_fresh [OF this _ _ assms(3), of a ts limit] Cons.prems(2) False
      show ?thesis by simp
    next
      case (counted n e)
      have "sorted (a # t # ts)" using Cons.prems(2) False by auto
      note bound = fixed_from_counted [OF counted(1) this assms(3), of limit]
      have "0 < n" using counted(1) by (simp add: counter_at_def)
      then have "nat (limit - n) \<le> nat limit" by simp
      with bound show ?thesis by linarith
    qed
  qed
qed simp

text \<open>
  The bound is reached: a limit of 2 in 10 seconds, two requests at the end of one period and two at
  the beginning of the next.
\<close>

theorem fixed_window_bound_witness:
  "length (filter (in_window (seconds 9) 10)
     (fixed_admitted ''msg'' 2 10 (map seconds [0, 9, 10, 11, 12]) empty_redis)) \<le> 2 * nat 2 \<and>
   fixed_admitted ''msg'' 2 10 (map seconds [0, 9, 10, 11, 12]) empty_redis = map seconds [0, 9, 10, 11]"
proof
  show "length (filter (in_window (seconds 9) 10)
      (fixed_admitted ''msg'' 2 10 (map seconds [0, 9, 10, 11, 12]) empty_redis)) \<le> 2 * nat 2"
    by (rule fixed_window_bound) (simp_all add: limiter_ok_def empty_redis_def seconds_def)
  show "fixed_admitted ''msg'' 2 10 (map seconds [0, 9, 10, 11, 12]) empty_redis = map seconds [0, 9, 10, 11]"
    by code_simp
qed

section \<open>The sliding window\<close>

record rate_limit_result =
  rl_allowed :: bool
  rl_current_count :: u64
  rl_limit :: u64
  rl_reset_timestamp :: u64

text \<open>The member is \<open>now .. '-' .. math.random()\<close>; \<open>rnd\<close> is the text of the random number.\<close>

definition sliding_member :: "int \<Rightarrow> string \<Rightarrow> string" where
  "sliding_member ms rnd = int_to_string ms @ ''-'' @ rnd"

text \<open>\<open>ZADD\<close>: a member that exists gets the new score.\<close>

definition zadd :: "int \<Rightarrow> string \<Rightarrow> (int \<times> string) list \<Rightarrow> (int \<times> string) list" where
  "zadd score m z =
     (if m \<in> snd ` set z then map (\<lambda>(s, x). if x = m then (score, x) else (s, x)) z else z @ [(score, m)])"

definition sliding_script ::
  "timestamp \<Rightarrow> string \<Rightarrow> int \<Rightarrow> int \<Rightarrow> int \<Rightarrow> int \<Rightarrow> string \<Rightarrow> (int \<times> int) rop" where
  "sliding_script now key ms window limit window_seconds rnd r =
     (case zset_at now key r of
        Inl e \<Rightarrow> (Inl e, r)
      | Inr z \<Rightarrow>
          (let z' = filter (\<lambda>(s, _). \<not> (0 \<le> s \<and> s \<le> ms - window)) z;
               r' = put_zset now key z' r;
               count = int (length z')
           in if count < limit
              then (Inr (count + 1, 1),
                    redis_expire now key (window_seconds + 1)
                      (put_zset now key (zadd ms (sliding_member ms rnd) z') r'))
              else (Inr (count, 0), r')))"

definition sliding_check ::
  "timestamp \<Rightarrow> string \<Rightarrow> u64 \<Rightarrow> u64 \<Rightarrow> string \<Rightarrow> rate_limit_result rop" where
  "sliding_check now key limit window_seconds rnd r =
     (if now < 0 then (Inl (IoError ''Failed to get current timestamp''), r)
      else
        (let ms = now div 1000;
             window_ms = window_seconds * 1000
         in and_then
              (sliding_script now (''rate:'' @ key) ms (uint window_ms) (uint limit) (uint window_seconds) rnd)
              (\<lambda>(n, ok). ret
                \<lparr>rl_allowed = (ok = 1), rl_current_count = word_of_int n, rl_limit = limit,
                 rl_reset_timestamp = word_of_int ms div 1000 + window_seconds\<rparr>) r))"

definition sliding_step :: "string \<Rightarrow> u64 \<Rightarrow> u64 \<Rightarrow> timestamp \<times> string \<Rightarrow> redis \<Rightarrow> bool \<times> redis" where
  "sliding_step key limit window q r =
     (case sliding_check (fst q) key limit window (snd q) r of
        (Inl _, r') \<Rightarrow> (False, r') | (Inr x, r') \<Rightarrow> (rl_allowed x, r'))"

definition request_ms :: "timestamp \<times> string \<Rightarrow> int" where
  "request_ms q = fst q div 1000"

definition request_member :: "timestamp \<times> string \<Rightarrow> string" where
  "request_member q = sliding_member (request_ms q) (snd q)"

text \<open>
  What the sorted set stands for: at every time from \<open>now\<close> on, its entries within the window are the
  admitted requests within the window.
\<close>

definition log_at :: "string \<Rightarrow> int \<Rightarrow> string set \<Rightarrow> int list \<Rightarrow> timestamp \<Rightarrow> redis \<Rightarrow> bool" where
  "log_at key w used log t r \<longleftrightarrow>
     (\<exists>z. zset_at t (''rate:'' @ key) r = Inr z \<and>
        filter (\<lambda>s. t div 1000 - w < s) (map fst z) = filter (\<lambda>s. t div 1000 - w < s) log \<and>
        snd ` set z \<subseteq> used \<and> (\<forall>p\<in>set z. 0 \<le> fst p))"

definition log_ok :: "string \<Rightarrow> int \<Rightarrow> string set \<Rightarrow> int list \<Rightarrow> timestamp \<Rightarrow> redis \<Rightarrow> bool" where
  "log_ok key w used log now r \<longleftrightarrow>
     (\<forall>l\<in>set log. l \<le> now div 1000) \<and> (\<forall>t\<ge>now. log_at key w used log t r)"

lemma log_atI:
  assumes "zset_at t (''rate:'' @ key) r = Inr z"
    "filter (\<lambda>s. t div 1000 - w < s) (map fst z) = filter (\<lambda>s. t div 1000 - w < s) log"
    "snd ` set z \<subseteq> used" "\<And>p. p \<in> set z \<Longrightarrow> 0 \<le> fst p"
  shows "log_at key w used log t r"
  unfolding log_at_def using assms by (intro exI [of _ z]) simp

lemma log_ok_fresh: "r (''rate:'' @ key) = None \<Longrightarrow> log_ok key w {} [] now r"
  by (simp add: log_ok_def log_at_def zset_at_def lookup_def)

lemma log_ok_later:
  "log_ok key w used log now r \<Longrightarrow> now \<le> t \<Longrightarrow> log_ok key w used log t r"
  unfolding log_ok_def by (meson order_trans zdiv_mono1 zero_less_numeral)

lemma filter_later:
  "x \<le> (y::int) \<Longrightarrow> filter (\<lambda>s. y < s) (filter (\<lambda>s. x < s) xs) = filter (\<lambda>s. y < s) xs"
  by (induction xs) auto

lemma zset_at_put:
  "zset_at t k (put_zset now k z r) =
     (case lookup now k r of
        None \<Rightarrow> Inr z
      | Some e \<Rightarrow> (case re_expires e of None \<Rightarrow> Inr z | Some x \<Rightarrow> Inr (if t < x then z else [])))"
  by (simp add: zset_at_def put_zset_def lookup_def split: option.split)

lemma zset_at_expire:
  assumes "zset_at now k r = Inr z" "z \<noteq> []"
  shows "zset_at t k (redis_expire now k n r) = Inr (if t < now + seconds n then z else [])"
  using assms by (auto simp: zset_at_def redis_expire_def lookup_def split: option.splits redis_value.splits if_splits)

lemma zset_at_put_same [simp]: "zset_at now k (put_zset now k z r) = Inr z"
  by (auto simp: zset_at_put lookup_def split: option.splits if_splits)

text \<open>After dropping old entries the set is the old one without them, as long as it lives.\<close>

lemma zset_at_cut:
  assumes "zset_at now k r = Inr z" "now \<le> t" "zset_at t k r = Inr zt"
  shows "zset_at t k (put_zset now k (filter P z) r) = Inr (filter P zt)"
proof (cases "lookup now k r")
  case None
  then have "lookup t k r = None" using assms(2) by (rule lookup_later)
  then show ?thesis using None assms(1,3) zset_at_put [of t k now "filter P z" r] by (simp add: zset_at_def)
next
  case (Some e)
  then have r: "r k = Some e" by (auto simp: lookup_def split: option.splits if_splits)
  show ?thesis
  proof (cases "lookup t k r")
    case None
    then obtain x where "re_expires e = Some x" "\<not> t < x"
      using r by (auto simp: lookup_def split: option.splits if_splits)
    then show ?thesis using None Some assms(3) zset_at_put [of t k now "filter P z" r] by (simp add: zset_at_def)
  next
    case late: (Some e')
    then have "lookup now k r = Some e'" using assms(2) by (rule lookup_stays)
    then have [simp]: "e' = e" using Some by simp
    have "zt = z" using Some late assms(1,3) by (auto simp: zset_at_def)
    moreover have "re_expires e = Some x \<Longrightarrow> t < x" for x
      using late r by (auto simp: lookup_def split: if_splits)
    ultimately show ?thesis
      using Some zset_at_put [of t k now "filter P z" r] by (cases "re_expires e") auto
  qed
qed

lemma log_ok_at:
  assumes "log_ok key w used log now r" "now \<le> t"
  obtains z where "zset_at t (''rate:'' @ key) r = Inr z"
    "filter (\<lambda>s. t div 1000 - w < s) (map fst z) = filter (\<lambda>s. t div 1000 - w < s) log"
    "snd ` set z \<subseteq> used" "\<And>p. p \<in> set z \<Longrightarrow> 0 \<le> fst p"
proof -
  have "log_at key w used log t r" using assms by (simp add: log_ok_def)
  then show ?thesis unfolding log_at_def using that by (elim exE conjE) simp
qed

lemma cut_is_recent:
  fixes z :: "(int \<times> string) list"
  assumes "\<And>p. p \<in> set z \<Longrightarrow> 0 \<le> fst p"
  shows "filter (\<lambda>(s, _). \<not> (0 \<le> s \<and> s \<le> b)) z = filter (\<lambda>p. b < fst p) z"
proof (rule filter_cong [OF refl])
  fix p assume "p \<in> set z"
  then have "0 \<le> fst p" by (rule assms)
  then show "(case p of (s, _) \<Rightarrow> \<not> (0 \<le> s \<and> s \<le> b)) \<longleftrightarrow> b < fst p"
    by (auto simp: case_prod_beta)
qed

lemma map_fst_filter: "map fst (filter (\<lambda>p. Q (fst p)) z) = filter Q (map fst z)"
  by (simp add: filter_map comp_def)

text \<open>A request over the limit leaves the log as it is.\<close>

lemma sliding_denied:
  assumes l: "log_ok key w used log now r"
    and z: "zset_at now (''rate:'' @ key) r = Inr z"
  shows "log_ok key w used log now
    (put_zset now (''rate:'' @ key) (filter (\<lambda>p. now div 1000 - w < fst p) z) r)"
  unfolding log_ok_def
proof (intro conjI allI impI)
  show "\<forall>l\<in>set log. l \<le> now div 1000" using l by (simp add: log_ok_def)
  fix t assume t: "now \<le> t"
  from log_ok_at [OF l t] obtain zt where zt: "zset_at t (''rate:'' @ key) r = Inr zt"
    "filter (\<lambda>s. t div 1000 - w < s) (map fst zt) = filter (\<lambda>s. t div 1000 - w < s) log"
    "snd ` set zt \<subseteq> used" "\<And>p. p \<in> set zt \<Longrightarrow> 0 \<le> fst p" by blast
  let ?zt = "filter (\<lambda>p. now div 1000 - w < fst p) zt"
  have "now div 1000 - w \<le> t div 1000 - w" using t by (simp add: zdiv_mono1)
  then have f: "filter (\<lambda>s. t div 1000 - w < s) (map fst ?zt) = filter (\<lambda>s. t div 1000 - w < s) log"
    using zt(2) by (simp add: map_fst_filter filter_later del: filter_filter)
  have used: "snd ` set ?zt \<subseteq> used" using zt(3) by auto
  show "log_at key w used log t
      (put_zset now (''rate:'' @ key) (filter (\<lambda>p. now div 1000 - w < fst p) z) r)"
    by (rule log_atI [OF zset_at_cut [OF z t zt(1)] f used]) (simp add: zt(4))
qed

text \<open>An admitted request is the last of the log.\<close>

lemma sliding_admitted:
  assumes l: "log_ok key w used log now r" and w: "w = secs * 1000" and now: "0 \<le> now"
    and z: "zset_at now (''rate:'' @ key) r = Inr z" "z' = filter (\<lambda>p. now div 1000 - w < fst p) z"
    and m: "m \<notin> used"
    and rr: "zset_at now (''rate:'' @ key) rr = Inr (z' @ [(now div 1000, m)])"
  shows "log_ok key w (insert m used) (log @ [now div 1000]) now (redis_expire now (''rate:'' @ key) (secs + 1) rr)"
  unfolding log_ok_def
proof (intro conjI allI impI)
  show "\<forall>l\<in>set (log @ [now div 1000]). l \<le> now div 1000" using l by (auto simp: log_ok_def)
  fix t assume t: "now \<le> t"
  from log_ok_at [OF l order_refl] obtain z0 where z0: "zset_at now (''rate:'' @ key) r = Inr z0"
    "filter (\<lambda>s. now div 1000 - w < s) (map fst z0) = filter (\<lambda>s. now div 1000 - w < s) log"
    "snd ` set z0 \<subseteq> used" "\<And>p. p \<in> set z0 \<Longrightarrow> 0 \<le> fst p" by blast
  then have "z0 = z" using z(1) by simp
  note zl = z0(2-4) [unfolded this]
  let ?zt = "if t < now + seconds (secs + 1) then z' @ [(now div 1000, m)] else []"
  have zt: "zset_at t (''rate:'' @ key) (redis_expire now (''rate:'' @ key) (secs + 1) rr) = Inr ?zt"
    by (rule zset_at_expire [OF rr]) simp
  have le: "now div 1000 - w \<le> t div 1000 - w" using t by (simp add: zdiv_mono1)
  have f: "filter (\<lambda>s. t div 1000 - w < s) (map fst ?zt) = filter (\<lambda>s. t div 1000 - w < s) (log @ [now div 1000])"
  proof (cases "t < now + seconds (secs + 1)")
    case True
    then show ?thesis using zl(1) le by (simp add: z(2) map_fst_filter filter_later del: filter_filter)
  next
    case False
    then have "now div 1000 \<le> t div 1000 - w" by (simp add: w seconds_def)
    moreover have "\<forall>l\<in>set log. l \<le> now div 1000" using l by (simp add: log_ok_def)
    ultimately have "filter (\<lambda>s. t div 1000 - w < s) (log @ [now div 1000]) = []"
      by (force simp: filter_empty_conv)
    then show ?thesis using False by simp
  qed
  have used: "snd ` set ?zt \<subseteq> insert m used" using zl(2) by (auto simp: z(2))
  have pos: "0 \<le> fst p" if "p \<in> set ?zt" for p
    using that zl(3) [of p] now by (auto simp: z(2) split: if_splits)
  show "log_at key w (insert m used) (log @ [now div 1000]) t
      (redis_expire now (''rate:'' @ key) (secs + 1) rr)"
    by (rule log_atI [OF zt f used pos])
qed

lemma sliding_step_log:
  assumes l: "log_ok key w used log (fst q) r" and w: "w = uint window * 1000" "uint (window * 1000) = w"
    and now: "0 \<le> fst q" and m: "request_member q \<notin> used"
  obtains (denied) r' where "sliding_step key limit window q r = (False, r')" "log_ok key w used log (fst q) r'"
  | (allowed) r' where "sliding_step key limit window q r = (True, r')"
      "length (filter (\<lambda>s. request_ms q - w < s) log) < unat limit"
      "log_ok key w (insert (request_member q) used) (log @ [request_ms q]) (fst q) r'"
proof -
  let ?k = "''rate:'' @ key" and ?now = "fst q" and ?ms = "fst q div 1000"
  from log_ok_at [OF l order_refl] obtain z where z: "zset_at ?now ?k r = Inr z"
    "filter (\<lambda>s. ?ms - w < s) (map fst z) = filter (\<lambda>s. ?ms - w < s) log"
    "snd ` set z \<subseteq> used" "\<And>p. p \<in> set z \<Longrightarrow> 0 \<le> fst p" by blast
  define z' where "z' = filter (\<lambda>p. ?ms - w < fst p) z"
  have cut: "filter (\<lambda>(s, _). \<not> (0 \<le> s \<and> s \<le> ?ms - w)) z = z'"
    unfolding z'_def by (rule cut_is_recent) (rule z(4))
  have len: "length z' = length (filter (\<lambda>s. ?ms - w < s) log)"
    unfolding z'_def z(2) [symmetric] map_fst_filter [symmetric] by simp
  let ?m = "request_member q"
  have mem: "sliding_member ?ms (snd q) = ?m" by (simp add: request_member_def request_ms_def)
  have "?m \<notin> snd ` set z'" using m z(3) by (auto simp: z'_def)
  then have add: "zadd ?ms ?m z' = z' @ [(?ms, ?m)]" by (simp add: zadd_def)
  let ?r1 = "put_zset ?now ?k z' r"
  let ?r2 = "redis_expire ?now ?k (uint window + 1) (put_zset ?now ?k (z' @ [(?ms, ?m)]) ?r1)"
  have script: "sliding_script ?now ?k ?ms w (uint limit) (uint window) (snd q) r =
      (if int (length z') < uint limit then (Inr (int (length z') + 1, 1), ?r2)
       else (Inr (int (length z'), 0), ?r1))"
    unfolding sliding_script_def z(1) sum.case Let_def cut mem add by (rule refl)
  have step: "sliding_step key limit window q r =
      (if int (length z') < uint limit then (True, ?r2) else (False, ?r1))"
    using now unfolding sliding_step_def sliding_check_def Let_def w(2) and_then_def script by simp
  show ?thesis
  proof (cases "int (length z') < uint limit")
    case True
    then have "length z' < unat limit" unfolding uint_nat by (rule of_nat_less_imp_less)
    then have "length (filter (\<lambda>s. request_ms q - w < s) log) < unat limit"
      unfolding request_ms_def len .
    moreover have "log_ok key w (insert ?m used) (log @ [request_ms q]) ?now ?r2"
      unfolding request_ms_def
      by (rule sliding_admitted [OF l w(1) now z(1) z'_def m zset_at_put_same])
    ultimately show ?thesis by (rule allowed [rotated]) (simp add: step True)
  next
    case False
    have "log_ok key w used log ?now ?r1"
      using sliding_denied [OF l z(1)] by (simp add: z'_def)
    then show ?thesis by (rule denied [rotated]) (simp add: step False)
  qed
qed

abbreviation sliding_admitted_at :: "string \<Rightarrow> u64 \<Rightarrow> u64 \<Rightarrow> (timestamp \<times> string) list \<Rightarrow> redis \<Rightarrow> int list" where
  "sliding_admitted_at key limit window \<equiv> admitted (sliding_step key limit window) request_ms"

lemma sliding_count:
  assumes "log_ok key w used log now r" "w = uint window * 1000" "uint (window * 1000) = w"
    and "sorted (now # map fst qs)" "0 \<le> now" "distinct (map request_member qs)"
    and "set (map request_member qs) \<inter> used = {}"
    and "length (filter (\<lambda>t. a < t \<and> t \<le> a + w) log) \<le> unat limit"
  shows "length (filter (\<lambda>t. a < t \<and> t \<le> a + w) (log @ sliding_admitted_at key limit window qs r)) \<le> unat limit"
  using assms(1,4-)
proof (induction qs arbitrary: used log now r)
  case (Cons q qs)
  have now: "now \<le> fst q" "0 \<le> fst q" using Cons.prems(2,3) by auto
  have l: "log_ok key w used log (fst q) r" using log_ok_later [OF Cons.prems(1) now(1)] .
  have m: "request_member q \<notin> used" using Cons.prems(5) by auto
  from l assms(2,3) now(2) m show ?case
  proof (cases rule: sliding_step_log [where limit = limit])
    case (denied r')
    have "admitted (sliding_step key limit window) request_ms (q # qs) r =
        admitted (sliding_step key limit window) request_ms qs r'"
      using denied(1) by (simp add: admitted.simps(2))
    moreover have "length (filter (\<lambda>t. a < t \<and> t \<le> a + w)
        (log @ sliding_admitted_at key limit window qs r')) \<le> unat limit"
      by (rule Cons.IH [OF denied(2)]) (use Cons.prems now in auto)
    ultimately show ?thesis by simp
  next
    case (allowed r')
    let ?in = "\<lambda>t. a < t \<and> t \<le> a + w"
    have "length (filter ?in (log @ [request_ms q])) \<le> unat limit"
    proof (cases "?in (request_ms q)")
      case True
      have "filter ?in log = filter ?in (filter (\<lambda>s. request_ms q - w < s) log)"
        using True by (auto simp: filter_filter intro!: filter_cong)
      then have "length (filter ?in log) \<le> length (filter (\<lambda>s. request_ms q - w < s) log)"
        by (metis length_filter_le)
      then show ?thesis using allowed(2) True by simp
    next
      case False
      then show ?thesis using Cons.prems(6) by auto
    qed
    then have "length (filter ?in ((log @ [request_ms q]) @ sliding_admitted_at key limit window qs r')) \<le> unat limit"
      by (intro Cons.IH [OF allowed(3)]) (use Cons.prems now in auto)
    moreover have "admitted (sliding_step key limit window) request_ms (q # qs) r =
        request_ms q # admitted (sliding_step key limit window) request_ms qs r'"
      using allowed(1) by (simp add: admitted.simps(2))
    ultimately show ?thesis by simp
  qed
qed simp

text \<open>
  C17. The sliding limiter lets at most its limit through in any window, for every sequence of
  requests whose random suffixes make their members different.
\<close>

theorem sliding_window_bound:
  assumes "r (''rate:'' @ key) = None" "sorted (0 # map fst qs)" "distinct (map request_member qs)"
    and "uint window * 1000 < 2 ^ 64"
  shows "length (filter (\<lambda>t. a < t \<and> t \<le> a + uint window * 1000)
    (sliding_admitted_at key limit window qs r)) \<le> unat limit"
proof -
  have "uint (window * 1000) = uint window * 1000"
    using assms(4) by (simp add: uint_word_ariths)
  from sliding_count [OF log_ok_fresh [where r = r and key = key and now = 0, OF assms(1)] refl this assms(2) _ assms(3), of a limit]
  show ?thesis by simp
qed

theorem sliding_window_bound_witness:
  "length (filter (\<lambda>t. (-1) < t \<and> t \<le> -1 + uint (1::u64) * 1000)
     (sliding_admitted_at ''k'' 2 1 [(0, ''x''), (1000, ''y''), (500000, ''z''), (1001000, ''w'')] empty_redis)) \<le> unat (2::u64) \<and>
   sliding_admitted_at ''k'' 2 1 [(0, ''x''), (1000, ''y''), (500000, ''z''), (1001000, ''w'')] empty_redis = [0, 1, 1001]"
proof
  show "sliding_admitted_at ''k'' 2 1 [(0, ''x''), (1000, ''y''), (500000, ''z''), (1001000, ''w'')] empty_redis = [0, 1, 1001]"
    by code_simp
  have "distinct (map request_member [(0, ''x''), (1000, ''y''), (500000, ''z''), (1001000, ''w'')])"
    by code_simp
  then show "length (filter (\<lambda>t. (-1) < t \<and> t \<le> -1 + uint (1::u64) * 1000)
     (sliding_admitted_at ''k'' 2 1 [(0, ''x''), (1000, ''y''), (500000, ''z''), (1001000, ''w'')] empty_redis)) \<le> unat (2::u64)"
    by (intro sliding_window_bound) (simp_all add: empty_redis_def)
qed

text \<open>Two requests of one millisecond with the same suffix.\<close>

lemma sliding_same_step:
  assumes "zset_at t (''rate:'' @ key) r \<in> {Inr [], Inr [(t div 1000, sliding_member (t div 1000) x)]}"
    and "0 \<le> t" "2 \<le> uint limit" "0 < uint (window * 1000)"
  obtains r' where "sliding_step key limit window (t, x) r = (True, r')"
    "zset_at t (''rate:'' @ key) r' = Inr [(t div 1000, sliding_member (t div 1000) x)]"
proof -
  let ?k = "''rate:'' @ key" and ?ms = "t div 1000" and ?p = "(t div 1000, sliding_member (t div 1000) x)"
  from assms(1) obtain z where z: "zset_at t ?k r = Inr z" "z = [] \<or> z = [?p]" by auto
  let ?r2 = "redis_expire t ?k (uint window + 1) (put_zset t ?k [?p] (put_zset t ?k z r))"
  have cut: "filter (\<lambda>(s, _). \<not> (0 \<le> s \<and> s \<le> ?ms - uint (window * 1000))) z = z"
    using z(2) assms(4) by auto
  have add: "zadd ?ms (sliding_member ?ms x) z = [?p]" using z(2) by (auto simp: zadd_def)
  have "int (length z) < uint limit" using z(2) assms(3) by auto
  then have "sliding_script t ?k ?ms (uint (window * 1000)) (uint limit) (uint window) x r =
      (Inr (int (length z) + 1, 1), ?r2)"
    unfolding sliding_script_def z(1) sum.case Let_def cut add by (rule if_P)
  then have step: "sliding_step key limit window (t, x) r = (True, ?r2)"
    using assms(2) unfolding sliding_step_def sliding_check_def Let_def and_then_def by simp
  have "0 < (uint window + 1) * 1000000" by (intro mult_pos_pos add_nonneg_pos) simp_all
  then have "t < t + seconds (uint window + 1)" by (simp add: seconds_def)
  then have "zset_at t ?k ?r2 = Inr [?p]"
    using zset_at_expire [of t ?k "put_zset t ?k [?p] (put_zset t ?k z r)" "[?p]" t "uint window + 1"]
    by simp
  with step show ?thesis by (rule that)
qed

text \<open>
  The condition on the random suffixes matters: requests of one millisecond with the same suffix
  share one member, so with a limit of two or more all of them are let through, however many.
\<close>

theorem sliding_same_member:
  assumes "r (''rate:'' @ key) = None" "0 \<le> t" "2 \<le> uint limit" "0 < uint (window * 1000)"
  shows "sliding_admitted_at key limit window (replicate n (t, x)) r = replicate n (t div 1000)"
proof -
  have "sliding_admitted_at key limit window (replicate n (t, x)) r = replicate n (t div 1000)"
    if "zset_at t (''rate:'' @ key) r \<in> {Inr [], Inr [(t div 1000, sliding_member (t div 1000) x)]}" for r
    using that
  proof (induction n arbitrary: r)
    case (Suc n)
    from Suc.prems assms(2-4) obtain r' where s: "sliding_step key limit window (t, x) r = (True, r')"
      "zset_at t (''rate:'' @ key) r' = Inr [(t div 1000, sliding_member (t div 1000) x)]"
      by (rule sliding_same_step)
    then have "sliding_admitted_at key limit window (replicate n (t, x)) r' = replicate n (t div 1000)"
      by (intro Suc.IH) simp
    then show ?case using s(1) by (simp add: admitted.simps(2) request_ms_def [of "(t, x)"])
  qed simp
  moreover have "zset_at t (''rate:'' @ key) r = Inr []" using assms(1) by (simp add: zset_at_def lookup_def)
  ultimately show ?thesis by simp
qed

theorem sliding_same_member_witness:
  "sliding_admitted_at ''k'' 2 1 (replicate 5 (7000, ''0.17'')) empty_redis = replicate 5 7"
  using sliding_same_member [of empty_redis "''k''" 7000 2 1 5 "''0.17''"]
  by (simp add: empty_redis_def)

end
