(* ===== verification/UserDirectory.thy ===== *)
theory UserDirectory
  imports Users RateLimit
begin

text \<open>
  How users see each other: the search and profile queries and the block list of
  \<open>PostgresUserRepository\<close>, the profile cache (\<open>crates/infrastructure/src/cache/profile.rs\<close>) and the
  handlers of \<open>crates/api/src/handlers/users/\<close> and \<open>crates/api/src/handlers/blocks/\<close>.
\<close>

section \<open>Search\<close>

text \<open>
  \<open>LIKE\<close> on characters, from left to right: \<open>%\<close> is any sequence, \<open>_\<close> any character, a backslash
  takes the next character literally. \<open>None\<close> is the error of a pattern that ends with its backslash
  (22025), which is raised when the match gets there.
\<close>

function like :: "string list \<Rightarrow> string list \<Rightarrow> bool option" where
  "like [] t = Some (t = [])"
| "like (p # ps) t =
     (if p = ''%'' then
        (case like ps t of
           Some False \<Rightarrow> (case t of [] \<Rightarrow> Some False | _ # t' \<Rightarrow> like (p # ps) t')
         | r \<Rightarrow> r)
      else
        (case t of
           [] \<Rightarrow> Some False
         | c # t' \<Rightarrow>
             if p = ''_'' then like ps t'
             else if p = [CHR 0x5C] then
               (case ps of [] \<Rightarrow> None | q # qs \<Rightarrow> if c = q then like qs t' else Some False)
             else if c = p then like ps t' else Some False))"
  by pat_completeness auto

termination like
  by (relation "measure (\<lambda>(p, t). length p + length t)") auto

definition ilike :: "user_env \<Rightarrow> string \<Rightarrow> string \<Rightarrow> bool option" where
  "ilike env text pat = like (chars (ue_fold env pat)) (chars (ue_fold env text))"

text \<open>\<open>a ILIKE p OR b ILIKE p OR ..\<close>, where NULL does not match.\<close>

fun any_ilike :: "user_env \<Rightarrow> string \<Rightarrow> string option list \<Rightarrow> bool option" where
  "any_ilike env pat [] = Some False"
| "any_ilike env pat (None # ts) = any_ilike env pat ts"
| "any_ilike env pat (Some t # ts) =
     (case ilike env t pat of Some False \<Rightarrow> any_ilike env pat ts | r \<Rightarrow> r)"

fun filter_fallible :: "('r \<Rightarrow> bool option) \<Rightarrow> 'r list \<Rightarrow> 'r list option" where
  "filter_fallible P [] = Some []"
| "filter_fallible P (r # rs) =
     (case P r of
        None \<Rightarrow> None
      | Some b \<Rightarrow> map_option (\<lambda>xs. if b then r # xs else xs) (filter_fallible P rs))"

definition strip_at :: "string \<Rightarrow> string" where
  "strip_at q = dropWhile (\<lambda>c. c = CHR ''@'') q"

definition search_pattern :: "string \<Rightarrow> string" where
  "search_pattern q =
     (if starts_with ''@'' q then strip_at q @ ''%''
      else if starts_with ''+'' q then q
      else ''%'' @ q @ ''%'')"

definition profile_of :: "db \<Rightarrow> uuid \<Rightarrow> profile_row option" where
  "profile_of d u = select_one (\<lambda>p. up_user_id p = u) (user_profiles d)"

definition blocks :: "db \<Rightarrow> uuid \<Rightarrow> uuid \<Rightarrow> bool" where
  "blocks d a b \<longleftrightarrow> exists_where (\<lambda>r. ub_blocker_id r = a \<and> ub_blocked_id r = b) (user_blocks d)"

definition search_candidates :: "uuid \<Rightarrow> db \<Rightarrow> user_row list" where
  "search_candidates me d =
     select_where (\<lambda>u. u_deleted_at u = None \<and> u_is_active u \<and> u_id u \<noteq> me \<and>
       \<not> blocks d (u_id u) me \<and> \<not> blocks d me (u_id u)) (users d)"

text \<open>\<open>ORDER BY u.username NULLS LAST, up.display_name NULLS LAST\<close> under the collation.\<close>

definition nulls_last :: "user_env \<Rightarrow> string option \<Rightarrow> bool \<times> string" where
  "nulls_last env v = (case v of None \<Rightarrow> (True, '''') | Some s \<Rightarrow> (False, ue_sort_key env s))"

definition search_order :: "user_env \<Rightarrow> db \<Rightarrow> user_row list \<Rightarrow> user_row list" where
  "search_order env d rows =
     sort_key (\<lambda>u. nulls_last env (u_username u))
       (sort_key (\<lambda>u. nulls_last env (map_option up_display_name (profile_of d (u_id u)))) rows)"

definition search_users ::
  "user_env \<Rightarrow> string \<Rightarrow> int \<Rightarrow> uuid \<Rightarrow> db \<Rightarrow> (uuid \<times> string option \<times> string \<times> string option) list dres" where
  "search_users env q limit me d =
     (let pat = search_pattern q;
          hit = (\<lambda>u. any_ilike env pat
            [u_username u, map_option up_display_name (profile_of d (u_id u)), Some (u_phone u)])
      in if limit < 0 then Inl (from_sqlx (Database (Some ''2201W'')))
         else if limit = 0 then Inr []
         else case filter_fallible hit (search_candidates me d) of
           None \<Rightarrow> Inl (from_sqlx (Database (Some ''22025'')))
         | Some rows \<Rightarrow>
             Inr (map (\<lambda>u. (u_id u, u_username u,
                      unwrap_or (map_option up_display_name (profile_of d (u_id u))) '''', u_avatar_url u))
                   (take (nat limit) (search_order env d rows))))"

definition find_profile_by_id :: "uuid \<Rightarrow> db \<Rightarrow> profile option dres" where
  "find_profile_by_id i d =
     Inr (map_option
       (\<lambda>u. \<lparr>pf_id = u_id u, pf_username = u_username u,
          pf_display_name = unwrap_or (map_option up_display_name (profile_of d (u_id u))) '''',
          pf_bio = Option.bind (profile_of d (u_id u)) up_bio,
          pf_avatar_url = u_avatar_url u, pf_status_text = u_status_text u\<rparr>)
       (select_one (\<lambda>u. u_id u = i \<and> u_deleted_at u = None \<and> u_is_active u) (users d)))"

section \<open>Blocks\<close>

definition is_user_blocked :: "uuid \<Rightarrow> uuid \<Rightarrow> db \<Rightarrow> bool dres" where
  "is_user_blocked a b d = Inr (blocks d a b)"

definition block_user :: "uuid \<Rightarrow> timestamp \<Rightarrow> uuid \<Rightarrow> uuid \<Rightarrow> (db, domain_error, uuid) op" where
  "block_user new_id now a b d =
     (if a = b then (Inl (from_sqlx check_violation), d)
      else if exists_where (\<lambda>r. ub_id r = new_id) (user_blocks d) \<or> blocks d a b then (Inr new_id, d)
      else if \<not> user_exists d a \<or> \<not> user_exists d b then (Inl (from_sqlx foreign_key_violation), d)
      else (Inr new_id, d\<lparr>user_blocks := user_blocks d @
             [\<lparr>ub_id = new_id, ub_blocker_id = a, ub_blocked_id = b, ub_created_at = now\<rparr>]\<rparr>))"

definition unblock_user :: "uuid \<Rightarrow> uuid \<Rightarrow> (db, domain_error, bool) op" where
  "unblock_user a b d =
     (let P = (\<lambda>r. ub_blocker_id r = a \<and> ub_blocked_id r = b)
      in (Inr (count_where P (user_blocks d) > 0), d\<lparr>user_blocks := delete_where P (user_blocks d)\<rparr>))"

definition list_blocked_users :: "uuid \<Rightarrow> db \<Rightarrow> (uuid \<times> uuid) list dres" where
  "list_blocked_users a d =
     Inr (map (\<lambda>r. (ub_id r, ub_blocked_id r))
       (order_by_desc ub_created_at (select_where (\<lambda>r. ub_blocker_id r = a) (user_blocks d))))"

section \<open>The profile cache\<close>

definition profile_ttl_seconds :: int where
  "profile_ttl_seconds = 300"

definition profile_key :: "user_env \<Rightarrow> uuid \<Rightarrow> string" where
  "profile_key env u = ''profile:'' @ re_show (ue_redis env) u"

definition cache_get :: "user_env \<Rightarrow> timestamp \<Rightarrow> uuid \<Rightarrow> profile option rop" where
  "cache_get env now u =
     and_then (redis_get now (profile_key env u)) (\<lambda>cached.
       case cached of
         None \<Rightarrow> ret None
       | Some json \<Rightarrow>
           (case ue_profile_parse env json of
              Inl e \<Rightarrow> throw (TypeError (''Failed to deserialize cached profile'' @ e))
            | Inr p \<Rightarrow> ret (Some p)))"

definition cache_set :: "user_env \<Rightarrow> timestamp \<Rightarrow> profile \<Rightarrow> unit rop" where
  "cache_set env now p =
     (case ue_profile_json env p of
        Inl e \<Rightarrow> throw (TypeError (''Failed to serialize profile'' @ e))
      | Inr json \<Rightarrow> (\<lambda>r. (Inr (), redis_set_ex now (profile_key env (pf_id p)) json profile_ttl_seconds r)))"

definition cache_invalidate :: "user_env \<Rightarrow> uuid \<Rightarrow> unit rop" where
  "cache_invalidate env u r = (Inr (), redis_del (profile_key env u) r)"

section \<open>Handlers\<close>

text \<open>A body is \<open>Inl\<close> of the error text of a JSON answer or \<open>Inr\<close> of the payload.\<close>

type_synonym 'a answer = "nat \<times> (string + 'a)"

record user_search_result =
  sr_id :: uuid
  sr_username :: "string option"
  sr_display_name :: string
  sr_avatar_url :: "string option"

definition search_result_of :: "uuid \<times> string option \<times> string \<times> string option \<Rightarrow> user_search_result" where
  "search_result_of r =
     (case r of (i, un, dn, av) \<Rightarrow>
        \<lparr>sr_id = i, sr_username = un, sr_display_name = dn, sr_avatar_url = av\<rparr>)"

definition h_search_users ::
  "user_env \<Rightarrow> timestamp \<Rightarrow> uuid \<Rightarrow> string option \<Rightarrow> int option \<Rightarrow> user_search_result list answer handler" where
  "h_search_users env now auth q limit_opt =
     (let limit = min (unwrap_or limit_opt 20) 50
      in case q of
           None \<Rightarrow> ret (400, Inl ''Query parameter 'q' is required'')
         | Some term \<Rightarrow>
             if trim term = '''' then ret (400, Inl ''Query parameter 'q' is required'')
             else
               and_then (on_redis (ue_redis env)
                 (otp_check_rate_limit now (''search:'' @ re_show (ue_redis env) auth) 30 60)) (\<lambda>allowed.
               if \<not> allowed then ret (429, Inl ''Too many search requests'')
               else
                 and_then (read_db (search_users env term limit auth)) (\<lambda>results.
                 ret (200, Inr (map search_result_of results)))))"

definition cached_profile :: "user_env \<Rightarrow> timestamp \<Rightarrow> uuid \<Rightarrow> profile option handler" where
  "cached_profile env now u s =
     (case cache_get env now u (srv_redis s) of
        (Inr (Some p), r) \<Rightarrow> (Inr (Some p), s\<lparr>srv_redis := r\<rparr>)
      | (_, r) \<Rightarrow> (Inr None, s\<lparr>srv_redis := r\<rparr>))"

definition remember_profile :: "user_env \<Rightarrow> timestamp \<Rightarrow> profile \<Rightarrow> unit handler" where
  "remember_profile env now p s = (Inr (), s\<lparr>srv_redis := snd (cache_set env now p (srv_redis s))\<rparr>)"

definition profile_answer :: "user_env \<Rightarrow> timestamp \<Rightarrow> uuid \<Rightarrow> (nat \<times> profile) handler" where
  "profile_answer env now u =
     and_then (cached_profile env now u) (\<lambda>cached.
       case cached of
         Some p \<Rightarrow> ret (200, p)
       | None \<Rightarrow>
           and_then (read_db (find_profile_by_id u)) (\<lambda>found.
           and_then (lift_result (ok_or found (NotFound ''User not found''))) (\<lambda>p.
           and_then (remember_profile env now p) (\<lambda>_. ret (200, p)))))"

definition h_get_user_profile :: "user_env \<Rightarrow> timestamp \<Rightarrow> uuid \<Rightarrow> uuid \<Rightarrow> (nat \<times> profile) handler" where
  "h_get_user_profile env now auth u =
     and_then (read_db (is_user_blocked auth u)) (\<lambda>b.
     if b then throw (NotFound ''User not found'')
     else
       and_then (read_db (is_user_blocked u auth)) (\<lambda>b'.
       if b' then throw (NotFound ''User not found'')
       else profile_answer env now u))"

definition h_get_my_profile :: "user_env \<Rightarrow> timestamp \<Rightarrow> uuid \<Rightarrow> (nat \<times> profile) handler" where
  "h_get_my_profile env now auth = profile_answer env now auth"

record block_response =
  br_id :: uuid
  br_blocked_id :: uuid
  br_created_at :: timestamp

definition h_block_user :: "uuid \<Rightarrow> timestamp \<Rightarrow> uuid \<Rightarrow> uuid \<Rightarrow> block_response answer handler" where
  "h_block_user new_id now auth u =
     (if u = auth then ret (400, Inl ''Cannot block yourself'')
      else
        and_then (read_db (is_user_blocked auth u)) (\<lambda>existing.
        if existing then ret (409, Inl ''User already blocked'')
        else
          and_then (on_db (block_user new_id now auth u)) (\<lambda>i.
          ret (201, Inr \<lparr>br_id = i, br_blocked_id = u, br_created_at = now\<rparr>))))"

definition h_unblock_user :: "uuid \<Rightarrow> uuid \<Rightarrow> unit answer handler" where
  "h_unblock_user auth u =
     and_then (on_db (unblock_user auth u)) (\<lambda>deleted.
       if deleted then ret (204, Inr ()) else ret (404, Inl ''Block not found''))"

definition h_list_blocked :: "timestamp \<Rightarrow> uuid \<Rightarrow> (nat \<times> block_response list) handler" where
  "h_list_blocked now auth =
     and_then (read_db (list_blocked_users auth)) (\<lambda>bs.
       ret (200, map (\<lambda>(i, b). \<lparr>br_id = i, br_blocked_id = b, br_created_at = now\<rparr>) bs))"


section \<open>Who sees whom\<close>

lemma filter_fallible_set: "filter_fallible P rs = Some xs \<Longrightarrow> set xs = {r \<in> set rs. P r = Some True}"
  by (induction rs arbitrary: xs) (auto split: option.splits if_splits)

lemma filter_fallible_total:
  "(\<And>r. r \<in> set rs \<Longrightarrow> P r = Some (Q r)) \<Longrightarrow> filter_fallible P rs = Some (filter Q rs)"
  by (induction rs) auto

lemma set_search_order [simp]: "set (search_order env d rows) = set rows"
  by (simp add: search_order_def)

lemma search_users_candidates:
  assumes "search_users env q limit me d = Inr found" "x \<in> set found"
  shows "\<exists>u\<in>set (search_candidates me d). fst x = u_id u"
proof (cases "limit = 0")
  case False
  then show ?thesis
    using assms
    by (auto simp: search_users_def Let_def dest!: filter_fallible_set in_set_takeD split: if_splits option.splits)
      blast
qed (use assms in \<open>simp add: search_users_def\<close>)

lemma profile_hidden:
  assumes "blocks (srv_db s) a b \<or> blocks (srv_db s) b a"
  shows "h_get_user_profile env now a b s = (Inl (NotFound ''User not found''), s)"
  using assms by (auto simp: h_get_user_profile_def op_simps read_db_def and_then_def is_user_blocked_def)

lemma search_hides:
  assumes "blocks d a b \<or> blocks d b a" "search_users env q limit a d = Inr found"
  shows "b \<notin> fst ` set found"
  using assms search_users_candidates [OF assms(2)]
  by (fastforce simp: search_candidates_def set_select_where)

text \<open>
  C31. A block works at once and in both directions: after a user blocked another, neither finds the
  other's profile, whatever the profile cache holds, and neither finds the other in a search.
\<close>

theorem block_hides_both:
  assumes "h_block_user new_id now a b s = (Inr (201, body), s')"
    and "\<forall>r\<in>set (user_blocks (srv_db s)). ub_id r \<noteq> new_id"
  shows "h_get_user_profile env t a b s' = (Inl (NotFound ''User not found''), s') \<and>
    h_get_user_profile env t b a s' = (Inl (NotFound ''User not found''), s') \<and>
    (search_users env q limit a (srv_db s') = Inr found \<longrightarrow> b \<notin> fst ` set found) \<and>
    (search_users env q limit b (srv_db s') = Inr found \<longrightarrow> a \<notin> fst ` set found)"
proof -
  have "blocks (srv_db s') a b"
    using assms
    by (auto simp: h_block_user_def block_user_def is_user_blocked_def read_db_def on_db_def and_then_def
        blocks_def exists_where_def list_ex_iff split: if_splits)
  then show ?thesis using profile_hidden [of s'] search_hides by blast
qed

definition two_people :: srv where
  "two_people = no_users\<lparr>srv_db := empty_db\<lparr>users := [sample_user 1 ''+1000000001'', sample_user 2 ''+1000000002'']\<rparr>\<rparr>"

theorem block_hides_both_witness:
  "search_users sample_user_env ''+1000000002'' 20 1 (srv_db two_people) = Inr [(2, None, '''', None)] \<and>
   (let s' = snd (h_block_user 9 5 1 2 two_people)
    in h_get_user_profile sample_user_env 6 2 1 s' = (Inl (NotFound ''User not found''), s') \<and>
       search_users sample_user_env ''+1000000002'' 20 1 (srv_db s') = Inr [])"
proof -
  let ?s' = "snd (h_block_user 9 5 1 2 two_people)"
  have "fst (h_block_user 9 5 1 2 two_people) = Inr (201, Inr \<lparr>br_id = 9, br_blocked_id = 2, br_created_at = 5\<rparr>)"
    by code_simp
  then have b: "h_block_user 9 5 1 2 two_people = (Inr (201, Inr \<lparr>br_id = 9, br_blocked_id = 2, br_created_at = 5\<rparr>), ?s')"
    by (metis prod.collapse)
  have "user_blocks (srv_db two_people) = []" by code_simp
  then have "h_get_user_profile sample_user_env 6 2 1 ?s' = (Inl (NotFound ''User not found''), ?s')"
    using block_hides_both [OF b] by simp
  moreover have "search_users sample_user_env ''+1000000002'' 20 1 (srv_db two_people) = Inr [(2, None, '''', None)]"
    "search_users sample_user_env ''+1000000002'' 20 1 (srv_db ?s') = Inr []"
    by code_simp+
  ultimately show ?thesis by (simp add: Let_def)
qed

section \<open>What a search finds\<close>

text \<open>A term without the characters that \<open>LIKE\<close> treats specially.\<close>

definition plain :: "string list \<Rightarrow> bool" where
  "plain p \<longleftrightarrow> list_all (\<lambda>c. c \<notin> {''%'', ''_'', [CHR 0x5C]}) p"

lemma like_plain: "plain p \<Longrightarrow> like (p @ r) t = (if take (length p) t = p then like r (drop (length p) t) else Some False)"
proof (induction p arbitrary: t)
  case (Cons c p)
  then show ?case by (cases t) (auto simp: plain_def)
qed simp

lemma like_percent_end: "like [''%''] t = Some True"
  by (induction t) auto

definition contains :: "'a list \<Rightarrow> 'a list \<Rightarrow> bool" where
  "contains p t \<longleftrightarrow> (\<exists>a b. t = a @ p @ b)"

lemma contains_Cons: "contains p (x # t) \<longleftrightarrow> take (length p) (x # t) = p \<or> contains p t"
proof
  assume "contains p (x # t)"
  then obtain a b where ab: "x # t = a @ p @ b" unfolding contains_def by blast
  show "take (length p) (x # t) = p \<or> contains p t"
  proof (cases a)
    case Nil
    then show ?thesis using ab by simp
  next
    case (Cons y a')
    then show ?thesis using ab unfolding contains_def by auto
  qed
next
  assume "take (length p) (x # t) = p \<or> contains p t"
  then show "contains p (x # t)"
  proof
    assume "take (length p) (x # t) = p"
    then have "x # t = [] @ p @ drop (length p) (x # t)" by (metis append_Nil append_take_drop_id)
    then show ?thesis unfolding contains_def by blast
  next
    assume "contains p t"
    then obtain a b where "t = a @ p @ b" unfolding contains_def by blast
    then have "x # t = (x # a) @ p @ b" by simp
    then show ?thesis unfolding contains_def by blast
  qed
qed

lemma like_contains:
  assumes "plain p"
  shows "like (''%'' # p @ [''%'']) t = Some (contains p t)"
proof (induction t)
  case Nil
  then show ?case using like_plain [OF assms, of "[''%'']" "[]"] by (simp add: contains_def)
next
  case (Cons x t)
  have l: "like (p @ [''%'']) (x # t) = Some (take (length p) (x # t) = p)"
    by (simp add: like_plain [OF assms] like_percent_end del: like.simps)
  show ?case
    using Cons by (subst like.simps) (simp add: l contains_Cons del: like.simps split: bool.split)
qed

lemma like_prefix:
  assumes "plain p"
  shows "like (p @ [''%'']) t = Some (take (length p) t = p)"
  by (simp add: like_plain [OF assms] like_percent_end del: like.simps)


definition shown_texts :: "db \<Rightarrow> user_row \<Rightarrow> string list" where
  "shown_texts d u =
     List.map_filter (\<lambda>t. t) [u_username u, map_option up_display_name (profile_of d (u_id u)), Some (u_phone u)]"

lemma any_ilike_total:
  "(\<And>t. ilike env t pat = Some (Q t)) \<Longrightarrow>
     any_ilike env pat ts = Some (\<exists>t\<in>set (List.map_filter (\<lambda>t. t) ts). Q t)"
  by (induction env pat ts rule: any_ilike.induct) (auto simp: map_filter_simps split: bool.split)

lemma is_ascii_lower: "is_ascii s \<Longrightarrow> is_ascii (to_lowercase s)"
  by (induction s) (auto simp: is_ascii_def to_lowercase_def ascii_lower_def of_char_of)

lemma chars_ascii_pattern:
  assumes "is_ascii q"
  shows "chars (to_lowercase (''%'' @ q @ ''%'')) = ''%'' # chars (to_lowercase q) @ [''%'']"
proof -
  have l: "to_lowercase (''%'' @ q @ ''%'') = CHR ''%'' # to_lowercase q @ ''%''"
    by (simp add: to_lowercase_def ascii_lower_def)
  have "is_ascii (CHR ''%'' # to_lowercase q @ ''%'')" "is_ascii (to_lowercase q)"
    using is_ascii_lower [OF assms] by (simp_all add: is_ascii_def)
  then show ?thesis unfolding l by (simp only: chars_ascii) simp
qed

text \<open>
  C32. Search against its reference meaning, for a term of ordinary ASCII characters (no \<open>%\<close>, \<open>_\<close> or
  backslash) that does not start with \<open>@\<close> or \<open>+\<close>: the result is the first \<open>limit\<close> of all other active
  accounts, with no block in either direction, in whose username, display name or phone number the term
  occurs, ignoring case, by username and then display name. (The handler caps the limit at 50; the
  documentation names username and display name only.) \<open>fold_ascii\<close> says that the database's case
  folding lowers ASCII letters.
\<close>

theorem search_meaning:
  assumes fold_ascii: "\<And>s. is_ascii s \<Longrightarrow> ue_fold env s = to_lowercase s"
    and "is_ascii q" "plain (chars (to_lowercase q))" "\<not> starts_with ''@'' q" "\<not> starts_with ''+'' q" "0 \<le> limit"
  shows "search_users env q limit me d = Inr (map (\<lambda>u. (u_id u, u_username u,
      unwrap_or (map_option up_display_name (profile_of d (u_id u))) '''', u_avatar_url u))
    (take (nat limit) (search_order env d (filter (\<lambda>u. u_deleted_at u = None \<and> u_is_active u \<and> u_id u \<noteq> me \<and>
      \<not> blocks d (u_id u) me \<and> \<not> blocks d me (u_id u) \<and>
      (\<exists>t\<in>set (shown_texts d u). contains (chars (to_lowercase q)) (chars (ue_fold env t)))) (users d)))))"
proof -
  let ?pat = "''%'' @ q @ ''%''" and ?M = "\<lambda>t. contains (chars (to_lowercase q)) (chars (ue_fold env t))"
  let ?C = "search_candidates me d"
  have pat: "search_pattern q = ?pat" using assms(4,5) by (simp add: search_pattern_def)
  have "is_ascii ?pat" using assms(2) by (simp add: is_ascii_def)
  then have "chars (ue_fold env ?pat) = ''%'' # chars (to_lowercase q) @ [''%'']"
    using fold_ascii [of ?pat] chars_ascii_pattern [OF assms(2)] by simp
  then have "ilike env t ?pat = Some (?M t)" for t
    unfolding ilike_def using like_contains [OF assms(3)] by simp
  then have hit: "any_ilike env ?pat ts = Some (\<exists>t\<in>set (List.map_filter (\<lambda>t. t) ts). ?M t)" for ts
    by (rule any_ilike_total)
  define hits where "hits = filter (\<lambda>u. \<exists>t\<in>set (shown_texts d u). ?M t) ?C"
  have f: "filter_fallible (\<lambda>u. any_ilike env ?pat
      [u_username u, map_option up_display_name (profile_of d (u_id u)), Some (u_phone u)]) ?C = Some hits"
    unfolding hits_def shown_texts_def by (rule filter_fallible_total) (rule hit)
  have "search_users env q limit me d = Inr (map (\<lambda>u. (u_id u, u_username u,
      unwrap_or (map_option up_display_name (profile_of d (u_id u))) '''', u_avatar_url u))
        (take (nat limit) (search_order env d hits)))"
    using assms(6) f by (cases "limit = 0") (simp_all add: search_users_def pat Let_def)
  moreover have "hits = filter (\<lambda>u. u_deleted_at u = None \<and> u_is_active u \<and> u_id u \<noteq> me \<and>
      \<not> blocks d (u_id u) me \<and> \<not> blocks d me (u_id u) \<and> (\<exists>t\<in>set (shown_texts d u). ?M t)) (users d)"
    unfolding hits_def search_candidates_def select_where_def filter_filter conj_assoc
    by (rule filter_cong [OF refl]) blast
  ultimately show ?thesis by (simp only:)
qed

theorem search_meaning_witness:
  "search_users sample_user_env ''DEV'' 20 1 (srv_db with_julio) = Inr [(7, Some ''julio_dev'', '''', None)]"
proof -
  have a: "ue_fold sample_user_env s = to_lowercase s" for s by (simp add: sample_user_env_def)
  have p: "is_ascii ''DEV''" "plain (chars (to_lowercase ''DEV''))" "\<not> starts_with ''@'' ''DEV''"
    "\<not> starts_with ''+'' ''DEV''"
    by code_simp+
  have u: "users (srv_db with_julio) = [row_of_user julio None]" "shown_texts (srv_db with_julio) (row_of_user julio None) =
      [''julio_dev'', ''+573001234567'']" "user_blocks (srv_db with_julio) = []" "user_profiles (srv_db with_julio) = []"
    by code_simp+
  have r: "u_id (row_of_user julio None) = 7" "u_deleted_at (row_of_user julio None) = None" "u_is_active (row_of_user julio None)"
    "u_username (row_of_user julio None) = Some ''julio_dev''" "u_avatar_url (row_of_user julio None) = None"
    by code_simp+
  have "chars (to_lowercase ''julio_dev'') = map (\<lambda>c. [c]) ''julio_'' @ chars (to_lowercase ''DEV'') @ []"
    by code_simp
  then have "contains (chars (to_lowercase ''DEV'')) (chars (to_lowercase ''julio_dev''))"
    unfolding contains_def by blast
  then show ?thesis
    by (subst search_meaning [OF a p]) (simp_all add: u r a blocks_def exists_where_def search_order_def profile_of_def select_one_def)
qed

end
