(* ===== verification/Contacts.thy ===== *)
theory Contacts
  imports UserDirectory
begin

text \<open>
  The address book: \<open>crates/domain/src/contact/\<close>, \<open>PostgresContactRepository\<close>
  (\<open>crates/infrastructure/src/repositories/contact.rs\<close>) and the handlers of
  \<open>crates/api/src/handlers/contacts/\<close>. \<open>hash\<close> is \<open>hash_phone\<close> with the server's secret and
  \<open>sha\<close> is \<open>hash_phone_sha256\<close>.
\<close>

section \<open>The entity\<close>

record contact =
  ct_id :: uuid
  ct_owner_id :: uuid
  ct_contact_id :: "uuid option"
  ct_phone :: phone_number
  ct_nickname :: "string option"
  ct_is_favorite :: bool
  ct_created_at :: timestamp

definition contact_new :: "uuid \<Rightarrow> timestamp \<Rightarrow> uuid \<Rightarrow> phone_number \<Rightarrow> uuid option \<Rightarrow> contact" where
  "contact_new new_id now owner phone contact =
     \<lparr>ct_id = new_id, ct_owner_id = owner, ct_contact_id = contact, ct_phone = phone, ct_nickname = None,
      ct_is_favorite = False, ct_created_at = now\<rparr>"

definition with_nickname :: "string \<Rightarrow> contact \<Rightarrow> contact" where
  "with_nickname n c = c\<lparr>ct_nickname := Some n\<rparr>"

definition set_favorite :: "bool \<Rightarrow> contact \<Rightarrow> contact" where
  "set_favorite f c = c\<lparr>ct_is_favorite := f\<rparr>"

section \<open>The table\<close>

text \<open>
  The trigger normalizes the phone, after which the CHECK on its form holds; then the keys and the
  foreign keys are checked.
\<close>

definition contact_fks :: "db \<Rightarrow> contact_row \<Rightarrow> bool" where
  "contact_fks d r \<longleftrightarrow> user_exists d (co_owner_id r) \<and>
     (case co_contact_id r of None \<Rightarrow> True | Some u \<Rightarrow> user_exists d u)"

definition insert_contact :: "contact_row \<Rightarrow> db \<Rightarrow> sqlx_error + db" where
  "insert_contact r d =
     (case normalize_e164 (co_phone r) of
        Inl e \<Rightarrow> Inl e
      | Inr p \<Rightarrow>
          (let r' = r\<lparr>co_phone := p\<rparr>
           in if exists_where (\<lambda>x. co_id x = co_id r' \<or>
                   co_owner_id x = co_owner_id r' \<and> co_phone x = co_phone r') (contacts d)
              then Inl unique_violation
              else if \<not> contact_fks d r' then Inl foreign_key_violation
              else Inr (d\<lparr>contacts := contacts d @ [r']\<rparr>)))"

definition update_contact_row :: "uuid \<Rightarrow> (contact_row \<Rightarrow> contact_row) \<Rightarrow> db \<Rightarrow> sqlx_error + db" where
  "update_contact_row i f d =
     (case select_one (\<lambda>x. co_id x = i) (contacts d) of
        None \<Rightarrow> Inr d
      | Some r \<Rightarrow>
          (case normalize_e164 (co_phone (f r)) of
             Inl e \<Rightarrow> Inl e
           | Inr p \<Rightarrow>
               (let r' = (f r)\<lparr>co_phone := p\<rparr>
                in if exists_where (\<lambda>x. co_id x \<noteq> i \<and> co_owner_id x = co_owner_id r' \<and> co_phone x = co_phone r')
                     (contacts d)
                   then Inl unique_violation
                   else if \<not> contact_fks d r' then Inl foreign_key_violation
                   else Inr (d\<lparr>contacts := update_where (\<lambda>x. co_id x = i) (\<lambda>_. r') (contacts d)\<rparr>))))"

section \<open>Repository\<close>

definition contact_of_row :: "contact_row \<Rightarrow> contact dres" where
  "contact_of_row r =
     (case phone_number_new (co_phone r) of
        Inl e \<Rightarrow> Inl e
      | Inr p \<Rightarrow> Inr \<lparr>ct_id = co_id r, ct_owner_id = co_owner_id r, ct_contact_id = co_contact_id r,
          ct_phone = p, ct_nickname = co_nickname r, ct_is_favorite = co_is_favorite r,
          ct_created_at = co_created_at r\<rparr>)"

definition row_of_contact :: "contact \<Rightarrow> contact_row" where
  "row_of_contact c =
     \<lparr>co_id = ct_id c, co_owner_id = ct_owner_id c, co_contact_id = ct_contact_id c,
      co_phone = phone_str (ct_phone c), co_nickname = ct_nickname c, co_is_favorite = ct_is_favorite c,
      co_created_at = ct_created_at c\<rparr>"

definition create_contact :: "contact \<Rightarrow> (db, domain_error, unit) op" where
  "create_contact c = sql (insert_contact (row_of_contact c))"

definition find_contact_by_id :: "uuid \<Rightarrow> db \<Rightarrow> contact option dres" where
  "find_contact_by_id i d = opt_new contact_of_row (select_one (\<lambda>r. co_id r = i) (contacts d))"

definition find_by_owner_and_phone :: "uuid \<Rightarrow> string \<Rightarrow> db \<Rightarrow> contact option dres" where
  "find_by_owner_and_phone owner phone d =
     opt_new contact_of_row (select_one (\<lambda>r. co_owner_id r = owner \<and> co_phone r = phone) (contacts d))"

text \<open>\<open>ORDER BY nickname ASC, phone ASC\<close>: NULLs last, then by phone, under the collation.\<close>

definition contact_order :: "user_env \<Rightarrow> contact_row list \<Rightarrow> contact_row list" where
  "contact_order env rows =
     sort_key (\<lambda>r. nulls_last env (co_nickname r)) (sort_key (\<lambda>r. ue_sort_key env (co_phone r)) rows)"

definition find_all_by_owner :: "user_env \<Rightarrow> uuid \<Rightarrow> db \<Rightarrow> contact list dres" where
  "find_all_by_owner env owner d =
     collect_results (map contact_of_row (contact_order env (select_where (\<lambda>r. co_owner_id r = owner) (contacts d))))"

definition find_favorites :: "user_env \<Rightarrow> uuid \<Rightarrow> db \<Rightarrow> contact list dres" where
  "find_favorites env owner d =
     collect_results (map contact_of_row
       (contact_order env (select_where (\<lambda>r. co_owner_id r = owner \<and> co_is_favorite r) (contacts d))))"

definition update_contact :: "contact \<Rightarrow> (db, domain_error, unit) op" where
  "update_contact c =
     sql (update_contact_row (ct_id c) (\<lambda>r. r\<lparr>co_contact_id := ct_contact_id c,
       co_phone := phone_str (ct_phone c), co_nickname := ct_nickname c, co_is_favorite := ct_is_favorite c\<rparr>))"

definition delete_contact :: "uuid \<Rightarrow> (db, domain_error, unit) op" where
  "delete_contact i d = (Inr (), d\<lparr>contacts := delete_where (\<lambda>r. co_id r = i) (contacts d)\<rparr>)"

definition delete_by_owner :: "uuid \<Rightarrow> (db, domain_error, unit) op" where
  "delete_by_owner owner d = (Inr (), d\<lparr>contacts := delete_where (\<lambda>r. co_owner_id r = owner) (contacts d)\<rparr>)"

definition create_contact_raw ::
  "uuid \<Rightarrow> timestamp \<Rightarrow> uuid \<Rightarrow> string \<Rightarrow> string option \<Rightarrow> uuid option \<Rightarrow> (db, domain_error, unit) op" where
  "create_contact_raw new_id now owner phone nickname contact =
     sql (insert_contact \<lparr>co_id = new_id, co_owner_id = owner, co_contact_id = contact, co_phone = phone,
       co_nickname = nickname, co_is_favorite = False, co_created_at = now\<rparr>)"

definition find_user_by_phone :: "user_env \<Rightarrow> phone_number \<Rightarrow> db \<Rightarrow> user option dres" where
  "find_user_by_phone env p d =
     find_user env (\<lambda>r. u_phone r = phone_str p \<and> u_deleted_at r = None \<and> u_is_active r) d"

text \<open>
  The methods of the trait \<open>ContactRepository\<close>, which the code repeats with the same statements.
\<close>

definition contact_repo_create :: "contact \<Rightarrow> (db, domain_error, unit) op" where
  "contact_repo_create c = sql (insert_contact (row_of_contact c))"

definition contact_repo_find_by_id :: "uuid \<Rightarrow> db \<Rightarrow> contact option dres" where
  "contact_repo_find_by_id i d = opt_new contact_of_row (select_one (\<lambda>r. co_id r = i) (contacts d))"

definition contact_repo_find_by_owner_and_phone :: "uuid \<Rightarrow> phone_number \<Rightarrow> db \<Rightarrow> contact option dres" where
  "contact_repo_find_by_owner_and_phone owner phone d =
     opt_new contact_of_row
       (select_one (\<lambda>r. co_owner_id r = owner \<and> co_phone r = phone_str phone) (contacts d))"

definition contact_repo_find_all_by_owner :: "user_env \<Rightarrow> uuid \<Rightarrow> db \<Rightarrow> contact list dres" where
  "contact_repo_find_all_by_owner env owner d =
     collect_results (map contact_of_row (contact_order env (select_where (\<lambda>r. co_owner_id r = owner) (contacts d))))"

definition contact_repo_update :: "contact \<Rightarrow> (db, domain_error, unit) op" where
  "contact_repo_update c =
     sql (update_contact_row (ct_id c) (\<lambda>r. r\<lparr>co_contact_id := ct_contact_id c,
       co_phone := phone_str (ct_phone c), co_nickname := ct_nickname c, co_is_favorite := ct_is_favorite c\<rparr>))"

definition contact_repo_delete :: "uuid \<Rightarrow> (db, domain_error, unit) op" where
  "contact_repo_delete i d = (Inr (), d\<lparr>contacts := delete_where (\<lambda>r. co_id r = i) (contacts d)\<rparr>)"

text \<open>\<open>sync_contacts\<close>: the Redis set first, then the users of the hashes that it knows.\<close>

definition users_with_hashes :: "string list \<Rightarrow> db \<Rightarrow> (string \<times> uuid \<times> string option \<times> string option) list" where
  "users_with_hashes hs d =
     map (\<lambda>u. (u_phone_hash u, u_id u, u_username u, map_option up_display_name (profile_of d (u_id u))))
       (select_where (\<lambda>u. u_phone_hash u \<in> set hs \<and> u_deleted_at u = None \<and> u_is_active u) (users d))"

definition sync_contacts ::
  "user_env \<Rightarrow> timestamp \<Rightarrow> string list \<Rightarrow> (string \<times> uuid \<times> string option \<times> string option) list handler" where
  "sync_contacts env now hashes =
     (if hashes = [] then ret []
      else if \<not> ue_has_redis env
      then throw (Internal ''Redis connection not available for contact sync'')
      else
        and_then (on_redis (ue_redis env) (redis_smismember now phone_hashes hashes)) (\<lambda>found.
          let existing = map snd (filter fst (zip found hashes))
          in if existing = [] then ret []
             else read_db (\<lambda>d. Inr (users_with_hashes existing d))))"

section \<open>Handlers\<close>

record sync_match =
  sm_hash :: string
  sm_user_id :: uuid
  sm_username :: "string option"
  sm_display_name :: "string option"

text \<open>The phone of the request that produced a hash.\<close>

definition original_phone :: "(string \<Rightarrow> string) \<Rightarrow> string list \<Rightarrow> string \<Rightarrow> string" where
  "original_phone hash phones h = unwrap_or (find (\<lambda>p. hash p = h) phones) ''''"

definition h_sync_contacts ::
  "user_env \<Rightarrow> (string \<Rightarrow> string) \<Rightarrow> (string \<Rightarrow> string) \<Rightarrow> timestamp \<Rightarrow> string list \<Rightarrow> sync_match list answer handler" where
  "h_sync_contacts env hash sha now phones =
     (if phones = [] \<or> length phones > 1000
      then ret (400, Inl ''Phone list must be between 1 and 1000 items'')
      else
        and_then (sync_contacts env now (map hash phones)) (\<lambda>found.
        ret (200, Inr (map (\<lambda>(h, u, un, dn).
          \<lparr>sm_hash = sha (original_phone hash phones h), sm_user_id = u, sm_username = un, sm_display_name = dn\<rparr>)
          found))))"

record contact_response =
  cr_id :: uuid
  cr_contact_id :: "uuid option"
  cr_phone :: string
  cr_nickname :: "string option"
  cr_is_favorite :: bool
  cr_created_at :: timestamp

definition contact_to_response :: "contact \<Rightarrow> contact_response" where
  "contact_to_response c =
     \<lparr>cr_id = ct_id c, cr_contact_id = ct_contact_id c, cr_phone = phone_str (ct_phone c),
      cr_nickname = ct_nickname c, cr_is_favorite = ct_is_favorite c, cr_created_at = ct_created_at c\<rparr>"

definition h_list_contacts :: "user_env \<Rightarrow> uuid \<Rightarrow> (nat \<times> contact_response list) handler" where
  "h_list_contacts env auth =
     and_then (read_db (find_all_by_owner env auth)) (\<lambda>cs. ret (200, map contact_to_response cs))"

text \<open>\<open>create_contact\<close>; \<open>row_id\<close> and \<open>shown_id\<close> are the two \<open>Uuid::new_v4()\<close> of the code.\<close>

definition h_create_contact ::
  "uuid \<Rightarrow> uuid \<Rightarrow> timestamp \<Rightarrow> uuid \<Rightarrow> string \<Rightarrow> string option \<Rightarrow> contact_response answer handler" where
  "h_create_contact row_id shown_id now auth phone nickname =
     (let p = trim phone
      in if p = '''' \<or> \<not> starts_with ''+'' p then throw (Validation ''Invalid phone number format'')
         else
           and_then (read_db (find_by_owner_and_phone auth p)) (\<lambda>existing.
           if existing \<noteq> None then ret (409, Inl ''Contact already exists'')
           else
             and_then (read_db (find_id_by_phone p)) (\<lambda>contact.
             and_then (on_db (create_contact_raw row_id now auth p nickname contact)) (\<lambda>_.
             ret (201, Inr \<lparr>cr_id = shown_id, cr_contact_id = contact, cr_phone = p, cr_nickname = nickname,
               cr_is_favorite = False, cr_created_at = now\<rparr>)))))"

definition owned_contact :: "uuid \<Rightarrow> uuid \<Rightarrow> contact handler" where
  "owned_contact auth i =
     and_then (read_db (find_contact_by_id i)) (\<lambda>found.
     and_then (lift_result (ok_or found (NotFound ''Contact not found''))) (\<lambda>c.
     if ct_owner_id c \<noteq> auth then throw (Unauthorized ''Not authorized'') else ret c))"

definition h_update_contact ::
  "uuid \<Rightarrow> uuid \<Rightarrow> string option \<Rightarrow> bool option \<Rightarrow> (nat \<times> contact_response) handler" where
  "h_update_contact auth i nickname is_favorite =
     and_then (owned_contact auth i) (\<lambda>c.
       let c1 = (case nickname of None \<Rightarrow> c | Some n \<Rightarrow> with_nickname n c);
           c2 = (case is_favorite of None \<Rightarrow> c1 | Some f \<Rightarrow> set_favorite f c1)
       in and_then (on_db (update_contact c2)) (\<lambda>_. ret (200, contact_to_response c2)))"

definition h_delete_contact :: "uuid \<Rightarrow> uuid \<Rightarrow> nat handler" where
  "h_delete_contact auth i =
     and_then (owned_contact auth i) (\<lambda>c. and_then (on_db (delete_contact i)) (\<lambda>_. ret 204))"

section \<open>Ownership\<close>

text \<open>Both sets of repository methods are the same operations.\<close>

lemma contact_repo_same:
  "contact_repo_create = create_contact" "contact_repo_find_by_id = find_contact_by_id"
  "contact_repo_find_by_owner_and_phone ow p = find_by_owner_and_phone ow (phone_str p)"
  "contact_repo_find_all_by_owner = find_all_by_owner" "contact_repo_update = update_contact"
  "contact_repo_delete = delete_contact"
  by (simp_all add: fun_eq_iff contact_repo_create_def create_contact_def contact_repo_find_by_id_def
      find_contact_by_id_def contact_repo_find_by_owner_and_phone_def find_by_owner_and_phone_def
      contact_repo_find_all_by_owner_def find_all_by_owner_def contact_repo_update_def update_contact_def
      contact_repo_delete_def delete_contact_def)

lemma owned_contact_state: "snd (owned_contact auth i s) = s"
  by (auto simp: owned_contact_def and_then_def read_db_def ok_or_def split: sum.split option.split)

text \<open>Whoever is not the owner of a contact changes nothing and learns only that it exists.\<close>

lemma contact_only_owner:
  assumes "find_contact_by_id i (srv_db s) = Inr (Some c)" "ct_owner_id c \<noteq> auth"
  shows "h_update_contact auth i n f s = (Inl (Unauthorized ''Not authorized''), s)"
    and "h_delete_contact auth i s = (Inl (Unauthorized ''Not authorized''), s)"
  using assms
  by (simp_all add: h_update_contact_def h_delete_contact_def owned_contact_def and_then_def read_db_def)

text \<open>
  A number that starts with a plus sign but has not 7 to 15 digits passes the handler's check; the
  trigger rejects it, and the client gets a 500 although the message is written for a 400.
\<close>

lemma create_contact_bad_number:
  assumes "trim phone \<noteq> ''''" "starts_with ''+'' (trim phone)" "normalize_e164 (trim phone) = Inl invalid_parameter"
    and "find_by_owner_and_phone auth (trim phone) (srv_db s) = Inr None"
  shows "h_create_contact a b now auth phone nick s = (Inl (Internal ''Database operation failed''), s)"
  using assms
  by (simp add: h_create_contact_def Let_def and_then_def find_id_by_phone_def on_db_def create_contact_raw_def
      sql_def insert_contact_def execute_def)

lemma create_contact_bad_number_example:
  "fst (h_create_contact 5 6 0 1 ''+12'' None no_users) = Inl (Internal ''Database operation failed'')"
  by code_simp

text \<open>The id in the answer is not the id of the stored row, so the client cannot use it.\<close>

lemma create_contact_wrong_id:
  assumes "h_create_contact row_id shown_id now auth phone nick s = (Inr (201, Inr resp), s')"
  shows "cr_id resp = shown_id \<and> (\<exists>r\<in>set (contacts (srv_db s')). co_id r = row_id \<and> co_owner_id r = auth)"
  using assms
  by (auto simp: h_create_contact_def Let_def and_then_def on_db_def create_contact_raw_def sql_def
      insert_contact_def execute_def read_db_def split: if_splits sum.splits prod.splits)


section \<open>Contact discovery\<close>

text \<open>Every reachable account has the hash of its phone in its row and in the Redis set.\<close>

definition hashes_known :: "(string \<Rightarrow> string) \<Rightarrow> timestamp \<Rightarrow> srv \<Rightarrow> bool" where
  "hashes_known hash now s \<longleftrightarrow>
     (\<exists>m. set_at now phone_hashes (srv_redis s) = Inr m \<and>
       (\<forall>u\<in>set (users (srv_db s)). u_deleted_at u = None \<and> u_is_active u \<longrightarrow>
          u_phone_hash u = hash (u_phone u) \<and> u_phone_hash u \<in> set m))"

lemma set_at_put_set:
  assumes "set_at now k r = Inr m'"
  shows "set_at now k (put_set now k m r) = Inr m"
proof (cases "m = []")
  case True
  then show ?thesis by (simp add: put_set_def set_at_def lookup_def)
next
  case False
  have "now < t" if "Option.bind (lookup now k r) re_expires = Some t" for t
    using that by (auto simp: lookup_def bind_eq_Some_conv split: option.splits if_splits)
  then show ?thesis
    using False by (cases "Option.bind (lookup now k r) re_expires") (auto simp: put_set_def set_at_def lookup_def)
qed

lemma create_user_hashes_known:
  assumes "hashes_known hash now s" "ue_has_redis env" "valid_user env u" "usr_phone_hash u = hash (phone_str (usr_phone u))"
    and "create_user env now u s = (Inr (), s')"
  shows "hashes_known hash now s'"
proof -
  obtain m where m: "set_at now phone_hashes (srv_redis s) = Inr m"
    "\<And>x. x \<in> set (users (srv_db s)) \<Longrightarrow> u_deleted_at x = None \<Longrightarrow> u_is_active x \<Longrightarrow>
       u_phone_hash x = hash (u_phone x) \<and> u_phone_hash x \<in> set m"
    using assms(1) unfolding hashes_known_def by blast
  let ?r = "row_of_user u None" and ?h = "usr_phone_hash u"
  have "row_ok env ?r" using assms(3) by (rule row_of_user_ok)
  then have n: "normalize_e164 (u_phone ?r) = Inr (u_phone ?r)" by (simp add: row_ok_def normalize_e164_id)
  obtain d where "insert_user ?r (srv_db s) = Inr d" and sd: "srv_db s' = d" using create_user_Inr [OF assms(5)] .
  then have d: "d = srv_db s\<lparr>users := users (srv_db s) @ [?r]\<rparr>"
    by (auto simp: insert_user_def n Let_def split: if_splits)
  have "srv_redis s' = put_set now phone_hashes (List.insert ?h m) (srv_redis s)"
  proof (cases rule: sql_on_db_cases [where w = "insert_user ?r" and s = s])
    case (ok d)
    then show ?thesis
      using assms(2,5) m(1) by (auto simp: create_user_def and_then_def if_redis_def on_redis_def redis_sadd_def)
  next
    case (err e)
    then show ?thesis using assms(5) by (simp add: create_user_def and_then_def)
  qed
  then have "set_at now phone_hashes (srv_redis s') = Inr (List.insert ?h m)"
    using set_at_put_set [OF m(1)] by simp
  moreover have "u_phone_hash x = hash (u_phone x) \<and> u_phone_hash x \<in> set (List.insert ?h m)"
    if "x \<in> set (users (srv_db s'))" "u_deleted_at x = None" "u_is_active x" for x
  proof (cases "x = ?r")
    case True
    then show ?thesis using assms(4) by (simp add: row_of_user_def)
  next
    case False
    then have "x \<in> set (users (srv_db s))" using that(1) by (simp add: sd d)
    then show ?thesis using m(2) [OF _ that(2,3)] by auto
  qed
  ultimately show ?thesis unfolding hashes_known_def by blast
qed

lemma filter_zip_map: "filter fst (zip (map P xs) xs) = map (Pair True) (filter P xs)"
  by (induction xs) auto

lemma find_Some_intro:
  assumes "x \<in> set xs" "P x" "\<And>y. y \<in> set xs \<Longrightarrow> P y \<Longrightarrow> y = x"
  shows "find P xs = Some x"
proof (cases "find P xs")
  case None
  then show ?thesis using assms(1,2) by (simp add: find_None_iff)
next
  case (Some y)
  then have "y \<in> set xs" "P y" by (auto simp: find_Some_iff)
  then show ?thesis using assms(3) Some by simp
qed

text \<open>
  Whatever the set holds: an account is reported for a submitted number whose hash is in its row and in the
  set. Of two numbers with one hash the first would be taken, so the submitted ones must not collide.
\<close>

lemma sync_rows:
  assumes m: "set_at now phone_hashes (srv_redis s) = Inr m"
    and "ue_has_redis env" "phones \<noteq> []" "length phones \<le> 1000"
    and inj: "inj_on hash (set phones)"
  shows "\<exists>found. h_sync_contacts env hash sha now phones s = (Inr (200, Inr found), s) \<and>
    (\<lambda>x. (sm_user_id x, sm_hash x)) ` set found =
      {(u_id u, sha p) | u p. u \<in> set (users (srv_db s)) \<and> u_deleted_at u = None \<and> u_is_active u \<and>
        p \<in> set phones \<and> u_phone_hash u = hash p \<and> hash p \<in> set m}"
proof -
  let ?hs = "map hash phones" and ?d = "srv_db s"
  let ?known = "filter (\<lambda>h. h \<in> set m) ?hs"
  let ?res = "users_with_hashes ?known ?d"
  have none: "users_with_hashes [] ?d = []" by (simp add: users_with_hashes_def select_where_def)
  have "sync_contacts env now ?hs s = (Inr ?res, s)"
    using assms(2,3) m
    by (simp add: sync_contacts_def and_then_def on_redis_def redis_smismember_def Let_def filter_zip_map none
        del: map_map) (simp add: comp_def none)
  then have h: "h_sync_contacts env hash sha now phones s = (Inr (200, Inr (map (\<lambda>(h, u, un, dn).
      \<lparr>sm_hash = sha (original_phone hash phones h), sm_user_id = u, sm_username = un, sm_display_name = dn\<rparr>) ?res)), s)"
    using assms(3,4) by (simp add: h_sync_contacts_def and_then_def)
  have orig: "original_phone hash phones (hash p) = p" if "p \<in> set phones" for p
    using find_Some_intro [OF that, of "\<lambda>q. hash q = hash p"] inj_onD [OF inj _ _ that]
    by (simp add: original_phone_def)
  have "(\<lambda>m. (sm_user_id m, sm_hash m)) ` set (map (\<lambda>(h, u, un, dn).
      \<lparr>sm_hash = sha (original_phone hash phones h), sm_user_id = u, sm_username = un, sm_display_name = dn\<rparr>) ?res) =
    (\<lambda>u. (u_id u, sha (original_phone hash phones (u_phone_hash u)))) `
      {u \<in> set (users ?d). u_phone_hash u \<in> set ?known \<and> u_deleted_at u = None \<and> u_is_active u}"
    unfolding users_with_hashes_def set_map set_select_where image_image by simp
  also have "\<dots> = {(u_id u, sha p) | u p. u \<in> set (users ?d) \<and> u_deleted_at u = None \<and> u_is_active u \<and>
        p \<in> set phones \<and> u_phone_hash u = hash p \<and> hash p \<in> set m}"
    using orig by (force simp: image_iff)
  finally show ?thesis using h by blast
qed

text \<open>When the rows have the hashes of their numbers, the accounts are those of the numbers.\<close>

lemma sync_numbers:
  assumes "set_at now phone_hashes (srv_redis s) = Inr m"
    and rows: "\<And>u. u \<in> set (users (srv_db s)) \<Longrightarrow> u_deleted_at u = None \<Longrightarrow> u_is_active u \<Longrightarrow>
      u_phone_hash u = hash (u_phone u)"
    and "ue_has_redis env" "phones \<noteq> []" "length phones \<le> 1000"
    and inj: "inj_on hash (set phones \<union> u_phone ` set (users (srv_db s)))"
  shows "\<exists>found. h_sync_contacts env hash sha now phones s = (Inr (200, Inr found), s) \<and>
    (\<lambda>x. (sm_user_id x, sm_hash x)) ` set found =
      {(u_id u, sha (u_phone u)) | u. u \<in> set (users (srv_db s)) \<and> u_deleted_at u = None \<and> u_is_active u \<and>
        u_phone u \<in> set phones \<and> hash (u_phone u) \<in> set m}"
proof -
  have "inj_on hash (set phones)" using inj by (rule inj_on_subset) simp
  note found = sync_rows [OF assms(1,3,4,5) this, where sha = sha]
  have "u_phone_hash u = hash p \<longleftrightarrow> p = u_phone u"
    if "u \<in> set (users (srv_db s))" "u_deleted_at u = None" "u_is_active u" "p \<in> set phones" for u p
    using rows [OF that(1-3)] inj_onD [OF inj, of "u_phone u" p] that by auto
  then have "{(u_id u, sha p) | u p. u \<in> set (users (srv_db s)) \<and> u_deleted_at u = None \<and> u_is_active u \<and>
        p \<in> set phones \<and> u_phone_hash u = hash p \<and> hash p \<in> set m} =
      {(u_id u, sha (u_phone u)) | u. u \<in> set (users (srv_db s)) \<and> u_deleted_at u = None \<and> u_is_active u \<and>
        u_phone u \<in> set phones \<and> hash (u_phone u) \<in> set m}"
    by blast
  with found show ?thesis by simp
qed

text \<open>
  C33. Contact discovery is exact for what the Redis set holds: of 1 to 1000 submitted numbers it reports
  those that belong to a live, active account whose hash is in the set, each with that account and with
  the plain hash of the very number submitted, and nothing else; an account whose hash is not in the
  set (after a failed \<open>SADD\<close>) is not found. The keyed \<open>hash\<close> has no collision on the numbers involved, and
  the rows of the accounts have the hash of their numbers, as registration and the migration write them.
\<close>

theorem sync_contacts_exact:
  assumes "set_at now phone_hashes (srv_redis s) = Inr m"
    and "\<And>u. u \<in> set (users (srv_db s)) \<Longrightarrow> u_deleted_at u = None \<Longrightarrow> u_is_active u \<Longrightarrow>
      u_phone_hash u = hash (u_phone u)"
    and "ue_has_redis env" "phones \<noteq> []" "length phones \<le> 1000"
    and "inj_on hash (set phones \<union> u_phone ` set (users (srv_db s)))"
  shows "\<exists>found. h_sync_contacts env hash sha now phones s = (Inr (200, Inr found), s) \<and>
    (\<lambda>x. (sm_user_id x, sm_hash x)) ` set found =
      {(u_id u, sha (u_phone u)) | u. u \<in> set (users (srv_db s)) \<and> u_deleted_at u = None \<and> u_is_active u \<and>
        u_phone u \<in> set phones \<and> hash (u_phone u) \<in> set m}"
  by (rule sync_numbers [OF assms])

theorem sync_contacts_exact_witness:
  "\<exists>found. h_sync_contacts sample_user_env (\<lambda>p. ''hash of '' @ p) (\<lambda>p. p) 5 [''+573001234567'', ''+1000''] with_julio =
      (Inr (200, Inr found), with_julio) \<and>
    (\<lambda>m. (sm_user_id m, sm_hash m)) ` set found = {(7, ''+573001234567'')}"
proof -
  have m: "set_at 5 phone_hashes (srv_redis with_julio) = Inr [''hash of +573001234567'']" by code_simp
  have e: "ue_has_redis sample_user_env" by code_simp
  have u: "users (srv_db with_julio) = [row_of_user julio None]" by code_simp
  have r: "u_id (row_of_user julio None) = 7" "u_deleted_at (row_of_user julio None) = None"
    "u_is_active (row_of_user julio None)" "u_phone (row_of_user julio None) = ''+573001234567''"
    "u_phone_hash (row_of_user julio None) = ''hash of +573001234567''" by code_simp+
  have "inj_on (\<lambda>p. ''hash of '' @ p) X" for X by (simp add: inj_on_def)
  from sync_contacts_exact [OF m _ e _ _ this, of "[''+573001234567'', ''+1000'']" "\<lambda>p. p"]
  show ?thesis by (auto simp: u r)
qed

end
