(* ===== verification/Tokens.thy ===== *)
theory Tokens
  imports Users Otp
begin

text \<open>
  Tokens: \<open>crates/api/src/services/jwt.rs\<close>. What comes from elsewhere is in \<open>auth_env\<close>: the signature
  and its check by the JWT library with the server's key pair (the library also checks the expiry),
  SHA-256 in hexadecimal, the JSON text of a refresh session, the parser of UUIDs, and the configured
  lifetimes. \<open>timestamp()\<close> is in seconds.
\<close>

record access_claims =
  ac_sub :: string
  ac_sid :: string
  ac_exp :: int
  ac_iat :: int

record refresh_session =
  rs_user_id :: string
  rs_session_id :: string
  rs_device_id :: string
  rs_device_name :: string
  rs_device_type :: string
  rs_push_token :: "string option"

record auth_env =
  ae_user :: user_env
  ae_hash_phone :: "string \<Rightarrow> string"
  ae_parse_uuid :: "string \<Rightarrow> string + uuid"
  ae_encode :: "access_claims \<Rightarrow> string + string"
  ae_decode :: "timestamp \<Rightarrow> string \<Rightarrow> string + access_claims"
  ae_sha256 :: "string \<Rightarrow> string"
  ae_session_json :: "refresh_session \<Rightarrow> string + string"
  ae_session_parse :: "string \<Rightarrow> string + refresh_session"
  ae_jwt_redis :: bool
  ae_access_ttl :: int
  ae_refresh_ttl :: int
  ae_otp_ttl :: int

abbreviation show_uuid :: "auth_env \<Rightarrow> uuid \<Rightarrow> string" where
  "show_uuid env \<equiv> re_show (ue_redis (ae_user env))"

definition temp_session_id :: string where
  "temp_session_id = ''temp''"

definition unix_seconds :: "timestamp \<Rightarrow> int" where
  "unix_seconds t = t div 1000000"

section \<open>Access tokens\<close>

definition encode_claims :: "auth_env \<Rightarrow> access_claims \<Rightarrow> service_error + string" where
  "encode_claims env c = (case ae_encode env c of Inl e \<Rightarrow> Inl (SInternal e) | Inr t \<Rightarrow> Inr t)"

definition generate_access_token :: "auth_env \<Rightarrow> timestamp \<Rightarrow> uuid \<Rightarrow> uuid \<Rightarrow> service_error + string" where
  "generate_access_token env now u sid =
     encode_claims env \<lparr>ac_sub = show_uuid env u, ac_sid = show_uuid env sid,
       ac_exp = unix_seconds now + ae_access_ttl env, ac_iat = unix_seconds now\<rparr>"

definition generate_temp_token :: "auth_env \<Rightarrow> timestamp \<Rightarrow> uuid \<Rightarrow> service_error + string" where
  "generate_temp_token env now u =
     encode_claims env \<lparr>ac_sub = show_uuid env u, ac_sid = temp_session_id,
       ac_exp = unix_seconds now + 300, ac_iat = unix_seconds now\<rparr>"

definition validate_access_token :: "auth_env \<Rightarrow> timestamp \<Rightarrow> string \<Rightarrow> service_error + access_claims" where
  "validate_access_token env now token =
     (case ae_decode env now token of
        Inl e \<Rightarrow> Inl (SUnauthorized e)
      | Inr c \<Rightarrow> if ac_exp c < unix_seconds now then Inl (SUnauthorized ''Token expired'') else Inr c)"

section \<open>Refresh tokens\<close>

type_synonym 'a sop = "(redis, service_error, 'a) op"

definition refresh_key :: "auth_env \<Rightarrow> string \<Rightarrow> string" where
  "refresh_key env token = ''refresh:'' @ ae_sha256 env token"

text \<open>\<open>generate_refresh_token\<close>: \<open>fresh\<close> is the new UUID.\<close>

definition generate_refresh_token :: "auth_env \<Rightarrow> uuid \<Rightarrow> refresh_session \<Rightarrow> service_error + string" where
  "generate_refresh_token env fresh session = Inr (show_uuid env fresh)"

definition store_refresh_token :: "auth_env \<Rightarrow> timestamp \<Rightarrow> string \<Rightarrow> refresh_session \<Rightarrow> unit sop" where
  "store_refresh_token env now token session =
     (if \<not> ae_jwt_redis env then throw (SInternal ''Redis not configured'')
      else case ae_session_json env session of
          Inl e \<Rightarrow> throw (SInternal e)
        | Inr json \<Rightarrow> (\<lambda>r. (Inr (), redis_set_ex now (refresh_key env token) json (ae_refresh_ttl env) r)))"

definition redis_service :: "auth_env \<Rightarrow> 'a rop \<Rightarrow> 'a sop" where
  "redis_service env m r =
     (case m r of
        (Inl e, r') \<Rightarrow> (Inl (SInternal (re_error_text (ue_redis (ae_user env)) e)), r')
      | (Inr x, r') \<Rightarrow> (Inr x, r'))"

definition validate_refresh_token :: "auth_env \<Rightarrow> timestamp \<Rightarrow> string \<Rightarrow> refresh_session sop" where
  "validate_refresh_token env now token =
     (if \<not> ae_jwt_redis env then throw (SInternal ''Redis not configured'')
      else
        and_then (redis_service env (redis_get now (refresh_key env token))) (\<lambda>found.
        case found of
          None \<Rightarrow> throw (SUnauthorized ''Invalid refresh token'')
        | Some json \<Rightarrow>
            (case ae_session_parse env json of
               Inl e \<Rightarrow> throw (SInternal e)
             | Inr session \<Rightarrow> (\<lambda>r. (Inr session, redis_del (refresh_key env token) r)))))"

definition rotate_refresh_token ::
  "auth_env \<Rightarrow> timestamp \<Rightarrow> uuid \<Rightarrow> string \<Rightarrow> refresh_session \<Rightarrow> string sop" where
  "rotate_refresh_token env now fresh old session =
     and_then (store_refresh_token env now (show_uuid env fresh) session) (\<lambda>_. ret (show_uuid env fresh))"

section \<open>What a refresh token is good for\<close>

lemma validate_refresh_token_absent:
  assumes "lookup now (refresh_key env token) r = None"
  shows "\<exists>e. validate_refresh_token env now token r = (Inl e, r)"
  using assms by (auto simp: validate_refresh_token_def and_then_def redis_service_def redis_get_None)

lemma validate_refresh_token_Inr:
  assumes "validate_refresh_token env now token r = (Inr session, r')"
  shows "lookup now (refresh_key env token) r \<noteq> None \<and> r' = redis_del (refresh_key env token) r"
proof (cases "redis_get now (refresh_key env token) r")
  case (Pair g r1)
  then have r1: "r1 = r" by (metis redis_get_snd snd_conv)
  show ?thesis
    using assms Pair r1 redis_get_None [of now "refresh_key env token" r]
    by (auto simp: validate_refresh_token_def and_then_def redis_service_def
        split: if_splits sum.splits option.splits)
qed

lemma validate_refresh_token_store:
  assumes "ae_jwt_redis env" "ae_session_json env session = Inr json" "ae_session_parse env json = Inr session"
    and "store_refresh_token env now token session r = (Inr (), r')"
    and "now' < now + seconds (ae_refresh_ttl env)"
  shows "validate_refresh_token env now' token r' = (Inr session, redis_del (refresh_key env token) r')"
proof -
  have "r' = redis_set_ex now (refresh_key env token) json (ae_refresh_ttl env) r"
    using assms(1,2,4) by (simp add: store_refresh_token_def)
  then show ?thesis
    using assms(1,3,5) by (simp add: validate_refresh_token_def and_then_def redis_service_def redis_get_set_ex)
qed

end
