(* ===== verification/Auth.thy ===== *)
theory Auth
  imports Tokens RateLimit
begin

text \<open>
  Authentication: the handlers of \<open>crates/api/src/handlers/auth/mod.rs\<close> and the middleware
  \<open>crates/api/src/middleware/auth.rs\<close>, over the users, sessions, codes and tokens. The random values of
  one request (UUIDs, the number behind a code, the clock at which a user is made) are the record \<open>fresh\<close>.
\<close>

record fresh =
  fr_user :: uuid
  fr_session :: uuid
  fr_device :: uuid
  fr_token :: uuid
  fr_code :: "32 word"
  fr_clock :: chrono_time

record device_parts =
  dp_id :: "string option"
  dp_name :: "string option"
  dp_type :: "string option"
  dp_push_token :: "string option"

record device_context =
  dc_id :: string
  dc_name :: string
  dc_type :: string
  dc_push_token :: "string option"

record authenticated_user =
  au_user_id :: uuid
  au_session_id :: uuid

record auth_response =
  ar_access_token :: string
  ar_refresh_token :: string
  ar_expires_in :: int
  ar_user_id :: uuid
  ar_phone :: string
  ar_username :: "string option"

record session_response =
  sn_id :: uuid
  sn_device_name :: string
  sn_device_type :: string
  sn_ip_address :: "string option"
  sn_last_active_at :: timestamp
  sn_is_current :: bool

datatype auth_body =
    MessageBody string
  | TokensBody auth_response
  | TwoFaBody string
  | RecoverBody string
  | SetupBody string
  | SessionsBody "session_response list"

type_synonym auth_handler = "(nat \<times> auth_body) handler"

section \<open>Texts\<close>

definition accent_o :: string where "accent_o = [CHR 0xC3, CHR 0xB3]"
definition accent_a :: string where "accent_a = [CHR 0xC3, CHR 0xA1]"
definition accent_i :: string where "accent_i = [CHR 0xC3, CHR 0xAD]"

definition code_sent :: string where
  "code_sent = ''C'' @ accent_o @ ''digo enviado''"

definition invalid_code :: "u64 \<Rightarrow> string" where
  "invalid_code n = ''C'' @ accent_o @ ''digo inv'' @ accent_a @ ''lido. Intentos restantes: '' @ nat_to_string (unat n)"

definition invalid_two_fa :: "u64 \<Rightarrow> string" where
  "invalid_two_fa n =
     ''C'' @ accent_o @ ''digo 2FA inv'' @ accent_a @ ''lido. Intentos restantes: '' @ nat_to_string (unat n)"

definition invalid_setup :: "u64 \<Rightarrow> string" where
  "invalid_setup n =
     ''C'' @ accent_o @ ''digo de configuraci'' @ accent_o @ ''n inv'' @ accent_a @ ''lido. Intentos restantes: '' @
     nat_to_string (unat n)"

definition too_many_tries :: string where
  "too_many_tries = ''Demasiados intentos fallidos. Por favor solicita un nuevo c'' @ accent_o @ ''digo.''"

definition too_many_setups :: string where
  "too_many_setups =
     ''Demasiados intentos fallidos. Por favor inicia la configuraci'' @ accent_o @ ''n de 2FA nuevamente.''"

definition code_expired :: string where
  "code_expired = ''El c'' @ accent_o @ ''digo ha expirado. Por favor solicita uno nuevo.''"

definition setup_expired :: string where
  "setup_expired =
     ''El c'' @ accent_o @ ''digo ha expirado. Por favor inicia la configuraci'' @ accent_o @ ''n de 2FA nuevamente.''"

section \<open>Requests\<close>

text \<open>\<open>deserialize_string_or_number\<close>; a float comes with its \<open>Display\<close> text.\<close>

datatype json_value = JString string | JInt int | JFloat string | JOther

fun string_or_number :: "json_value \<Rightarrow> string option" where
  "string_or_number (JString s) = Some s"
| "string_or_number (JInt n) = Some (int_to_string n)"
| "string_or_number (JFloat s) = Some s"
| "string_or_number JOther = None"

definition from_parts :: "auth_env \<Rightarrow> uuid \<Rightarrow> device_parts \<Rightarrow> device_context" where
  "from_parts env fresh_id p =
     \<lparr>dc_id = unwrap_or (dp_id p) (show_uuid env fresh_id), dc_name = unwrap_or (dp_name p) ''unknown device'',
      dc_type = unwrap_or (dp_type p) ''web'', dc_push_token = dp_push_token p\<rparr>"

definition on_service :: "'a sop \<Rightarrow> 'a handler" where
  "on_service m s =
     (case m (srv_redis s) of
        (Inl e, r) \<Rightarrow> (Inl (domain_of_service e), s\<lparr>srv_redis := r\<rparr>)
      | (Inr x, r) \<Rightarrow> (Inr x, s\<lparr>srv_redis := r\<rparr>))"

definition service_result :: "service_error + 'a \<Rightarrow> 'a handler" where
  "service_result r = (case r of Inl e \<Rightarrow> throw (domain_of_service e) | Inr x \<Rightarrow> ret x)"

text \<open>\<open>PhoneNumber::new(..).map_err(|e| Validation(e.to_string()))\<close>\<close>

definition parse_phone :: "string \<Rightarrow> phone_number handler" where
  "parse_phone p =
     (case phone_number_new p of Inl e \<Rightarrow> throw (Validation (error_to_string e)) | Inr v \<Rightarrow> ret v)"

definition refresh_session_of :: "auth_env \<Rightarrow> user \<Rightarrow> uuid \<Rightarrow> device_context \<Rightarrow> refresh_session" where
  "refresh_session_of env u sid dev =
     \<lparr>rs_user_id = show_uuid env (usr_id u), rs_session_id = show_uuid env sid, rs_device_id = dc_id dev,
      rs_device_name = dc_name dev, rs_device_type = dc_type dev, rs_push_token = dc_push_token dev\<rparr>"

definition issue_tokens ::
  "auth_env \<Rightarrow> fresh \<Rightarrow> timestamp \<Rightarrow> user \<Rightarrow> device_context \<Rightarrow> auth_response handler" where
  "issue_tokens env fr now u dev =
     and_then (on_db (upsert_session (fr_session fr) now (usr_id u) (dc_id dev) (dc_name dev) (dc_type dev)
       (dc_push_token dev) (now + seconds (ae_refresh_ttl env)))) (\<lambda>sid.
     and_then (service_result (generate_access_token env now (usr_id u) sid)) (\<lambda>access.
     let session = refresh_session_of env u sid dev
     in and_then (service_result (generate_refresh_token env (fr_token fr) session)) (\<lambda>refresh.
        and_then (on_service (store_refresh_token env now refresh session)) (\<lambda>_.
        ret \<lparr>ar_access_token = access, ar_refresh_token = refresh, ar_expires_in = ae_access_ttl env,
          ar_user_id = usr_id u, ar_phone = phone_str (usr_phone u),
          ar_username = map_option username_str (usr_username u)\<rparr>))))"

text \<open>The \<open>match\<close> on the result of a verification: \<open>Matched\<close> goes on, the rest is an answer.\<close>

definition otp_gate ::
  "(u64 \<Rightarrow> string) \<Rightarrow> string \<Rightarrow> string \<Rightarrow> otp_verify_result \<Rightarrow> (unit \<Rightarrow> auth_handler) \<Rightarrow> auth_handler" where
  "otp_gate invalid exceeded expired result go =
     (case result of
        Matched \<Rightarrow> go ()
      | Invalid remaining \<Rightarrow> ret (400, MessageBody (invalid remaining))
      | Exceeded \<Rightarrow> ret (429, MessageBody exceeded)
      | OtpNotFound \<Rightarrow> ret (400, MessageBody expired))"

definition user_or :: "domain_error \<Rightarrow> user option \<Rightarrow> user handler" where
  "user_or e u = lift_result (ok_or u e)"

definition user_not_found :: string where
  "user_not_found = ''Usuario no encontrado''"

section \<open>Registration and login\<close>

definition register :: "auth_env \<Rightarrow> fresh \<Rightarrow> timestamp \<Rightarrow> string \<Rightarrow> string \<Rightarrow> string \<Rightarrow> auth_handler" where
  "register env fr now ip phone device_id =
     and_then (parse_phone phone) (\<lambda>p.
     and_then (on_redis (ue_redis (ae_user env))
       (otp_check_rate_limit now (''register:'' @ ip @ '':'' @ device_id) 5 3600)) (\<lambda>allowed.
     if \<not> allowed then ret (429, MessageBody ''Too many requests'')
     else
       and_then (read_db (find_by_phone (ae_user env) p)) (\<lambda>existing.
       if existing \<noteq> None then ret (202, MessageBody code_sent)
       else
         and_then (on_redis (ue_redis (ae_user env))
           (store_register_otp (ae_otp_ttl env) now (phone_str p) (otp_generate (fr_code fr)))) (\<lambda>_.
         ret (202, MessageBody code_sent)))))"

definition verify_phone ::
  "auth_env \<Rightarrow> fresh \<Rightarrow> timestamp \<Rightarrow> string \<Rightarrow> string \<Rightarrow> device_parts \<Rightarrow> auth_handler" where
  "verify_phone env fr now phone code parts =
     and_then (on_redis (ue_redis (ae_user env)) (verify_register_otp now phone code)) (\<lambda>result.
     otp_gate invalid_code too_many_tries code_expired result (\<lambda>_.
       and_then (parse_phone phone) (\<lambda>p.
       let u = user_new (ae_hash_phone env) (fr_user fr) (fr_clock fr) None p None
       in (\<lambda>s. case create_user (ae_user env) now u s of
            (Inl (AlreadyExists _), s') \<Rightarrow> (Inl (AlreadyExists ''User already registered''), s')
          | (Inl e, s') \<Rightarrow> (Inl e, s')
          | (Inr _, s') \<Rightarrow>
              and_then (issue_tokens env fr now u (from_parts env (fr_device fr) parts)) (\<lambda>a.
                ret (201, TokensBody a)) s'))))"

definition login :: "auth_env \<Rightarrow> fresh \<Rightarrow> timestamp \<Rightarrow> string \<Rightarrow> string \<Rightarrow> string \<Rightarrow> auth_handler" where
  "login env fr now ip phone device_id =
     and_then (parse_phone phone) (\<lambda>p.
     and_then (read_db (find_by_phone (ae_user env) p)) (\<lambda>found.
     and_then (user_or (Unauthorized (''Credenciales inv'' @ accent_a @ ''lidas'')) found) (\<lambda>_.
     and_then (on_redis (ue_redis (ae_user env))
       (otp_check_rate_limit now (''login:'' @ ip @ '':'' @ device_id) 10 3600)) (\<lambda>allowed.
     if \<not> allowed then ret (429, MessageBody ''Too many requests'')
     else
       and_then (on_redis (ue_redis (ae_user env))
         (store_login_otp (ae_otp_ttl env) now (phone_str p) (otp_generate (fr_code fr)))) (\<lambda>_.
       ret (202, MessageBody code_sent))))))"

definition login_verify ::
  "auth_env \<Rightarrow> fresh \<Rightarrow> timestamp \<Rightarrow> string \<Rightarrow> string \<Rightarrow> device_parts \<Rightarrow> auth_handler" where
  "login_verify env fr now phone code parts =
     and_then (on_redis (ue_redis (ae_user env)) (verify_login_otp now phone code)) (\<lambda>result.
     otp_gate invalid_code too_many_tries code_expired result (\<lambda>_.
       and_then (parse_phone phone) (\<lambda>p.
       and_then (read_db (find_by_phone (ae_user env) p)) (\<lambda>found.
       and_then (user_or (Unauthorized user_not_found) found) (\<lambda>u.
       if usr_two_fa_enabled u then
         and_then (on_redis (ue_redis (ae_user env)) (store_two_fa_login_otp (ae_otp_ttl env) now
           (show_uuid env (usr_id u)) (otp_generate (fr_code fr)))) (\<lambda>_.
         and_then (service_result (generate_temp_token env now (usr_id u))) (\<lambda>t.
         ret (202, TwoFaBody t)))
       else
         and_then (issue_tokens env fr now u (from_parts env (fr_device fr) parts)) (\<lambda>a.
         ret (200, TokensBody a)))))))"

text \<open>\<open>refresh\<close>: the error of the validation is \<open>Unauthorized(e.to_string())\<close>.\<close>

definition take_refresh_session :: "auth_env \<Rightarrow> timestamp \<Rightarrow> string \<Rightarrow> refresh_session handler" where
  "take_refresh_session env now token s =
     (case validate_refresh_token env now token (srv_redis s) of
        (Inl e, r) \<Rightarrow> (Inl (Unauthorized (service_error_to_string e)), s\<lparr>srv_redis := r\<rparr>)
      | (Inr x, r) \<Rightarrow> (Inr x, s\<lparr>srv_redis := r\<rparr>))"

definition refresh :: "auth_env \<Rightarrow> fresh \<Rightarrow> timestamp \<Rightarrow> string \<Rightarrow> auth_handler" where
  "refresh env fr now token =
     and_then (take_refresh_session env now token) (\<lambda>session.
     and_then (case ae_parse_uuid env (rs_user_id session) of
         Inl e \<Rightarrow> throw (Internal e) | Inr u \<Rightarrow> ret u) (\<lambda>uid.
     and_then (read_db (find_by_id (ae_user env) uid)) (\<lambda>found.
     and_then (user_or (Unauthorized user_not_found) found) (\<lambda>u.
     and_then (issue_tokens env fr now u (from_parts env (fr_device fr)
         \<lparr>dp_id = Some (rs_device_id session), dp_name = Some (rs_device_name session),
          dp_type = Some (rs_device_type session), dp_push_token = rs_push_token session\<rparr>)) (\<lambda>a.
     ret (200, TokensBody a))))))"

section \<open>Recovery and two-factor authentication\<close>

definition recover :: "auth_env \<Rightarrow> fresh \<Rightarrow> timestamp \<Rightarrow> string \<Rightarrow> auth_handler" where
  "recover env fr now phone =
     and_then (parse_phone phone) (\<lambda>p.
     and_then (read_db (find_by_phone (ae_user env) p)) (\<lambda>found.
     and_then (case found of
         None \<Rightarrow> ret ()
       | Some _ \<Rightarrow> on_redis (ue_redis (ae_user env))
           (store_recover_otp (ae_otp_ttl env) now (phone_str p) (otp_generate (fr_code fr)))) (\<lambda>_.
     ret (202, MessageBody ''Si la cuenta existe, enviamos un codigo de recuperacion''))))"

definition recover_verify :: "auth_env \<Rightarrow> timestamp \<Rightarrow> string \<Rightarrow> string \<Rightarrow> auth_handler" where
  "recover_verify env now phone code =
     and_then (on_redis (ue_redis (ae_user env)) (verify_recover_otp now phone code)) (\<lambda>result.
     otp_gate invalid_code too_many_tries code_expired result (\<lambda>_.
       and_then (parse_phone phone) (\<lambda>p.
       and_then (read_db (find_by_phone (ae_user env) p)) (\<lambda>found.
       and_then (user_or (Unauthorized user_not_found) found) (\<lambda>u.
       and_then (service_result (generate_temp_token env now (usr_id u))) (\<lambda>t.
       ret (200, RecoverBody t)))))))"

definition two_fa_setup :: "auth_env \<Rightarrow> fresh \<Rightarrow> timestamp \<Rightarrow> authenticated_user \<Rightarrow> auth_handler" where
  "two_fa_setup env fr now auth =
     (let code = otp_generate (fr_code fr)
      in and_then (on_redis (ue_redis (ae_user env))
           (store_two_fa_setup_otp (ae_otp_ttl env) now (show_uuid env (au_user_id auth)) code)) (\<lambda>_.
         ret (200, SetupBody code)))"

definition two_fa_setup_verify :: "auth_env \<Rightarrow> timestamp \<Rightarrow> authenticated_user \<Rightarrow> string \<Rightarrow> auth_handler" where
  "two_fa_setup_verify env now auth code =
     and_then (on_redis (ue_redis (ae_user env))
       (verify_two_fa_setup_otp now (show_uuid env (au_user_id auth)) code)) (\<lambda>result.
     otp_gate invalid_setup too_many_setups setup_expired result (\<lambda>_.
       and_then (read_db (find_by_id (ae_user env) (au_user_id auth))) (\<lambda>found.
       and_then (user_or (NotFound user_not_found) found) (\<lambda>u.
       and_then (update_user_entity (ae_user env) now (u\<lparr>usr_two_fa_enabled := True\<rparr>)) (\<lambda>_.
       ret (200, MessageBody ''2FA habilitado''))))))"

definition two_fa_verify ::
  "auth_env \<Rightarrow> fresh \<Rightarrow> timestamp \<Rightarrow> string \<Rightarrow> string \<Rightarrow> device_parts \<Rightarrow> auth_handler" where
  "two_fa_verify env fr now temp_token code parts =
     (case validate_access_token env now temp_token of
        Inl e \<Rightarrow> throw (Unauthorized (service_error_to_string e))
      | Inr claims \<Rightarrow>
          if ac_sid claims \<noteq> temp_session_id then throw (Unauthorized ''Token temporal invalido'')
          else case ae_parse_uuid env (ac_sub claims) of
              Inl e \<Rightarrow> throw (Unauthorized e)
            | Inr uid \<Rightarrow>
                and_then (on_redis (ue_redis (ae_user env))
                  (verify_two_fa_login_otp now (show_uuid env uid) code)) (\<lambda>result.
                otp_gate invalid_two_fa too_many_tries code_expired result (\<lambda>_.
                  and_then (read_db (find_by_id (ae_user env) uid)) (\<lambda>found.
                  and_then (user_or (Unauthorized user_not_found) found) (\<lambda>u.
                  and_then (issue_tokens env fr now u (from_parts env (fr_device fr) parts)) (\<lambda>a.
                  ret (200, TokensBody a)))))))"

section \<open>Sessions\<close>

definition h_list_sessions :: "authenticated_user \<Rightarrow> auth_handler" where
  "h_list_sessions auth =
     and_then (read_db (list_sessions (au_user_id auth))) (\<lambda>ss.
     ret (200, SessionsBody (map (\<lambda>s. \<lparr>sn_id = us_id s, sn_device_name = us_device_name s,
       sn_device_type = us_device_type s, sn_ip_address = us_ip_address s, sn_last_active_at = us_last_active_at s,
       sn_is_current = (us_id s = au_session_id auth)\<rparr>) ss)))"

definition h_delete_session :: "authenticated_user \<Rightarrow> uuid \<Rightarrow> auth_handler" where
  "h_delete_session auth sid =
     and_then (on_db (delete_session (au_user_id auth) sid)) (\<lambda>deleted.
     if deleted then ret (200, MessageBody ''Sesion eliminada'')
     else ret (404, MessageBody ''Sesion no encontrada''))"

definition session_key :: "auth_env \<Rightarrow> uuid \<Rightarrow> string" where
  "session_key env sid = ''session:'' @ show_uuid env sid"

definition logout :: "auth_env \<Rightarrow> authenticated_user \<Rightarrow> auth_handler" where
  "logout env auth =
     and_then (on_db (delete_session (au_user_id auth) (au_session_id auth))) (\<lambda>_.
     and_then (on_redis (ue_redis (ae_user env))
       (\<lambda>r. (Inr (), redis_del (session_key env (au_session_id auth)) r))) (\<lambda>_.
     and_then (on_redis (ue_redis (ae_user env))
       (\<lambda>r. (Inr (), redis_del (''refresh:'' @ show_uuid env (au_session_id auth)) r))) (\<lambda>_.
     ret (200, MessageBody ''Logout exitoso''))))"

section \<open>The middleware\<close>

text \<open>\<open>redis.get(..).ok().flatten()\<close> and \<open>set_ex(..).ok()\<close>: errors of Redis are ignored.\<close>

definition validate_session :: "auth_env \<Rightarrow> timestamp \<Rightarrow> uuid \<Rightarrow> uuid \<Rightarrow> srv \<Rightarrow> bool \<times> srv" where
  "validate_session env now u sid s =
     (case redis_get now (session_key env sid) (srv_redis s) of
        (Inr (Some _), r) \<Rightarrow> (True, s\<lparr>srv_redis := r\<rparr>)
      | (_, r) \<Rightarrow>
          (case is_session_valid now u sid (srv_db s) of
             Inr True \<Rightarrow> (True, s\<lparr>srv_redis := redis_set_ex now (session_key env sid) ''active'' (ae_access_ttl env) r\<rparr>)
           | _ \<Rightarrow> (False, s\<lparr>srv_redis := r\<rparr>)))"

definition unauthorized_response :: "string \<Rightarrow> (srv, nat \<times> string, 'a) op" where
  "unauthorized_response m = throw (401, m)"

text \<open>The authenticated user, or the refusal; \<open>header\<close> is the Authorization header when it is text.\<close>

definition auth_middleware ::
  "auth_env \<Rightarrow> timestamp \<Rightarrow> string option \<Rightarrow> (srv, nat \<times> string, authenticated_user) op" where
  "auth_middleware env now header =
     (case header of
        None \<Rightarrow> unauthorized_response ''Missing bearer token''
      | Some auth \<Rightarrow>
          if \<not> starts_with ''Bearer '' auth then unauthorized_response ''Invalid authorization scheme''
          else case validate_access_token env now (drop 7 auth) of
              Inl e \<Rightarrow> unauthorized_response ''Invalid or expired token''
            | Inr claims \<Rightarrow>
                (case ae_parse_uuid env (ac_sub claims) of
                   Inl e \<Rightarrow> unauthorized_response ''Malformed token subject''
                 | Inr uid \<Rightarrow>
                     if ac_sid claims = temp_session_id
                     then unauthorized_response ''Temporary 2FA token cannot be used for this endpoint''
                     else case ae_parse_uuid env (ac_sid claims) of
                         Inl e \<Rightarrow> unauthorized_response ''Malformed token session''
                       | Inr sid \<Rightarrow> (\<lambda>s.
                           case validate_session env now uid sid s of
                             (True, s') \<Rightarrow> (Inr \<lparr>au_user_id = uid, au_session_id = sid\<rparr>, s')
                           | (False, s') \<Rightarrow> (Inl (401, ''Session revoked or expired''), s'))))"

end
