(* ===== verification/AuthProps.thy ===== *)
theory AuthProps
  imports Auth
begin

text \<open>
  What authentication guarantees, and where revocation stops. The hypotheses on the libraries are in
  \<open>auth_lib\<close>: a UUID is read back from its text, a token signed for some claims decodes to them or is
  refused, signing succeeds, a refresh session is read back from its JSON, and a SHA-256 digest is never
  the text of a UUID.
\<close>

definition auth_lib :: "auth_env \<Rightarrow> bool" where
  "auth_lib env \<longleftrightarrow>
     (\<forall>u. ae_parse_uuid env (show_uuid env u) = Inr u) \<and>
     (\<forall>c. \<exists>t. ae_encode env c = Inr t \<and>
        (\<forall>now. (\<exists>e. ae_decode env now t = Inl e) \<or> ae_decode env now t = Inr c)) \<and>
     (\<forall>x. \<exists>j. ae_session_json env x = Inr j \<and> ae_session_parse env j = Inr x) \<and>
     (\<forall>x u. ae_sha256 env x \<noteq> show_uuid env u) \<and> ae_jwt_redis env"

lemma auth_lib_encode:
  "auth_lib env \<Longrightarrow> \<exists>t. ae_encode env c = Inr t \<and>
     (\<forall>now. (\<exists>e. ae_decode env now t = Inl e) \<or> ae_decode env now t = Inr c)"
  unfolding auth_lib_def by (elim conjE) (drule spec [where x = c], assumption)

lemma auth_lib_token: "auth_lib env \<Longrightarrow> \<exists>t. generate_access_token env now u sid = Inr t"
  using auth_lib_encode [of env "\<lparr>ac_sub = show_uuid env u, ac_sid = show_uuid env sid,
       ac_exp = unix_seconds now + ae_access_ttl env, ac_iat = unix_seconds now\<rparr>"]
  by (auto simp: generate_access_token_def encode_claims_def)

lemma auth_lib_session:
  "auth_lib env \<Longrightarrow> \<exists>j. ae_session_json env x = Inr j \<and> ae_session_parse env j = Inr x"
  unfolding auth_lib_def by (elim conjE) (drule spec [where x = x], assumption)

lemma auth_lib_uuid: "auth_lib env \<Longrightarrow> ae_parse_uuid env (show_uuid env u) = Inr u"
  and auth_lib_sha: "auth_lib env \<Longrightarrow> ae_sha256 env x \<noteq> show_uuid env u"
  and auth_lib_redis: "auth_lib env \<Longrightarrow> ae_jwt_redis env"
  by (simp_all add: auth_lib_def)

section \<open>The middleware\<close>

lemma validate_session_True:
  assumes "validate_session env now u sid s = (True, s')"
  shows "is_session_valid now u sid (srv_db s) = Inr True \<or>
    (\<exists>v. fst (redis_get now (session_key env sid) (srv_redis s)) = Inr (Some v))"
  using assms
  by (auto simp: validate_session_def split: prod.splits sum.splits option.splits bool.splits)

lemma bearer_length: "length ''Bearer '' = 7"
  by simp

lemma auth_middleware_Inr:
  assumes "auth_middleware env now header s = (Inr a, s')"
  obtains tok c where "header = Some (''Bearer '' @ tok)" "validate_access_token env now tok = Inr c"
    "ac_sid c \<noteq> temp_session_id" "ae_parse_uuid env (ac_sub c) = Inr (au_user_id a)"
    "ae_parse_uuid env (ac_sid c) = Inr (au_session_id a)"
    "validate_session env now (au_user_id a) (au_session_id a) s = (True, s')"
proof -
  obtain auth where h: "header = Some auth"
    using assms by (cases header) (auto simp: auth_middleware_def unauthorized_response_def)
  have b: "starts_with ''Bearer '' auth"
    using assms by (auto simp: h auth_middleware_def unauthorized_response_def split: if_splits)
  obtain c where c: "validate_access_token env now (drop 7 auth) = Inr c"
    using assms b by (auto simp: h auth_middleware_def unauthorized_response_def split: sum.splits)
  have t: "ac_sid c \<noteq> temp_session_id"
    using assms b c by (auto simp: h auth_middleware_def unauthorized_response_def split: sum.splits if_splits)
  have "auth = ''Bearer '' @ drop 7 auth"
    using append_take_drop_id [of "length ''Bearer ''" auth] b unfolding starts_with_def by (metis bearer_length)
  then show thesis
    using assms b c t that [of "drop 7 auth" c]
    by (auto simp: h auth_middleware_def unauthorized_response_def split: sum.splits prod.splits bool.splits)
qed

lemma auth_middleware_accepts:
  assumes "validate_access_token env now tok = Inr c" "ac_sid c \<noteq> temp_session_id"
    "ae_parse_uuid env (ac_sub c) = Inr u" "ae_parse_uuid env (ac_sid c) = Inr sid"
  shows "auth_middleware env now (Some (''Bearer '' @ tok)) s =
    (case validate_session env now u sid s of
       (True, s') \<Rightarrow> (Inr \<lparr>au_user_id = u, au_session_id = sid\<rparr>, s')
     | (False, s') \<Rightarrow> (Inl (401, ''Session revoked or expired''), s'))"
  using assms by (simp add: auth_middleware_def starts_with_def)

lemma validate_access_token_Inr:
  "validate_access_token env now tok = Inr c \<longleftrightarrow> ae_decode env now tok = Inr c \<and> unix_seconds now \<le> ac_exp c"
  by (auto simp: validate_access_token_def split: sum.splits)

lemma temp_token_claims:
  assumes "auth_lib env" "generate_temp_token env t u = Inr tok" "ae_decode env now tok = Inr c"
  shows "ac_sid c = temp_session_id"
proof -
  let ?c = "\<lparr>ac_sub = show_uuid env u, ac_sid = temp_session_id,
    ac_exp = unix_seconds t + 300, ac_iat = unix_seconds t\<rparr>"
  obtain tok' where t: "ae_encode env ?c = Inr tok'"
    and d: "(\<exists>e. ae_decode env now tok' = Inl e) \<or> ae_decode env now tok' = Inr ?c"
    using auth_lib_encode [OF assms(1), of ?c] by auto
  have "tok' = tok" using assms(2) t by (simp add: generate_temp_token_def encode_claims_def)
  then have "c = ?c" using assms(3) d by auto
  then show ?thesis by simp
qed

text \<open>
  A protected route is entered only with a bearer token that verifies and has not expired, whose
  session is a live row of the database or still in the session cache; a temporary token of the
  two-factor or the recovery flow is never enough.
\<close>

theorem protected_needs_session:
  assumes "auth_lib env"
  shows "(auth_middleware env now header s = (Inr a, s') \<longrightarrow>
      (\<exists>tok c. header = Some (''Bearer '' @ tok) \<and> ae_decode env now tok = Inr c \<and> unix_seconds now \<le> ac_exp c \<and>
        ac_sid c \<noteq> temp_session_id \<and> ae_parse_uuid env (ac_sub c) = Inr (au_user_id a) \<and>
        ae_parse_uuid env (ac_sid c) = Inr (au_session_id a) \<and>
        (is_session_valid now (au_user_id a) (au_session_id a) (srv_db s) = Inr True \<or>
         (\<exists>v. fst (redis_get now (session_key env (au_session_id a)) (srv_redis s)) = Inr (Some v))))) \<and>
    (generate_temp_token env t u = Inr temp \<longrightarrow>
      auth_middleware env now (Some (''Bearer '' @ temp)) s \<noteq> (Inr a, s'))"
proof (intro conjI impI notI)
  assume "auth_middleware env now header s = (Inr a, s')"
  then show "\<exists>tok c. header = Some (''Bearer '' @ tok) \<and> ae_decode env now tok = Inr c \<and> unix_seconds now \<le> ac_exp c \<and>
        ac_sid c \<noteq> temp_session_id \<and> ae_parse_uuid env (ac_sub c) = Inr (au_user_id a) \<and>
        ae_parse_uuid env (ac_sid c) = Inr (au_session_id a) \<and>
        (is_session_valid now (au_user_id a) (au_session_id a) (srv_db s) = Inr True \<or>
         (\<exists>v. fst (redis_get now (session_key env (au_session_id a)) (srv_redis s)) = Inr (Some v)))"
    using validate_session_True by (elim auth_middleware_Inr) (auto simp: validate_access_token_Inr)
next
  assume t: "generate_temp_token env t u = Inr temp"
    and m: "auth_middleware env now (Some (''Bearer '' @ temp)) s = (Inr a, s')"
  from m obtain tok c where c: "Some (''Bearer '' @ temp) = Some (''Bearer '' @ tok)"
    "validate_access_token env now tok = Inr c" "ac_sid c \<noteq> temp_session_id"
    by (rule auth_middleware_Inr)
  then show False using temp_token_claims [OF assms t, of now c] by (simp add: validate_access_token_Inr)
qed

section \<open>Revocation\<close>

lemma validate_session_caches:
  assumes "lookup now (session_key env sid) (srv_redis s) = None" "validate_session env now u sid s = (True, s')"
  shows "is_session_valid now u sid (srv_db s) = Inr True \<and>
    s' = s\<lparr>srv_redis := redis_set_ex now (session_key env sid) ''active'' (ae_access_ttl env) (srv_redis s)\<rparr>"
  using assms by (auto simp: validate_session_def redis_get_None split: sum.splits bool.splits)

lemma validate_session_cached:
  assumes "redis_get now (session_key env sid) (srv_redis s) = (Inr (Some v), srv_redis s)"
  shows "validate_session env now u sid s = (True, s)"
  using assms by (simp add: validate_session_def)

text \<open>
  C35. Ending a session does not end it at once: when a session was used once while it was not cached,
  and is then deleted with \<open>DELETE /auth/sessions/:id\<close>, its access token is still accepted at every later time
  at which the token itself has not expired and the entry that the first use cached lives, although the
  database knows no such session any more.
\<close>

theorem deleted_session_still_accepted:
  assumes "lookup t (session_key env sid) (srv_redis s) = None"
    and "auth_middleware env t (Some (''Bearer '' @ tok)) s = (Inr \<lparr>au_user_id = u, au_session_id = sid\<rparr>, s1)"
    and "h_delete_session \<lparr>au_user_id = u, au_session_id = other\<rparr> sid s1 = (r, s2)"
    and "t' < t + seconds (ae_access_ttl env)" "validate_access_token env t' tok = validate_access_token env t tok"
  shows "r = Inr (200, MessageBody ''Sesion eliminada'') \<and>
    is_session_valid t' u sid (srv_db s2) = Inr False \<and>
    auth_middleware env t' (Some (''Bearer '' @ tok)) s2 = (Inr \<lparr>au_user_id = u, au_session_id = sid\<rparr>, s2)"
proof -
  from assms(2) obtain tok' c where "Some (''Bearer '' @ tok) = Some (''Bearer '' @ tok')"
    and c: "validate_access_token env t tok' = Inr c" "ac_sid c \<noteq> temp_session_id"
      "ae_parse_uuid env (ac_sub c) = Inr u" "ae_parse_uuid env (ac_sid c) = Inr sid"
    and v: "validate_session env t u sid s = (True, s1)"
    by (elim auth_middleware_Inr) simp
  then have c': "validate_access_token env t' tok = Inr c" using assms(5) by simp
  have s1: "is_session_valid t u sid (srv_db s) = Inr True"
    "s1 = s\<lparr>srv_redis := redis_set_ex t (session_key env sid) ''active'' (ae_access_ttl env) (srv_redis s)\<rparr>"
    using validate_session_caches [OF assms(1) v] by auto
  let ?P = "\<lambda>x. us_id x = sid \<and> us_user_id x = u"
  have some: "0 < count_where ?P (user_sessions (srv_db s))"
    using s1(1) count_where_0_iff [of ?P "user_sessions (srv_db s)"]
    by (auto simp: is_session_valid_def exists_where_iff)
  have s2: "s2 = s1\<lparr>srv_db := (srv_db s1)\<lparr>user_sessions := delete_where ?P (user_sessions (srv_db s1))\<rparr>\<rparr>"
    and r: "r = Inr (200, MessageBody ''Sesion eliminada'')"
    using assms(3) some by (auto simp: h_delete_session_def and_then_def on_db_def delete_session_def Let_def s1(2))
  have "redis_get t' (session_key env sid) (srv_redis s2) = (Inr (Some ''active''), srv_redis s2)"
    using assms(4) by (simp add: s2 s1(2) redis_get_set_ex)
  then have "validate_session env t' u sid s2 = (True, s2)" by (rule validate_session_cached)
  then have "auth_middleware env t' (Some (''Bearer '' @ tok)) s2 = (Inr \<lparr>au_user_id = u, au_session_id = sid\<rparr>, s2)"
    unfolding auth_middleware_accepts [OF c' c(2-4)] by simp
  moreover have "is_session_valid t' u sid (srv_db s2) = Inr False"
    by (auto simp: s2 is_session_valid_def exists_where_iff set_delete_where)
  ultimately show ?thesis using r by blast
qed


section \<open>Logout\<close>

lemma and_then_on_db:
  "and_then (on_db m) f s = (case m (srv_db s) of (Inl e, d) \<Rightarrow> (Inl e, s\<lparr>srv_db := d\<rparr>) | (Inr x, d) \<Rightarrow> f x (s\<lparr>srv_db := d\<rparr>))"
  by (simp add: and_then_def on_db_def split: prod.split sum.split)

lemma and_then_on_service:
  "and_then (on_service m) f s =
     (case m (srv_redis s) of (Inl e, r) \<Rightarrow> (Inl (domain_of_service e), s\<lparr>srv_redis := r\<rparr>)
      | (Inr x, r) \<Rightarrow> f x (s\<lparr>srv_redis := r\<rparr>))"
  by (simp add: and_then_def on_service_def split: prod.split sum.split)

lemma and_then_on_redis:
  "and_then (on_redis env m) f s =
     (case m (srv_redis s) of (Inl e, r) \<Rightarrow> (Inl (Internal (re_error_text env e)), s\<lparr>srv_redis := r\<rparr>)
      | (Inr x, r) \<Rightarrow> f x (s\<lparr>srv_redis := r\<rparr>))"
  by (simp add: and_then_def on_redis_def split: prod.split sum.split)

lemma service_result_simps [simp]:
  "service_result (Inl e) = throw (domain_of_service e)"
  "service_result (Inr x) = ret x"
  by (simp_all add: service_result_def)

text \<open>A login of a device creates or replaces its session row and stores the refresh token.\<close>

lemma upsert_session_Inr:
  assumes "ty \<in> set device_type_values" "user_exists d u" "\<forall>x\<in>set (user_sessions d). us_id x \<noteq> i"
  shows "\<exists>ss. upsert_session i now u did dn ty push ex d = (Inr i, d\<lparr>user_sessions := ss\<rparr>) \<and>
    us_id ` set ss \<subseteq> insert i (us_id ` set (user_sessions d))"
proof (cases "exists_where (\<lambda>s. us_user_id s = u \<and> us_device_id s = did) (user_sessions d)")
  case True
  have "\<not> exists_where (\<lambda>s. us_id s = i \<and> \<not> (us_user_id s = u \<and> us_device_id s = did)) (user_sessions d)"
    using assms(3) by (auto simp: exists_where_iff)
  then show ?thesis
    using assms(1) True
    by (intro exI conjI) (simp add: upsert_session_def enum_cast_def Let_def, auto simp: set_update_where)
next
  case False
  have "\<not> exists_where (\<lambda>s. us_id s = i) (user_sessions d)" using assms(3) by (auto simp: exists_where_iff)
  then show ?thesis
    using assms(1,2) False
    by (intro exI conjI) (simp add: upsert_session_def enum_cast_def Let_def, auto)
qed

lemma issue_tokens_run:
  assumes "auth_lib env" "dc_type dev \<in> set device_type_values" "user_exists (srv_db s) (usr_id u)"
    and "\<forall>x\<in>set (user_sessions (srv_db s)). us_id x \<noteq> fr_session fr"
  shows "\<exists>access json ss. generate_access_token env now (usr_id u) (fr_session fr) = Inr access \<and>
    ae_session_parse env json = Inr (refresh_session_of env u (fr_session fr) dev) \<and>
    us_id ` set ss \<subseteq> insert (fr_session fr) (us_id ` set (user_sessions (srv_db s))) \<and>
    issue_tokens env fr now u dev s =
      (Inr \<lparr>ar_access_token = access, ar_refresh_token = show_uuid env (fr_token fr), ar_expires_in = ae_access_ttl env,
          ar_user_id = usr_id u, ar_phone = phone_str (usr_phone u),
          ar_username = map_option username_str (usr_username u)\<rparr>,
       s\<lparr>srv_db := (srv_db s)\<lparr>user_sessions := ss\<rparr>,
         srv_redis := redis_set_ex now (refresh_key env (show_uuid env (fr_token fr))) json (ae_refresh_ttl env) (srv_redis s)\<rparr>)"
proof -
  let ?sid = "fr_session fr" and ?session = "refresh_session_of env u (fr_session fr) dev"
  obtain access where a: "generate_access_token env now (usr_id u) ?sid = Inr access"
    using auth_lib_token [OF assms(1)] by blast
  obtain json where j: "ae_session_json env ?session = Inr json" "ae_session_parse env json = Inr ?session"
    using auth_lib_session [OF assms(1), of ?session] by blast
  obtain ss where ss: "upsert_session ?sid now (usr_id u) (dc_id dev) (dc_name dev) (dc_type dev) (dc_push_token dev)
      (now + seconds (ae_refresh_ttl env)) (srv_db s) = (Inr ?sid, (srv_db s)\<lparr>user_sessions := ss\<rparr>)"
    "us_id ` set ss \<subseteq> insert ?sid (us_id ` set (user_sessions (srv_db s)))"
    using upsert_session_Inr [OF assms(2-4)] by blast
  have "store_refresh_token env now (show_uuid env (fr_token fr)) ?session (srv_redis s) =
      (Inr (), redis_set_ex now (refresh_key env (show_uuid env (fr_token fr))) json (ae_refresh_ttl env) (srv_redis s))"
    using j(1) auth_lib_redis [OF assms(1)] by (simp add: store_refresh_token_def)
  then have "issue_tokens env fr now u dev s =
      (Inr \<lparr>ar_access_token = access, ar_refresh_token = show_uuid env (fr_token fr), ar_expires_in = ae_access_ttl env,
          ar_user_id = usr_id u, ar_phone = phone_str (usr_phone u),
          ar_username = map_option username_str (usr_username u)\<rparr>,
       s\<lparr>srv_db := (srv_db s)\<lparr>user_sessions := ss\<rparr>,
         srv_redis := redis_set_ex now (refresh_key env (show_uuid env (fr_token fr))) json (ae_refresh_ttl env) (srv_redis s)\<rparr>)"
    by (simp add: issue_tokens_def and_then_on_db and_then_on_service ss(1) a generate_refresh_token_def Let_def)
  then show ?thesis using a j(2) ss(2) by blast
qed

lemma find_by_id_exists:
  assumes "find_by_id env i d = Inr (Some u)"
  shows "user_exists d i \<and> usr_id u = i"
proof -
  obtain r where "r \<in> set (users d)" "u_id r = i" "user_of_row env r = Inr u"
    using assms
    by (auto simp: find_by_id_def find_user_def opt_new_def dest: select_one_SomeD split: option.splits sum.splits)
  then show ?thesis
    by (auto simp: user_exists_def exists_where_iff user_of_row_def split: sum.splits)
qed

lemma key_prefix_neq: "session_key env u \<noteq> refresh_key env t" "refresh_key env t \<noteq> session_key env u"
  by (simp_all add: session_key_def refresh_key_def)

lemma logout_run:
  "logout env \<lparr>au_user_id = u, au_session_id = sid\<rparr> s =
     (Inr (200, MessageBody ''Logout exitoso''),
      s\<lparr>srv_db := (srv_db s)\<lparr>user_sessions := delete_where (\<lambda>x. us_id x = sid \<and> us_user_id x = u) (user_sessions (srv_db s))\<rparr>,
        srv_redis := redis_del (''refresh:'' @ show_uuid env sid) (redis_del (session_key env sid) (srv_redis s))\<rparr>)"
  by (simp add: logout_def and_then_on_db and_then_on_redis delete_session_def Let_def)

text \<open>The token of a session that is neither stored nor cached any more is refused.\<close>

lemma gone_session_refused:
  assumes "auth_lib env" "generate_access_token env now u sid = Inr access"
    and gone: "\<And>x. x \<in> set (user_sessions (srv_db s)) \<Longrightarrow> \<not> (us_id x = sid \<and> us_user_id x = u)"
    and cache: "lookup now' (session_key env sid) (srv_redis s) = None"
  shows "fst (auth_middleware env now' (Some (''Bearer '' @ access)) s) \<noteq> Inr b"
proof
  assume "fst (auth_middleware env now' (Some (''Bearer '' @ access)) s) = Inr b"
  then have m: "auth_middleware env now' (Some (''Bearer '' @ access)) s =
      (Inr b, snd (auth_middleware env now' (Some (''Bearer '' @ access)) s))"
    by (simp add: prod_eq_iff)
  from m obtain tok c where t: "Some (''Bearer '' @ access) = Some (''Bearer '' @ tok)"
    "validate_access_token env now' tok = Inr c" "ae_parse_uuid env (ac_sub c) = Inr (au_user_id b)"
    "ae_parse_uuid env (ac_sid c) = Inr (au_session_id b)"
    and v: "validate_session env now' (au_user_id b) (au_session_id b) s =
      (True, snd (auth_middleware env now' (Some (''Bearer '' @ access)) s))"
    by (rule auth_middleware_Inr)
  let ?c = "\<lparr>ac_sub = show_uuid env u, ac_sid = show_uuid env sid,
    ac_exp = unix_seconds now + ae_access_ttl env, ac_iat = unix_seconds now\<rparr>"
  obtain t' where e: "ae_encode env ?c = Inr t'" "(\<exists>e. ae_decode env now' t' = Inl e) \<or> ae_decode env now' t' = Inr ?c"
    using auth_lib_encode [OF assms(1), of ?c] by auto
  have "t' = access" using assms(2) e(1) by (simp add: generate_access_token_def encode_claims_def)
  then have "c = ?c" using e(2) t(1,2) by (auto simp: validate_access_token_Inr)
  then have b: "au_user_id b = u" "au_session_id b = sid"
    using t(3,4) auth_lib_uuid [OF assms(1)] by auto
  have "is_session_valid now' u sid (srv_db s) = Inr False"
    using gone by (auto simp: is_session_valid_def exists_where_iff)
  then show False
    using validate_session_True [OF v] cache by (simp add: b redis_get_None)
qed

text \<open>A stored refresh token buys new tokens as long as its account exists.\<close>

lemma refresh_stored:
  assumes lib: "auth_lib env"
    and stored: "redis_get now (refresh_key env tok) (srv_redis s) = (Inr (Some json), srv_redis s)"
    and json: "ae_session_parse env json = Inr (refresh_session_of env u sid dev)"
    and user: "find_by_id (ae_user env) (usr_id u) (srv_db s) = Inr (Some u)"
    and dev: "dc_type dev \<in> set device_type_values"
    and free: "\<forall>x\<in>set (user_sessions (srv_db s)). us_id x \<noteq> fr_session fr"
  shows "\<exists>a s'. refresh env fr now tok s = (Inr (200, TokensBody a), s')"
proof -
  let ?session = "refresh_session_of env u sid dev"
  let ?s = "s\<lparr>srv_redis := redis_del (refresh_key env tok) (srv_redis s)\<rparr>"
  let ?dev = "from_parts env (fr_device fr) \<lparr>dp_id = Some (rs_device_id ?session),
    dp_name = Some (rs_device_name ?session), dp_type = Some (rs_device_type ?session),
    dp_push_token = rs_push_token ?session\<rparr>"
  have "validate_refresh_token env now tok (srv_redis s) = (Inr ?session, redis_del (refresh_key env tok) (srv_redis s))"
    using stored json auth_lib_redis [OF lib]
    by (simp add: validate_refresh_token_def and_then_def redis_service_def)
  then have take: "take_refresh_session env now tok s = (Inr ?session, ?s)"
    by (simp add: take_refresh_session_def)
  have d: "dc_type ?dev = dc_type dev" by (simp add: from_parts_def refresh_session_of_def)
  have "user_exists (srv_db ?s) (usr_id u)" using find_by_id_exists [OF user] by simp
  then obtain a s' where "issue_tokens env fr now u ?dev ?s = (Inr a, s')"
    using issue_tokens_run [OF lib, of ?dev ?s u fr now] dev free by (auto simp: d)
  moreover have "ae_parse_uuid env (rs_user_id ?session) = Inr (usr_id u)"
    using auth_lib_uuid [OF lib] by (simp add: refresh_session_of_def)
  ultimately show ?thesis
    unfolding refresh_def and_then_def take by (simp add: user user_or_def)
qed

text \<open>
  C36. Logging out ends the access token but not the refresh token: the handler deletes a key that was
  never written (refresh tokens are stored under their digest, not under the session id), so after a
  successful logout the refresh token of that very login still buys a new session.
\<close>

theorem refresh_survives_logout:
  assumes "auth_lib env" "find_by_id (ae_user env) (usr_id u) (srv_db s) = Inr (Some u)"
    and "dc_type dev \<in> set device_type_values"
    and "\<forall>x\<in>set (user_sessions (srv_db s)). us_id x \<noteq> fr_session fr \<and> us_id x \<noteq> fr_session fr'"
    and "fr_session fr \<noteq> fr_session fr'"
    and "issue_tokens env fr now u dev s = (Inr a, s1)"
    and "logout env \<lparr>au_user_id = usr_id u, au_session_id = fr_session fr\<rparr> s1 = (r, s2)"
    and "now' < now + seconds (ae_refresh_ttl env)"
  shows "r = Inr (200, MessageBody ''Logout exitoso'') \<and>
    fst (auth_middleware env now' (Some (''Bearer '' @ ar_access_token a)) s2) \<noteq> Inr b \<and>
    (\<exists>a' s3. refresh env fr' now' (ar_refresh_token a) s2 = (Inr (200, TokensBody a'), s3))"
proof -
  let ?sid = "fr_session fr" and ?tok = "show_uuid env (fr_token fr)"
  let ?session = "refresh_session_of env u ?sid dev"
  have ex: "user_exists (srv_db s) (usr_id u)" using find_by_id_exists [OF assms(2)] by simp
  obtain access json ss where
    a: "generate_access_token env now (usr_id u) ?sid = Inr access" "ar_access_token a = access" "ar_refresh_token a = ?tok"
    and j: "ae_session_parse env json = Inr ?session"
    and ss: "us_id ` set ss \<subseteq> insert ?sid (us_id ` set (user_sessions (srv_db s)))"
    and s1: "s1 = s\<lparr>srv_db := (srv_db s)\<lparr>user_sessions := ss\<rparr>,
      srv_redis := redis_set_ex now (refresh_key env ?tok) json (ae_refresh_ttl env) (srv_redis s)\<rparr>"
    using issue_tokens_run [OF assms(1,3) ex, where fr = fr and now = now] assms(4,6) by auto
  let ?gone = "delete_where (\<lambda>x. us_id x = ?sid \<and> us_user_id x = usr_id u) ss"
  have r: "r = Inr (200, MessageBody ''Logout exitoso'')"
    and s2: "s2 = s1\<lparr>srv_db := (srv_db s1)\<lparr>user_sessions := ?gone\<rparr>,
      srv_redis := redis_del (''refresh:'' @ show_uuid env ?sid) (redis_del (session_key env ?sid) (srv_redis s1))\<rparr>"
    using assms(7) unfolding logout_run by (auto simp: s1)
  have db2: "srv_db s2 = (srv_db s)\<lparr>user_sessions := ?gone\<rparr>" by (simp add: s2 s1)
  have "fst (auth_middleware env now' (Some (''Bearer '' @ access)) s2) \<noteq> Inr b"
    by (rule gone_session_refused [OF assms(1) a(1)]) (auto simp: db2 set_delete_where s2)
  moreover have "redis_get now' (refresh_key env ?tok) (srv_redis s2) = (Inr (Some json), srv_redis s2)"
    using assms(8) auth_lib_sha [OF assms(1)] key_prefix_neq
    by (simp add: s2 s1 redis_get_def refresh_key_def session_key_def)
  then have "\<exists>a' s3. refresh env fr' now' ?tok s2 = (Inr (200, TokensBody a'), s3)"
    by (rule refresh_stored [OF assms(1) _ j _ assms(3)])
      (use assms(2,4,5) ss in \<open>auto simp: db2 find_by_id_def find_user_def set_delete_where\<close>)
  ultimately show ?thesis using r a(2,3) by simp
qed


section \<open>Refresh tokens work once\<close>

lemma issue_tokens_keeps:
  assumes "k \<noteq> refresh_key env (show_uuid env (fr_token fr))"
  shows "lookup t k (srv_redis (snd (issue_tokens env fr now u dev s))) = lookup t k (srv_redis s)"
proof -
  have u: "srv_redis (s\<lparr>srv_db := d\<rparr>) = srv_redis s" for d by simp
  have st: "lookup t k (snd (store_refresh_token env now (show_uuid env (fr_token fr)) x r)) = lookup t k r" for x r
    using assms by (simp add: store_refresh_token_def split: sum.split)
  show ?thesis
  proof (cases "upsert_session (fr_session fr) now (usr_id u) (dc_id dev) (dc_name dev) (dc_type dev)
      (dc_push_token dev) (now + seconds (ae_refresh_ttl env)) (srv_db s)")
    case (Pair res d)
    show ?thesis
    proof (cases res)
      case (Inl e)
      then show ?thesis using Pair by (simp add: issue_tokens_def and_then_on_db)
    next
      case (Inr sid)
      show ?thesis
      proof (cases "generate_access_token env now (usr_id u) sid")
        case (Inl e)
        then show ?thesis using Pair Inr by (simp add: issue_tokens_def and_then_on_db)
      next
        case (Inr access)
        obtain y r where y: "store_refresh_token env now (show_uuid env (fr_token fr))
            (refresh_session_of env u sid dev) (srv_redis s) = (y, r)" by fastforce
        have "lookup t k r = lookup t k (srv_redis s)" using st [of "refresh_session_of env u sid dev" "srv_redis s"] y by simp
        then show ?thesis
          using Pair \<open>res = Inr sid\<close> Inr y
          by (cases y) (simp_all add: issue_tokens_def and_then_on_db and_then_on_service generate_refresh_token_def Let_def)
      qed
    qed
  qed
qed

lemma refresh_after_take:
  assumes "take_refresh_session env now token s = (Inr session, s1)"
  shows "refresh env fr now token s =
    (case ae_parse_uuid env (rs_user_id session) of
       Inl e \<Rightarrow> (Inl (Internal e), s1)
     | Inr uid \<Rightarrow>
         (case find_by_id (ae_user env) uid (srv_db s1) of
            Inl e \<Rightarrow> (Inl e, s1)
          | Inr None \<Rightarrow> (Inl (Unauthorized user_not_found), s1)
          | Inr (Some u) \<Rightarrow>
              (case issue_tokens env fr now u (from_parts env (fr_device fr)
                 \<lparr>dp_id = Some (rs_device_id session), dp_name = Some (rs_device_name session),
                  dp_type = Some (rs_device_type session), dp_push_token = rs_push_token session\<rparr>) s1 of
                 (Inl e, s2) \<Rightarrow> (Inl e, s2) | (Inr a, s2) \<Rightarrow> (Inr (200, TokensBody a), s2))))"
  by (simp add: refresh_def and_then_def assms user_or_def read_db_def ok_or_def
      split: sum.split option.split prod.split)

lemma take_refresh_session_Inr:
  assumes "take_refresh_session env now token s = (Inr session, s1)"
  shows "lookup now (refresh_key env token) (srv_redis s) \<noteq> None \<and>
    srv_redis s1 = redis_del (refresh_key env token) (srv_redis s)"
proof (cases "validate_refresh_token env now token (srv_redis s)")
  case (Pair x r)
  then show ?thesis
    using assms validate_refresh_token_Inr [of env now token "srv_redis s"]
    by (cases x) (auto simp: take_refresh_session_def)
qed

lemma refresh_key_gone:
  assumes "refresh_key env (show_uuid env (fr_token fr)) \<noteq> refresh_key env token"
    and "refresh env fr now token s = (x, s')"
  shows "lookup t (refresh_key env token) (srv_redis s') = None \<or>
    \<not> is_ok x \<and> lookup t (refresh_key env token) (srv_redis s') = lookup t (refresh_key env token) (srv_redis s)"
proof (cases "take_refresh_session env now token s")
  case (Pair g s1)
  let ?k = "refresh_key env token"
  show ?thesis
  proof (cases g)
    case (Inl e)
    have "srv_redis s1 = srv_redis s"
    proof (cases "redis_get now ?k (srv_redis s)")
      case (Pair g' r1)
      then have "r1 = srv_redis s" by (metis redis_get_snd snd_conv)
      with Pair show ?thesis
        using \<open>take_refresh_session env now token s = (g, s1)\<close> Inl
        by (auto simp: take_refresh_session_def validate_refresh_token_def redis_service_def and_then_def
            split: if_splits sum.splits option.splits)
    qed
    then show ?thesis using assms(2) Pair Inl by (auto simp: refresh_def and_then_def)
  next
    case (Inr session)
    have gone: "lookup t ?k (srv_redis s1) = None"
      using take_refresh_session_Inr [of env now token s session s1] Pair Inr by simp
    let ?dev = "from_parts env (fr_device fr)
       \<lparr>dp_id = Some (rs_device_id session), dp_name = Some (rs_device_name session),
        dp_type = Some (rs_device_type session), dp_push_token = rs_push_token session\<rparr>"
    have i: "lookup t ?k (srv_redis s2) = None" if "issue_tokens env fr now u ?dev s1 = (y, s2)" for u y s2
      using issue_tokens_keeps [of ?k env fr t now u ?dev s1] assms(1) gone that by simp
    then have "lookup t ?k (srv_redis s') = None"
      using assms(2) gone unfolding refresh_after_take [OF Pair [unfolded Inr]]
      by (auto split: sum.splits option.splits prod.splits dest!: i)
    then show ?thesis by blast
  qed
qed

text \<open>\<open>POST /auth/refresh\<close> takes a one-time value: the instance of the contract.\<close>

interpretation refresh_once: one_time
    "\<lambda>fr. refresh_key env (show_uuid env (fr_token fr)) \<noteq> refresh_key env token"
    "\<lambda>now fr. refresh env fr now token"
    "\<lambda>now s. lookup now (refresh_key env token) (srv_redis s) \<noteq> None" is_ok
  for env token
proof unfold_locales
  fix fr t s x s'
  assume a: "refresh_key env (show_uuid env (fr_token fr)) \<noteq> refresh_key env token" "refresh env fr t token s = (x, s')"
  note g = refresh_key_gone [OF a, of t]
  show "lookup t (refresh_key env token) (srv_redis s) \<noteq> None \<and> \<not> lookup t (refresh_key env token) (srv_redis s') \<noteq> None"
    if "is_ok x"
  proof -
    have "\<exists>g s1. take_refresh_session env t token s = (Inr g, s1)"
      using a(2) that
      by (cases "take_refresh_session env t token s"; cases "fst (take_refresh_session env t token s)")
        (auto simp: refresh_def and_then_def)
    then obtain y s1 where "take_refresh_session env t token s = (Inr y, s1)" by blast
    then have "lookup t (refresh_key env token) (srv_redis s) \<noteq> None"
      using take_refresh_session_Inr by blast
    then show ?thesis using g that by simp
  qed
  show "\<not> lookup t (refresh_key env token) (srv_redis s') \<noteq> None"
    if "\<not> lookup t (refresh_key env token) (srv_redis s) \<noteq> None"
    using g that by auto
next
  show "\<not> lookup t' (refresh_key env token) (srv_redis s) \<noteq> None"
    if "\<not> lookup t (refresh_key env token) (srv_redis s) \<noteq> None" "t \<le> t'" for t t' s
    using lookup_later [of t _ "srv_redis s" t'] that by simp
qed

text \<open>
  C37. A refresh token works at most once: of any number of requests to \<open>POST /auth/refresh\<close> with the
  same token, one after the other, at most one succeeds, whatever the state was. The new tokens are
  assumed not to collide with it.
\<close>

theorem refresh_single_use:
  assumes "sorted (map fst attempts)"
    and "\<forall>x\<in>set attempts. refresh_key env (show_uuid env (fr_token (snd x))) \<noteq> refresh_key env token"
  shows "length (filter is_ok (fst (takes (\<lambda>now fr. refresh env fr now token) attempts s))) \<le> 1"
  using assms by (rule refresh_once.at_most_once)

text \<open>
  One after the other matters: \<open>validate_refresh_token\<close> reads the key, parses it and deletes it in
  separate commands and ignores whether the deletion found it, so of two concurrent requests that both
  read before either deletes, both succeed.
\<close>


section \<open>Two-factor authentication\<close>

lemma verify_matched_code:
  assumes "verify_otp_with_limit now k c m r = (Inr Matched, r')"
  shows "fst (redis_get now k r) = Inr (Some c)"
proof (cases "redis_get now k r")
  case (Pair g r1)
  show ?thesis
  proof (cases g)
    case (Inl e)
    then show ?thesis using assms Pair by (simp add: verify_otp_with_limit_def verify_script_def and_then_def)
  next
    case (Inr stored)
    show ?thesis
    proof (cases stored)
      case None
      then show ?thesis
        using assms Pair Inr by (simp add: verify_otp_with_limit_def verify_script_def and_then_def otp_result_def)
    next
      case (Some code)
      show ?thesis
      proof (cases "code = c")
        case False
        then show ?thesis
          using assms Pair Inr Some
          by (cases "redis_incr now (attempts_key k) r1"; cases "fst (redis_incr now (attempts_key k) r1)")
            (auto simp: verify_otp_with_limit_def verify_script_def and_then_def otp_result_def Let_def split: if_splits)
      qed (use Pair Inr Some in simp)
    qed
  qed
qed

lemma otp_gate_tokens:
  assumes "otp_gate f e x result go s = (Inr (st, TokensBody a), s')"
  shows "result = Matched \<and> go () s = (Inr (st, TokensBody a), s')"
  using assms by (cases result) (simp_all add: otp_gate_def)

lemma issue_tokens_user:
  assumes "issue_tokens env fr now u dev s = (Inr a, s')"
  shows "ar_user_id a = usr_id u"
  using assms
  by (auto simp: issue_tokens_def and_then_def Let_def service_result_def split: prod.splits sum.splits)

lemma login_verify_withholds:
  assumes "phone_number_new phone = Inr p" "find_by_phone (ae_user env) p (srv_db s) = Inr (Some u)"
    and "usr_two_fa_enabled u"
    and l: "login_verify env fr now phone code parts s = (Inr (st, body), s')"
  shows "(\<forall>a. body \<noteq> TokensBody a) \<and> user_sessions (srv_db s') = user_sessions (srv_db s)"
proof -
  obtain x r where v: "verify_login_otp now phone code (srv_redis s) = (x, r)" by fastforce
  show ?thesis
  proof (cases x)
    case (Inl e)
    then show ?thesis using l v by (simp add: login_verify_def and_then_on_redis)
  next
    case (Inr result)
    show ?thesis
    proof (cases "result = Matched")
      case True
      then show ?thesis
        using l v Inr assms(1-3)
        by (auto simp: login_verify_def and_then_on_redis otp_gate_def parse_phone_def user_or_def and_then_query
            read_db_def and_then_def service_result_def on_redis_def store_two_fa_login_otp_def store_otp_def
            split: sum.splits)
    next
      case False
      then show ?thesis
        using l v Inr by (cases result) (auto simp: login_verify_def and_then_on_redis otp_gate_def)
    qed
  qed
qed

lemma second_step_tokens:
  assumes "and_then (read_db (find_by_id (ae_user env) uid)) (\<lambda>found.
      and_then (user_or (Unauthorized user_not_found) found) (\<lambda>u.
      and_then (issue_tokens env fr now u dev) (\<lambda>a. ret (200, TokensBody a)))) t = (Inr (st, TokensBody a), t')"
  shows "ar_user_id a = uid"
proof -
  obtain w where w: "find_by_id (ae_user env) uid (srv_db t) = Inr (Some w)"
    using assms by (auto simp: and_then_def user_or_def ok_or_def split: sum.splits option.splits)
  then have "usr_id w = uid" using find_by_id_exists by blast
  then show ?thesis
    using assms w by (auto simp: and_then_def user_or_def split: prod.splits sum.splits dest: issue_tokens_user)
qed

lemma two_fa_verify_tokens:
  assumes l: "two_fa_verify env fr now temp code parts t = (Inr (st, TokensBody a), t')"
  obtains c where "ae_decode env now temp = Inr c" "unix_seconds now \<le> ac_exp c" "ac_sid c = temp_session_id"
    "ae_parse_uuid env (ac_sub c) = Inr (ar_user_id a)"
    "fst (redis_get now (two_fa_login_key (show_uuid env (ar_user_id a))) (srv_redis t)) = Inr (Some code)"
proof -
  obtain c where c: "validate_access_token env now temp = Inr c"
    using l by (auto simp: two_fa_verify_def split: sum.splits)
  have sid: "ac_sid c = temp_session_id" using l c by (auto simp: two_fa_verify_def split: if_splits)
  obtain uid where uid: "ae_parse_uuid env (ac_sub c) = Inr uid"
    using l c sid by (auto simp: two_fa_verify_def split: sum.splits)
  obtain x r where v: "verify_two_fa_login_otp now (show_uuid env uid) code (srv_redis t) = (x, r)" by fastforce
  obtain result where x: "x = Inr result"
    using l c sid uid v by (cases x) (simp_all add: two_fa_verify_def and_then_on_redis)
  let ?go = "\<lambda>_. and_then (read_db (find_by_id (ae_user env) uid)) (\<lambda>found.
      and_then (user_or (Unauthorized user_not_found) found) (\<lambda>u.
      and_then (issue_tokens env fr now u (from_parts env (fr_device fr) parts)) (\<lambda>a.
      ret (200, TokensBody a))))"
  have "otp_gate invalid_two_fa too_many_tries code_expired result ?go (t\<lparr>srv_redis := r\<rparr>) =
      (Inr (st, TokensBody a), t')"
    using l c sid uid v x by (simp add: two_fa_verify_def and_then_on_redis)
  then have m: "result = Matched" and g: "?go () (t\<lparr>srv_redis := r\<rparr>) = (Inr (st, TokensBody a), t')"
    using otp_gate_tokens by blast+
  have "ar_user_id a = uid" using g by (rule second_step_tokens)
  moreover have "fst (redis_get now (two_fa_login_key (show_uuid env uid)) (srv_redis t)) = Inr (Some code)"
    using v x m verify_matched_code by (auto simp: verify_two_fa_login_otp_def)
  ultimately show ?thesis using that c sid uid by (auto simp: validate_access_token_Inr)
qed

text \<open>
  C28. The second factor cannot be left out. For a user who enabled it a correct login code yields no
  tokens and no session, only a temporary token; and the second step yields tokens only for an unexpired
  temporary token together with the code that is stored for that very user.
\<close>

theorem two_fa_withholds_tokens:
  assumes "phone_number_new phone = Inr p" "find_by_phone (ae_user env) p (srv_db s) = Inr (Some u)"
    and "usr_two_fa_enabled u"
  shows "(login_verify env fr now phone code parts s = (Inr (st, body), s') \<longrightarrow>
      (\<forall>a. body \<noteq> TokensBody a) \<and> user_sessions (srv_db s') = user_sessions (srv_db s)) \<and>
    (two_fa_verify env fr' now' temp code' parts' t = (Inr (st', TokensBody a'), t') \<longrightarrow>
      (\<exists>c. ae_decode env now' temp = Inr c \<and> unix_seconds now' \<le> ac_exp c \<and> ac_sid c = temp_session_id \<and>
        ae_parse_uuid env (ac_sub c) = Inr (ar_user_id a') \<and>
        fst (redis_get now' (two_fa_login_key (show_uuid env (ar_user_id a'))) (srv_redis t)) = Inr (Some code')))"
  using login_verify_withholds [OF assms] by (blast elim: two_fa_verify_tokens)

text \<open>
  The token that the recovery flow hands out is a temporary token like that of a login with two-factor
  authentication; nothing distinguishes the two.
\<close>

lemma recover_token_is_temporary:
  assumes "recover_verify env now phone code s = (Inr (200, RecoverBody tok), s')"
  shows "\<exists>u. generate_temp_token env now u = Inr tok"
proof -
  have "result = Matched" if "otp_gate f e x result go s1 = (Inr (200, RecoverBody tok), s2)" for f e x result go s1 s2
    using that by (cases result) (auto simp: otp_gate_def)
  then show ?thesis
    using assms
    by (auto simp: recover_verify_def and_then_on_redis split: prod.splits sum.splits)
      (fastforce simp: otp_gate_def and_then_def parse_phone_def user_or_def service_result_def ok_or_def
        split: prod.splits sum.splits option.splits)
qed

text \<open>
  The requests accept a phone number as a JSON number too, but its decimal text has no plus sign, so it
  is never a valid phone number.
\<close>

lemma numeric_phone_rejected:
  assumes "string_or_number (JInt n) = Some p"
  shows "phone_number_new p = Inl (Validation (''Invalid phone number format (E.164 required): '' @ p))"
proof -
  have digit: "\<not> starts_with ''+'' (nat_to_string m)" for m
  proof -
    have "nat_to_string m \<noteq> []" by (subst nat_to_string.simps) simp
    moreover have "list_all is_ascii_digit (nat_to_string m)" by (rule nat_to_string_digits)
    ultimately have "is_ascii_digit (hd (nat_to_string m))" by (cases "nat_to_string m") auto
    then show ?thesis by (cases "nat_to_string m") (auto simp: starts_with_def is_ascii_digit_def)
  qed
  have "\<not> starts_with ''+'' p"
  proof (cases "n < 0")
    case True
    then show ?thesis using assms by (auto simp: int_to_string_def starts_with_def)
  next
    case False
    then show ?thesis using assms digit [of "nat n"] by (simp add: int_to_string_def)
  qed
  then show ?thesis by (simp add: phone_number_new_def phone_ok_def)
qed

end
