(* ===== verification/AuthSample.thy ===== *)
theory AuthSample
  imports AuthProps
begin

text \<open>
  A concrete environment in which the hypotheses on the libraries hold: fields are written with their
  length in unary, numbers in binary, a UUID in unary, a token is the text of its claims, and the digest of a
  text is the text with a prefix. Runs of the handlers in it are the witnesses.
\<close>

definition enc :: "string \<Rightarrow> string" where
  "enc f = replicate (length f) (CHR ''a'') @ CHR ''|'' # f"

definition dec :: "string \<Rightarrow> string \<times> string" where
  "dec s = (let n = length (takeWhile (\<lambda>c. c = CHR ''a'') s); r = drop (Suc n) s in (take n r, drop n r))"

lemma dec_enc [simp]: "dec (enc f @ rest) = (f, rest)"
proof -
  have "takeWhile (\<lambda>c. c = CHR ''a'') (enc f @ rest) = replicate (length f) (CHR ''a'')"
    by (simp add: enc_def takeWhile_append2 takeWhile_append)
  then show ?thesis by (simp add: dec_def Let_def enc_def)
qed

function bits_of :: "int \<Rightarrow> string" where
  "bits_of n = (if n \<le> 0 then '''' else (if even n then CHR ''a'' else CHR ''b'') # bits_of (n div 2))"
  by pat_completeness auto

termination bits_of
  by (relation "measure nat") auto

declare bits_of.simps [simp del]

fun of_bits :: "string \<Rightarrow> int" where
  "of_bits [] = 0"
| "of_bits (c # s) = (if c = CHR ''b'' then 1 else 0) + 2 * of_bits s"

lemma of_bits_of: "0 \<le> n \<Longrightarrow> of_bits (bits_of n) = n"
proof (induction n rule: bits_of.induct)
  case (1 n)
  then show ?case
    by (cases "n = 0") (subst bits_of.simps, auto simp: pos_imp_zdiv_nonneg_iff elim!: evenE oddE)+
qed

definition int_text :: "int \<Rightarrow> string" where
  "int_text n = (if n < 0 then CHR ''-'' else CHR ''+'') # bits_of \<bar>n\<bar>"

definition text_int :: "string \<Rightarrow> int" where
  "text_int s = (case s of [] \<Rightarrow> 0 | c # r \<Rightarrow> if c = CHR ''-'' then - of_bits r else of_bits r)"

lemma text_int_text [simp]: "text_int (int_text n) = n"
  by (simp add: text_int_def int_text_def of_bits_of)

definition claims_text :: "access_claims \<Rightarrow> string" where
  "claims_text c = enc (ac_sub c) @ enc (ac_sid c) @ enc (int_text (ac_exp c)) @ enc (int_text (ac_iat c))"

definition text_claims :: "string \<Rightarrow> access_claims" where
  "text_claims s =
     (let (sub, r1) = dec s; (sid, r2) = dec r1; (ex, r3) = dec r2; (ia, r4) = dec r3
      in \<lparr>ac_sub = sub, ac_sid = sid, ac_exp = text_int ex, ac_iat = text_int ia\<rparr>)"

lemma text_claims_text [simp]: "text_claims (claims_text c) = c"
  using dec_enc [of "int_text (ac_iat c)" "''''"]
  by (cases c) (simp add: text_claims_def claims_text_def Let_def)

definition session_text :: "refresh_session \<Rightarrow> string" where
  "session_text x = enc (rs_user_id x) @ enc (rs_session_id x) @ enc (rs_device_id x) @ enc (rs_device_name x) @
     enc (rs_device_type x) @ (case rs_push_token x of None \<Rightarrow> '''' | Some p \<Rightarrow> CHR ''p'' # p)"

definition text_session :: "string \<Rightarrow> refresh_session" where
  "text_session s =
     (let (u, r1) = dec s; (i, r2) = dec r1; (di, r3) = dec r2; (dn, r4) = dec r3; (ty, r5) = dec r4
      in \<lparr>rs_user_id = u, rs_session_id = i, rs_device_id = di, rs_device_name = dn, rs_device_type = ty,
          rs_push_token = (case r5 of [] \<Rightarrow> None | c # p \<Rightarrow> Some p)\<rparr>)"

lemma text_session_text [simp]: "text_session (session_text x) = x"
  by (cases x) (simp add: text_session_def session_text_def Let_def split: option.split)

definition sample_auth_env :: auth_env where
  "sample_auth_env = \<lparr>ae_user = sample_user_env\<lparr>ue_redis := (ue_redis sample_user_env)
       \<lparr>re_show := (\<lambda>u. replicate (unat u) (CHR ''u''))\<rparr>\<rparr>,
     ae_hash_phone = (\<lambda>p. ''hash of '' @ p), ae_parse_uuid = (\<lambda>s. Inr (word_of_nat (length s))),
     ae_encode = (\<lambda>c. Inr (claims_text c)),
     ae_decode = (\<lambda>now s. if ac_exp (text_claims s) + 60 < unix_seconds now then Inl ''ExpiredSignature''
        else Inr (text_claims s)),
     ae_sha256 = (\<lambda>s. ''sha '' @ s), ae_session_json = (\<lambda>x. Inr (session_text x)),
     ae_session_parse = (\<lambda>s. Inr (text_session s)), ae_jwt_redis = True, ae_access_ttl = 9,
     ae_refresh_ttl = 50, ae_otp_ttl = 600\<rparr>"

lemma sample_auth_lib: "auth_lib sample_auth_env"
proof -
  have "''sha '' @ x \<noteq> replicate n (CHR ''u'')" for x n
    by (cases n) simp_all
  then show ?thesis by (simp add: auth_lib_def sample_auth_env_def)
qed

text \<open>A user logs in on a phone: session 3, refresh token 4.\<close>

definition fresh_34 :: fresh where
  "fresh_34 = \<lparr>fr_user = 1, fr_session = 3, fr_device = 2, fr_token = 4, fr_code = 12, fr_clock = 0\<rparr>"

definition fresh_56 :: fresh where
  "fresh_56 = \<lparr>fr_user = 1, fr_session = 5, fr_device = 2, fr_token = 6, fr_code = 34, fr_clock = 0\<rparr>"

definition phone_device :: device_context where
  "phone_device = \<lparr>dc_id = ''dev'', dc_name = ''my phone'', dc_type = ''android'', dc_push_token = None\<rparr>"

definition logged_in :: "(domain_error + auth_response) \<times> srv" where
  "logged_in = issue_tokens sample_auth_env fresh_34 0 julio phone_device with_julio"

definition access_of :: string where
  "access_of = claims_text \<lparr>ac_sub = ''uuuuuuu'', ac_sid = ''uuu'', ac_exp = 9, ac_iat = 0\<rparr>"

lemma logged_in_run:
  "map_sum (\<lambda>e. e) (\<lambda>a. (ar_access_token a, ar_refresh_token a)) (fst logged_in) = Inr (access_of, ''uuuu'')"
  by code_simp

definition first_request :: "(nat \<times> string + authenticated_user) \<times> srv" where
  "first_request = auth_middleware sample_auth_env 1000000 (Some (''Bearer '' @ access_of)) (snd logged_in)"

lemma first_request_run: "fst first_request = Inr \<lparr>au_user_id = 7, au_session_id = 3\<rparr>"
  by code_simp

theorem protected_needs_session_witness:
  "is_session_valid 1000000 7 3 (srv_db (snd logged_in)) = Inr True \<and>
   auth_middleware sample_auth_env 0 (Some (''Bearer '' @ claims_text
     \<lparr>ac_sub = ''uuuuuuu'', ac_sid = ''temp'', ac_exp = 300, ac_iat = 0\<rparr>)) (snd logged_in) \<noteq> first_request"
proof -
  have f: "first_request = (Inr \<lparr>au_user_id = 7, au_session_id = 3\<rparr>, snd first_request)"
    using first_request_run by (simp add: prod_eq_iff)
  then have "auth_middleware sample_auth_env 1000000 (Some (''Bearer '' @ access_of)) (snd logged_in) =
      (Inr \<lparr>au_user_id = 7, au_session_id = 3\<rparr>, snd first_request)"
    by (simp add: first_request_def)
  then have "is_session_valid 1000000 7 3 (srv_db (snd logged_in)) = Inr True \<or>
      (\<exists>v. fst (redis_get 1000000 (session_key sample_auth_env 3) (srv_redis (snd logged_in))) = Inr (Some v))"
    using protected_needs_session [OF sample_auth_lib, THEN conjunct1] by fastforce
  moreover have "fst (redis_get 1000000 (session_key sample_auth_env 3) (srv_redis (snd logged_in))) = Inr None"
    by code_simp
  ultimately have "is_session_valid 1000000 7 3 (srv_db (snd logged_in)) = Inr True" by simp
  moreover have "generate_temp_token sample_auth_env 0 7 = Inr (claims_text
      \<lparr>ac_sub = ''uuuuuuu'', ac_sid = ''temp'', ac_exp = 300, ac_iat = 0\<rparr>)"
    by code_simp
  ultimately show ?thesis
    using protected_needs_session [OF sample_auth_lib, THEN conjunct2] f by metis
qed

theorem deleted_session_still_accepted_witness:
  "fst (h_delete_session \<lparr>au_user_id = 7, au_session_id = 9\<rparr> 3 (snd first_request)) =
     Inr (200, MessageBody ''Sesion eliminada'') \<and>
   fst (auth_middleware sample_auth_env 5000000 (Some (''Bearer '' @ access_of))
     (snd (h_delete_session \<lparr>au_user_id = 7, au_session_id = 9\<rparr> 3 (snd first_request)))) =
     Inr \<lparr>au_user_id = 7, au_session_id = 3\<rparr>"
proof -
  have "auth_middleware sample_auth_env 1000000 (Some (''Bearer '' @ access_of)) (snd logged_in) =
      (Inr \<lparr>au_user_id = 7, au_session_id = 3\<rparr>, snd first_request)"
    using first_request_run by (simp add: prod_eq_iff first_request_def)
  moreover have "redis_get 1000000 (session_key sample_auth_env 3) (srv_redis (snd logged_in)) =
      (Inr None, srv_redis (snd logged_in))"
  proof -
    have "fst (redis_get 1000000 (session_key sample_auth_env 3) (srv_redis (snd logged_in))) = Inr None"
      by code_simp
    then show ?thesis by (simp add: prod_eq_iff)
  qed
  then have "lookup 1000000 (session_key sample_auth_env 3) (srv_redis (snd logged_in)) = None"
    by (auto simp: redis_get_def split: option.splits redis_value.splits)
  moreover have "validate_access_token sample_auth_env 5000000 access_of = validate_access_token sample_auth_env 1000000 access_of"
    by code_simp
  moreover have "5000000 < 1000000 + seconds (ae_access_ttl sample_auth_env)"
    by code_simp
  ultimately show ?thesis
    using deleted_session_still_accepted [where env = sample_auth_env and t = 1000000 and t' = 5000000
        and sid = 3 and u = 7 and other = 9 and tok = access_of]
    by (metis fst_conv prod.collapse)
qed

theorem refresh_survives_logout_witness:
  "\<exists>a. fst (refresh sample_auth_env fresh_56 2000000 ''uuuu''
     (snd (logout sample_auth_env \<lparr>au_user_id = 7, au_session_id = 3\<rparr> (snd logged_in)))) = Inr (200, TokensBody a)"
proof -
  obtain a where a: "fst logged_in = Inr a" "ar_refresh_token a = ''uuuu''"
    using logged_in_run by (cases "fst logged_in") auto
  then have l: "issue_tokens sample_auth_env fresh_34 0 julio phone_device with_julio = (Inr a, snd logged_in)"
    by (simp add: prod_eq_iff logged_in_def)
  have f: "find_by_id (ae_user sample_auth_env) (usr_id julio) (srv_db with_julio) = Inr (Some julio)" by code_simp
  have d: "dc_type phone_device \<in> set device_type_values" "user_sessions (srv_db with_julio) = []"
    "fr_session fresh_34 \<noteq> fr_session fresh_56" "fr_session fresh_34 = 3" "usr_id julio = 7"
    "2000000 < 0 + seconds (ae_refresh_ttl sample_auth_env)"
    by code_simp+
  show ?thesis
    using refresh_survives_logout [OF sample_auth_lib f d(1) _ d(3) l prod.collapse [symmetric] d(6)] d(2,4,5) a(2)
    by (metis emptyE fst_conv list.set(1))
qed


text \<open>The refresh token of the login is used twice; only the first attempt succeeds.\<close>

theorem refresh_single_use_witness:
  "map is_ok (fst (takes (\<lambda>now fr. refresh sample_auth_env fr now ''uuuu'') [(2000000, fresh_56), (3000000, fresh_56)]
     (snd logged_in))) = [True, False] \<and>
   length (filter is_ok (fst (takes (\<lambda>now fr. refresh sample_auth_env fr now ''uuuu'')
     [(2000000, fresh_56), (3000000, fresh_56)] (snd logged_in)))) \<le> 1"
proof
  show "map is_ok (fst (takes (\<lambda>now fr. refresh sample_auth_env fr now ''uuuu'') [(2000000, fresh_56), (3000000, fresh_56)]
     (snd logged_in))) = [True, False]"
    by code_simp
  have "refresh_key sample_auth_env (show_uuid sample_auth_env (fr_token fresh_56)) \<noteq> refresh_key sample_auth_env ''uuuu''"
    by code_simp
  then show "length (filter is_ok (fst (takes (\<lambda>now fr. refresh sample_auth_env fr now ''uuuu'')
     [(2000000, fresh_56), (3000000, fresh_56)] (snd logged_in)))) \<le> 1"
    by (intro refresh_single_use) simp_all
qed

text \<open>A user with the second factor: the first code gives the temporary token, the second the tokens.\<close>

definition guarded :: user where
  "guarded = julio\<lparr>usr_two_fa_enabled := True\<rparr>"

definition code_waiting :: srv where
  "code_waiting = snd (login sample_auth_env fresh_34 0 ''127.0.0.1'' ''+573001234567'' ''dev''
     (snd (create_user sample_user_env 5 guarded no_users)))"

definition web_device :: device_parts where
  "web_device = \<lparr>dp_id = None, dp_name = None, dp_type = None, dp_push_token = None\<rparr>"

definition first_factor :: "(domain_error + nat \<times> auth_body) \<times> srv" where
  "first_factor = login_verify sample_auth_env fresh_34 1000000 ''+573001234567'' ''000012'' web_device code_waiting"

definition temp_of :: string where
  "temp_of = claims_text \<lparr>ac_sub = ''uuuuuuu'', ac_sid = ''temp'', ac_exp = 301, ac_iat = 1\<rparr>"

lemma first_factor_run: "fst first_factor = Inr (202, TwoFaBody temp_of)"
  by code_simp

definition second_factor :: "(domain_error + nat \<times> auth_body) \<times> srv" where
  "second_factor = two_fa_verify sample_auth_env fresh_56 2000000 temp_of ''000012'' web_device (snd first_factor)"

lemma second_factor_run:
  "case fst second_factor of Inr (st, TokensBody a) \<Rightarrow> st = 200 \<and> ar_user_id a = 7 | _ \<Rightarrow> False"
  by code_simp

theorem two_fa_withholds_tokens_witness:
  "user_sessions (srv_db (snd first_factor)) = user_sessions (srv_db code_waiting) \<and>
   fst (redis_get 2000000 (two_fa_login_key ''uuuuuuu'') (srv_redis (snd first_factor))) = Inr (Some ''000012'')"
proof -
  have p: "phone_number_new ''+573001234567'' = Inr (PhoneNumber ''+573001234567'')" by code_simp
  have f: "find_by_phone (ae_user sample_auth_env) (PhoneNumber ''+573001234567'') (srv_db code_waiting) = Inr (Some guarded)"
    by code_simp
  have g: "usr_two_fa_enabled guarded" by (simp add: guarded_def)
  note w = two_fa_withholds_tokens [OF p f g]
  have "login_verify sample_auth_env fresh_34 1000000 ''+573001234567'' ''000012'' web_device code_waiting =
      (Inr (202, TwoFaBody temp_of), snd first_factor)"
    using first_factor_run by (simp add: prod_eq_iff first_factor_def)
  then have "user_sessions (srv_db (snd first_factor)) = user_sessions (srv_db code_waiting)"
    using w [THEN conjunct1] by blast
  moreover obtain a where a: "fst second_factor = Inr (200, TokensBody a)" "ar_user_id a = 7"
    using second_factor_run by (cases "fst second_factor") (auto split: auth_body.splits)
  then have "two_fa_verify sample_auth_env fresh_56 2000000 temp_of ''000012'' web_device (snd first_factor) =
      (Inr (200, TokensBody a), snd second_factor)"
    by (simp add: prod_eq_iff second_factor_def)
  then have "fst (redis_get 2000000 (two_fa_login_key (show_uuid sample_auth_env (ar_user_id a))) (srv_redis (snd first_factor))) =
      Inr (Some ''000012'')"
    using w [THEN conjunct2] by blast
  moreover have "show_uuid sample_auth_env 7 = ''uuuuuuu''" by code_simp
  ultimately show ?thesis by (simp add: a)
qed

text \<open>
  The device type of the request goes unchecked to a cast to the enum of the schema. With a type outside
  it, such as \<open>iOS\<close>, the registration answers 500 after the code was consumed and the account created;
  a second attempt cannot succeed.
\<close>

definition registering :: srv where
  "registering = snd (register sample_auth_env fresh_34 0 ''127.0.0.1'' ''+573001234567'' ''dev'' no_users)"

definition bad_device_run :: "(domain_error + nat \<times> auth_body) \<times> srv" where
  "bad_device_run = verify_phone sample_auth_env fresh_34 1000000 ''+573001234567'' ''000012''
     (web_device\<lparr>dp_type := Some ''iOS''\<rparr>) registering"

lemma verify_phone_bad_device:
  "fst bad_device_run = Inl (Internal ''Database operation failed'')"
  "map u_phone (users (srv_db (snd bad_device_run))) = [''+573001234567'']"
  "fst (verify_phone sample_auth_env fresh_56 2000000 ''+573001234567'' ''000012'' web_device (snd bad_device_run)) =
     Inr (400, MessageBody code_expired)"
  by code_simp+

end
