(* ===== verification/Keys.thy ===== *)
theory Keys
  imports UserDirectory
begin

text \<open>
  Key distribution for end-to-end encryption: \<open>crates/domain/src/keys/mod.rs\<close>, \<open>PostgresKeyRepository\<close>
  (\<open>crates/infrastructure/src/repositories/keys.rs\<close>) with the function \<open>get_user_public_keys\<close> of
  migration 011, and the handlers of \<open>crates/api/src/handlers/keys/\<close>. Base64, Ed25519 and SHA-256 are
  library functions in \<open>key_env\<close>. A \<open>BIGSERIAL\<close> id is the next number of the table; only its order is used.
\<close>

record key_env =
  ke_base64 :: "string \<Rightarrow> string + string"
  ke_public_key :: "string \<Rightarrow> string + unit"
  ke_verify :: "string \<Rightarrow> string \<Rightarrow> string \<Rightarrow> string + unit"
  ke_sha256_hex :: "string \<Rightarrow> string"

record signed_prekey =
  sp_id :: int
  sp_key :: string
  sp_signature :: string

record one_time_prekey =
  op_id :: int
  op_key :: string

record user_keys_value =
  kv_user_id :: uuid
  kv_identity_key :: string
  kv_signed_prekey :: signed_prekey
  kv_signed_prekey_id :: int
  kv_prekey_count :: int

record key_bundle =
  kb_identity_key :: string
  kb_signed_prekey :: string
  kb_signed_prekey_id :: int
  kb_signed_prekey_sig :: string
  kb_one_time_prekey_id :: "int option"
  kb_one_time_prekey :: "string option"

section \<open>Repository\<close>

definition upsert_keys :: "timestamp \<Rightarrow> uuid \<Rightarrow> string \<Rightarrow> signed_prekey \<Rightarrow> (db, domain_error, unit) op" where
  "upsert_keys now u identity sp =
     sql (\<lambda>d.
       if exists_where (\<lambda>r. uk_user_id r = u) (user_keys d)
       then Inr (d\<lparr>user_keys := update_where (\<lambda>r. uk_user_id r = u)
              (\<lambda>r. r\<lparr>uk_identity_key := identity, uk_signed_prekey := sp_key sp, uk_signed_prekey_id := sp_id sp,
                     uk_signed_prekey_sig := sp_signature sp, uk_updated_at := now\<rparr>) (user_keys d)\<rparr>)
       else if \<not> user_exists d u then Inl foreign_key_violation
       else Inr (d\<lparr>user_keys := user_keys d @ [\<lparr>uk_user_id = u, uk_identity_key = identity,
              uk_signed_prekey = sp_key sp, uk_signed_prekey_id = sp_id sp, uk_signed_prekey_sig = sp_signature sp,
              uk_prekey_count = 0, uk_updated_at = now\<rparr>]\<rparr>))"

definition next_opk_id :: "prekey_row list \<Rightarrow> nat" where
  "next_opk_id t = Suc (fold (\<lambda>r m. max m (opk_id r)) t 0)"

text \<open>One row of the \<open>INSERT .. ON CONFLICT (user_id, key_id) DO NOTHING\<close>.\<close>

definition add_prekey :: "uuid \<Rightarrow> one_time_prekey \<Rightarrow> prekey_row list \<Rightarrow> prekey_row list" where
  "add_prekey u p t =
     (if exists_where (\<lambda>r. opk_user_id r = u \<and> opk_key_id r = op_id p) t then t
      else t @ [\<lparr>opk_id = next_opk_id t, opk_user_id = u, opk_key_id = op_id p, opk_public_key = op_key p,
             opk_is_consumed = False, opk_consumed_at = None\<rparr>])"

definition unconsumed :: "uuid \<Rightarrow> db \<Rightarrow> nat" where
  "unconsumed u d = count_where (\<lambda>r. opk_user_id r = u \<and> \<not> opk_is_consumed r) (one_time_prekeys d)"

definition add_one_time_prekeys :: "timestamp \<Rightarrow> uuid \<Rightarrow> one_time_prekey list \<Rightarrow> (db, domain_error, unit) op" where
  "add_one_time_prekeys now u ps =
     and_then (sql (\<lambda>d.
       if ps \<noteq> [] \<and> fold (add_prekey u) ps (one_time_prekeys d) \<noteq> one_time_prekeys d \<and> \<not> user_exists d u
       then Inl foreign_key_violation
       else Inr (d\<lparr>one_time_prekeys := fold (add_prekey u) ps (one_time_prekeys d)\<rparr>))) (\<lambda>_.
     sql (\<lambda>d. Inr (d\<lparr>user_keys := update_where (\<lambda>r. uk_user_id r = u)
       (\<lambda>r. r\<lparr>uk_prekey_count := int (unconsumed u d), uk_updated_at := now\<rparr>) (user_keys d)\<rparr>)))"

definition get_keys :: "uuid \<Rightarrow> db \<Rightarrow> user_keys_value option dres" where
  "get_keys u d =
     Inr (map_option (\<lambda>r. \<lparr>kv_user_id = uk_user_id r, kv_identity_key = uk_identity_key r,
         kv_signed_prekey = \<lparr>sp_id = uk_signed_prekey_id r, sp_key = uk_signed_prekey r,
           sp_signature = uk_signed_prekey_sig r\<rparr>,
         kv_signed_prekey_id = uk_signed_prekey_id r, kv_prekey_count = uk_prekey_count r\<rparr>)
       (select_one (\<lambda>r. uk_user_id r = u) (user_keys d)))"

definition get_prekey_count :: "uuid \<Rightarrow> db \<Rightarrow> int dres" where
  "get_prekey_count u d =
     Inr (unwrap_or (map_option uk_prekey_count (select_one (\<lambda>r. uk_user_id r = u) (user_keys d))) 0)"

definition is_blocked :: "uuid \<Rightarrow> uuid \<Rightarrow> db \<Rightarrow> bool dres" where
  "is_blocked u target d = Inr (blocks d u target)"

text \<open>\<open>get_user_public_keys\<close> (011): the unconsumed key with the least id is marked as consumed.\<close>

definition first_unconsumed :: "uuid \<Rightarrow> prekey_row list \<Rightarrow> prekey_row option" where
  "first_unconsumed u t =
     (case sort_key opk_id (select_where (\<lambda>r. opk_user_id r = u \<and> \<not> opk_is_consumed r) t) of
        [] \<Rightarrow> None | r # _ \<Rightarrow> Some r)"

definition get_user_public_keys :: "timestamp \<Rightarrow> uuid \<Rightarrow> db \<Rightarrow> key_bundle option \<times> db" where
  "get_user_public_keys now u d =
     (let opk = first_unconsumed u (one_time_prekeys d);
          d' = (case opk of
                  None \<Rightarrow> d
                | Some k \<Rightarrow>
                    d\<lparr>one_time_prekeys := update_where (\<lambda>r. opk_id r = opk_id k)
                        (\<lambda>r. r\<lparr>opk_is_consumed := True, opk_consumed_at := Some now\<rparr>) (one_time_prekeys d),
                      user_keys := update_where (\<lambda>r. uk_user_id r = u)
                        (\<lambda>r. r\<lparr>uk_prekey_count := max (uk_prekey_count r - 1) 0, uk_updated_at := now\<rparr>)
                        (user_keys d)\<rparr>)
      in (map_option (\<lambda>r. \<lparr>kb_identity_key = uk_identity_key r, kb_signed_prekey = uk_signed_prekey r,
            kb_signed_prekey_id = uk_signed_prekey_id r, kb_signed_prekey_sig = uk_signed_prekey_sig r,
            kb_one_time_prekey_id = map_option opk_key_id opk,
            kb_one_time_prekey = map_option opk_public_key opk\<rparr>)
          (select_one (\<lambda>r. uk_user_id r = u) (user_keys d')), d'))"

definition get_public_key_bundle :: "timestamp \<Rightarrow> uuid \<Rightarrow> (db, domain_error, key_bundle option) op" where
  "get_public_key_bundle now u d = (case get_user_public_keys now u d of (b, d') \<Rightarrow> (Inr b, d'))"

section \<open>Checks of uploaded keys\<close>

definition decode_sized :: "key_env \<Rightarrow> string \<Rightarrow> string \<Rightarrow> nat \<Rightarrow> string \<Rightarrow> string + string" where
  "decode_sized env bad_base64 bad_size n s =
     (case ke_base64 env s of
        Inl e \<Rightarrow> Inl (bad_base64 @ e)
      | Inr b \<Rightarrow> if length b = n then Inr b else Inl bad_size)"

definition verify_signed_prekey :: "key_env \<Rightarrow> string \<Rightarrow> string \<Rightarrow> string \<Rightarrow> string + unit" where
  "verify_signed_prekey env identity spk sig =
     (case decode_sized env ''invalid identity_key base64: '' ''identity_key must be 32 bytes'' 32 identity of
        Inl e \<Rightarrow> Inl e
      | Inr ik \<Rightarrow>
          (case ke_public_key env ik of
             Inl e \<Rightarrow> Inl (''invalid identity_key: '' @ e)
           | Inr _ \<Rightarrow>
               (case decode_sized env ''invalid signed_prekey base64: '' ''signed_prekey must be 32 bytes'' 32 spk of
                  Inl e \<Rightarrow> Inl e
                | Inr sb \<Rightarrow>
                    (case decode_sized env ''invalid signature base64: '' ''signature must be 64 bytes'' 64 sig of
                       Inl e \<Rightarrow> Inl e
                     | Inr gb \<Rightarrow>
                         (case ke_verify env ik sb gb of
                            Inl e \<Rightarrow> Inl (''signature verification failed: '' @ e)
                          | Inr _ \<Rightarrow> Inr ())))))"

fun check_prekeys :: "key_env \<Rightarrow> int set \<Rightarrow> one_time_prekey list \<Rightarrow> string + unit" where
  "check_prekeys env seen [] = Inr ()"
| "check_prekeys env seen (p # ps) =
     (if op_id p < 0
      then Inl (''invalid prekey id: '' @ int_to_string (op_id p) @ '' (must be positive)'')
      else if op_id p \<in> seen then Inl (''duplicate prekey id: '' @ int_to_string (op_id p))
      else case ke_base64 env (op_key p) of
          Inl e \<Rightarrow> Inl (''invalid prekey key base64: '' @ e)
        | Inr b \<Rightarrow>
            if length b \<noteq> 32 then Inl (''prekey '' @ int_to_string (op_id p) @ '' must be 32 bytes'')
            else check_prekeys env (insert (op_id p) seen) ps)"

definition validate_one_time_prekeys :: "key_env \<Rightarrow> one_time_prekey list \<Rightarrow> string + unit" where
  "validate_one_time_prekeys env ps =
     (if length ps > 200 then Inl ''maximum 200 one-time prekeys allowed'' else check_prekeys env {} ps)"

definition compute_fingerprint :: "key_env \<Rightarrow> string \<Rightarrow> string \<Rightarrow> string \<times> string \<times> string" where
  "compute_fingerprint env key1 key2 =
     (let (lo, hi) = (if key1 < key2 then (key1, key2) else (key2, key1));
          f = ke_sha256_hex env (lo @ hi)
      in (take 30 f @ '' '' @ take 30 (drop 30 f), key1, key2))"

section \<open>Handlers\<close>

datatype key_body =
    KeyError string
  | KeyCount int
  | KeyBundle string signed_prekey "one_time_prekey option"
  | KeyFingerprint string string string

text \<open>An answer with the header \<open>x-prekey-count\<close> when there are fewer than 20.\<close>

record key_answer =
  ka_status :: nat
  ka_body :: key_body
  ka_header :: "int option"

definition with_prekey_header :: "nat \<Rightarrow> key_body \<Rightarrow> int \<Rightarrow> key_answer" where
  "with_prekey_header st b count =
     \<lparr>ka_status = st, ka_body = b, ka_header = (if count < 20 then Some count else None)\<rparr>"

definition plain_answer :: "nat \<Rightarrow> key_body \<Rightarrow> key_answer" where
  "plain_answer st b = \<lparr>ka_status = st, ka_body = b, ka_header = None\<rparr>"

text \<open>Every error of the repository becomes an internal one: \<open>map_err(|e| Internal(e.to_string()))\<close>.\<close>

definition key_db :: "(db, domain_error, 'a) op \<Rightarrow> 'a handler" where
  "key_db m s =
     (case on_db m s of (Inl e, s') \<Rightarrow> (Inl (Internal (error_to_string e)), s') | (Inr x, s') \<Rightarrow> (Inr x, s'))"

definition h_upload_keys ::
  "key_env \<Rightarrow> timestamp \<Rightarrow> uuid \<Rightarrow> string \<Rightarrow> signed_prekey \<Rightarrow> one_time_prekey list \<Rightarrow> key_answer handler" where
  "h_upload_keys env now auth identity sp ps =
     (if identity = '''' then ret (plain_answer 400 (KeyError ''identity_key is required''))
      else if sp_key sp = '''' \<or> sp_signature sp = ''''
      then ret (plain_answer 400 (KeyError ''signed_prekey is incomplete''))
      else case verify_signed_prekey env identity (sp_key sp) (sp_signature sp) of
          Inl e \<Rightarrow> ret (plain_answer 400 (KeyError (''invalid signed_prekey signature: '' @ e)))
        | Inr _ \<Rightarrow>
            and_then (key_db (upsert_keys now auth identity sp)) (\<lambda>_.
            let finish = and_then (key_db (query (get_prekey_count auth))) (\<lambda>count.
                  ret (with_prekey_header 200 (KeyCount count) count))
            in if ps = [] then finish
               else case validate_one_time_prekeys env ps of
                   Inl e \<Rightarrow> ret (plain_answer 400 (KeyError (''invalid one_time_prekeys: '' @ e)))
                 | Inr _ \<Rightarrow> and_then (key_db (add_one_time_prekeys now auth ps)) (\<lambda>_. finish)))"

definition h_upload_prekeys :: "timestamp \<Rightarrow> uuid \<Rightarrow> one_time_prekey list \<Rightarrow> key_answer handler" where
  "h_upload_prekeys now auth ps =
     (if ps = [] then ret (plain_answer 400 (KeyError ''no prekeys provided''))
      else
        and_then (key_db (add_one_time_prekeys now auth ps)) (\<lambda>_.
        and_then (key_db (query (get_prekey_count auth))) (\<lambda>count.
        ret (with_prekey_header 200 (KeyCount count) count))))"

definition h_get_key_bundle :: "timestamp \<Rightarrow> uuid \<Rightarrow> uuid \<Rightarrow> key_answer handler" where
  "h_get_key_bundle now auth target =
     (if target = auth then ret (plain_answer 400 (KeyError ''cannot get own key bundle''))
      else
        and_then (key_db (query (is_blocked auth target))) (\<lambda>b.
        if b then ret (plain_answer 403 (KeyError ''user is blocked''))
        else
          and_then (key_db (query (is_blocked target auth))) (\<lambda>b'.
          if b' then ret (plain_answer 403 (KeyError ''you are blocked by this user''))
          else
            and_then (key_db (get_public_key_bundle now target)) (\<lambda>found.
            and_then (lift_result (ok_or found (NotFound ''user keys not found''))) (\<lambda>kb.
            and_then (key_db (query (get_prekey_count target))) (\<lambda>count.
            ret (with_prekey_header 200 (KeyBundle (kb_identity_key kb)
                \<lparr>sp_id = kb_signed_prekey_id kb, sp_key = kb_signed_prekey kb, sp_signature = kb_signed_prekey_sig kb\<rparr>
                (map_option (\<lambda>k. \<lparr>op_id = unwrap_or (kb_one_time_prekey_id kb) 0, op_key = k\<rparr>)
                  (kb_one_time_prekey kb))) count)))))))"

definition h_get_fingerprint :: "key_env \<Rightarrow> uuid \<Rightarrow> uuid \<Rightarrow> key_answer handler" where
  "h_get_fingerprint env auth target =
     and_then (key_db (query (get_keys auth))) (\<lambda>yours.
     and_then (lift_result (ok_or yours (NotFound ''your keys not found''))) (\<lambda>y.
     and_then (key_db (query (get_keys target))) (\<lambda>theirs.
     and_then (lift_result (ok_or theirs (NotFound ''target user keys not found''))) (\<lambda>t.
     case compute_fingerprint env (kv_identity_key y) (kv_identity_key t) of
       (f, k1, k2) \<Rightarrow>
         and_then (key_db (query (get_prekey_count auth))) (\<lambda>count.
         ret (with_prekey_header 200 (KeyFingerprint f k1 k2) count))))))"

definition h_get_my_prekey_count :: "uuid \<Rightarrow> key_answer handler" where
  "h_get_my_prekey_count auth =
     and_then (key_db (query (get_prekey_count auth))) (\<lambda>count.
     ret (with_prekey_header 200 (KeyCount count) count))"

end
