(* ===== verification/KeyProps.thy ===== *)
theory KeyProps
  imports Keys
begin

text \<open>
  What key distribution guarantees: a one-time prekey leaves the server once. The state machine has the
  writing operations of the repository as steps and the keys handed out as its trace.
\<close>

definition opk_key :: "prekey_row \<Rightarrow> uuid \<times> int" where
  "opk_key r = (opk_user_id r, opk_key_id r)"

definition handed :: "uuid \<Rightarrow> key_bundle option \<Rightarrow> (uuid \<times> int \<times> string) list" where
  "handed u b =
     (case b of
        None \<Rightarrow> []
      | Some kb \<Rightarrow>
          (case (kb_one_time_prekey_id kb, kb_one_time_prekey kb) of
             (Some i, Some k) \<Rightarrow> [(u, i, k)] | _ \<Rightarrow> []))"

inductive key_step :: "db \<Rightarrow> (uuid \<times> int \<times> string) list \<Rightarrow> db \<Rightarrow> bool" where
  step_upsert: "key_step d [] (snd (upsert_keys now u ik sp d))"
| step_add: "key_step d [] (snd (add_one_time_prekeys now u ps d))"
| step_bundle: "get_user_public_keys now u d = (b, d') \<Longrightarrow> key_step d (handed u b) d'"
| step_other: "one_time_prekeys d' = one_time_prekeys d \<Longrightarrow> key_step d [] d'"

inductive key_run :: "(uuid \<times> int \<times> string) list \<Rightarrow> db \<Rightarrow> bool" where
  run_start: "one_time_prekeys d = [] \<Longrightarrow> key_run [] d"
| run_step: "key_run tr d \<Longrightarrow> key_step d new d' \<Longrightarrow> key_run (tr @ new) d'"

section \<open>The table of prekeys\<close>

definition opk_table :: "prekey_row list \<Rightarrow> bool" where
  "opk_table t \<longleftrightarrow> unique_on opk_id t \<and> unique_on opk_key t"

lemma fold_max_ge: "m \<le> fold (\<lambda>r m. max m (opk_id r)) t m"
  by (induction t arbitrary: m) (auto intro: le_trans max.cobounded1)

lemma next_opk_id_fresh: "r \<in> set t \<Longrightarrow> opk_id r < next_opk_id t"
proof -
  have "r \<in> set t \<Longrightarrow> opk_id r \<le> fold (\<lambda>r m. max m (opk_id r)) t m" for m
    by (induction t arbitrary: m) (auto intro: le_trans [OF _ fold_max_ge])
  then show "r \<in> set t \<Longrightarrow> opk_id r < next_opk_id t" by (simp add: next_opk_id_def less_Suc_eq_le)
qed

lemma add_prekey_table:
  assumes "opk_table t"
  shows "opk_table (add_prekey u p t) \<and> (\<exists>new. add_prekey u p t = t @ new)"
proof (cases "exists_where (\<lambda>r. opk_user_id r = u \<and> opk_key_id r = op_id p) t")
  case True
  then show ?thesis using assms by (simp add: add_prekey_def)
next
  case False
  let ?r = "\<lparr>opk_id = next_opk_id t, opk_user_id = u, opk_key_id = op_id p, opk_public_key = op_key p,
             opk_is_consumed = False, opk_consumed_at = None\<rparr>"
  have "\<forall>x\<in>set t. opk_key x \<noteq> opk_key ?r" using False by (auto simp: exists_where_iff opk_key_def)
  moreover have "\<forall>x\<in>set t. opk_id x \<noteq> opk_id ?r"
  proof
    fix x assume "x \<in> set t"
    then show "opk_id x \<noteq> opk_id ?r" using next_opk_id_fresh [of x t] by simp
  qed
  ultimately show ?thesis using assms False by (simp add: add_prekey_def opk_table_def unique_on_snoc)
qed

lemma add_prekeys_table:
  "opk_table t \<Longrightarrow> opk_table (fold (add_prekey u) ps t) \<and> (\<exists>new. fold (add_prekey u) ps t = t @ new)"
proof (induction ps arbitrary: t)
  case (Cons p ps)
  obtain new where "opk_table (add_prekey u p t)" "add_prekey u p t = t @ new"
    using add_prekey_table [OF Cons.prems] by blast
  moreover obtain new' where "opk_table (fold (add_prekey u) ps (add_prekey u p t))"
    "fold (add_prekey u) ps (add_prekey u p t) = add_prekey u p t @ new'"
    using Cons.IH [OF \<open>opk_table (add_prekey u p t)\<close>] by blast
  ultimately show ?case by simp
qed simp

lemma add_one_time_prekeys_table:
  assumes "opk_table (one_time_prekeys d)"
  shows "opk_table (one_time_prekeys (snd (add_one_time_prekeys now u ps d))) \<and>
    set (one_time_prekeys d) \<subseteq> set (one_time_prekeys (snd (add_one_time_prekeys now u ps d)))"
proof -
  obtain new where "opk_table (fold (add_prekey u) ps (one_time_prekeys d))"
    "fold (add_prekey u) ps (one_time_prekeys d) = one_time_prekeys d @ new"
    using add_prekeys_table [OF assms] by blast
  then show ?thesis using assms by (auto simp: add_one_time_prekeys_def and_then_def sql_def execute_def)
qed

lemma first_unconsumed_Some:
  "first_unconsumed u t = Some r \<Longrightarrow> r \<in> set t \<and> opk_user_id r = u \<and> \<not> opk_is_consumed r"
proof -
  assume "first_unconsumed u t = Some r"
  then obtain rest where
    "sort_key opk_id (select_where (\<lambda>r. opk_user_id r = u \<and> \<not> opk_is_consumed r) t) = r # rest"
    by (auto simp: first_unconsumed_def split: list.splits)
  then have "r \<in> set (sort_key opk_id (select_where (\<lambda>r. opk_user_id r = u \<and> \<not> opk_is_consumed r) t))"
    by (simp only: list.set_intros)
  then show ?thesis by (simp add: set_select_where)
qed

lemma first_unconsumed_None:
  assumes "first_unconsumed u t = None" "r \<in> set t" "opk_user_id r = u"
  shows "opk_is_consumed r"
proof (rule ccontr)
  assume "\<not> opk_is_consumed r"
  then have "r \<in> set (sort_key opk_id (select_where (\<lambda>r. opk_user_id r = u \<and> \<not> opk_is_consumed r) t))"
    using assms(2,3) by (simp add: set_select_where)
  moreover have "sort_key opk_id (select_where (\<lambda>r. opk_user_id r = u \<and> \<not> opk_is_consumed r) t) = []"
    using assms(1) by (simp add: first_unconsumed_def split: list.splits)
  ultimately show False by (simp only: list.set empty_iff)
qed

definition consume :: "timestamp \<Rightarrow> prekey_row \<Rightarrow> prekey_row list \<Rightarrow> prekey_row list" where
  "consume now k t = update_where (\<lambda>r. opk_id r = opk_id k) (\<lambda>r. r\<lparr>opk_is_consumed := True, opk_consumed_at := Some now\<rparr>) t"

lemma consume_table: "opk_table t \<Longrightarrow> opk_table (consume now k t)"
  by (simp add: opk_table_def consume_def unique_on_update_where opk_key_def)

lemma consume_keeps:
  assumes "r \<in> set t"
  shows "\<exists>r'\<in>set (consume now k t). opk_key r' = opk_key r \<and> opk_public_key r' = opk_public_key r \<and>
    (opk_is_consumed r \<or> opk_id r = opk_id k \<longrightarrow> opk_is_consumed r')"
proof (cases "opk_id r = opk_id k")
  case True
  then have "r\<lparr>opk_is_consumed := True, opk_consumed_at := Some now\<rparr> \<in> set (consume now k t)"
    using assms by (auto simp: consume_def set_update_where)
  then show ?thesis by (rule bexI [rotated]) (simp add: opk_key_def)
next
  case False
  then have "r \<in> set (consume now k t)" using assms by (auto simp: consume_def set_update_where image_iff)
  then show ?thesis using False by blast
qed

lemma get_user_public_keys_opk:
  assumes "get_user_public_keys now u d = (b, d')"
  shows "one_time_prekeys d' =
      (case first_unconsumed u (one_time_prekeys d) of None \<Rightarrow> one_time_prekeys d
       | Some k \<Rightarrow> consume now k (one_time_prekeys d))"
    and "handed u b \<noteq> [] \<Longrightarrow>
      \<exists>k. first_unconsumed u (one_time_prekeys d) = Some k \<and> handed u b = [(u, opk_key_id k, opk_public_key k)]"
  using assms
  by (auto simp: get_user_public_keys_def Let_def consume_def handed_def split: option.splits)

section \<open>No prekey twice\<close>

definition key_inv :: "(uuid \<times> int \<times> string) list \<Rightarrow> db \<Rightarrow> bool" where
  "key_inv tr d \<longleftrightarrow>
     opk_table (one_time_prekeys d) \<and> distinct (map (\<lambda>(u, i, k). (u, i)) tr) \<and>
     (\<forall>(u, i, k)\<in>set tr. \<exists>r\<in>set (one_time_prekeys d).
        opk_key r = (u, i) \<and> opk_public_key r = k \<and> opk_is_consumed r)"

lemma key_inv_D:
  assumes "key_inv tr d" "(u, i, k) \<in> set tr"
  obtains r where "r \<in> set (one_time_prekeys d)" "opk_key r = (u, i)" "opk_public_key r = k" "opk_is_consumed r"
proof -
  have "\<exists>r\<in>set (one_time_prekeys d). opk_key r = (u, i) \<and> opk_public_key r = k \<and> opk_is_consumed r"
    using assms unfolding key_inv_def by (elim conjE) (drule (1) bspec, simp)
  then show thesis using that by blast
qed

lemma key_inv_more:
  assumes "key_inv tr d" "opk_table (one_time_prekeys d')"
    and "\<And>r. r \<in> set (one_time_prekeys d) \<Longrightarrow> \<exists>r'\<in>set (one_time_prekeys d').
      opk_key r' = opk_key r \<and> opk_public_key r' = opk_public_key r \<and> (opk_is_consumed r \<longrightarrow> opk_is_consumed r')"
  shows "key_inv tr d'"
proof -
  have "\<exists>r\<in>set (one_time_prekeys d'). opk_key r = (u, i) \<and> opk_public_key r = k \<and> opk_is_consumed r"
    if t: "(u, i, k) \<in> set tr" for u i k
  proof -
    obtain r where "r \<in> set (one_time_prekeys d)" "opk_key r = (u, i)" "opk_public_key r = k" "opk_is_consumed r"
      by (rule key_inv_D [OF assms(1) t])
    then show ?thesis using assms(3) [of r] by auto
  qed
  then show ?thesis using assms(1,2) by (auto simp: key_inv_def)
qed

lemma key_inv_bundle:
  assumes inv: "key_inv tr d" and b: "get_user_public_keys now u d = (b, d')"
  shows "key_inv (tr @ handed u b) d'"
proof (cases "first_unconsumed u (one_time_prekeys d)")
  case None
  then have "one_time_prekeys d' = one_time_prekeys d" "handed u b = []"
    using get_user_public_keys_opk [OF b] by auto
  then show ?thesis using inv by (simp add: key_inv_def)
next
  case (Some k)
  let ?t = "one_time_prekeys d"
  have d': "one_time_prekeys d' = consume now k ?t" using get_user_public_keys_opk(1) [OF b] Some by simp
  have k: "k \<in> set ?t" "opk_user_id k = u" "\<not> opk_is_consumed k" using first_unconsumed_Some [OF Some] by auto
  have t: "opk_table (one_time_prekeys d')" using inv by (simp add: d' consume_table key_inv_def)
  have inv': "key_inv tr d'"
  proof (rule key_inv_more [OF inv t])
    fix r assume "r \<in> set ?t"
    then show "\<exists>r'\<in>set (one_time_prekeys d').
      opk_key r' = opk_key r \<and> opk_public_key r' = opk_public_key r \<and> (opk_is_consumed r \<longrightarrow> opk_is_consumed r')"
      using consume_keeps [of r ?t now k] unfolding d' by blast
  qed
  show ?thesis
  proof (cases "handed u b = []")
    case True
    then show ?thesis using inv' by simp
  next
    case False
    then have h: "handed u b = [(u, opk_key_id k, opk_public_key k)]"
      using get_user_public_keys_opk(2) [OF b] Some by auto
    have "(u, opk_key_id k, x) \<notin> set tr" for x
    proof
      assume "(u, opk_key_id k, x) \<in> set tr"
      then obtain r where r: "r \<in> set ?t" "opk_key r = (u, opk_key_id k)" "opk_is_consumed r"
        by (rule key_inv_D [OF inv])
      have "unique_on opk_key ?t" using inv by (simp add: key_inv_def opk_table_def)
      then have "r = k" using r(1,2) k(1,2) unique_on_eq [of opk_key ?t r k] by (simp add: opk_key_def)
      then show False using r(3) k(3) by simp
    qed
    then have "(u, opk_key_id k) \<notin> set (map (\<lambda>(u, i, k). (u, i)) tr)" by auto
    moreover have "\<exists>r'\<in>set (one_time_prekeys d'). opk_key r' = (u, opk_key_id k) \<and>
        opk_public_key r' = opk_public_key k \<and> opk_is_consumed r'"
      using consume_keeps [OF k(1), of now k] k(2) by (simp add: d' opk_key_def)
    ultimately show ?thesis using inv' by (simp add: key_inv_def h)
  qed
qed

lemma key_run_inv: "key_run tr d \<Longrightarrow> key_inv tr d"
proof (induction rule: key_run.induct)
  case (run_start d)
  then show ?case by (simp add: key_inv_def opk_table_def)
next
  case (run_step tr d new d')
  show ?case
    using run_step.hyps(2)
  proof (cases rule: key_step.cases)
    case (step_upsert now u ik sp)
    have "one_time_prekeys (snd (upsert_keys now u ik sp d)) = one_time_prekeys d"
      by (simp add: upsert_keys_def sql_def execute_def)
    then show ?thesis using run_step.IH step_upsert by (simp add: key_inv_def)
  next
    case (step_add now u ps)
    have "opk_table (one_time_prekeys d)" using run_step.IH by (simp add: key_inv_def)
    then show ?thesis
      using key_inv_more [OF run_step.IH, of d'] add_one_time_prekeys_table [of d now u ps] step_add by auto
  next
    case (step_bundle now u b)
    then show ?thesis using key_inv_bundle [OF run_step.IH] by simp
  next
    case step_other
    then show ?thesis using run_step.IH by (simp add: key_inv_def)
  qed
qed

text \<open>
  C38. A one-time prekey is handed out at most once. In every run of uploads and bundle requests no key
  of a user appears twice among the bundles; every key handed out is one that was stored; and a request
  for a user who has keys and an unused prekey does hand one out that was not handed out before.
\<close>

theorem prekey_at_most_once:
  assumes "key_run tr d"
  shows "distinct (map (\<lambda>(u, i, k). (u, i)) tr) \<and>
    ((u, i, k) \<in> set tr \<longrightarrow> (\<exists>r\<in>set (one_time_prekeys d).
       opk_user_id r = u \<and> opk_key_id r = i \<and> opk_public_key r = k \<and> opk_is_consumed r)) \<and>
    (get_keys v d \<noteq> Inr None \<and> unconsumed v d > 0 \<longrightarrow>
      (\<exists>i k. handed v (fst (get_user_public_keys now v d)) = [(v, i, k)] \<and> (v, i) \<notin> (\<lambda>(u, i, k). (u, i)) ` set tr))"
proof (intro conjI impI)
  note inv = key_run_inv [OF assms]
  show "distinct (map (\<lambda>(u, i, k). (u, i)) tr)" using inv by (simp add: key_inv_def)
  show "\<exists>r\<in>set (one_time_prekeys d). opk_user_id r = u \<and> opk_key_id r = i \<and> opk_public_key r = k \<and> opk_is_consumed r"
    if "(u, i, k) \<in> set tr"
    using key_inv_D [OF inv that] unfolding opk_key_def by (metis prod.inject)
  assume v: "get_keys v d \<noteq> Inr None \<and> unconsumed v d > 0"
  obtain b d' where b: "get_user_public_keys now v d = (b, d')" by fastforce
  obtain k where k: "first_unconsumed v (one_time_prekeys d) = Some k"
  proof (cases "first_unconsumed v (one_time_prekeys d)")
    case None
    then have "unconsumed v d = 0" using first_unconsumed_None by (auto simp: unconsumed_def count_where_0_iff)
    then show thesis using v by simp
  qed blast
  obtain r where "select_one (\<lambda>r. uk_user_id r = v) (user_keys d) = Some r"
    using v by (auto simp: get_keys_def)
  then have "handed v b = [(v, opk_key_id k, opk_public_key k)]"
    using b k by (auto simp: get_user_public_keys_def Let_def handed_def select_one_update_hit)
  moreover have "key_inv (tr @ handed v b) d'" using key_inv_bundle [OF inv b] .
  ultimately show "\<exists>i k. handed v (fst (get_user_public_keys now v d)) = [(v, i, k)] \<and>
      (v, i) \<notin> (\<lambda>(u, i, k). (u, i)) ` set tr"
    by (auto simp: key_inv_def b)
qed


definition alice_keys :: db where
  "alice_keys = snd (add_one_time_prekeys 2 1 [\<lparr>op_id = 10, op_key = ''ten''\<rparr>, \<lparr>op_id = 11, op_key = ''eleven''\<rparr>,
       \<lparr>op_id = 10, op_key = ''again''\<rparr>]
     (snd (upsert_keys 1 1 ''identity'' \<lparr>sp_id = 1, sp_key = ''spk'', sp_signature = ''sig''\<rparr>
       (empty_db\<lparr>users := [sample_user 1 ''+1000000001'']\<rparr>))))"

lemma alice_keys_run: "key_run [] alice_keys"
proof -
  have "one_time_prekeys (empty_db\<lparr>users := [sample_user 1 ''+1000000001'']\<rparr>) = []" by (simp add: empty_db_def)
  from run_step [OF run_step [OF run_start [OF this] step_upsert] step_add]
  show ?thesis unfolding alice_keys_def by simp
qed

lemma alice_first: "handed 1 (fst (get_user_public_keys 5 1 alice_keys)) = [(1, 10, ''ten'')]"
  by code_simp

theorem prekey_at_most_once_witness:
  "(let second = handed 1 (fst (get_user_public_keys 6 1 (snd (get_user_public_keys 5 1 alice_keys))))
    in second = [(1, 11, ''eleven'')] \<and> distinct (map (\<lambda>(u, i, k). (u, i)) ((1, 10, ''ten'') # second))) \<and>
   (\<exists>r\<in>set (one_time_prekeys (snd (get_user_public_keys 5 1 alice_keys))).
      opk_user_id r = 1 \<and> opk_key_id r = 10 \<and> opk_public_key r = ''ten'' \<and> opk_is_consumed r)"
proof -
  let ?d1 = "snd (get_user_public_keys 5 1 alice_keys)"
  let ?d2 = "snd (get_user_public_keys 6 1 ?d1)"
  have e: "handed 1 (fst (get_user_public_keys 6 1 ?d1)) = [(1, 11, ''eleven'')]" by code_simp
  have r1: "key_run [(1, 10, ''ten'')] ?d1"
    using run_step [OF alice_keys_run step_bundle [OF prod.collapse [symmetric]], of 1 5] alice_first by simp
  have r2: "key_run ([(1, 10, ''ten'')] @ [(1, 11, ''eleven'')]) ?d2"
    using run_step [OF r1 step_bundle [OF prod.collapse [symmetric]], of 1 6] unfolding e .
  have "get_keys 1 ?d1 \<noteq> Inr None \<and> unconsumed 1 ?d1 > 0" by code_simp
  then have "\<exists>i k. handed 1 (fst (get_user_public_keys 6 1 ?d1)) = [(1, i, k)]"
    using prekey_at_most_once [OF r1] by blast
  moreover have "distinct (map (\<lambda>(u, i, k). (u, i)) ((1, 10, ''ten'') # [(1::uuid, 11::int, ''eleven'')]))"
    using prekey_at_most_once [OF r2, THEN conjunct1] by simp
  moreover have "\<exists>r\<in>set (one_time_prekeys ?d1).
      opk_user_id r = 1 \<and> opk_key_id r = 10 \<and> opk_public_key r = ''ten'' \<and> opk_is_consumed r"
    using prekey_at_most_once [OF r1] by simp
  ultimately show ?thesis by (simp add: Let_def e)
qed

section \<open>The count\<close>

text \<open>
  After an upload the stored count is the number of unused keys, provided the user's row exists. When
  the one-time keys came first, \<open>upsert_keys\<close> creates the row with a count of 0, and the first bundle
  request leaves it at 0: the count that the client and the header see is too small.
\<close>

lemma add_one_time_prekeys_count:
  assumes "select_one (\<lambda>r. uk_user_id r = u) (user_keys d) = Some r" "user_exists d u"
  shows "get_prekey_count u (snd (add_one_time_prekeys now u ps d)) =
    Inr (int (unconsumed u (snd (add_one_time_prekeys now u ps d))))"
  using assms
  by (simp add: add_one_time_prekeys_def and_then_def sql_def execute_def get_prekey_count_def
      select_one_update_hit unconsumed_def)

definition keys_before_row :: db where
  "keys_before_row = snd (upsert_keys 2 1 ''identity'' \<lparr>sp_id = 1, sp_key = ''spk'', sp_signature = ''sig''\<rparr>
     (snd (add_one_time_prekeys 1 1 [\<lparr>op_id = 10, op_key = ''ten''\<rparr>, \<lparr>op_id = 11, op_key = ''eleven''\<rparr>]
       (empty_db\<lparr>users := [sample_user 1 ''+1000000001'']\<rparr>))))"

lemma prekey_count_too_small: "get_prekey_count 1 keys_before_row = Inr 0" "unconsumed 1 keys_before_row = 2"
  by code_simp+

text \<open>A prekey is used up by a request for a user without keys, although nothing is returned.\<close>

lemma prekey_lost_without_keys:
  assumes "select_one (\<lambda>r. uk_user_id r = u) (user_keys d) = None" "first_unconsumed u (one_time_prekeys d) = Some k"
  shows "fst (get_public_key_bundle now u d) = Inr None \<and>
    one_time_prekeys (snd (get_public_key_bundle now u d)) = consume now k (one_time_prekeys d)"
  using assms
  by (simp add: get_public_key_bundle_def get_user_public_keys_def Let_def consume_def select_one_update_hit)

text \<open>An upload that is answered 400 because of its one-time keys has replaced the identity key already.\<close>

lemma upload_keys_partial:
  assumes "identity \<noteq> ''''" "sp_key sp \<noteq> ''''" "sp_signature sp \<noteq> ''''"
    "verify_signed_prekey env identity (sp_key sp) (sp_signature sp) = Inr ()"
    "ps \<noteq> []" "validate_one_time_prekeys env ps = Inl e" "user_exists (srv_db s) u"
  shows "\<exists>s'. h_upload_keys env now u identity sp ps s =
      (Inr (plain_answer 400 (KeyError (''invalid one_time_prekeys: '' @ e))), s') \<and>
    srv_db s' = snd (upsert_keys now u identity sp (srv_db s))"
  using assms
  by (auto simp: h_upload_keys_def and_then_def key_db_def on_db_def upsert_keys_def sql_def execute_def)

section \<open>Fingerprints\<close>

text \<open>Both users of a chat compute the same safety number.\<close>

lemma fingerprint_symmetric:
  "fst (compute_fingerprint env a b) = fst (compute_fingerprint env b a)"
proof -
  have "\<not> b < a" if "a < b" using that by simp
  then show ?thesis by (cases "a < b"; cases "b < a") (auto simp: compute_fingerprint_def Let_def)
qed

text \<open>The keys that an upload accepts have distinct ids that are not negative.\<close>

lemma check_prekeys_ok:
  "check_prekeys env seen ps = Inr () \<Longrightarrow>
     distinct (map op_id ps) \<and> (\<forall>p\<in>set ps. 0 \<le> op_id p \<and> op_id p \<notin> seen \<and>
       (\<exists>b. ke_base64 env (op_key p) = Inr b \<and> length b = 32))"
  by (induction env seen ps rule: check_prekeys.induct) (fastforce split: if_splits sum.splits)+

end
