(* ===== verification/GroupChats.thy ===== *)
theory GroupChats
  imports Server
begin

text \<open>
  Groups and channels: the participant operations of \<open>PostgresChatRepository\<close>
  (\<open>crates/infrastructure/src/repositories/chat.rs\<close>, "Phase 9") and their HTTP handlers
  (\<open>crates/api/src/handlers/groups/handlers.rs\<close>). The random text of a generated invite link is
  an argument.
\<close>

section \<open>Repository operations\<close>

definition get_participant_role :: "uuid \<Rightarrow> uuid \<Rightarrow> db \<Rightarrow> participant_role option dres" where
  "get_participant_role u c d =
     Inr (case select_one (\<lambda>p. active_in c p \<and> cp_user_id p = u) (chat_participants d) of
            None \<Rightarrow> None
          | Some p \<Rightarrow> role_from_db_str (cp_role p))"

definition role_or :: "domain_error \<Rightarrow> uuid \<Rightarrow> uuid \<Rightarrow> (db, domain_error, participant_role) op" where
  "role_or e u c =
     and_then (query (get_participant_role u c)) (\<lambda>r. lift_result (ok_or r e))"

abbreviation not_a_member :: domain_error where
  "not_a_member \<equiv> Unauthorized ''not a member of this chat''"

definition detail_of_row :: "string \<Rightarrow> participant_row \<Rightarrow> participant_detail dres" where
  "detail_of_row msg p =
     (case role_from_db_str (cp_role p) of
        None \<Rightarrow> Inl (Internal msg)
      | Some r \<Rightarrow>
          Inr \<lparr>pd_user_id = cp_user_id p, pd_chat_id = cp_chat_id p, pd_role = r,
               pd_encryption_key_enc = cp_encryption_key_enc p, pd_added_by = cp_added_by p,
               pd_joined_at = cp_joined_at p\<rparr>)"

text \<open>\<open>ORDER BY joined_at ASC\<close>\<close>

definition get_participants_detail :: "uuid \<Rightarrow> uuid \<Rightarrow> db \<Rightarrow> participant_detail list dres" where
  "get_participants_detail actor c d =
     (case verify_participant actor c d of
        Inl e \<Rightarrow> Inl e
      | Inr _ \<Rightarrow>
          collect_results
            (map (\<lambda>p. detail_of_row (''invalid participant role: '' @ cp_role p) p)
              (sort_key cp_joined_at (select_where (active_in c) (chat_participants d)))))"

text \<open>The row with a given key after a statement with \<open>RETURNING\<close>.\<close>

definition returning :: "string \<Rightarrow> uuid \<Rightarrow> uuid \<Rightarrow> db \<Rightarrow> participant_detail dres" where
  "returning msg c u d =
     (case map_sqlx (fetch_one (select_one (\<lambda>p. cp_chat_id p = c \<and> cp_user_id p = u) (chat_participants d))) of
        Inl e \<Rightarrow> Inl e
      | Inr p \<Rightarrow> detail_of_row msg p)"

definition add_participant ::
  "timestamp \<Rightarrow> uuid \<Rightarrow> uuid \<Rightarrow> uuid \<Rightarrow> string option \<Rightarrow> (db, domain_error, participant_detail) op" where
  "add_participant now c actor u key =
     and_then (role_or not_a_member actor c) (\<lambda>actor_role.
       if actor_role < Admin
       then throw (Unauthorized ''only admins and owners can add participants'')
       else
         and_then (query (\<lambda>d. ok_or (map_option c_type
             (select_one (\<lambda>r. c_id r = c \<and> c_deleted_at r = None) (chats d))) (NotFound ''chat not found'')))
           (\<lambda>ty.
             if ty = ''private''
             then throw (Validation ''cannot add participants to a private chat'')
             else
               and_then (query (\<lambda>d. Inr (active_member d u c))) (\<lambda>already_member.
                 if already_member then throw (Validation ''user is already a member'')
                 else
                   and_then (sql (insert_participant
                       (DoUpdate (\<lambda>p. p\<lparr>cp_left_at := None, cp_role := ''member'',
                          cp_encryption_key_enc := key, cp_added_by := Some actor, cp_joined_at := now\<rparr>))
                       (new_participant now c u ''member'' key (Some actor))))
                     (\<lambda>_. query (returning ''invalid role'' c u)))))"

definition set_left :: "timestamp \<Rightarrow> uuid \<Rightarrow> uuid \<Rightarrow> db \<Rightarrow> db" where
  "set_left now c u d =
     d\<lparr>chat_participants := update_where (\<lambda>p. active_in c p \<and> cp_user_id p = u)
         (\<lambda>p. p\<lparr>cp_left_at := Some now\<rparr>) (chat_participants d)\<rparr>"

definition remove_participant ::
  "timestamp \<Rightarrow> uuid \<Rightarrow> uuid \<Rightarrow> uuid \<Rightarrow> (db, domain_error, bool) op" where
  "remove_participant now c actor target =
     and_then (role_or not_a_member actor c) (\<lambda>actor_role.
     and_then (role_or (NotFound ''target user is not a member'') target c) (\<lambda>target_role.
       if actor = target \<and> actor_role = Owner
       then throw (Validation ''owner must transfer ownership before leaving'')
       else if actor \<noteq> target \<and> actor_role \<le> target_role
       then throw (Unauthorized ''insufficient role to remove this participant'')
       else and_then (execute (\<lambda>d. Inr (set_left now c target d))) (\<lambda>_. ret True)))"

definition set_role :: "uuid \<Rightarrow> uuid \<Rightarrow> string \<Rightarrow> db \<Rightarrow> db" where
  "set_role c u role d =
     d\<lparr>chat_participants := update_where (\<lambda>p. cp_chat_id p = c \<and> cp_user_id p = u)
         (\<lambda>p. p\<lparr>cp_role := role\<rparr>) (chat_participants d)\<rparr>"

text \<open>
  \<open>UPDATE .. WHERE .. AND left_at IS NULL RETURNING ..\<close> through \<open>fetch_one\<close>: no row is
  \<open>RowNotFound\<close>.
\<close>

definition set_active_role ::
  "uuid \<Rightarrow> uuid \<Rightarrow> participant_role \<Rightarrow> (db, domain_error, participant_detail) op" where
  "set_active_role c u role d =
     (case map_sqlx (enum_cast participant_role_values (role_as_db_str role)) of
        Inl e \<Rightarrow> (Inl e, d)
      | Inr txt \<Rightarrow>
          (let t = update_where (\<lambda>p. active_in c p \<and> cp_user_id p = u) (\<lambda>p. p\<lparr>cp_role := txt\<rparr>)
                     (chat_participants d)
           in case map_sqlx (fetch_one (select_one (\<lambda>p. active_in c p \<and> cp_user_id p = u) t)) of
                Inl e \<Rightarrow> (Inl e, d)
              | Inr p \<Rightarrow> (detail_of_row ''invalid role returned'' p, d\<lparr>chat_participants := t\<rparr>)))"

definition update_participant_role ::
  "uuid \<Rightarrow> uuid \<Rightarrow> uuid \<Rightarrow> participant_role \<Rightarrow> (db, domain_error, participant_detail) op" where
  "update_participant_role c actor target new_role =
     and_then (role_or not_a_member actor c) (\<lambda>actor_role.
     and_then (role_or (NotFound ''target user is not a member'') target c) (\<lambda>target_role.
       if actor_role \<le> target_role \<or> actor_role \<le> new_role
       then throw (Unauthorized (''insufficient role to change this participant'' @ [CHR 0x27] @ ''s role''))
       else set_active_role c target new_role))"

definition set_invite_link ::
  "timestamp \<Rightarrow> string \<Rightarrow> uuid \<Rightarrow> uuid \<Rightarrow> string option \<Rightarrow> (db, domain_error, string option) op" where
  "set_invite_link now random12 c actor slug =
     and_then (role_or not_a_member actor c) (\<lambda>actor_role.
       if actor_role < Admin
       then throw (Unauthorized ''only admins and owners can manage invite links'')
       else
         (let new_slug = (if slug = Some '''' \<or> slug = None then Some (to_lowercase random12) else slug)
          in and_then (sql (update_chats now (\<lambda>r. c_id r = c) (\<lambda>r. r\<lparr>c_invite_link := new_slug\<rparr>)))
               (\<lambda>_. ret new_slug)))"

definition find_chat_by_slug :: "string \<Rightarrow> db \<Rightarrow> chat option dres" where
  "find_chat_by_slug slug d =
     (case select_one (\<lambda>r. c_invite_link r = Some slug \<and> c_deleted_at r = None) (chats d) of
        None \<Rightarrow> Inr None
      | Some r \<Rightarrow> (case chat_of_row r of Inl e \<Rightarrow> Inl e | Inr x \<Rightarrow> Inr (Some x)))"

definition join_by_invite ::
  "timestamp \<Rightarrow> uuid \<Rightarrow> uuid \<Rightarrow> (db, domain_error, participant_detail) op" where
  "join_by_invite now c u =
     and_then (query (\<lambda>d. Inr (active_member d u c))) (\<lambda>already_member.
       if already_member then throw (Validation ''already a member of this chat'')
       else
         and_then (sql (insert_participant
             (DoUpdate (\<lambda>p. p\<lparr>cp_left_at := None, cp_role := ''member'', cp_joined_at := now\<rparr>))
             (new_participant now c u ''member'' None None)))
           (\<lambda>_. query (returning ''invalid role'' c u)))"

definition set_key :: "uuid \<Rightarrow> uuid \<Rightarrow> string \<Rightarrow> db \<Rightarrow> db" where
  "set_key c u key d =
     d\<lparr>chat_participants := update_where (\<lambda>p. active_in c p \<and> cp_user_id p = u)
         (\<lambda>p. p\<lparr>cp_encryption_key_enc := Some key\<rparr>) (chat_participants d)\<rparr>"

fun set_keys :: "uuid \<Rightarrow> (uuid \<times> string) list \<Rightarrow> nat \<Rightarrow> db \<Rightarrow> nat \<times> db" where
  "set_keys c [] updated d = (updated, d)"
| "set_keys c ((u, key) # ks) updated d =
     set_keys c ks (updated + count_where (\<lambda>p. active_in c p \<and> cp_user_id p = u) (chat_participants d))
       (set_key c u key d)"

definition rotate_group_key ::
  "uuid \<Rightarrow> uuid \<Rightarrow> (uuid \<times> string) list \<Rightarrow> (db, domain_error, nat) op" where
  "rotate_group_key c actor keys =
     and_then (role_or not_a_member actor c) (\<lambda>actor_role.
       if actor_role < Admin
       then throw (Unauthorized ''only admins and owners can rotate the group key'')
       else transaction (\<lambda>d. let (updated, d') = set_keys c keys 0 d in (Inr updated, d')))"

definition transfer_ownership :: "uuid \<Rightarrow> uuid \<Rightarrow> uuid \<Rightarrow> (db, domain_error, unit) op" where
  "transfer_ownership c current_owner new_owner =
     and_then (role_or not_a_member current_owner c) (\<lambda>owner_role.
       if owner_role \<noteq> Owner
       then throw (Unauthorized ''only the owner can transfer ownership'')
       else
         and_then (role_or (NotFound ''new owner is not a member of this chat'') new_owner c) (\<lambda>_.
           transaction
             (and_then (execute (\<lambda>d. Inr (set_role c current_owner ''admin'' d))) (\<lambda>_.
              execute (\<lambda>d. Inr (set_role c new_owner ''owner'' d))))))"

section \<open>Handlers\<close>

record participant_response =
  pr_user_id :: uuid
  pr_chat_id :: uuid
  pr_role :: string
  pr_encryption_key_enc :: "string option"
  pr_added_by :: "uuid option"
  pr_joined_at :: timestamp

definition participant_to_response :: "participant_detail \<Rightarrow> participant_response" where
  "participant_to_response p =
     \<lparr>pr_user_id = pd_user_id p, pr_chat_id = pd_chat_id p, pr_role = role_as_db_str (pd_role p),
      pr_encryption_key_enc = pd_encryption_key_enc p, pr_added_by = pd_added_by p,
      pr_joined_at = pd_joined_at p\<rparr>"

definition publish_group_event ::
  "redis_env \<Rightarrow> uuid \<Rightarrow> string \<Rightarrow> group_extra \<Rightarrow> unit handler" where
  "publish_group_event env c event_type extra =
     publish_quiet env (ChatEvents c) (EvGroup event_type c extra)"

text \<open>A response is the status code with the fields of its body.\<close>

definition h_list_participants ::
  "uuid \<Rightarrow> uuid \<Rightarrow> (nat \<times> participant_response list \<times> nat) handler" where
  "h_list_participants auth c =
     and_then (read_db (get_participants_detail auth c)) (\<lambda>ps.
       ret (200, map participant_to_response ps, length ps))"

definition h_add_participant ::
  "redis_env \<Rightarrow> timestamp \<Rightarrow> uuid \<Rightarrow> uuid \<Rightarrow> uuid \<Rightarrow> string option
     \<Rightarrow> (nat \<times> participant_response \<times> bool) handler" where
  "h_add_participant env now auth c u key =
     (if u = auth then throw (Validation ''cannot add yourself as a participant'')
      else
        and_then (on_db (add_participant now c auth u key)) (\<lambda>p.
        and_then (publish_group_event env c ''participant_added'' (ExtraUser (pd_user_id p))) (\<lambda>_.
        and_then (publish_quiet env (UserEvents (pd_user_id p)) (EvAddedToGroup c)) (\<lambda>_.
        ret (201, participant_to_response p, key = None)))))"

definition h_remove_participant ::
  "redis_env \<Rightarrow> timestamp \<Rightarrow> uuid \<Rightarrow> uuid \<Rightarrow> uuid \<Rightarrow> (nat \<times> bool \<times> bool) handler" where
  "h_remove_participant env now auth c target =
     and_then (on_db (remove_participant now c auth target)) (\<lambda>key_rotation_required.
     and_then (publish_group_event env c ''participant_removed'' (ExtraUser target)) (\<lambda>_.
     and_then (if key_rotation_required
               then publish_group_event env c ''key_rotation_required'' (ExtraChat c) else ret ()) (\<lambda>_.
     ret (200, True, key_rotation_required))))"

definition h_update_participant_role ::
  "redis_env \<Rightarrow> uuid \<Rightarrow> uuid \<Rightarrow> uuid \<Rightarrow> string \<Rightarrow> (nat \<times> participant_response) handler" where
  "h_update_participant_role env auth c target role =
     (case role_from_db_str role of
        None \<Rightarrow> throw (Validation (''invalid role '' @ [CHR 0x27] @ role @ [CHR 0x27] @
                  ''. Must be one of: member, moderator, admin''))
      | Some new_role \<Rightarrow>
          if new_role = Owner
          then throw (Validation (''cannot promote to owner via this endpoint. '' @
                 ''Use POST /chats/:id/transfer-ownership''))
          else
            and_then (on_db (update_participant_role c auth target new_role)) (\<lambda>p.
            and_then (publish_group_event env c ''participant_role_updated''
              (ExtraUserRole target (role_as_db_str new_role))) (\<lambda>_.
            ret (200, participant_to_response p))))"

definition h_create_invite_link ::
  "timestamp \<Rightarrow> string \<Rightarrow> uuid \<Rightarrow> uuid \<Rightarrow> (nat \<times> string) handler" where
  "h_create_invite_link now random12 auth c =
     and_then (on_db (set_invite_link now random12 c auth None)) (\<lambda>slug.
     and_then (lift_result (ok_or slug (Internal ''failed to generate invite link''))) (\<lambda>s.
     ret (200, s)))"

definition h_delete_invite_link ::
  "timestamp \<Rightarrow> string \<Rightarrow> uuid \<Rightarrow> uuid \<Rightarrow> (nat \<times> bool) handler" where
  "h_delete_invite_link now random12 auth c =
     and_then (on_db (set_invite_link now random12 c auth (Some ''''))) (\<lambda>_. ret (200, True))"

definition h_join_by_slug ::
  "redis_env \<Rightarrow> timestamp \<Rightarrow> uuid \<Rightarrow> string \<Rightarrow> (nat \<times> participant_response \<times> bool) handler" where
  "h_join_by_slug env now auth slug =
     and_then (read_db (find_chat_by_slug slug)) (\<lambda>found.
     and_then (lift_result (ok_or found (NotFound ''invite link not found or expired''))) (\<lambda>ch.
     and_then (on_db (join_by_invite now (ch_id ch) auth)) (\<lambda>p.
     and_then (publish_group_event env (ch_id ch) ''participant_added'' (ExtraUser (pd_user_id p))) (\<lambda>_.
     ret (201, participant_to_response p, True)))))"

definition h_rotate_group_key ::
  "redis_env \<Rightarrow> uuid \<Rightarrow> uuid \<Rightarrow> (uuid \<times> string) list \<Rightarrow> (nat \<times> nat) handler" where
  "h_rotate_group_key env auth c keys =
     (if keys = [] then throw (Validation ''keys list cannot be empty'')
      else
        and_then (on_db (rotate_group_key c auth keys)) (\<lambda>updated_count.
        and_then (publish_group_event env c ''key_rotated'' (ExtraChat c)) (\<lambda>_.
        ret (200, updated_count))))"

definition h_transfer_ownership ::
  "redis_env \<Rightarrow> uuid \<Rightarrow> uuid \<Rightarrow> uuid \<Rightarrow> (nat \<times> bool) handler" where
  "h_transfer_ownership env auth c new_owner =
     (if new_owner = auth then throw (Validation ''new owner must be a different user'')
      else
        and_then (on_db (transfer_ownership c auth new_owner)) (\<lambda>_.
        and_then (publish_group_event env c ''ownership_transferred'' (ExtraOwners auth new_owner)) (\<lambda>_.
        ret (200, True))))"

end
