(* ===== verification/Membership.thy ===== *)
theory Membership
  imports GroupChats
begin

text \<open>
  The invariant of chats and memberships, and that every operation of \<open>Chats\<close> and \<open>GroupChats\<close> keeps
  it: the schema's constraints, one active owner for every group, and at most two active
  participants, all plain members, for every private chat.
\<close>

section \<open>The invariant\<close>

definition pkey :: "participant_row \<Rightarrow> uuid \<times> uuid" where
  "pkey p = (cp_chat_id p, cp_user_id p)"

definition owner_row :: "participant_row \<Rightarrow> bool" where
  "owner_row p \<longleftrightarrow> cp_left_at p = None \<and> cp_role p = ''owner''"

definition owners :: "db \<Rightarrow> uuid \<Rightarrow> nat" where
  "owners d c = count_where (\<lambda>p. cp_chat_id p = c \<and> owner_row p) (chat_participants d)"

definition actives :: "db \<Rightarrow> uuid \<Rightarrow> nat" where
  "actives d c = count_where (active_in c) (chat_participants d)"

definition one_owner :: "db \<Rightarrow> bool" where
  "one_owner d \<longleftrightarrow> (\<forall>r\<in>set (chats d). c_type r = ''group'' \<longrightarrow> owners d (c_id r) = 1)"

definition private_pairs :: "db \<Rightarrow> bool" where
  "private_pairs d \<longleftrightarrow>
     (\<forall>r\<in>set (chats d). c_type r = ''private'' \<longrightarrow>
        actives d (c_id r) \<le> 2 \<and>
        (\<forall>p\<in>set (chat_participants d). cp_chat_id p = c_id r \<longrightarrow> cp_role p = ''member''))"

definition members_ok :: "db \<Rightarrow> bool" where
  "members_ok d \<longleftrightarrow> chat_schema d \<and> one_owner d \<and> private_pairs d"

lemma schema_pkey: "chat_schema d \<Longrightarrow> unique_on pkey (chat_participants d)"
  by (simp add: chat_schema_def pkey_def [abs_def])

lemma schema_chat_id: "chat_schema d \<Longrightarrow> unique_on c_id (chats d)"
  by (simp add: chat_schema_def)

text \<open>Statements that pick the row of a user in a chat pick one row.\<close>

lemma active_key:
  assumes "chat_schema d" "p \<in> set (chat_participants d)" "active_in c p" "cp_user_id p = u"
    and "x \<in> set (chat_participants d)"
  shows "active_in c x \<and> cp_user_id x = u \<longleftrightarrow> pkey x = pkey p"
  using unique_on_eq [OF schema_pkey [OF assms(1)] assms(5) assms(2)] assms(3,4)
  by (auto simp: active_in_def pkey_def)

lemma member_key:
  "cp_chat_id p = c \<Longrightarrow> cp_user_id p = u \<Longrightarrow> cp_chat_id x = c \<and> cp_user_id x = u \<longleftrightarrow> pkey x = pkey p"
  by (auto simp: pkey_def)

section \<open>Editing one participant\<close>

lemma exists_frame [simp]:
  "user_exists (d\<lparr>chat_participants := t\<rparr>) u = user_exists d u"
  "chat_exists (d\<lparr>chat_participants := t\<rparr>) c = chat_exists d c"
  "user_exists (d\<lparr>chats := t'\<rparr>) u = user_exists d u"
  by (simp_all add: chat_exists_def user_exists_def)

lemma fks_chats_same [simp]: "participant_fks (d\<lparr>chat_participants := t\<rparr>) p = participant_fks d p"
  by (simp add: participant_fks_def split: option.split)

lemma schema_edit:
  assumes d: "chat_schema d" and p: "p \<in> set (chat_participants d)"
    and Q: "\<And>x. x \<in> set (chat_participants d) \<Longrightarrow> Q x \<longleftrightarrow> pkey x = pkey p"
    and f: "pkey (f p) = pkey p" "participant_fks d (f p)" "cp_role (f p) \<in> set participant_role_values"
  shows "chat_schema (d\<lparr>chat_participants := update_where Q f (chat_participants d)\<rparr>)"
proof -
  have hit: "x = p" if "x \<in> set (chat_participants d)" "Q x" for x
    using unique_on_eq [OF schema_pkey [OF d] that(1) p] Q that by auto
  have "unique_on pkey (update_where Q f (chat_participants d))"
    using schema_pkey [OF d] hit f(1) by (subst unique_on_update_where) auto
  moreover have "\<forall>x\<in>set (update_where Q f (chat_participants d)).
      cp_role x \<in> set participant_role_values \<and> participant_fks d x"
    using d hit f(2,3) by (auto simp: set_update_where chat_schema_def)
  ultimately show ?thesis
    using d by (simp add: chat_schema_def pkey_def [abs_def])
qed

lemma counts_edit:
  assumes d: "chat_schema d" and p: "p \<in> set (chat_participants d)"
    and Q: "\<And>x. x \<in> set (chat_participants d) \<Longrightarrow> Q x \<longleftrightarrow> pkey x = pkey p"
  shows "count_where P (update_where Q f (chat_participants d)) + of_bool (P p) =
    count_where P (chat_participants d) + of_bool (P (f p))"
  by (rule count_where_update_key [OF schema_pkey [OF d] p]) (rule Q)

text \<open>
  An edit of the row \<open>p\<close> keeps the invariant if, in a group, it keeps whether \<open>p\<close> is the owner, and,
  in a private chat, it keeps the role and makes \<open>p\<close> active only below the limit.
\<close>

lemma members_edit:
  assumes d: "members_ok d" and p: "p \<in> set (chat_participants d)"
    and Q: "\<And>x. x \<in> set (chat_participants d) \<Longrightarrow> Q x \<longleftrightarrow> pkey x = pkey p"
    and f: "pkey (f p) = pkey p" "participant_fks d (f p)" "cp_role (f p) \<in> set participant_role_values"
    and own: "owner_row (f p) \<longleftrightarrow> owner_row p"
    and priv: "\<And>r. r \<in> set (chats d) \<Longrightarrow> c_id r = cp_chat_id p \<Longrightarrow> c_type r = ''private'' \<Longrightarrow>
      cp_role (f p) = cp_role p \<and>
      (cp_left_at (f p) = None \<longrightarrow> cp_left_at p = None \<or> actives d (cp_chat_id p) < 2)"
  shows "members_ok (d\<lparr>chat_participants := update_where Q f (chat_participants d)\<rparr>)" (is "members_ok ?d")
proof -
  have s: "chat_schema d" using d by (simp add: members_ok_def)
  have chat: "cp_chat_id (f p) = cp_chat_id p" using f(1) by (simp add: pkey_def)
  note count = counts_edit [OF s p Q, where f = f]
  have "owners ?d c = owners d c" for c
    using count [of "\<lambda>p. cp_chat_id p = c \<and> owner_row p"] own chat by (simp add: owners_def)
  then have "one_owner ?d" using d by (simp add: members_ok_def one_owner_def)
  moreover have "private_pairs ?d"
    unfolding private_pairs_def
  proof (intro ballI impI conjI)
    fix r assume r: "r \<in> set (chats ?d)" "c_type r = ''private''"
    then have old: "actives d (c_id r) \<le> 2"
      "\<forall>p\<in>set (chat_participants d). cp_chat_id p = c_id r \<longrightarrow> cp_role p = ''member''"
      using d by (simp_all add: members_ok_def private_pairs_def)
    show "actives ?d (c_id r) \<le> 2"
      using count [of "active_in (c_id r)"] old(1) priv [of r] r chat
      by (cases "c_id r = cp_chat_id p") (auto simp: actives_def active_in_def of_bool_def split: if_splits)
    fix x assume x: "x \<in> set (chat_participants ?d)" "cp_chat_id x = c_id r"
    then obtain y where y: "y \<in> set (chat_participants d)" "x = (if Q y then f y else y)"
      by (auto simp: set_update_where)
    show "cp_role x = ''member''"
    proof (cases "Q y")
      case True
      then have "y = p" using unique_on_eq [OF schema_pkey [OF s] y(1) p] Q y(1) by auto
      then have "x = f p" using y True by simp
      then show ?thesis using priv [of r] r x(2) chat p old(2) by auto
    next
      case False
      then show ?thesis using y x(2) old(2) by auto
    qed
  qed
  moreover have "chat_schema ?d" by (rule schema_edit [OF s p]) (use Q f in auto)
  ultimately show ?thesis by (simp add: members_ok_def)
qed

text \<open>Adding a plain member row below the limit of a private chat.\<close>

lemma schema_append:
  assumes "chat_schema d" "\<not> exists_where (same_member r) (chat_participants d)" "participant_fks d r"
    "cp_role r \<in> set participant_role_values"
  shows "chat_schema (d\<lparr>chat_participants := chat_participants d @ [r]\<rparr>)"
  using assms by (auto simp: chat_schema_def unique_on_snoc exists_where_iff same_member_def)

lemma members_append:
  assumes d: "members_ok d" "\<not> exists_where (same_member r) (chat_participants d)" "participant_fks d r"
    and r: "cp_role r = ''member''" "enforce_private_chat_limit d (cp_chat_id r)"
  shows "members_ok (d\<lparr>chat_participants := chat_participants d @ [r]\<rparr>)" (is "members_ok ?d")
proof -
  have s: "chat_schema d" using d by (simp add: members_ok_def)
  have "owners ?d c = owners d c" for c
    using r by (simp add: owners_def count_where_append owner_row_def)
  then have "one_owner ?d" using d by (simp add: members_ok_def one_owner_def)
  moreover have "private_pairs ?d"
    unfolding private_pairs_def
  proof (intro ballI impI conjI)
    fix x assume x: "x \<in> set (chats ?d)" "c_type x = ''private''"
    then have old: "actives d (c_id x) \<le> 2"
      "\<forall>p\<in>set (chat_participants d). cp_chat_id p = c_id x \<longrightarrow> cp_role p = ''member''"
      using d by (simp_all add: members_ok_def private_pairs_def)
    show "\<And>p. p \<in> set (chat_participants ?d) \<Longrightarrow> cp_chat_id p = c_id x \<Longrightarrow> cp_role p = ''member''"
      using old(2) r by auto
    show "actives ?d (c_id x) \<le> 2"
    proof (cases "c_id x = cp_chat_id r")
      case True
      then have "select_one (\<lambda>y. c_id y = cp_chat_id r) (chats d) = Some x"
        using x schema_chat_id [OF s] by (intro select_one_unique [of c_id]) auto
      then have "actives d (c_id x) < 2"
        using r(2) x(2) True by (auto simp: enforce_private_chat_limit_def actives_def)
      then show ?thesis by (simp add: actives_def count_where_append)
    next
      case False
      then show ?thesis using old(1) by (simp add: actives_def count_where_append active_in_def)
    qed
  qed
  moreover have "chat_schema ?d"
    using schema_append [OF s d(2,3)] r by (simp add: participant_role_values_def)
  ultimately show ?thesis by (simp add: members_ok_def)
qed

lemma trigger_limit:
  assumes "chat_schema d" "enforce_private_chat_limit d c" "x \<in> set (chats d)" "c_id x = c" "c_type x = ''private''"
  shows "actives d c < 2"
proof -
  have "select_one (\<lambda>y. c_id y = c) (chats d) = Some x"
    using assms(3,4) schema_chat_id [OF assms(1)] by (intro select_one_unique [of c_id]) auto
  then show ?thesis using assms(2,5) by (auto simp: enforce_private_chat_limit_def actives_def)
qed

lemma members_insert:
  assumes d: "members_ok d" and run: "insert_participant onc r d = Inr d'"
    and r: "cp_role r = ''member''"
    and upd: "\<And>f p. onc = DoUpdate f \<Longrightarrow> pkey p = pkey r \<Longrightarrow> p \<in> set (chat_participants d) \<Longrightarrow>
      pkey (f p) = pkey p \<and> cp_role (f p) = ''member'' \<and> cp_left_at p \<noteq> None"
  shows "members_ok d'"
proof -
  have s: "chat_schema d" using d by (simp add: members_ok_def)
  have lim: "enforce_private_chat_limit d (cp_chat_id r)"
    using run by (simp add: insert_participant_def split: if_splits)
  show ?thesis
  proof (cases "exists_where (same_member r) (chat_participants d)")
    case False
    then show ?thesis
      using run lim members_append [OF d False _ r lim]
      by (auto simp: insert_participant_def split: if_splits)
  next
    case True
    then obtain p where p: "p \<in> set (chat_participants d)" "same_member r p"
      by (auto simp: exists_where_iff)
    then have key: "pkey p = pkey r" by (simp add: same_member_def pkey_def)
    have Q: "same_member r x \<longleftrightarrow> pkey x = pkey p" for x
      using key by (auto simp: same_member_def pkey_def)
    show ?thesis
    proof (cases onc)
      case (DoUpdate f)
      let ?t = "update_where (same_member r) f (chat_participants d)"
      note u = upd [OF DoUpdate key p(1)]
      have fk: "\<not> exists_where (\<lambda>x. same_member r x \<and> \<not> participant_fks d x) ?t"
        and d': "d' = d\<lparr>chat_participants := ?t\<rparr>"
        using run lim True DoUpdate by (simp_all add: insert_participant_def Let_def split: if_splits)
      have "f p \<in> set ?t" using p by (auto simp: set_update_where)
      moreover have "same_member r (f p)" using u key by (auto simp: same_member_def pkey_def)
      ultimately have fkp: "participant_fks d (f p)" using fk by (auto simp: exists_where_iff)
      have chat: "cp_chat_id p = cp_chat_id r" using key by (simp add: pkey_def)
      have "members_ok (d\<lparr>chat_participants := ?t\<rparr>)"
      proof (rule members_edit [OF d p(1) Q])
        show "cp_role (f p) \<in> set participant_role_values"
          using u by (simp add: participant_role_values_def)
        show "owner_row (f p) \<longleftrightarrow> owner_row p" using u by (simp add: owner_row_def)
        fix x assume x: "x \<in> set (chats d)" "c_id x = cp_chat_id p" "c_type x = ''private''"
        have "cp_role p = ''member''"
          using d p(1) x by (auto simp: members_ok_def private_pairs_def)
        moreover have "actives d (cp_chat_id p) < 2"
          using trigger_limit [OF s lim x(1)] x(2,3) chat by simp
        ultimately show "cp_role (f p) = cp_role p \<and>
            (cp_left_at (f p) = None \<longrightarrow> cp_left_at p = None \<or> actives d (cp_chat_id p) < 2)"
          using u by simp
      qed (use u fkp in auto)
      then show ?thesis by (simp add: d')
    qed (use run lim True d in \<open>auto simp: insert_participant_def split: if_splits\<close>)
  qed
qed

section \<open>Editing chats\<close>

lemma members_update_chats:
  assumes d: "members_ok d" and run: "update_chats now P f d = Inr d'"
    and f: "\<And>r. c_id (f r) = c_id r" "\<And>r. c_type (f r) = c_type r"
  shows "members_ok d'"
proof -
  let ?g = "\<lambda>r. (f r)\<lparr>c_updated_at := now\<rparr>"
  let ?t = "update_where P ?g (chats d)"
  have d': "d' = d\<lparr>chats := ?t\<rparr>" and ok: "\<forall>r\<in>set ?t. chat_checks r" "invite_links_distinct ?t"
    using run by (auto simp: update_chats_def Let_def exists_where_iff split: if_splits)
  have ids: "map c_id ?t = map c_id (chats d)"
    by (rule map_update_where) (simp add: f)
  then have "set (map c_id ?t) = set (map c_id (chats d))" by (rule arg_cong)
  then have idset: "c_id ` set ?t = c_id ` set (chats d)" by simp
  have ex: "chat_exists d' c \<longleftrightarrow> chat_exists d c" for c
  proof -
    have "chat_exists d' c \<longleftrightarrow> c \<in> c_id ` set ?t" by (auto simp: chat_exists_def exists_where_iff d')
    also have "\<dots> \<longleftrightarrow> chat_exists d c" unfolding idset by (auto simp: chat_exists_def exists_where_iff)
    finally show ?thesis .
  qed
  have fk: "participant_fks d' p \<longleftrightarrow> participant_fks d p" for p
    by (simp add: participant_fks_def ex) (simp add: d' split: option.split)
  have old: "\<exists>x\<in>set (chats d). c_id x = c_id r \<and> c_type x = c_type r" if "r \<in> set ?t" for r
    using that f by (auto simp: set_update_where)
  have "unique_on c_id ?t"
    using d ids by (simp add: members_ok_def chat_schema_def unique_on_def)
  then have "chat_schema d'"
    using d ok fk old unfolding members_ok_def chat_schema_def by (force simp: d')
  moreover have "one_owner d'"
    using d old unfolding members_ok_def one_owner_def by (force simp: d' owners_def)
  moreover have "private_pairs d'"
    using d old unfolding members_ok_def private_pairs_def by (force simp: d' actives_def)
  ultimately show ?thesis by (simp add: members_ok_def)
qed

section \<open>The operations keep the invariant\<close>

text \<open>The role of an active member, and the two first steps of most operations.\<close>

definition role_of :: "db \<Rightarrow> uuid \<Rightarrow> uuid \<Rightarrow> participant_role option" where
  "role_of d u c =
     (case select_one (\<lambda>p. active_in c p \<and> cp_user_id p = u) (chat_participants d) of
        None \<Rightarrow> None
      | Some p \<Rightarrow> role_from_db_str (cp_role p))"

lemma and_then_role_or:
  "and_then (role_or e u c) f d = (case role_of d u c of None \<Rightarrow> (Inl e, d) | Some r \<Rightarrow> f r d)"
  by (simp add: role_or_def get_participant_role_def role_of_def and_then_def ok_or_def split: option.splits)

lemma and_then_sql:
  "and_then (sql w) f d = (case w d of Inl e \<Rightarrow> (Inl (from_sqlx e), d) | Inr d' \<Rightarrow> f () d')"
  by (simp add: sql_def and_then_execute map_sqlx_def split: sum.split)

lemma sql_eq: "sql w d = (case w d of Inl e \<Rightarrow> (Inl (from_sqlx e), d) | Inr d' \<Rightarrow> (Inr (), d'))"
  by (simp add: sql_def execute_def map_sqlx_def split: sum.split)

lemmas run_simps = and_then_role_or and_then_sql sql_eq op_simps execute_def

lemma role_of_SomeE:
  assumes "role_of d u c = Some r"
  obtains p where "p \<in> set (chat_participants d)" "active_in c p" "cp_user_id p = u"
    "cp_role p = role_as_db_str r"
  using assms by (auto simp: role_of_def role_from_db_str_Some split: option.splits dest!: select_one_SomeD)

lemma active_memberI:
  "p \<in> set (chat_participants d) \<Longrightarrow> active_in c p \<Longrightarrow> cp_user_id p = u \<Longrightarrow> active_member d u c"
  by (auto simp: active_member_def exists_where_iff)

lemma row_fks: "chat_schema d \<Longrightarrow> p \<in> set (chat_participants d) \<Longrightarrow> participant_fks d p"
  and row_role: "chat_schema d \<Longrightarrow> p \<in> set (chat_participants d) \<Longrightarrow> cp_role p \<in> set participant_role_values"
  by (simp_all add: chat_schema_def)

lemma members_schema: "members_ok d \<Longrightarrow> chat_schema d"
  by (simp add: members_ok_def)

lemma add_participant_db:
  "snd (add_participant now c actor u key d) = d \<or>
     (\<not> active_member d u c \<and>
      insert_participant (DoUpdate (\<lambda>p. p\<lparr>cp_left_at := None, cp_role := ''member'',
        cp_encryption_key_enc := key, cp_added_by := Some actor, cp_joined_at := now\<rparr>))
        (new_participant now c u ''member'' key (Some actor)) d
      = Inr (snd (add_participant now c actor u key d)))"
  by (simp add: add_participant_def run_simps ok_or_def split: option.split sum.split)

lemma add_participant_keeps:
  assumes "members_ok d"
  shows "members_ok (snd (add_participant now c actor u key d))"
  using add_participant_db [of now c actor u key d]
proof (elim disjE conjE)
  assume "\<not> active_member d u c"
    and "insert_participant (DoUpdate (\<lambda>p. p\<lparr>cp_left_at := None, cp_role := ''member'',
        cp_encryption_key_enc := key, cp_added_by := Some actor, cp_joined_at := now\<rparr>))
        (new_participant now c u ''member'' key (Some actor)) d
      = Inr (snd (add_participant now c actor u key d))"
  then show ?thesis
    by (intro members_insert [OF assms])
      (auto simp: new_participant_def pkey_def active_in_def intro: active_memberI)
qed (simp add: assms)

lemma join_by_invite_db:
  "snd (join_by_invite now c u d) = d \<or>
     (\<not> active_member d u c \<and>
      insert_participant (DoUpdate (\<lambda>p. p\<lparr>cp_left_at := None, cp_role := ''member'', cp_joined_at := now\<rparr>))
        (new_participant now c u ''member'' None None) d
      = Inr (snd (join_by_invite now c u d)))"
  by (simp add: join_by_invite_def run_simps split: sum.split)

lemma join_by_invite_keeps:
  assumes "members_ok d"
  shows "members_ok (snd (join_by_invite now c u d))"
  using join_by_invite_db [of now c u d]
proof (elim disjE conjE)
  assume "\<not> active_member d u c"
    and "insert_participant (DoUpdate (\<lambda>p. p\<lparr>cp_left_at := None, cp_role := ''member'', cp_joined_at := now\<rparr>))
        (new_participant now c u ''member'' None None) d
      = Inr (snd (join_by_invite now c u d))"
  then show ?thesis
    by (intro members_insert [OF assms])
      (auto simp: new_participant_def pkey_def active_in_def intro: active_memberI)
qed (simp add: assms)

text \<open>Leaving: the row of a member who is not the owner.\<close>

lemma set_left_keeps:
  assumes "members_ok d" "p \<in> set (chat_participants d)" "active_in c p" "cp_user_id p = u"
    "cp_role p \<noteq> ''owner''"
  shows "members_ok (set_left now c u d)"
  unfolding set_left_def
  by (rule members_edit [OF assms(1,2)])
    (use assms members_schema [OF assms(1)] in \<open>auto simp: pkey_def owner_row_def active_key participant_fks_def
        dest: row_fks row_role\<close>)

lemma remove_participant_db:
  "snd (remove_participant now c actor target d) = d \<or>
     (\<exists>ra rt. role_of d actor c = Some ra \<and> role_of d target c = Some rt \<and>
        (if actor = target then ra \<noteq> Owner else rt < ra) \<and>
        snd (remove_participant now c actor target d) = set_left now c target d)"
  by (simp add: remove_participant_def run_simps not_le split: option.split)

lemma remove_participant_keeps:
  assumes "members_ok d"
  shows "members_ok (snd (remove_participant now c actor target d))"
  using remove_participant_db [of now c actor target d]
proof (elim disjE conjE exE)
  fix ra rt
  assume r: "role_of d actor c = Some ra" "role_of d target c = Some rt"
    "if actor = target then ra \<noteq> Owner else rt < ra"
    and d': "snd (remove_participant now c actor target d) = set_left now c target d"
  from r(2) obtain p where p: "p \<in> set (chat_participants d)" "active_in c p" "cp_user_id p = target"
    "cp_role p = role_as_db_str rt" by (rule role_of_SomeE)
  have "rt \<noteq> Owner" using r by (auto split: if_splits)
  then have "cp_role p \<noteq> ''owner''" using p(4) by (cases rt) auto
  from set_left_keeps [OF assms p(1-3) this] show ?thesis by (simp add: d')
qed (simp add: assms)

text \<open>Changing the role of an active member to and from a role that is not \<open>owner\<close>.\<close>

lemma role_change_keeps:
  assumes d: "members_ok d" and p: "p \<in> set (chat_participants d)" "active_in c p" "cp_user_id p = u"
    and r: "cp_role p \<noteq> ''owner''" "role \<noteq> ''owner''" "role \<in> set participant_role_values"
    and priv: "\<And>x. x \<in> set (chats d) \<Longrightarrow> c_id x = c \<Longrightarrow> c_type x \<noteq> ''private''"
  shows "members_ok (d\<lparr>chat_participants := update_where (\<lambda>p. active_in c p \<and> cp_user_id p = u)
    (\<lambda>p. p\<lparr>cp_role := role\<rparr>) (chat_participants d)\<rparr>)"
proof (rule members_edit [OF d p(1)])
  show "participant_fks d (p\<lparr>cp_role := role\<rparr>)"
    using row_fks [OF members_schema [OF d] p(1)] by (simp add: participant_fks_def)
qed (use r priv active_key [OF members_schema [OF d] p] p(2) in \<open>auto simp: pkey_def owner_row_def active_in_def\<close>)

lemma private_role_member:
  assumes "members_ok d" "role_of d u c = Some r" "x \<in> set (chats d)" "c_id x = c" "c_type x = ''private''"
  shows "r = Member"
proof -
  from assms(2) obtain p where p: "p \<in> set (chat_participants d)" "active_in c p" "cp_role p = role_as_db_str r"
    by (rule role_of_SomeE)
  then have "cp_role p = ''member''"
    using assms(1,3-5) by (auto simp: members_ok_def private_pairs_def active_in_def)
  then show ?thesis using p(3) by (cases r) auto
qed

lemma update_participant_role_db:
  "snd (update_participant_role c actor target new_role d) = d \<or>
     (\<exists>ra rt. role_of d actor c = Some ra \<and> role_of d target c = Some rt \<and> rt < ra \<and> new_role < ra \<and>
        snd (update_participant_role c actor target new_role d) =
          d\<lparr>chat_participants := update_where (\<lambda>p. active_in c p \<and> cp_user_id p = target)
             (\<lambda>p. p\<lparr>cp_role := role_as_db_str new_role\<rparr>) (chat_participants d)\<rparr>)"
  by (simp add: update_participant_role_def set_active_role_def run_simps not_le Let_def fetch_one_def map_sqlx_def
      split: option.split)

lemma update_participant_role_keeps:
  assumes "members_ok d"
  shows "members_ok (snd (update_participant_role c actor target new_role d))"
  using update_participant_role_db [of c actor target new_role d]
proof (elim disjE conjE exE)
  fix ra rt
  assume r: "role_of d actor c = Some ra" "role_of d target c = Some rt" "rt < ra" "new_role < ra"
    and d': "snd (update_participant_role c actor target new_role d) =
      d\<lparr>chat_participants := update_where (\<lambda>p. active_in c p \<and> cp_user_id p = target)
         (\<lambda>p. p\<lparr>cp_role := role_as_db_str new_role\<rparr>) (chat_participants d)\<rparr>"
  from r(2) obtain p where p: "p \<in> set (chat_participants d)" "active_in c p" "cp_user_id p = target"
    "cp_role p = role_as_db_str rt" by (rule role_of_SomeE)
  have "rt \<noteq> Owner" "new_role \<noteq> Owner" using r(3,4) by auto
  then have not_owner: "cp_role p \<noteq> ''owner''" "role_as_db_str new_role \<noteq> ''owner''"
    using p(4) by (cases rt; cases new_role; simp)+
  have "ra \<noteq> Member" using r(3) by (cases rt) (auto simp: role_less_iff)
  then have "c_type x \<noteq> ''private''" if "x \<in> set (chats d)" "c_id x = c" for x
    using private_role_member [OF assms r(1) that] by blast
  moreover have "role_as_db_str new_role \<in> set participant_role_values"
    by (cases new_role) (simp_all add: participant_role_values_def)
  ultimately show ?thesis
    unfolding d' by (intro role_change_keeps [OF assms p(1-3) not_owner]) auto
qed (simp add: assms)

lemma set_invite_link_keeps:
  assumes "members_ok d"
  shows "members_ok (snd (set_invite_link now rnd c actor slug d))"
proof -
  have "members_ok d'" if "update_chats now (\<lambda>r. c_id r = c) (\<lambda>r. r\<lparr>c_invite_link := l\<rparr>) d = Inr d'" for l d'
    by (rule members_update_chats [OF assms that]) simp_all
  then show ?thesis
    using assms by (auto simp: set_invite_link_def run_simps Let_def split: option.split sum.split)
qed

lemma set_key_keeps:
  assumes "members_ok d"
  shows "members_ok (set_key c u key d)"
proof (cases "\<exists>p\<in>set (chat_participants d). active_in c p \<and> cp_user_id p = u")
  case True
  then obtain p where p: "p \<in> set (chat_participants d)" "active_in c p" "cp_user_id p = u" by blast
  note s = members_schema [OF assms]
  show ?thesis
    unfolding set_key_def
    by (rule members_edit [OF assms p(1)])
      (use active_key [OF s p] row_fks [OF s p(1)] row_role [OF s p(1)] in
        \<open>auto simp: pkey_def owner_row_def participant_fks_def\<close>)
next
  case False
  then have "update_where (\<lambda>p. active_in c p \<and> cp_user_id p = u)
      (\<lambda>p. p\<lparr>cp_encryption_key_enc := Some key\<rparr>) (chat_participants d) = chat_participants d"
    by (intro update_where_none) auto
  then show ?thesis using assms by (simp add: set_key_def)
qed

lemma set_keys_keeps: "members_ok d \<Longrightarrow> members_ok (snd (set_keys c ks n d))"
  by (induction c ks n d rule: set_keys.induct) (simp_all add: set_key_keeps)

lemma rotate_group_key_keeps:
  assumes "members_ok d"
  shows "members_ok (snd (rotate_group_key c actor keys d))"
  using assms set_keys_keeps [OF assms, of c keys 0]
  by (auto simp: rotate_group_key_def run_simps transaction_def split: option.split prod.split sum.split)

lemma transfer_ownership_db:
  "snd (transfer_ownership c cur new d) = d \<or>
     (role_of d cur c = Some Owner \<and> (\<exists>rn. role_of d new c = Some rn) \<and>
      transfer_ownership c cur new d = (Inr (), set_role c new ''owner'' (set_role c cur ''admin'' d)))"
  by (simp add: transfer_ownership_def run_simps transaction_def split: option.split)

text \<open>One row gets another role.\<close>

lemma set_role_effect:
  assumes s: "chat_schema d" and p: "p \<in> set (chat_participants d)" "cp_chat_id p = c" "cp_user_id p = u"
    and role: "role \<in> set participant_role_values"
  shows "chat_schema (set_role c u role d)"
    and "c' \<noteq> c \<Longrightarrow> owners (set_role c u role d) c' = owners d c'"
    and "owners (set_role c u role d) c + of_bool (owner_row p) =
      owners d c + of_bool (cp_left_at p = None \<and> role = ''owner'')"
    and "actives (set_role c u role d) c'' = actives d c''"
    and "p\<lparr>cp_role := role\<rparr> \<in> set (chat_participants (set_role c u role d))"
proof -
  have Q: "cp_chat_id x = c \<and> cp_user_id x = u \<longleftrightarrow> pkey x = pkey p" for x
    using p(2,3) by (auto simp: pkey_def)
  note count = counts_edit [OF s p(1) Q, where f = "\<lambda>p. p\<lparr>cp_role := role\<rparr>"]
  show "chat_schema (set_role c u role d)"
    unfolding set_role_def
    by (rule schema_edit [OF s p(1) Q])
      (use role row_fks [OF s p(1)] in \<open>auto simp: pkey_def participant_fks_def\<close>)
  show "owners (set_role c u role d) c' = owners d c'" if "c' \<noteq> c"
    using count [of "\<lambda>p. cp_chat_id p = c' \<and> owner_row p"] p(2) that
    by (simp add: owners_def set_role_def)
  show "owners (set_role c u role d) c + of_bool (owner_row p) =
      owners d c + of_bool (cp_left_at p = None \<and> role = ''owner'')"
    using count [of "\<lambda>p. cp_chat_id p = c \<and> owner_row p"] p(2)
    by (simp add: owners_def set_role_def owner_row_def)
  show "actives (set_role c u role d) c'' = actives d c''"
    unfolding actives_def set_role_def by (simp add: count_where_update_same active_in_def)
  show "p\<lparr>cp_role := role\<rparr> \<in> set (chat_participants (set_role c u role d))"
    using p by (auto simp: set_role_def set_update_where image_iff intro!: bexI [of _ p])
qed

lemma set_role_other:
  "x \<in> set (chat_participants (set_role c u role d)) \<Longrightarrow> cp_chat_id x \<noteq> c \<Longrightarrow> x \<in> set (chat_participants d)"
  by (auto simp: set_role_def set_update_where)

lemma transfer_ownership_keeps:
  assumes d: "members_ok d"
  shows "members_ok (snd (transfer_ownership c cur new d))"
  using transfer_ownership_db [of c cur new d]
proof (elim disjE conjE exE)
  fix rn
  assume own: "role_of d cur c = Some Owner" and rn: "role_of d new c = Some rn"
    and run: "transfer_ownership c cur new d = (Inr (), set_role c new ''owner'' (set_role c cur ''admin'' d))"
  let ?d1 = "set_role c cur ''admin'' d"
  let ?d2 = "set_role c new ''owner'' ?d1"
  note s = members_schema [OF d]
  from own obtain p where p: "p \<in> set (chat_participants d)" "active_in c p" "cp_user_id p = cur"
    "cp_role p = role_as_db_str Owner" by (rule role_of_SomeE)
  from rn obtain q where q: "q \<in> set (chat_participants d)" "active_in c q" "cp_user_id q = new"
    by (rule role_of_SomeE)
  have pc: "cp_chat_id p = c" and qc: "cp_chat_id q = c" using p q by (simp_all add: active_in_def)
  note e1 = set_role_effect [OF s p(1) pc p(3), of "''admin''"]
  obtain q1 where q1: "q1 \<in> set (chat_participants ?d1)" "cp_chat_id q1 = c" "cp_user_id q1 = new"
    "cp_left_at q1 = None"
  proof
    let ?q1 = "if cp_chat_id q = c \<and> cp_user_id q = cur then q\<lparr>cp_role := ''admin''\<rparr> else q"
    show "?q1 \<in> set (chat_participants ?d1)"
      using q(1) by (simp add: set_role_def set_update_where)
    show "cp_chat_id ?q1 = c" "cp_user_id ?q1 = new" "cp_left_at ?q1 = None"
      using q by (simp_all add: active_in_def)
  qed
  have s1: "chat_schema ?d1" by (rule e1(1)) (simp add: participant_role_values_def)
  note e2 = set_role_effect [OF s1 q1(1-3), of "''owner''"]
  have s2: "chat_schema ?d2" by (rule e2(1)) (simp add: participant_role_values_def)
  have chats: "chats ?d2 = chats d" by (simp add: set_role_def)
  have not_private: "c_type x \<noteq> ''private''" if "x \<in> set (chats d)" "c_id x = c" for x
    using private_role_member [OF d own that] by auto
  have "owners ?d2 (c_id r) = 1" if r: "r \<in> set (chats d)" "c_type r = ''group''" for r
  proof -
    have one: "owners d (c_id r) = 1" using d r by (simp add: members_ok_def one_owner_def)
    show ?thesis
    proof (cases "c_id r = c")
      case True
      have "owners ?d1 c = 0"
        using e1(3) one True p by (simp add: participant_role_values_def owner_row_def active_in_def)
      moreover from this have "\<not> owner_row q1"
        using q1(1,2) by (auto simp: owners_def count_where_0_iff)
      ultimately show ?thesis
        using e2(3) True q1(4) by (simp add: participant_role_values_def)
    next
      case False
      then show ?thesis using e1(2) e2(2) one by (simp add: participant_role_values_def)
    qed
  qed
  then have "one_owner ?d2" by (simp add: one_owner_def chats)
  moreover have "private_pairs ?d2"
    unfolding private_pairs_def chats
  proof (intro ballI impI conjI)
    fix r assume r: "r \<in> set (chats d)" "c_type r = ''private''"
    then have old: "actives d (c_id r) \<le> 2"
      "\<forall>p\<in>set (chat_participants d). cp_chat_id p = c_id r \<longrightarrow> cp_role p = ''member''"
      using d by (simp_all add: members_ok_def private_pairs_def)
    show "actives ?d2 (c_id r) \<le> 2"
      using old(1) e1(4) e2(4) by (simp add: participant_role_values_def)
    have "c_id r \<noteq> c" using not_private r by blast
    then show "cp_role x = ''member''" if "x \<in> set (chat_participants ?d2)" "cp_chat_id x = c_id r" for x
      using set_role_other [OF set_role_other] that old(2) by metis
  qed
  ultimately have "members_ok ?d2" using s2 by (simp add: members_ok_def)
  then show ?thesis by (simp add: run)
qed (simp add: d)

text \<open>Leaving through \<open>delete_chat\<close>, whose update has no condition on \<open>left_at\<close>.\<close>

lemma leave_chat_keeps:
  assumes d: "members_ok d" and p: "p \<in> set (chat_participants d)" "active_in c p" "cp_user_id p = u"
    and r: "cp_role p \<noteq> ''owner''"
  shows "members_ok (leave_chat now u c d)"
  unfolding leave_chat_def
proof (rule members_edit [OF d p(1)])
  show "cp_chat_id x = c \<and> cp_user_id x = u \<longleftrightarrow> pkey x = pkey p" for x
    using p(2,3) by (auto simp: pkey_def active_in_def)
qed (use r row_fks [OF members_schema [OF d] p(1)] row_role [OF members_schema [OF d] p(1)] in
  \<open>auto simp: pkey_def owner_row_def participant_fks_def\<close>)

lemma delete_chat_keeps:
  assumes d: "members_ok d"
  shows "members_ok (snd (delete_chat now u c d))"
proof (cases "chat_of_member d u c")
  case None
  then show ?thesis using d by (simp add: delete_chat_def)
next
  case (Some r)
  then have mem: "active_member d u c" and r: "r \<in> set (chats d)" "c_id r = c"
    by (auto simp: chat_of_member_eq split: if_splits dest: select_one_SomeD)
  then obtain p where p: "p \<in> set (chat_participants d)" "active_in c p" "cp_user_id p = u"
    by (auto simp: active_member_def exists_where_iff)
  have pc: "cp_chat_id p = c" using p(2) by (simp add: active_in_def)
  have upd: "members_ok d'" if "update_chats now (\<lambda>x. c_id x = c) (\<lambda>x. x\<lparr>c_deleted_at := Some now\<rparr>) d = Inr d'" for d'
    by (rule members_update_chats [OF d that]) simp_all
  have leave: "members_ok (leave_chat now u c d)"
    if "c_type r = ''private'' \<or> \<not> exists_where (\<lambda>p. cp_chat_id p = c \<and> cp_user_id p = u \<and> cp_role p = ''owner'')
        (chat_participants d)"
  proof (rule leave_chat_keeps [OF d p])
    show "cp_role p \<noteq> ''owner''"
      using that d p(1,3) pc r by (auto simp: exists_where_iff members_ok_def private_pairs_def)
  qed
  show ?thesis
    using d upd leave Some by (auto simp: delete_chat_def run_simps split: sum.split)
qed

lemma update_chat_keeps:
  assumes d: "members_ok d"
  shows "members_ok (snd (update_chat now u c name descr avatar d))"
proof -
  have "members_ok d'" if "update_chats now (\<lambda>x. c_id x = c)
      (\<lambda>x. x\<lparr>c_name := a, c_description := b, c_avatar_url := e\<rparr>) d = Inr d'" for a b e d'
    by (rule members_update_chats [OF d that]) simp_all
  then show ?thesis
    using d by (auto simp: update_chat_def Let_def map_sqlx_def split: sum.split option.split)
qed

section \<open>Creating chats keeps the invariant\<close>

lemma insert_chat_run:
  assumes "insert_chat r d = Inr d'"
  shows "d' = d\<lparr>chats := chats d @ [r]\<rparr> \<and> chat_checks r \<and> invite_links_distinct (chats d @ [r]) \<and>
    (\<forall>x\<in>set (chats d). c_id x \<noteq> c_id r)"
  using assms by (auto simp: insert_chat_def exists_where_iff split: if_splits)

lemma schema_insert_chat:
  assumes "chat_schema d" "insert_chat r d = Inr d'" "c_type r \<in> set chat_type_values"
  shows "chat_schema d'"
proof -
  note i = insert_chat_run [OF assms(2)]
  have "participant_fks d' p" if "participant_fks d p" for p
    using that i by (auto simp: participant_fks_def chat_exists_def exists_where_iff split: option.splits)
  then show ?thesis using assms i by (auto simp: chat_schema_def unique_on_snoc)
qed

text \<open>A new chat has no participants yet.\<close>

lemma new_chat_empty:
  assumes "chat_schema d" "insert_chat r d = Inr d'" "p \<in> set (chat_participants d)"
  shows "cp_chat_id p \<noteq> c_id r"
  using assms insert_chat_run [OF assms(2)]
  by (auto simp: chat_schema_def participant_fks_def chat_exists_def exists_where_iff)

lemma counts_new_chat:
  assumes "chat_schema d" "insert_chat r d = Inr d'"
  shows "owners d' (c_id r) = 0" "actives d' (c_id r) = 0" "owners d' c = owners d c" "actives d' c = actives d c"
proof -
  have parts: "chat_participants d' = chat_participants d"
    using insert_chat_run [OF assms(2)] by simp
  show "owners d' c = owners d c" "actives d' c = actives d c"
    by (simp_all add: owners_def actives_def parts)
  show "owners d' (c_id r) = 0" "actives d' (c_id r) = 0"
    using new_chat_empty [OF assms] by (auto simp: owners_def actives_def parts count_where_0_iff active_in_def)
qed

lemma members_insert_chat:
  assumes "members_ok d" "insert_chat r d = Inr d'" "c_type r \<in> set chat_type_values" "c_type r \<noteq> ''group''"
  shows "members_ok d'"
proof -
  note s = members_schema [OF assms(1)]
  note i = insert_chat_run [OF assms(2)] and n = new_chat_empty [OF s assms(2)]
  note k = counts_new_chat [OF s assms(2)]
  have parts: "chat_participants d' = chat_participants d" and ch: "chats d' = chats d @ [r]"
    using i by simp_all
  have "one_owner d'" using assms(1,4) k(3) by (auto simp: members_ok_def one_owner_def ch)
  moreover have "private_pairs d'"
    using assms(1) k n by (auto simp: members_ok_def private_pairs_def ch parts)
  ultimately show ?thesis using schema_insert_chat [OF s assms(2,3)] by (simp add: members_ok_def)
qed

lemma insert_plain_keeps:
  assumes "members_ok d" "insert_participant ConflictError (new_participant now c u ''member'' k a) d = Inr d'"
  shows "members_ok d'"
  by (rule members_insert [OF assms]) (simp_all add: new_participant_def)

lemma insert_nothing_keeps:
  assumes "members_ok d" "insert_participant DoNothing (new_participant now c u ''member'' k a) d = Inr d'"
  shows "members_ok d'"
  by (rule members_insert [OF assms]) (simp_all add: new_participant_def)

lemma insert_members_keeps:
  "members_ok d \<Longrightarrow> insert_members now c creator us d = (Inr (), d') \<Longrightarrow> members_ok d'"
proof (induction us arbitrary: d)
  case (Cons u us)
  then show ?case
    by (auto simp: run_simps split: if_splits sum.splits intro: Cons.IH [OF insert_nothing_keeps])
qed simp

lemma found_chat_snd [simp]: "snd (found_chat u c d) = d"
  by (simp add: found_chat_def run_simps split: sum.split)

lemma create_private_chat_db:
  "snd (create_private_chat i now a b d) = d \<or>
     (existing_private_chat a b d = None \<and>
      (\<exists>d1 d2. insert_chat (new_chat_row i now ''private'' None a) d = Inr d1 \<and>
        insert_participant ConflictError (new_participant now i a ''member'' None (Some a)) d1 = Inr d2 \<and>
        insert_participant ConflictError (new_participant now i b ''member'' None (Some a)) d2
          = Inr (snd (create_private_chat i now a b d))))"
  by (simp add: create_private_chat_def run_simps and_then_def [of "transaction _"] transaction_def
      split: option.split sum.split prod.split)

lemma create_private_chat_keeps:
  assumes "members_ok d"
  shows "members_ok (snd (create_private_chat i now a b d))"
  using create_private_chat_db [of i now a b d]
proof (elim disjE conjE exE)
  fix d1 d2
  assume 1: "insert_chat (new_chat_row i now ''private'' None a) d = Inr d1"
    and 2: "insert_participant ConflictError (new_participant now i a ''member'' None (Some a)) d1 = Inr d2"
    and 3: "insert_participant ConflictError (new_participant now i b ''member'' None (Some a)) d2
          = Inr (snd (create_private_chat i now a b d))"
  have "members_ok d1"
    by (rule members_insert_chat [OF assms 1]) (simp_all add: new_chat_row_def chat_type_values_def)
  from insert_plain_keeps [OF insert_plain_keeps [OF this 2] 3] show ?thesis .
qed (simp add: assms)

lemma create_group_chat_db:
  "snd (create_group_chat i now a name us d) = d \<or>
     (\<exists>d1 d2. insert_chat (new_chat_row i now ''group'' (Some name) a) d = Inr d1 \<and>
        insert_participant ConflictError (new_participant now i a ''owner'' None (Some a)) d1 = Inr d2 \<and>
        insert_members now i a us d2 = (Inr (), snd (create_group_chat i now a name us d)))"
  by (auto simp: create_group_chat_def run_simps and_then_def [of "transaction _"] transaction_def
      split: option.split sum.split prod.split)

text \<open>The group with its owner, before the other members are added.\<close>

lemma new_group_members_ok:
  assumes d: "members_ok d" and 1: "insert_chat (new_chat_row i now ''group'' (Some name) a) d = Inr d1"
    and 2: "insert_participant ConflictError (new_participant now i a ''owner'' None (Some a)) d1 = Inr d2"
  shows "members_ok d2"
proof -
  let ?r = "new_chat_row i now ''group'' (Some name) a" and ?p = "new_participant now i a ''owner'' None (Some a)"
  note s = members_schema [OF d]
  have i: "c_id ?r = i" "c_type ?r = ''group''" by (simp_all add: new_chat_row_def)
  note k = counts_new_chat [OF s 1] and n = new_chat_empty [OF s 1]
  have ch: "chats d1 = chats d @ [?r]" and parts: "chat_participants d1 = chat_participants d"
    and fresh: "\<forall>x\<in>set (chats d). c_id x \<noteq> i"
    using insert_chat_run [OF 1] i by auto
  have s1: "chat_schema d1" by (rule schema_insert_chat [OF s 1]) (simp add: i chat_type_values_def)
  have d2: "d2 = d1\<lparr>chat_participants := chat_participants d1 @ [?p]\<rparr>"
    and new: "\<not> exists_where (same_member ?p) (chat_participants d1)" "participant_fks d1 ?p"
    using 2 by (auto simp: insert_participant_def split: if_splits)
  have p: "cp_chat_id ?p = i" "owner_row ?p" "cp_role ?p = ''owner''"
    by (simp_all add: new_participant_def owner_row_def)
  have own: "owners d2 c = owners d1 c + of_bool (c = i)" for c
    using p by (simp add: d2 owners_def count_where_append)
  have act: "actives d2 c = actives d1 c" if "c \<noteq> i" for c
    using that p by (simp add: d2 actives_def count_where_append active_in_def)
  have "one_owner d2"
    using d own k(1,3) fresh i by (auto simp: members_ok_def one_owner_def d2 ch)
  moreover have "private_pairs d2"
    using d act k(4) fresh i p by (auto simp: members_ok_def private_pairs_def d2 ch parts)
  moreover have "chat_schema d2"
    unfolding d2 by (rule schema_append [OF s1 new]) (simp add: p participant_role_values_def)
  ultimately show ?thesis by (simp add: members_ok_def)
qed

lemma create_group_chat_keeps:
  assumes "members_ok d"
  shows "members_ok (snd (create_group_chat i now a name us d))"
  using create_group_chat_db [of i now a name us d] assms new_group_members_ok insert_members_keeps
  by metis

section \<open>Reachable states\<close>

text \<open>
  One step is one repository operation on chats or memberships, run to its end, or anything else
  that leaves these two tables alone and removes no user; no statement of the code deletes from
  \<open>users\<close>.
\<close>

inductive chat_step :: "db \<Rightarrow> db \<Rightarrow> bool" where
  create_private: "chat_step d (snd (create_private_chat i now a b d))"
| create_group: "chat_step d (snd (create_group_chat i now a name us d))"
| update: "chat_step d (snd (update_chat now u c name descr avatar d))"
| delete: "chat_step d (snd (delete_chat now u c d))"
| add: "chat_step d (snd (add_participant now c actor u key d))"
| remove: "chat_step d (snd (remove_participant now c actor u d))"
| change_role: "chat_step d (snd (update_participant_role c actor u role d))"
| invite: "chat_step d (snd (set_invite_link now rnd c actor slug d))"
| join: "chat_step d (snd (join_by_invite now c u d))"
| rotate: "chat_step d (snd (rotate_group_key c actor keys d))"
| transfer: "chat_step d (snd (transfer_ownership c a b d))"
| elsewhere: "chats d' = chats d \<Longrightarrow> chat_participants d' = chat_participants d \<Longrightarrow>
    (\<And>u. user_exists d u \<Longrightarrow> user_exists d' u) \<Longrightarrow> chat_step d d'"

inductive chat_reachable :: "db \<Rightarrow> bool" where
  start: "chats d = [] \<Longrightarrow> chat_participants d = [] \<Longrightarrow> chat_reachable d"
| step: "chat_reachable d \<Longrightarrow> chat_step d d' \<Longrightarrow> chat_reachable d'"

lemma chat_step_keeps:
  assumes "chat_step d d'" "members_ok d"
  shows "members_ok d'"
  using assms
proof (cases rule: chat_step.cases)
  case elsewhere
  then have "participant_fks d p \<Longrightarrow> participant_fks d' p" for p
    by (auto simp: participant_fks_def chat_exists_def split: option.splits)
  moreover have "owners d' c = owners d c" "actives d' c = actives d c" for c
    using elsewhere by (simp_all add: owners_def actives_def)
  ultimately show ?thesis
    using elsewhere assms(2)
    by (auto simp: members_ok_def chat_schema_def one_owner_def private_pairs_def)
qed (simp_all add: create_private_chat_keeps create_group_chat_keeps update_chat_keeps delete_chat_keeps
    add_participant_keeps remove_participant_keeps update_participant_role_keeps set_invite_link_keeps
    join_by_invite_keeps rotate_group_key_keeps transfer_ownership_keeps)

lemma chat_reachable_ok: "chat_reachable d \<Longrightarrow> members_ok d"
proof (induction rule: chat_reachable.induct)
  case (start d)
  then show ?case
    by (simp add: members_ok_def chat_schema_def one_owner_def private_pairs_def invite_links_distinct_def
        select_where_def)
next
  case (step d d')
  then show ?case by (metis chat_step_keeps)
qed

end
