(* ===== verification/MembershipProps.thy ===== *)
theory MembershipProps
  imports Membership
begin

text \<open>
  What the operations on chats and groups guarantee: the invariant in every reachable state,
  what a transfer of ownership does, that a private chat is created once per pair, and what deleting an invite link does.
\<close>

section \<open>Roles after an operation\<close>

lemma role_of_set_role:
  "role_of (set_role c u txt d) u' c' =
     (if c' = c \<and> u' = u \<and> active_member d u c then role_from_db_str txt else role_of d u' c')"
proof -
  have sel: "select_one (\<lambda>p. active_in c' p \<and> cp_user_id p = u')
      (update_where (\<lambda>p. cp_chat_id p = c \<and> cp_user_id p = u) (\<lambda>p. p\<lparr>cp_role := txt\<rparr>) (chat_participants d)) =
    map_option (\<lambda>p. if cp_chat_id p = c \<and> cp_user_id p = u then p\<lparr>cp_role := txt\<rparr> else p)
      (select_one (\<lambda>p. active_in c' p \<and> cp_user_id p = u') (chat_participants d))"
    by (rule select_one_update_same) (simp add: active_in_def)
  show ?thesis
  proof (cases "select_one (\<lambda>p. active_in c' p \<and> cp_user_id p = u') (chat_participants d)")
    case None
    then have "\<not> active_member d u' c'"
      by (auto simp: active_member_def exists_where_iff select_one_None_iff)
    then show ?thesis using None sel by (auto simp: role_of_def set_role_def)
  next
    case (Some p)
    then have p: "p \<in> set (chat_participants d)" "active_in c' p" "cp_user_id p = u'"
      by (auto dest: select_one_SomeD)
    then have "active_member d u' c'" by (rule active_memberI)
    then show ?thesis using Some sel p by (auto simp: role_of_def set_role_def active_in_def)
  qed
qed

lemma role_of_active: "role_of d u c = Some r \<Longrightarrow> active_member d u c"
  by (auto elim!: role_of_SomeE intro: active_memberI)

lemma active_member_set_role [simp]: "active_member (set_role c u txt d) u' c' = active_member d u' c'"
  unfolding active_member_def set_role_def by (simp add: exists_where_update_same active_in_def)

lemma role_of_set_left:
  "role_of (set_left now c u d) u' c' = (if c' = c \<and> u' = u then None else role_of d u' c')"
proof (cases "c' = c \<and> u' = u")
  case True
  have "select_one (\<lambda>p. active_in c p \<and> cp_user_id p = u)
      (update_where (\<lambda>p. active_in c p \<and> cp_user_id p = u) (\<lambda>p. p\<lparr>cp_left_at := Some now\<rparr>) t) = None" for t
    by (induction t) (auto simp: active_in_def)
  then show ?thesis using True by (simp add: role_of_def set_left_def)
next
  case False
  have "select_one (\<lambda>p. active_in c' p \<and> cp_user_id p = u')
      (update_where (\<lambda>p. active_in c p \<and> cp_user_id p = u) (\<lambda>p. p\<lparr>cp_left_at := Some now\<rparr>) t) =
    select_one (\<lambda>p. active_in c' p \<and> cp_user_id p = u') t" for t
    using False by (induction t) (auto simp: active_in_def)
  then show ?thesis using False unfolding role_of_def set_left_def by auto
qed

section \<open>Runs for the witnesses\<close>

definition three_users :: db where
  "three_users = empty_db\<lparr>users := [sample_user 1 ''+100'', sample_user 2 ''+200'', sample_user 3 ''+300'']\<rparr>"

text \<open>A group 10 with owner 1 and members 2 and 3.\<close>

definition group_of_three :: db where
  "group_of_three = snd (create_group_chat 10 5 1 ''team'' [2, 3, 2] three_users)"

lemma group_of_three_reachable: "chat_reachable group_of_three"
  unfolding group_of_three_def
  by (rule chat_reachable.step [OF chat_reachable.start chat_step.create_group])
    (simp_all add: three_users_def empty_db_def)

lemma group_of_three_roles:
  "role_of group_of_three 1 10 = Some Owner" "role_of group_of_three 2 10 = Some Member"
  "role_of group_of_three 3 10 = Some Member"
  by code_simp+

section \<open>Properties\<close>

text \<open>
  C4. In every state reached by the operations on chats and memberships, every group has exactly one
  active owner, and every private chat has at most two active participants, both plain members.
\<close>

theorem one_owner_and_private_pairs:
  assumes "chat_reachable d"
  shows "one_owner d \<and> private_pairs d"
  using chat_reachable_ok [OF assms] by (simp add: members_ok_def)

theorem one_owner_and_private_pairs_witness:
  "one_owner group_of_three \<and> private_pairs group_of_three"
  by (rule one_owner_and_private_pairs [OF group_of_three_reachable])

text \<open>
  C5. A transfer of ownership to another user succeeds exactly when the caller is the owner and the other
  user is an active member; it then makes the caller admin and the other owner, changes no other role in any
  chat and removes nobody. Otherwise nothing changes.
\<close>

theorem transfer_ownership_effect:
  assumes "cur \<noteq> new"
  shows "if role_of d cur c = Some Owner \<and> role_of d new c \<noteq> None
    then (\<exists>d'. transfer_ownership c cur new d = (Inr (), d') \<and>
      role_of d' cur c = Some Admin \<and> role_of d' new c = Some Owner \<and>
      (\<forall>u c'. (c', u) \<noteq> (c, cur) \<longrightarrow> (c', u) \<noteq> (c, new) \<longrightarrow> role_of d' u c' = role_of d u c') \<and>
      (\<forall>u c'. active_member d' u c' = active_member d u c') \<and> chats d' = chats d)
    else (\<exists>e. transfer_ownership c cur new d = (Inl e, d))"
proof (cases "role_of d cur c = Some Owner \<and> role_of d new c \<noteq> None")
  case True
  let ?d' = "set_role c new ''owner'' (set_role c cur ''admin'' d)"
  have run: "transfer_ownership c cur new d = (Inr (), ?d')"
    using True by (auto simp: transfer_ownership_def run_simps transaction_def)
  have act: "active_member d cur c" "active_member d new c"
    using True role_of_active by blast+
  have "role_from_db_str ''admin'' = Some Admin" "role_from_db_str ''owner'' = Some Owner"
    by (simp_all add: role_from_db_str_def)
  then have "role_of ?d' cur c = Some Admin" "role_of ?d' new c = Some Owner"
    "\<forall>u c'. (c', u) \<noteq> (c, cur) \<longrightarrow> (c', u) \<noteq> (c, new) \<longrightarrow> role_of ?d' u c' = role_of d u c'"
    using act assms by (auto simp: role_of_set_role)
  moreover have "chats ?d' = chats d" by (simp add: set_role_def)
  ultimately show ?thesis using True run by auto
next
  case False
  then show ?thesis
    by (auto simp: transfer_ownership_def run_simps split: option.split)
qed

theorem transfer_ownership_effect_witness:
  "\<exists>d'. transfer_ownership 10 1 2 group_of_three = (Inr (), d') \<and>
     role_of d' 1 10 = Some Admin \<and> role_of d' 2 10 = Some Owner \<and> role_of d' 3 10 = Some Member"
proof -
  have "(1::uuid) \<noteq> 2" by simp
  from transfer_ownership_effect [OF this, of group_of_three 10]
  obtain d' where "transfer_ownership 10 1 2 group_of_three = (Inr (), d')"
    "role_of d' 1 10 = Some Admin" "role_of d' 2 10 = Some Owner"
    "\<forall>u c'. (c', u) \<noteq> (10, 1) \<longrightarrow> (c', u) \<noteq> (10, 2) \<longrightarrow> role_of d' u c' = role_of group_of_three u c'"
    by (auto simp: group_of_three_roles)
  moreover from this(4) have "role_of d' 3 10 = Some Member"
    by (simp add: group_of_three_roles)
  ultimately show ?thesis by blast
qed

definition quiet_redis :: redis_env where
  "quiet_redis = \<lparr>re_publish_ok = (\<lambda>_. True), re_queue_ok = True, re_show = (\<lambda>u. nat_to_string (unat u)),
     re_error_text = (\<lambda>_. ''redis error'')\<rparr>"

section \<open>Private chats\<close>

lemma existing_private_chat_SomeE:
  assumes "existing_private_chat a b d = Some c"
  obtains r where "r \<in> set (chats d)" "c_id r = c" "c_type r = ''private''" "c_deleted_at r = None"
    "active_member d a c" "active_member d b c"
  using assms by (auto simp: existing_private_chat_def dest!: select_one_SomeD)

lemma existing_private_chat_commute: "existing_private_chat a b d = existing_private_chat b a d"
  unfolding existing_private_chat_def by (simp add: conj_commute conj_left_commute)

lemma found_chat_live:
  assumes "chat_schema d" "r \<in> set (chats d)" "c_type r = chat_type_as_db_str ty" "c_deleted_at r = None"
    "active_member d u (c_id r)"
  shows "found_chat u (c_id r) d =
    (Inr \<lparr>ch_id = c_id r, ch_chat_type = ty, ch_name = c_name r, ch_description = c_description r,
          ch_avatar_url = c_avatar_url r, ch_created_by = c_created_by r, ch_created_at = c_created_at r\<rparr>, d)"
proof -
  have "x = r" if "x \<in> set (chats d)" "c_id x = c_id r" for x
    using unique_on_eq [OF schema_chat_id [OF assms(1)] that(1) assms(2)] that by simp
  then have "select_one (\<lambda>x. c_id x = c_id r \<and> c_deleted_at x = None) (chats d) = Some r"
    using assms schema_chat_id [OF assms(1)] by (intro select_one_unique [of c_id]) auto
  then have "chat_of_member d u (c_id r) = Some r"
    using assms(5) by (simp add: chat_of_member_eq)
  then show ?thesis
    using assms(3) by (simp add: found_chat_def get_chat_for_user_def chat_of_row_def run_simps)
qed

text \<open>After a successful creation the pair has a private chat, and the answer is that chat.\<close>

lemma active_member_append:
  "active_member (d\<lparr>chat_participants := chat_participants d @ [p]\<rparr>) u c \<longleftrightarrow>
     active_member d u c \<or> (active_in c p \<and> cp_user_id p = u)"
  by (auto simp: active_member_def exists_where_iff)

lemma insert_new_participant_run:
  assumes "insert_participant ConflictError p d = Inr d'"
  shows "d' = d\<lparr>chat_participants := chat_participants d @ [p]\<rparr>"
  using assms by (auto simp: insert_participant_def split: if_splits)

lemma create_private_chat_fresh:
  assumes s: "chat_schema d" and none: "existing_private_chat a b d = None"
    and 1: "insert_chat (new_chat_row i now ''private'' None a) d = Inr d1"
    and 2: "insert_participant ConflictError (new_participant now i a ''member'' None (Some a)) d1 = Inr d2"
    and 3: "insert_participant ConflictError (new_participant now i b ''member'' None (Some a)) d2 = Inr d3"
  shows "existing_private_chat a b d3 = Some i \<and> active_member d3 a i \<and> active_member d3 b i \<and>
    new_chat_row i now ''private'' None a \<in> set (chats d3)"
proof -
  let ?r = "new_chat_row i now ''private'' None a"
  have r: "c_id ?r = i" "c_type ?r = ''private''" "c_deleted_at ?r = None"
    by (simp_all add: new_chat_row_def)
  note i1 = insert_chat_run [OF 1]
  have d3: "chats d3 = chats d @ [?r]"
    using i1 insert_new_participant_run [OF 2] insert_new_participant_run [OF 3] by simp
  have d1: "active_member d1 u c \<longleftrightarrow> active_member d u c" for u c
    using i1 by (simp add: active_member_def)
  have act: "active_member d3 u c \<longleftrightarrow> active_member d u c \<or> (c = i \<and> (u = a \<or> u = b))" for u c
    unfolding insert_new_participant_run [OF 3] insert_new_participant_run [OF 2]
      active_member_append d1 by (auto simp: active_in_def new_participant_def)
  have old: "active_member d3 u c \<longleftrightarrow> active_member d u c" if "c \<noteq> i" for u c
    using act that by simp
  have fresh: "\<forall>x\<in>set (chats d). c_id x \<noteq> i" using i1 r by auto
  have "select_one (\<lambda>r. c_type r = ''private'' \<and> c_deleted_at r = None \<and>
      active_member d3 a (c_id r) \<and> active_member d3 b (c_id r)) (chats d) = None"
    using none fresh old by (auto simp: existing_private_chat_def select_one_None_iff)
  then have "existing_private_chat a b d3 = Some i"
    using act r by (simp add: existing_private_chat_def d3 select_one_append)
  then show ?thesis using act d3 by simp
qed

lemma create_private_chat_result:
  assumes s: "members_ok d" and run: "create_private_chat i now a b d = (Inr ch, d')"
  shows "members_ok d' \<and> (\<exists>r\<in>set (chats d'). existing_private_chat a b d' = Some (c_id r) \<and>
    c_type r = ''private'' \<and> c_deleted_at r = None \<and>
    active_member d' a (c_id r) \<and> active_member d' b (c_id r) \<and> found_chat a (c_id r) d' = (Inr ch, d'))"
proof -
  have ok: "members_ok d'" using create_private_chat_keeps [OF s, of i now a b] run by simp
  have r: "c_id (new_chat_row i now ''private'' None a) = i"
    "c_type (new_chat_row i now ''private'' None a) = ''private''"
    "c_deleted_at (new_chat_row i now ''private'' None a) = None"
    by (simp_all add: new_chat_row_def)
  show ?thesis
  proof (cases "existing_private_chat a b d")
    case (Some c)
    then have f: "found_chat a c d = (Inr ch, d')" using run by (simp add: create_private_chat_def)
    then have "d' = d" using found_chat_snd [of a c d] by simp
    from Some obtain r where "r \<in> set (chats d)" "c_id r = c" "c_type r = ''private''"
      "c_deleted_at r = None" "active_member d a c" "active_member d b c"
      by (rule existing_private_chat_SomeE)
    then show ?thesis using ok f Some \<open>d' = d\<close> by auto
  next
    case None
    then obtain d1 d2 d3 where steps: "insert_chat (new_chat_row i now ''private'' None a) d = Inr d1"
      "insert_participant ConflictError (new_participant now i a ''member'' None (Some a)) d1 = Inr d2"
      "insert_participant ConflictError (new_participant now i b ''member'' None (Some a)) d2 = Inr d3"
      and f: "found_chat a i d3 = (Inr ch, d')"
      using run by (auto simp: create_private_chat_def run_simps and_then_Inr_iff sql_eq split: sum.splits)
    have d3: "d3 = d'" using f found_chat_snd [of a i d3] by simp
    from create_private_chat_fresh [OF members_schema [OF s] None steps] show ?thesis
      using ok f r unfolding d3 by (intro conjI bexI [of _ "new_chat_row i now ''private'' None a"]) auto
  qed
qed

text \<open>
  C8. A private chat is created once per pair: after a successful request by \<open>a\<close> for \<open>b\<close>, a further
  request by either of them answers with the same chat and changes nothing.
\<close>

theorem private_chat_idempotent:
  assumes "chat_reachable d" "create_private_chat i now a b d = (Inr ch, d')"
  shows "create_private_chat i' now' a b d' = (Inr ch, d') \<and>
    create_private_chat i' now' b a d' = (Inr ch, d') \<and> ch_chat_type ch = Private"
proof -
  from create_private_chat_result [OF chat_reachable_ok [OF assms(1)] assms(2)]
  obtain r where ok: "members_ok d'" and r: "r \<in> set (chats d')" "existing_private_chat a b d' = Some (c_id r)"
    "c_type r = chat_type_as_db_str Private" "c_deleted_at r = None" "active_member d' a (c_id r)"
    "active_member d' b (c_id r)" and f: "found_chat a (c_id r) d' = (Inr ch, d')" by auto
  note fa = found_chat_live [OF members_schema [OF ok] r(1,3,4,5)]
    and fb = found_chat_live [OF members_schema [OF ok] r(1,3,4,6)]
  have "found_chat b (c_id r) d' = (Inr ch, d')" "ch_chat_type ch = Private"
    using f fa fb by auto
  then show ?thesis
    using f r(2) existing_private_chat_commute [of b a d'] by (simp add: create_private_chat_def)
qed

lemma three_users_reachable: "chat_reachable three_users"
  by (rule chat_reachable.start) (simp_all add: three_users_def empty_db_def)

theorem private_chat_idempotent_witness:
  "\<exists>ch d'. create_private_chat 20 5 1 2 three_users = (Inr ch, d') \<and>
     create_private_chat 21 9 2 1 d' = (Inr ch, d')"
proof -
  have "is_ok (fst (create_private_chat 20 5 1 2 three_users))" by code_simp
  then obtain ch d' where run: "create_private_chat 20 5 1 2 three_users = (Inr ch, d')"
    unfolding is_ok_iff by (metis prod.collapse)
  then show ?thesis using private_chat_idempotent [OF three_users_reachable run, of 21 9] by blast
qed

section \<open>Invite links\<close>

lemma update_chats_run:
  "update_chats now P f d = Inr d' \<Longrightarrow>
     d' = d\<lparr>chats := update_where P (\<lambda>r. (f r)\<lparr>c_updated_at := now\<rparr>) (chats d)\<rparr>"
  by (simp add: update_chats_def Let_def split: if_splits)

text \<open>
  Deleting the invite link answers that it is deleted but installs a new one: afterwards the chat
  has the freshly generated link, so it can still be joined through a link.
\<close>

theorem delete_invite_link_generates:
  assumes "h_delete_invite_link now rnd auth c s = (Inr resp, s')"
  shows "resp = (200, True) \<and>
    (\<forall>r\<in>set (chats (srv_db s')). c_id r = c \<longrightarrow> c_invite_link r = Some (to_lowercase rnd))"
proof -
  from assms obtain l d' where resp: "resp = (200, True)"
    and run: "set_invite_link now rnd c auth (Some '''') (srv_db s) = (Inr l, d')" and s': "srv_db s' = d'"
    by (auto simp: h_delete_invite_link_def on_db_def and_then_Inr_iff split: prod.splits)
  from run have upd: "update_chats now (\<lambda>r. c_id r = c) (\<lambda>r. r\<lparr>c_invite_link := Some (to_lowercase rnd)\<rparr>) (srv_db s) = Inr d'"
    by (auto simp: set_invite_link_def run_simps Let_def split: option.splits if_splits sum.splits)
  have "c_invite_link r = Some (to_lowercase rnd)" if r: "r \<in> set (chats d')" and c: "c_id r = c" for r
  proof -
    have "r \<in> set (update_where (\<lambda>r. c_id r = c)
        (\<lambda>r. (r\<lparr>c_invite_link := Some (to_lowercase rnd)\<rparr>)\<lparr>c_updated_at := now\<rparr>) (chats (srv_db s)))"
      using r unfolding update_chats_run [OF upd] by simp
    then show ?thesis
    proof (cases rule: in_update_whereE)
      case (hit x)
      then show ?thesis by simp
    next
      case miss
      then show ?thesis using c by simp
    qed
  qed
  then show ?thesis using resp s' by blast
qed

definition invite_deleted :: "(domain_error + nat \<times> bool) \<times> srv" where
  "invite_deleted = h_delete_invite_link 9 ''AbCdEfGh1234'' 1 10 \<lparr>srv_db = group_of_three, srv_redis = empty_redis, srv_out = []\<rparr>"

lemma invite_deleted_run:
  "h_delete_invite_link 9 ''AbCdEfGh1234'' 1 10 \<lparr>srv_db = group_of_three, srv_redis = empty_redis, srv_out = []\<rparr> =
     (Inr (200, True), snd invite_deleted)"
proof -
  have "fst invite_deleted = Inr (200, True)" by code_simp
  then show ?thesis unfolding invite_deleted_def by (metis prod.collapse)
qed

theorem delete_invite_link_generates_witness:
  "\<exists>r. r \<in> set (chats (srv_db (snd invite_deleted))) \<and> c_id r = 10 \<and>
     c_invite_link r = Some (to_lowercase ''AbCdEfGh1234'')"
proof -
  have "10 \<in> set (map c_id (chats (srv_db (snd invite_deleted))))" by code_simp
  then obtain r where "r \<in> set (chats (srv_db (snd invite_deleted)))" "c_id r = 10" by auto
  then show ?thesis using delete_invite_link_generates [OF invite_deleted_run] by auto
qed

end
