(* ===== verification/ChatList.thy ===== *)
theory ChatList
  imports MembershipProps Paging
begin

text \<open>
  The chat list and the per-user chat settings: the view \<open>v_chat_previews\<close> (migration 015),
  \<open>list_chats_for_user\<close>, \<open>get_chat_settings\<close> and \<open>update_chat_settings\<close> of the chat repository, and
  the chat handlers of \<open>crates/api/src/handlers/chats/handlers.rs\<close> that use them. The JSON of
  the responses is in \<open>Wire\<close>.
\<close>

section \<open>Settings\<close>

record chat_settings_value =
  st_is_muted :: bool
  st_muted_until :: "timestamp option"
  st_is_pinned :: bool
  st_pin_order :: int
  st_is_archived :: bool

definition default_settings :: chat_settings_value where
  "default_settings = \<lparr>st_is_muted = False, st_muted_until = None, st_is_pinned = False,
     st_pin_order = 0, st_is_archived = False\<rparr>"

record update_chat_settings_input =
  us_is_muted :: "bool option"
  us_muted_until :: "timestamp option"
  us_is_pinned :: "bool option"
  us_pin_order :: "int option"
  us_is_archived :: "bool option"

definition settings_key :: "settings_row \<Rightarrow> uuid \<times> uuid" where
  "settings_key r = (cs_user_id r, cs_chat_id r)"

definition get_chat_settings :: "uuid \<Rightarrow> uuid \<Rightarrow> db \<Rightarrow> chat_settings_value option dres" where
  "get_chat_settings u c d =
     Inr (map_option
       (\<lambda>r. \<lparr>st_is_muted = cs_is_muted r, st_muted_until = cs_muted_until r, st_is_pinned = cs_is_pinned r,
             st_pin_order = cs_pin_order r, st_is_archived = cs_is_archived r\<rparr>)
       (select_one (\<lambda>r. settings_key r = (u, c)) (chat_settings d)))"

text \<open>\<open>INSERT .. ON CONFLICT (user_id, chat_id) DO UPDATE\<close>\<close>

definition upsert_settings ::
  "timestamp \<Rightarrow> uuid \<Rightarrow> uuid \<Rightarrow> update_chat_settings_input \<Rightarrow> db \<Rightarrow> sqlx_error + db" where
  "upsert_settings now u c i d =
     (if exists_where (\<lambda>r. settings_key r = (u, c)) (chat_settings d)
      then Inr (d\<lparr>chat_settings := update_where (\<lambda>r. settings_key r = (u, c))
             (\<lambda>r. r\<lparr>cs_is_muted := unwrap_or (us_is_muted i) (cs_is_muted r),
                    cs_muted_until := coalesce (us_muted_until i) (cs_muted_until r),
                    cs_is_pinned := unwrap_or (us_is_pinned i) (cs_is_pinned r),
                    cs_pin_order := unwrap_or (us_pin_order i) (cs_pin_order r),
                    cs_is_archived := unwrap_or (us_is_archived i) (cs_is_archived r),
                    cs_updated_at := now\<rparr>)
             (chat_settings d)\<rparr>)
      else if \<not> user_exists d u \<or> \<not> chat_exists d c then Inl foreign_key_violation
      else Inr (d\<lparr>chat_settings := chat_settings d @
             [\<lparr>cs_user_id = u, cs_chat_id = c, cs_is_muted = unwrap_or (us_is_muted i) False,
               cs_muted_until = us_muted_until i, cs_is_pinned = unwrap_or (us_is_pinned i) False,
               cs_pin_order = unwrap_or (us_pin_order i) 0,
               cs_is_archived = unwrap_or (us_is_archived i) False, cs_updated_at = now\<rparr>]\<rparr>))"

definition update_chat_settings ::
  "timestamp \<Rightarrow> uuid \<Rightarrow> uuid \<Rightarrow> update_chat_settings_input
     \<Rightarrow> (db, domain_error, chat_settings_value) op" where
  "update_chat_settings now u c i =
     and_then (sql (upsert_settings now u c i)) (\<lambda>_.
     and_then (query (get_chat_settings u c)) (\<lambda>r.
     lift_result (ok_or r (NotFound ''chat settings not found''))))"

section \<open>Previews\<close>

text \<open>
  The view: an active membership joined with its live chat, the newest message that is not deleted,
  and the user's settings of the chat. The joins with \<open>chats\<close> and \<open>chat_settings\<close> are on their
  primary keys, so each is a lookup.
\<close>

record preview_row =
  pv_chat_id :: uuid
  pv_type :: string
  pv_name :: "string option"
  pv_avatar_url :: "string option"
  pv_last_message_id :: "uuid option"
  pv_last_message_encrypted :: "string option"
  pv_last_sender_id :: "uuid option"
  pv_last_message_at :: "timestamp option"
  pv_is_pinned :: bool
  pv_pin_order :: int
  pv_is_muted :: bool
  pv_is_archived :: bool
  pv_unread_count :: int

definition last_message :: "db \<Rightarrow> uuid \<Rightarrow> message_row option" where
  "last_message d c =
     (case order_by_desc m_created_at
             (select_where (\<lambda>m. m_chat_id m = c \<and> m_deleted_at m = None) (messages d)) of
        [] \<Rightarrow> None
      | m # _ \<Rightarrow> Some m)"

text \<open>The lateral count of unread messages; messages join on their primary key.\<close>

definition unread_count :: "db \<Rightarrow> uuid \<Rightarrow> uuid \<Rightarrow> int" where
  "unread_count d u c =
     int (count_where
       (\<lambda>s. ms_user_id s = u \<and> ms_status s \<noteq> ''read'' \<and>
            exists_where (\<lambda>m. m_id m = ms_message_id s \<and> m_chat_id m = c \<and> m_deleted_at m = None)
              (messages d))
       (message_status d))"

definition preview_of :: "db \<Rightarrow> uuid \<Rightarrow> uuid \<Rightarrow> preview_row option" where
  "preview_of d u c =
     (case select_one (\<lambda>r. c_id r = c) (select_where (\<lambda>r. c_deleted_at r = None) (chats d)) of
        None \<Rightarrow> None
      | Some r \<Rightarrow>
          (let m = last_message d c;
               s = select_one (\<lambda>r. settings_key r = (u, c)) (chat_settings d)
           in Some \<lparr>pv_chat_id = c, pv_type = c_type r, pv_name = c_name r, pv_avatar_url = c_avatar_url r,
                pv_last_message_id = map_option m_id m,
                pv_last_message_encrypted = Option.bind m m_content_encrypted,
                pv_last_sender_id = Option.bind m m_sender_id,
                pv_last_message_at = map_option m_created_at m,
                pv_is_pinned = unwrap_or (map_option cs_is_pinned s) False,
                pv_pin_order = unwrap_or (map_option cs_pin_order s) 0,
                pv_is_muted = unwrap_or (map_option cs_is_muted s) False,
                pv_is_archived = unwrap_or (map_option cs_is_archived s) False,
                pv_unread_count = unread_count d u c\<rparr>))"

definition previews :: "uuid \<Rightarrow> db \<Rightarrow> preview_row list" where
  "previews u d =
     List.map_filter (\<lambda>p. preview_of d u (cp_chat_id p))
       (select_where (\<lambda>p. cp_user_id p = u \<and> cp_left_at p = None) (chat_participants d))"

record chat_cursor =
  cu_is_pinned :: bool
  cu_last_message_at :: "timestamp option"
  cu_chat_id :: uuid

text \<open>The condition on the cursor, as the statement writes it; the epoch is 0.\<close>

definition after_chat_cursor :: "chat_cursor option \<Rightarrow> preview_row \<Rightarrow> bool" where
  "after_chat_cursor cursor v \<longleftrightarrow>
     (let has_cursor = (cursor \<noteq> None);
          pinned = of_bool (case cursor of None \<Rightarrow> False | Some c \<Rightarrow> cu_is_pinned c) :: int;
          ts = unwrap_or (Option.bind cursor cu_last_message_at) 0;
          i = (case cursor of None \<Rightarrow> uuid_nil | Some c \<Rightarrow> cu_chat_id c);
          v_pinned = of_bool (pv_is_pinned v);
          v_ts = unwrap_or (pv_last_message_at v) 0
      in \<not> has_cursor \<or>
         (v_pinned < pinned \<or>
          (v_pinned = pinned \<and> v_ts < ts) \<or>
          (v_pinned = pinned \<and> v_ts = ts \<and> pv_chat_id v < i)))"

definition preview_key :: "preview_row \<Rightarrow> bool \<times> int \<times> uuid" where
  "preview_key v = (pv_is_pinned v, unwrap_or (pv_last_message_at v) 0, pv_chat_id v)"

definition select_previews :: "uuid \<Rightarrow> chat_cursor option \<Rightarrow> nat \<Rightarrow> db \<Rightarrow> preview_row list" where
  "select_previews u cursor n d =
     take n (order_by_desc preview_key (select_where (after_chat_cursor cursor) (previews u d)))"

record chat_preview =
  cpv_row :: preview_row
  cpv_chat_type :: chat_type

definition preview_of_row :: "preview_row \<Rightarrow> chat_preview dres" where
  "preview_of_row r =
     (case chat_type_from_db_str (pv_type r) of
        None \<Rightarrow> Inl (Internal (''invalid chat type in preview: '' @ pv_type r))
      | Some ty \<Rightarrow> Inr \<lparr>cpv_row = r, cpv_chat_type = ty\<rparr>)"

definition list_chats_for_user ::
  "uuid \<Rightarrow> chat_cursor option \<Rightarrow> int \<Rightarrow> db \<Rightarrow> chat_preview list dres" where
  "list_chats_for_user u cursor limit d =
     (let page_size = clamp 1 50 limit
      in collect_results (map preview_of_row (select_previews u cursor (nat page_size) d)))"

section \<open>Handlers\<close>

datatype create_chat_request =
    CreatePrivate uuid
  | CreateGroup string "uuid list"

record chat_response =
  rs_id :: uuid
  rs_chat_type :: string
  rs_name :: "string option"
  rs_avatar_url :: "string option"
  rs_created_by :: "uuid option"
  rs_created_at :: timestamp

definition chat_to_response :: "chat \<Rightarrow> chat_response" where
  "chat_to_response c =
     \<lparr>rs_id = ch_id c, rs_chat_type = chat_type_as_db_str (ch_chat_type c), rs_name = ch_name c,
      rs_avatar_url = ch_avatar_url c, rs_created_by = ch_created_by c, rs_created_at = ch_created_at c\<rparr>"

definition h_create_chat ::
  "uuid \<Rightarrow> timestamp \<Rightarrow> uuid \<Rightarrow> create_chat_request \<Rightarrow> (nat \<times> chat_response) handler" where
  "h_create_chat new_id now auth req =
     and_then
       (case req of
          CreatePrivate participant \<Rightarrow>
            (if participant = auth
             then throw (Validation ''participant_id cannot be the authenticated user'')
             else on_db (create_private_chat new_id now auth participant))
        | CreateGroup name participants \<Rightarrow>
            (if trim name = [] then throw (Validation ''group name cannot be empty'')
             else on_db (create_group_chat new_id now auth (trim name) participants)))
       (\<lambda>c. ret (201, chat_to_response c))"

definition h_get_chat :: "uuid \<Rightarrow> uuid \<Rightarrow> (nat \<times> chat_response) handler" where
  "h_get_chat auth c =
     and_then (read_db (get_chat_for_user auth c)) (\<lambda>r.
     and_then (lift_result (ok_or r (NotFound ''chat not found''))) (\<lambda>x. ret (200, chat_to_response x)))"

definition chat_cursor_of :: "chat_preview \<Rightarrow> chat_cursor" where
  "chat_cursor_of x =
     \<lparr>cu_is_pinned = pv_is_pinned (cpv_row x), cu_last_message_at = pv_last_message_at (cpv_row x),
      cu_chat_id = pv_chat_id (cpv_row x)\<rparr>"

definition h_list_chats ::
  "chat_cursor cursor_codec \<Rightarrow> uuid \<Rightarrow> string option \<Rightarrow> int option \<Rightarrow> db
     \<Rightarrow> (chat_preview list \<times> string option \<times> bool) dres" where
  "h_list_chats cc auth cursor limit_opt d =
     (let limit = clamp 1 50 (unwrap_or limit_opt 20)
      in list_handler [] cc chat_cursor_of (list_chats_for_user auth) limit cursor d)"

record update_chat_response =
  uc_id :: uuid
  uc_chat_type :: string
  uc_name :: "string option"
  uc_description :: "string option"
  uc_avatar_url :: "string option"
  uc_updated_at :: timestamp

definition h_update_chat ::
  "timestamp \<Rightarrow> uuid \<Rightarrow> uuid \<Rightarrow> string option \<Rightarrow> string option \<Rightarrow> string option
     \<Rightarrow> (nat \<times> update_chat_response) handler" where
  "h_update_chat now auth c name description avatar =
     and_then (on_db (update_chat now auth c name description avatar)) (\<lambda>x.
       ret (200, \<lparr>uc_id = ch_id x, uc_chat_type = chat_type_as_db_str (ch_chat_type x),
                  uc_name = ch_name x, uc_description = ch_description x,
                  uc_avatar_url = ch_avatar_url x, uc_updated_at = ch_created_at x\<rparr>))"

definition h_delete_chat :: "timestamp \<Rightarrow> uuid \<Rightarrow> uuid \<Rightarrow> (nat \<times> bool) handler" where
  "h_delete_chat now auth c = and_then (on_db (delete_chat now auth c)) (\<lambda>_. ret (200, True))"

definition h_update_chat_settings ::
  "timestamp \<Rightarrow> uuid \<Rightarrow> uuid \<Rightarrow> update_chat_settings_input \<Rightarrow> (nat \<times> chat_settings_value) handler" where
  "h_update_chat_settings now auth c i =
     and_then (read_db (verify_participant auth c)) (\<lambda>_.
     and_then (on_db (update_chat_settings now auth c i)) (\<lambda>s. ret (200, s)))"

section \<open>The list is a keyset source\<close>

definition cursor_key :: "chat_cursor \<Rightarrow> bool \<times> int \<times> uuid" where
  "cursor_key c = (cu_is_pinned c, unwrap_or (cu_last_message_at c) 0, cu_chat_id c)"

lemma after_chat_cursor_iff:
  "after_chat_cursor cursor v \<longleftrightarrow>
     (case map_option cursor_key cursor of None \<Rightarrow> True | Some k \<Rightarrow> preview_key v < k)"
  by (cases cursor) (auto simp: after_chat_cursor_def Let_def cursor_key_def preview_key_def less_prod_def)

lemma preview_of_id: "preview_of d u c = Some v \<Longrightarrow> pv_chat_id v = c"
  by (auto simp: preview_of_def Let_def split: option.splits)

lemma map_filter_ids:
  assumes "\<And>p v. f p = Some v \<Longrightarrow> h v = k p" "distinct (map k ps)"
  shows "distinct (map h (List.map_filter f ps))"
proof -
  have sub: "h v \<in> k ` set ps" if "v \<in> set (List.map_filter f ps)" for v ps
    using that assms(1) by (induction ps) (auto simp: List.map_filter_simps split: option.splits)
  show ?thesis
    using assms(2)
  proof (induction ps)
    case (Cons p ps)
    then show ?case
      using sub [of _ ps] assms(1) [of p] by (cases "f p") (auto simp: List.map_filter_simps)
  qed (simp add: List.map_filter_simps)
qed

lemma previews_distinct:
  assumes "chat_schema d"
  shows "distinct (map pv_chat_id (previews u d))"
proof -
  let ?ps = "select_where (\<lambda>p. cp_user_id p = u \<and> cp_left_at p = None) (chat_participants d)"
  have d: "distinct (map pkey ?ps)"
    using schema_pkey [OF assms] by (simp add: unique_on_def select_where_def distinct_map_filter)
  have "map pkey ?ps = map (\<lambda>c. (c, u)) (map cp_chat_id ?ps)"
    by (simp add: pkey_def select_where_def)
  then have "distinct (map (\<lambda>c. (c, u)) (map cp_chat_id ?ps))" using d by (rule subst)
  then have "distinct (map cp_chat_id ?ps)" by (simp only: distinct_map)
  then show ?thesis
    unfolding previews_def by (rule map_filter_ids [rotated]) (rule preview_of_id)
qed

lemma previews_sorted:
  assumes "chat_schema d"
  shows "sorted_wrt (\<lambda>x y. preview_key y < preview_key x) (order_by_desc preview_key (previews u d))"
proof (rule order_by_desc_sorted)
  show "distinct (previews u d)" using previews_distinct [OF assms] by (simp add: distinct_map)
  show "inj_on preview_key (set (previews u d))"
    using previews_distinct [OF assms, of u]
    by (auto simp: distinct_map inj_on_def preview_key_def)
qed

lemma order_by_desc_filter: "order_by_desc k (filter P t) = filter P (order_by_desc k t)"
  by (simp add: order_by_desc_def rev_filter flip: filter_sort)

definition fetch_previews :: "uuid \<Rightarrow> db \<Rightarrow> (bool \<times> int \<times> uuid) option \<Rightarrow> nat \<Rightarrow> preview_row list" where
  "fetch_previews u d k n =
     take n (order_by_desc preview_key
       (filter (\<lambda>v. case k of None \<Rightarrow> True | Some k \<Rightarrow> preview_key v < k) (previews u d)))"

interpretation chat_pages: keyset_source chat_schema "\<lambda>d. order_by_desc preview_key (previews u d)"
    preview_key "fetch_previews u"
  for u
proof unfold_locales
  show "fetch_previews u d c n = take n (beyond preview_key c (order_by_desc preview_key (previews u d)))"
    if "chat_schema d" for d c n
    by (simp add: fetch_previews_def order_by_desc_filter beyond_def)
qed (rule previews_sorted)

lemma select_previews_fetch:
  "select_previews u cursor n d = fetch_previews u d (map_option cursor_key cursor) n"
proof -
  have "after_chat_cursor cursor =
      (\<lambda>v. case map_option cursor_key cursor of None \<Rightarrow> True | Some k \<Rightarrow> preview_key v < k)"
    by (simp add: fun_eq_iff after_chat_cursor_iff)
  then show ?thesis by (simp only: select_previews_def fetch_previews_def select_where_def)
qed

section \<open>Properties of the chat list\<close>

definition parse_preview :: "preview_row \<Rightarrow> chat_preview" where
  "parse_preview r = \<lparr>cpv_row = r, cpv_chat_type = the (chat_type_from_db_str (pv_type r))\<rparr>"

lemma preview_parses:
  assumes "chat_schema d" "v \<in> set (previews u d)"
  shows "preview_of_row v = Inr (parse_preview v)"
proof -
  have "\<exists>c. preview_of d u c = Some v" if "v \<in> set (List.map_filter (\<lambda>p. preview_of d u (cp_chat_id p)) ps)" for ps
    using that by (induction ps) (auto simp: List.map_filter_simps split: option.splits)
  then obtain c where "preview_of d u c = Some v" using assms(2) unfolding previews_def by blast
  then obtain r where "r \<in> set (chats d)" "pv_type v = c_type r"
    by (auto simp: preview_of_def Let_def select_where_def split: option.splits dest!: select_one_SomeD)
  then have "pv_type v \<in> set chat_type_values" using assms(1) by (simp add: chat_schema_def)
  then have "chat_type_from_db_str (pv_type v) \<noteq> None"
    by (auto simp: chat_type_values_def chat_type_from_db_str_def)
  then show ?thesis by (auto simp: preview_of_row_def parse_preview_def)
qed

lemma list_chats_fetch:
  assumes "chat_schema d" "1 \<le> limit" "limit \<le> 50"
  shows "list_chats_for_user u cursor limit d =
    Inr (map parse_preview (fetch_previews u d (map_option cursor_key cursor) (nat limit)))"
proof -
  have "set (fetch_previews u d k n) \<subseteq> set (previews u d)" for k n
    by (auto simp: fetch_previews_def dest: in_set_takeD)
  then show ?thesis
    using assms preview_parses [OF assms(1), of _ u]
    by (simp add: list_chats_for_user_def clamp_id select_previews_fetch collect_results_total subset_iff)
qed

text \<open>
  C10. A client that asks for pages of at most 49 chats and follows the cursors gets every chat of the
  user's list exactly once, pinned chats first and then by the newest message, whatever the page
  size.
\<close>

theorem list_chats_complete:
  assumes "chat_reachable d" "codec_ok cc" "1 \<le> limit" "limit \<le> 49" "length (previews u d) < n"
  shows "follow (\<lambda>raw. h_list_chats cc u raw (Some limit) d) n None =
    Inr (map parse_preview (order_by_desc preview_key (previews u d)))"
proof -
  have s: "chat_schema d" using chat_reachable_ok [OF assms(1)] by (rule members_schema)
  have "follow (\<lambda>raw. list_handler [] cc chat_cursor_of (list_chats_for_user u) limit raw d) n None =
      Inr (map parse_preview (order_by_desc preview_key (previews u d)))"
  proof (rule chat_pages.follow_complete [OF s assms(2,3), where ckey = cursor_key])
    show "list_chats_for_user u c (limit + 1) d =
        Inr (map parse_preview (fetch_previews u d (map_option cursor_key c) (nat (limit + 1))))" for c
      by (rule list_chats_fetch [OF s]) (use assms(3,4) in auto)
    show "cursor_key (chat_cursor_of (parse_preview r)) = preview_key r" for r
      by (simp add: cursor_key_def chat_cursor_of_def parse_preview_def preview_key_def)
    show "length (order_by_desc preview_key (previews u d)) < n"
      using assms(5) by (simp add: order_by_desc_def)
  qed
  then show ?thesis using assms(3,4) by (simp add: h_list_chats_def clamp_id)
qed

definition chat_codec :: "chat_cursor cursor_codec" where
  "chat_codec = \<lparr>cd_base64_decode = Some, cd_base64_encode = (\<lambda>s. s),
     cd_from_slice = (\<lambda>v. case from_nat (length v) of (p, t, i) \<Rightarrow>
        Some \<lparr>cu_is_pinned = p, cu_last_message_at = t, cu_chat_id = word_of_nat i\<rparr>),
     cd_to_vec = (\<lambda>c. Inr (replicate (to_nat (cu_is_pinned c, cu_last_message_at c, unat (cu_chat_id c))) (CHR ''a'')))\<rparr>"

lemma chat_codec_ok: "codec_ok chat_codec"
  by (simp add: codec_ok_def chat_codec_def)

definition two_groups :: db where
  "two_groups = snd (create_group_chat 11 6 1 ''other'' [] group_of_three)"

theorem list_chats_complete_witness:
  "\<exists>items. follow (\<lambda>raw. h_list_chats chat_codec 1 raw (Some 1) two_groups) 3 None = Inr items \<and>
     map (pv_chat_id \<circ> cpv_row) items = [11, 10]"
proof -
  have r: "chat_reachable two_groups"
    unfolding two_groups_def by (rule chat_reachable.step [OF group_of_three_reachable chat_step.create_group])
  have ids: "length (previews 1 two_groups) = 2"
    "map pv_chat_id (order_by_desc preview_key (previews 1 two_groups)) = [11, 10]"
    by code_simp+
  have "follow (\<lambda>raw. h_list_chats chat_codec 1 raw (Some 1) two_groups) 3 None =
      Inr (map parse_preview (order_by_desc preview_key (previews 1 two_groups)))"
    by (rule list_chats_complete [OF r chat_codec_ok]) (simp_all add: ids(1))
  then show ?thesis using ids(2) by (auto simp: parse_preview_def comp_def)
qed

text \<open>
  With the largest page size of 50 the list never says that there are more chats, however many
  there are: the repository clamps the 51 rows asked for to 50, so the look-ahead row is lost.
\<close>

theorem list_chats_50_no_more:
  assumes "50 \<le> limit" "h_list_chats cc u raw (Some limit) d = Inr (items, nc, has_more)"
  shows "\<not> has_more \<and> length items \<le> 50"
proof -
  have lim: "clamp 1 50 limit = 50" using assms(1) by (simp add: clamp_def)
  obtain c fetched where f: "list_chats_for_user u c 51 d = Inr fetched"
    "(items, has_more) = cut_page 50 fetched"
    using assms(2) lim
    by (auto simp: h_list_chats_def list_handler_def Let_def split: sum.splits prod.splits)
  have "length fetched = length (select_previews u c 50 d)"
    using f(1) by (auto simp: list_chats_for_user_def clamp_def collect_results_Inr_iff dest!: arg_cong [where f = length])
  then have "length fetched \<le> 50" by (simp add: select_previews_def)
  then show ?thesis using f(2) by (simp add: cut_page_def Let_def split: if_splits)
qed

lemma chat_codec_next: "\<exists>nc. next_cursor w chat_codec f items = Inr nc"
  by (simp add: next_cursor_def build_cursor_def chat_codec_def split: option.split)

theorem list_chats_50_no_more_witness:
  "\<exists>items nc. h_list_chats chat_codec 1 None (Some 50) two_groups = Inr (items, nc, False) \<and>
     length items \<le> 50"
proof -
  have "is_ok (list_chats_for_user 1 None 51 two_groups)" by code_simp
  then obtain fetched where f: "list_chats_for_user 1 None 51 two_groups = Inr fetched"
    unfolding is_ok_iff by blast
  obtain items m where cut: "cut_page 50 fetched = (items, m)" by fastforce
  obtain nc where "next_cursor [] chat_codec chat_cursor_of items = Inr nc"
    using chat_codec_next by blast
  then have run: "h_list_chats chat_codec 1 None (Some 50) two_groups = Inr (items, nc, m)"
    using f cut by (simp add: h_list_chats_def list_handler_def clamp_def decode_cursor_def)
  then show ?thesis using list_chats_50_no_more [OF _ run] by auto
qed

end
