(* ===== verification/Notifications.thy ===== *)
theory Notifications
  imports ChatList
begin

text \<open>
  In-app notifications: \<open>crates/domain/src/chat/notifications.rs\<close>, the notification operations of
  \<open>PostgresChatRepository\<close> and their handlers. The enum of the code and the enum of the schema
  (migration 001) differ, which decides what can be stored and what can be listed.
\<close>

datatype notification_type = NewMessage | StoryReaction | StoryView | ParticipantAdded | CallIncoming

fun notification_as_db_str :: "notification_type \<Rightarrow> string" where
  "notification_as_db_str NewMessage = ''new_message''"
| "notification_as_db_str StoryReaction = ''story_reaction''"
| "notification_as_db_str StoryView = ''story_view''"
| "notification_as_db_str ParticipantAdded = ''participant_added''"
| "notification_as_db_str CallIncoming = ''call''"

definition notification_from_db_str :: "string \<Rightarrow> notification_type option" where
  "notification_from_db_str s =
     (if s = ''new_message'' then Some NewMessage
      else if s = ''story_reaction'' then Some StoryReaction
      else if s = ''story_view'' then Some StoryView
      else if s = ''participant_added'' then Some ParticipantAdded
      else if s = ''call'' then Some CallIncoming
      else None)"

record notification =
  no_id :: uuid
  no_user_id :: uuid
  no_type :: notification_type
  no_data :: json
  no_is_read :: bool
  no_read_at :: "timestamp option"
  no_created_at :: timestamp

record notification_cursor =
  nc_created_at :: timestamp
  nc_id :: uuid

record new_notification =
  nn_user_id :: uuid
  nn_type :: notification_type
  nn_data :: json

section \<open>Repository\<close>

definition notification_of_row :: "string \<Rightarrow> notification_row \<Rightarrow> notification dres" where
  "notification_of_row msg r =
     (case notification_from_db_str (n_type r) of
        None \<Rightarrow> Inl (Internal msg)
      | Some ty \<Rightarrow> Inr \<lparr>no_id = n_id r, no_user_id = n_user_id r, no_type = ty, no_data = n_data r,
          no_is_read = n_is_read r, no_read_at = n_read_at r, no_created_at = n_created_at r\<rparr>)"

definition notification_key :: "notification_row \<Rightarrow> timestamp \<times> uuid" where
  "notification_key r = (n_created_at r, n_id r)"

definition notification_cursor_key :: "notification_cursor \<Rightarrow> timestamp \<times> uuid" where
  "notification_cursor_key c = (nc_created_at c, nc_id c)"

definition select_notifications :: "uuid \<Rightarrow> notification_cursor option \<Rightarrow> nat \<Rightarrow> db \<Rightarrow> notification_row list" where
  "select_notifications u cursor n d =
     take n (order_by_desc notification_key
       (select_where
         (\<lambda>r. n_user_id r = u \<and>
              (case cursor of None \<Rightarrow> True | Some c \<Rightarrow> notification_key r < notification_cursor_key c))
         (notifications d)))"

definition list_notifications :: "uuid \<Rightarrow> notification_cursor option \<Rightarrow> int \<Rightarrow> db \<Rightarrow> notification list dres" where
  "list_notifications u cursor limit d =
     (let page_size = clamp 1 50 limit
      in collect_results
           (map (\<lambda>r. notification_of_row (''invalid notification type: '' @ n_type r) r)
              (select_notifications u cursor (nat page_size) d)))"

definition create_notification ::
  "uuid \<Rightarrow> timestamp \<Rightarrow> new_notification \<Rightarrow> (db, domain_error, notification) op" where
  "create_notification new_id now n d =
     (case map_sqlx (enum_cast notification_type_values (notification_as_db_str (nn_type n))) of
        Inl e \<Rightarrow> (Inl e, d)
      | Inr ty \<Rightarrow>
          (let r = \<lparr>n_id = new_id, n_user_id = nn_user_id n, n_type = ty, n_data = nn_data n,
                n_is_read = False, n_read_at = None, n_created_at = now\<rparr>
           in if exists_where (\<lambda>x. n_id x = new_id) (notifications d)
              then (Inl (from_sqlx unique_violation), d)
              else if \<not> user_exists d (nn_user_id n) then (Inl (from_sqlx foreign_key_violation), d)
              else (notification_of_row ''invalid notification type'' r,
                    d\<lparr>notifications := notifications d @ [r]\<rparr>)))"

definition mark_row_read :: "timestamp \<Rightarrow> notification_row \<Rightarrow> notification_row" where
  "mark_row_read now r = r\<lparr>n_is_read := True, n_read_at := Some now\<rparr>"

definition mark_notification_read :: "timestamp \<Rightarrow> uuid \<Rightarrow> uuid \<Rightarrow> (db, domain_error, unit) op" where
  "mark_notification_read now u i d =
     (let P = (\<lambda>r. n_id r = i \<and> n_user_id r = u \<and> \<not> n_is_read r);
          d' = d\<lparr>notifications := update_where P (mark_row_read now) (notifications d)\<rparr>
      in if count_where P (notifications d) = 0
         then (Inl (NotFound ''notification not found or already read''), d') else (Inr (), d'))"

definition mark_all_notifications_read :: "timestamp \<Rightarrow> uuid \<Rightarrow> (db, domain_error, nat) op" where
  "mark_all_notifications_read now u d =
     (let P = (\<lambda>r. n_user_id r = u \<and> \<not> n_is_read r)
      in (Inr (count_where P (notifications d)),
          d\<lparr>notifications := update_where P (mark_row_read now) (notifications d)\<rparr>))"

definition delete_read_notifications :: "uuid \<Rightarrow> (db, domain_error, nat) op" where
  "delete_read_notifications u d =
     (let P = (\<lambda>r. n_user_id r = u \<and> n_is_read r)
      in (Inr (count_where P (notifications d)), d\<lparr>notifications := delete_where P (notifications d)\<rparr>))"

section \<open>Handlers\<close>

record notification_response =
  nr_id :: uuid
  nr_notification_type :: string
  nr_data :: json
  nr_is_read :: bool
  nr_read_at :: "timestamp option"
  nr_created_at :: timestamp

definition notification_to_response :: "notification \<Rightarrow> notification_response" where
  "notification_to_response n =
     \<lparr>nr_id = no_id n, nr_notification_type = notification_as_db_str (no_type n), nr_data = no_data n,
      nr_is_read = no_is_read n, nr_read_at = no_read_at n, nr_created_at = no_created_at n\<rparr>"

definition notification_cursor_of :: "notification \<Rightarrow> notification_cursor" where
  "notification_cursor_of n = \<lparr>nc_created_at = no_created_at n, nc_id = no_id n\<rparr>"

definition h_list_notifications ::
  "notification_cursor cursor_codec \<Rightarrow> uuid \<Rightarrow> string option \<Rightarrow> int option \<Rightarrow> db
     \<Rightarrow> (notification_response list \<times> string option \<times> bool) dres" where
  "h_list_notifications cc auth cursor limit_opt d =
     (let limit = clamp 1 50 (unwrap_or limit_opt 20)
      in case list_handler ''notification '' cc notification_cursor_of (list_notifications auth) limit cursor d of
           Inl e \<Rightarrow> Inl e
         | Inr (items, nc, has_more) \<Rightarrow> Inr (map notification_to_response items, nc, has_more))"

definition h_mark_notification_read :: "timestamp \<Rightarrow> uuid \<Rightarrow> uuid \<Rightarrow> (nat \<times> bool) handler" where
  "h_mark_notification_read now auth i =
     and_then (on_db (mark_notification_read now auth i)) (\<lambda>_. ret (200, True))"

definition h_mark_all_notifications_read :: "timestamp \<Rightarrow> uuid \<Rightarrow> (nat \<times> nat) handler" where
  "h_mark_all_notifications_read now auth =
     and_then (on_db (mark_all_notifications_read now auth)) (\<lambda>n. ret (200, n))"

definition h_delete_read_notifications :: "uuid \<Rightarrow> (nat \<times> nat) handler" where
  "h_delete_read_notifications auth = and_then (on_db (delete_read_notifications auth)) (\<lambda>n. ret (200, n))"

section \<open>Properties\<close>

lemma notification_roundtrip: "notification_from_db_str (notification_as_db_str t) = Some t"
  by (cases t) (simp_all add: notification_from_db_str_def)

text \<open>
  C27. Of the five notification types of the code only \<open>StoryView\<close> and \<open>CallIncoming\<close> can be stored: for
  the other three every creation fails with an internal error, because the schema's enum has no such
  value, and nothing is stored.
\<close>

theorem create_notification_types:
  "(nn_type n \<notin> {StoryView, CallIncoming} \<longrightarrow>
      create_notification i now n d = (Inl (Internal ''Database operation failed''), d)) \<and>
   (nn_type n \<in> {StoryView, CallIncoming} \<and> user_exists d (nn_user_id n) \<and>
      (\<forall>r\<in>set (notifications d). n_id r \<noteq> i) \<longrightarrow>
      fst (create_notification i now n d) = Inr
        \<lparr>no_id = i, no_user_id = nn_user_id n, no_type = nn_type n, no_data = nn_data n,
         no_is_read = False, no_read_at = None, no_created_at = now\<rparr>)"
  by (cases "nn_type n")
    (auto simp: create_notification_def enum_cast_def notification_type_values_def Let_def
      notification_of_row_def notification_from_db_str_def exists_where_iff)

definition some_note :: "uuid \<Rightarrow> notification_type \<Rightarrow> new_notification" where
  "some_note u ty = \<lparr>nn_user_id = u, nn_type = ty, nn_data = ''{}''\<rparr>"

theorem create_notification_types_witness:
  "create_notification 7 5 (some_note 1 StoryReaction) three_users = (Inl (Internal ''Database operation failed''), three_users) \<and>
   fst (create_notification 7 5 (some_note 1 CallIncoming) three_users) = Inr
     \<lparr>no_id = 7, no_user_id = 1, no_type = CallIncoming, no_data = ''{}'', no_is_read = False,
      no_read_at = None, no_created_at = 5\<rparr>"
proof -
  have "notifications three_users = []" "user_exists three_users 1" by code_simp+
  then show ?thesis
    using create_notification_types [of "some_note 1 StoryReaction" 7 5 three_users]
      create_notification_types [of "some_note 1 CallIncoming" 7 5 three_users]
    by (simp add: some_note_def)
qed

text \<open>The list is a keyset source when the ids are unique and the stored types are readable.\<close>

definition notifications_ok :: "db \<Rightarrow> bool" where
  "notifications_ok d \<longleftrightarrow>
     unique_on n_id (notifications d) \<and> (\<forall>r\<in>set (notifications d). notification_from_db_str (n_type r) \<noteq> None)"

definition inbox :: "uuid \<Rightarrow> db \<Rightarrow> notification_row list" where
  "inbox u d = order_by_desc notification_key (select_where (\<lambda>r. n_user_id r = u) (notifications d))"

definition fetch_notifications :: "uuid \<Rightarrow> db \<Rightarrow> (timestamp \<times> uuid) option \<Rightarrow> nat \<Rightarrow> notification_row list" where
  "fetch_notifications u d k n =
     take n (filter (\<lambda>r. case k of None \<Rightarrow> True | Some k \<Rightarrow> notification_key r < k) (inbox u d))"

interpretation inboxes: keyset_source notifications_ok "inbox u" notification_key "fetch_notifications u"
  for u
proof unfold_locales
  show "fetch_notifications u d k n = take n (beyond notification_key k (inbox u d))" for d k n
    by (simp add: fetch_notifications_def beyond_def)
  show "sorted_wrt (\<lambda>x y. notification_key y < notification_key x) (inbox u d)" if "notifications_ok d" for d
    unfolding inbox_def
  proof (rule order_by_desc_sorted)
    have u: "distinct (map n_id (notifications d))" using that by (simp add: notifications_ok_def unique_on_def)
    then show "distinct (select_where (\<lambda>r. n_user_id r = u) (notifications d))"
      by (simp add: select_where_def distinct_map)
    show "inj_on notification_key (set (select_where (\<lambda>r. n_user_id r = u) (notifications d)))"
      using u by (auto simp: select_where_def distinct_map notification_key_def inj_on_def)
  qed
qed

lemma select_notifications_fetch:
  "select_notifications u cursor n d =
     fetch_notifications u d (map_option notification_cursor_key cursor) n"
proof -
  have "(\<lambda>r. n_user_id r = u \<and>
              (case cursor of None \<Rightarrow> True | Some c \<Rightarrow> notification_key r < notification_cursor_key c)) =
    (\<lambda>r. n_user_id r = u \<and> (case map_option notification_cursor_key cursor of None \<Rightarrow> True | Some k \<Rightarrow> notification_key r < k))"
    by (auto simp: fun_eq_iff split: option.split)
  then show ?thesis
    by (simp add: select_notifications_def fetch_notifications_def inbox_def select_where_def
        flip: order_by_desc_filter)
qed

definition parse_notification :: "notification_row \<Rightarrow> notification" where
  "parse_notification r =
     \<lparr>no_id = n_id r, no_user_id = n_user_id r, no_type = the (notification_from_db_str (n_type r)),
      no_data = n_data r, no_is_read = n_is_read r, no_read_at = n_read_at r, no_created_at = n_created_at r\<rparr>"

lemma list_notifications_fetch:
  assumes "notifications_ok d" "1 \<le> limit" "limit \<le> 50"
  shows "list_notifications u cursor limit d =
    Inr (map parse_notification (fetch_notifications u d (map_option notification_cursor_key cursor) (nat limit)))"
proof -
  have m: "r \<in> set (notifications d)" if "r \<in> set (fetch_notifications u d k n)" for r k n
    using that by (auto simp: fetch_notifications_def inbox_def select_where_def dest: in_set_takeD)
  have "notification_of_row msg r = Inr (parse_notification r)"
    if "r \<in> set (fetch_notifications u d k n)" for msg r k n
    using m [OF that] assms(1)
    by (auto simp: notifications_ok_def notification_of_row_def parse_notification_def split: option.split)
  then show ?thesis
    using assms by (simp add: list_notifications_def clamp_id select_notifications_fetch collect_results_total)
qed

lemma list_notifications_complete:
  assumes "notifications_ok d" "codec_ok cc" "1 \<le> limit" "limit \<le> 49" "length (inbox u d) < n"
  shows "follow (\<lambda>raw. list_handler ''notification '' cc notification_cursor_of (list_notifications u) limit raw d) n None =
    Inr (map parse_notification (inbox u d))"
proof (rule inboxes.follow_complete [OF assms(1-3), where ckey = notification_cursor_key])
  show "list_notifications u c (limit + 1) d =
      Inr (map parse_notification (fetch_notifications u d (map_option notification_cursor_key c) (nat (limit + 1))))" for c
    by (rule list_notifications_fetch [OF assms(1)]) (use assms(3,4) in auto)
  show "notification_cursor_key (notification_cursor_of (parse_notification r)) = notification_key r" for r
    by (simp add: notification_cursor_key_def notification_cursor_of_def parse_notification_def notification_key_def)
qed (rule assms(5))

text \<open>
  Reading and clearing: marking everything read and then deleting what is read empties the user's
  inbox, says how many rows it touched, leaves every other user's rows alone, and a second run finds
  nothing.
\<close>

lemma clear_inbox:
  "(let (a, d1) = mark_all_notifications_read now u d;
        (b, d2) = delete_read_notifications u d1
    in a = Inr (count_where (\<lambda>r. n_user_id r = u \<and> \<not> n_is_read r) (notifications d)) \<and>
       b = Inr (count_where (\<lambda>r. n_user_id r = u) (notifications d)) \<and>
       notifications d2 = filter (\<lambda>r. n_user_id r \<noteq> u) (notifications d) \<and>
       fst (mark_all_notifications_read now u d2) = Inr 0 \<and> fst (delete_read_notifications u d2) = Inr 0)"
proof -
  let ?P = "\<lambda>r. n_user_id r = u \<and> \<not> n_is_read r"
  have c: "count_where (\<lambda>r. n_user_id r = u \<and> n_is_read r) (update_where ?P (mark_row_read now) t) =
      count_where (\<lambda>r. n_user_id r = u) t" for t
    by (induction t) (auto simp: mark_row_read_def)
  have f: "delete_where (\<lambda>r. n_user_id r = u \<and> n_is_read r) (update_where ?P (mark_row_read now) t) =
      filter (\<lambda>r. n_user_id r \<noteq> u) t" for t
    by (induction t) (auto simp: mark_row_read_def delete_where_def)
  have z: "count_where (\<lambda>r. n_user_id r = u \<and> Q r) (filter (\<lambda>r. n_user_id r \<noteq> u) t) = 0" for Q t
    by (simp add: count_where_0_iff)
  show ?thesis
    by (simp add: mark_all_notifications_read_def delete_read_notifications_def Let_def c f z)
qed

end
