(* ===== verification/Stories.thy ===== *)
theory Stories
  imports Notifications UserDirectory
begin

text \<open>
  Stories: the entities of \<open>crates/domain/src/stories/entity.rs\<close>, \<open>PostgresStoryRepository\<close>
  (\<open>crates/infrastructure/src/repositories/stories.rs\<close>) with the constraints of migration 011, and the
  handlers of \<open>crates/api/src/handlers/stories/\<close>. The repository returns the database error itself, which
  a handler translates with \<open>from_boxed_err\<close>. A time that a response prints with \<open>to_rfc3339\<close> stays a
  time.
\<close>

section \<open>Entities\<close>

record story =
  sto_id :: uuid
  sto_user_id :: uuid
  sto_content_url :: string
  sto_content_type :: string
  sto_caption :: "string option"
  sto_privacy :: string
  sto_created_at :: timestamp
  sto_expires_at :: timestamp
  sto_deleted_at :: "timestamp option"

record story_with_user =
  sw_id :: uuid
  sw_user_id :: uuid
  sw_content_url :: string
  sw_content_type :: string
  sw_caption :: "string option"
  sw_privacy :: string
  sw_created_at :: timestamp
  sw_expires_at :: timestamp
  sw_username :: "string option"
  sw_display_name :: "string option"
  sw_avatar_url :: "string option"
  sw_has_viewed :: bool

record story_privacy_exception =
  sx_story_id :: uuid
  sx_user_id :: uuid
  sx_is_excluded :: bool

record story_view =
  vw_id :: uuid
  vw_story_id :: uuid
  vw_viewer_id :: uuid
  vw_reaction :: "string option"
  vw_viewed_at :: timestamp

record story_view_with_user =
  vu_viewer_id :: uuid
  vu_display_name :: "string option"
  vu_avatar_url :: "string option"
  vu_reaction :: "string option"
  vu_viewed_at :: timestamp

section \<open>Repository\<close>

type_synonym 'a story_op = "(db, sqlx_error, 'a) op"

definition story_of_row :: "story_row \<Rightarrow> story" where
  "story_of_row r =
     \<lparr>sto_id = s_id r, sto_user_id = s_user_id r, sto_content_url = s_content_url r,
      sto_content_type = s_content_type r, sto_caption = s_caption r, sto_privacy = s_privacy r,
      sto_created_at = s_created_at r, sto_expires_at = s_expires_at r, sto_deleted_at = s_deleted_at r\<rparr>"

definition story_lifetime :: int where
  "story_lifetime = seconds 86400"

definition story_create ::
  "uuid \<Rightarrow> timestamp \<Rightarrow> uuid \<Rightarrow> string \<Rightarrow> string \<Rightarrow> string option \<Rightarrow> string \<Rightarrow> story story_op" where
  "story_create new_id now u url ty caption privacy d =
     (case enum_cast story_privacy_values privacy of
        Inl e \<Rightarrow> (Inl e, d)
      | Inr p \<Rightarrow>
          (let r = \<lparr>s_id = new_id, s_user_id = u, s_content_url = url, s_content_type = ty,
                 s_caption = caption, s_privacy = p, s_created_at = now,
                 s_expires_at = now + story_lifetime, s_deleted_at = None\<rparr>
           in if exists_where (\<lambda>x. s_id x = new_id) (stories d) then (Inl unique_violation, d)
              else if \<not> user_exists d u then (Inl foreign_key_violation, d)
              else (Inr (story_of_row r), d\<lparr>stories := stories d @ [r]\<rparr>)))"

definition story_live :: "timestamp \<Rightarrow> story_row \<Rightarrow> bool" where
  "story_live now s \<longleftrightarrow> s_deleted_at s = None \<and> s_expires_at s > now"

definition story_find :: "timestamp \<Rightarrow> uuid \<Rightarrow> story option story_op" where
  "story_find now i =
     query (\<lambda>d. Inr (map_option story_of_row
       (select_one (\<lambda>s. s_id s = i \<and> story_live now s) (stories d))))"

definition story_find_by_user :: "timestamp \<Rightarrow> uuid \<Rightarrow> story list story_op" where
  "story_find_by_user now u =
     query (\<lambda>d. Inr (map story_of_row
       (order_by_desc s_created_at
         (select_where (\<lambda>s. s_user_id s = u \<and> story_live now s) (stories d)))))"

definition story_delete :: "timestamp \<Rightarrow> uuid \<Rightarrow> uuid \<Rightarrow> unit story_op" where
  "story_delete now i u d =
     (Inr (), d\<lparr>stories := update_where (\<lambda>s. s_id s = i \<and> s_user_id s = u)
        (\<lambda>s. s\<lparr>s_deleted_at := Some now\<rparr>) (stories d)\<rparr>)"

definition story_exists :: "db \<Rightarrow> uuid \<Rightarrow> bool" where
  "story_exists d i \<longleftrightarrow> exists_where (\<lambda>s. s_id s = i) (stories d)"

definition exception_for :: "uuid \<Rightarrow> uuid \<Rightarrow> exception_row \<Rightarrow> bool" where
  "exception_for i u e \<longleftrightarrow> spe_story_id e = i \<and> spe_user_id e = u"

definition add_privacy_exception :: "uuid \<Rightarrow> uuid \<Rightarrow> bool \<Rightarrow> unit story_op" where
  "add_privacy_exception i u excluded =
     execute (\<lambda>d.
       if exists_where (exception_for i u) (story_privacy_exceptions d)
       then Inr (d\<lparr>story_privacy_exceptions := update_where (exception_for i u)
              (\<lambda>e. e\<lparr>spe_is_excluded := excluded\<rparr>) (story_privacy_exceptions d)\<rparr>)
       else if \<not> story_exists d i \<or> \<not> user_exists d u then Inl foreign_key_violation
       else Inr (d\<lparr>story_privacy_exceptions := story_privacy_exceptions d @
              [\<lparr>spe_story_id = i, spe_user_id = u, spe_is_excluded = excluded\<rparr>]\<rparr>))"

definition list_privacy_exceptions :: "uuid \<Rightarrow> story_privacy_exception list story_op" where
  "list_privacy_exceptions i =
     query (\<lambda>d. Inr (map
       (\<lambda>e. \<lparr>sx_story_id = spe_story_id e, sx_user_id = spe_user_id e, sx_is_excluded = spe_is_excluded e\<rparr>)
       (select_where (\<lambda>e. spe_story_id e = i) (story_privacy_exceptions d))))"

definition remove_privacy_exception :: "uuid \<Rightarrow> uuid \<Rightarrow> unit story_op" where
  "remove_privacy_exception i u d =
     (Inr (), d\<lparr>story_privacy_exceptions := delete_where (exception_for i u) (story_privacy_exceptions d)\<rparr>)"

text \<open>
  \<open>INSERT INTO story_views .. ON CONFLICT (story_id, viewer_id) DO UPDATE\<close>: a row of that pair is changed
  by \<open>upd\<close>, otherwise one with the reaction \<open>x\<close> is inserted.
\<close>

definition view_by :: "uuid \<Rightarrow> uuid \<Rightarrow> view_row \<Rightarrow> bool" where
  "view_by i u v \<longleftrightarrow> sv_story_id v = i \<and> sv_viewer_id v = u"

definition upsert_view ::
  "uuid \<Rightarrow> timestamp \<Rightarrow> uuid \<Rightarrow> uuid \<Rightarrow> string option \<Rightarrow> (view_row \<Rightarrow> view_row) \<Rightarrow> db \<Rightarrow> sqlx_error + db" where
  "upsert_view new_id now i u x upd d =
     (if exists_where (view_by i u) (story_views d)
      then Inr (d\<lparr>story_views := update_where (view_by i u) upd (story_views d)\<rparr>)
      else if exists_where (\<lambda>v. sv_id v = new_id) (story_views d) then Inl unique_violation
      else if \<not> story_exists d i \<or> \<not> user_exists d u then Inl foreign_key_violation
      else Inr (d\<lparr>story_views := story_views d @
             [\<lparr>sv_id = new_id, sv_story_id = i, sv_viewer_id = u, sv_reaction = x, sv_viewed_at = now\<rparr>]\<rparr>))"

definition mark_viewed :: "uuid \<Rightarrow> timestamp \<Rightarrow> uuid \<Rightarrow> uuid \<Rightarrow> unit story_op" where
  "mark_viewed new_id now i u =
     execute (upsert_view new_id now i u None (\<lambda>v. v\<lparr>sv_viewed_at := now\<rparr>))"

definition story_add_reaction :: "uuid \<Rightarrow> timestamp \<Rightarrow> uuid \<Rightarrow> uuid \<Rightarrow> string \<Rightarrow> unit story_op" where
  "story_add_reaction new_id now i u x =
     execute (upsert_view new_id now i u (Some x) (\<lambda>v. v\<lparr>sv_reaction := Some x, sv_viewed_at := now\<rparr>))"

definition story_remove_reaction :: "timestamp \<Rightarrow> uuid \<Rightarrow> uuid \<Rightarrow> unit story_op" where
  "story_remove_reaction now i u d =
     (Inr (), d\<lparr>story_views := update_where (view_by i u)
        (\<lambda>v. v\<lparr>sv_reaction := None, sv_viewed_at := now\<rparr>) (story_views d)\<rparr>)"

definition get_views :: "uuid \<Rightarrow> story_view list story_op" where
  "get_views i =
     query (\<lambda>d. Inr (map
       (\<lambda>v. \<lparr>vw_id = sv_id v, vw_story_id = sv_story_id v, vw_viewer_id = sv_viewer_id v,
          vw_reaction = sv_reaction v, vw_viewed_at = sv_viewed_at v\<rparr>)
       (order_by_desc sv_viewed_at (select_where (\<lambda>v. sv_story_id v = i) (story_views d)))))"

text \<open>The join with \<open>users\<close> and the left join with \<open>user_profiles\<close>, both on the primary key.\<close>

definition account_of :: "db \<Rightarrow> uuid \<Rightarrow> user_row option" where
  "account_of d u = select_one (\<lambda>r. u_id r = u) (users d)"

definition display_name_of :: "db \<Rightarrow> uuid \<Rightarrow> string" where
  "display_name_of d u = unwrap_or (map_option up_display_name (profile_of d u)) ''''"

definition get_views_with_user :: "uuid \<Rightarrow> story_view_with_user list story_op" where
  "get_views_with_user i =
     query (\<lambda>d. Inr (List.map_filter
       (\<lambda>v. map_option
          (\<lambda>u. \<lparr>vu_viewer_id = sv_viewer_id v, vu_display_name = Some (display_name_of d (sv_viewer_id v)),
             vu_avatar_url = u_avatar_url u, vu_reaction = sv_reaction v, vu_viewed_at = sv_viewed_at v\<rparr>)
          (account_of d (sv_viewer_id v)))
       (order_by_desc sv_viewed_at (select_where (\<lambda>v. sv_story_id v = i) (story_views d)))))"

definition viewed_by :: "db \<Rightarrow> uuid \<Rightarrow> uuid \<Rightarrow> bool" where
  "viewed_by d i u \<longleftrightarrow> exists_where (view_by i u) (story_views d)"

definition has_viewed :: "uuid \<Rightarrow> uuid \<Rightarrow> bool story_op" where
  "has_viewed i u = query (\<lambda>d. Inr (viewed_by d i u))"

text \<open>The condition that \<open>can_user_view_story\<close> and \<open>list_for_user\<close> share.\<close>

definition in_contacts :: "db \<Rightarrow> uuid \<Rightarrow> uuid \<Rightarrow> bool" where
  "in_contacts d owner v \<longleftrightarrow>
     exists_where (\<lambda>c. co_owner_id c = owner \<and> co_contact_id c = Some v) (contacts d)"

definition excepted :: "db \<Rightarrow> uuid \<Rightarrow> uuid \<Rightarrow> bool \<Rightarrow> bool" where
  "excepted d i v b \<longleftrightarrow>
     exists_where (\<lambda>e. exception_for i v e \<and> spe_is_excluded e = b) (story_privacy_exceptions d)"

definition story_visible :: "db \<Rightarrow> timestamp \<Rightarrow> uuid \<Rightarrow> story_row \<Rightarrow> bool" where
  "story_visible d now v s \<longleftrightarrow>
     story_live now s \<and> s_user_id s \<noteq> v \<and>
     (s_privacy s = ''everyone'' \<or>
      s_privacy s = ''contacts'' \<and> in_contacts d (s_user_id s) v \<or>
      s_privacy s = ''contacts_except'' \<and> in_contacts d (s_user_id s) v \<and> \<not> excepted d (s_id s) v True \<or>
      s_privacy s = ''selected'' \<and> excepted d (s_id s) v False)"

definition can_user_view_story :: "timestamp \<Rightarrow> uuid \<Rightarrow> uuid \<Rightarrow> bool story_op" where
  "can_user_view_story now i v =
     query (\<lambda>d. Inr (exists_where (\<lambda>s. s_id s = i \<and> story_visible d now v s) (stories d)))"

definition story_with_author :: "db \<Rightarrow> bool \<Rightarrow> story_row \<Rightarrow> story_with_user option" where
  "story_with_author d seen s =
     map_option
       (\<lambda>u. \<lparr>sw_id = s_id s, sw_user_id = s_user_id s, sw_content_url = s_content_url s,
          sw_content_type = s_content_type s, sw_caption = s_caption s, sw_privacy = s_privacy s,
          sw_created_at = s_created_at s, sw_expires_at = s_expires_at s, sw_username = u_username u,
          sw_display_name = Some (display_name_of d (s_user_id s)), sw_avatar_url = u_avatar_url u,
          sw_has_viewed = seen\<rparr>)
       (account_of d (s_user_id s))"

text \<open>\<open>ORDER BY has_viewed ASC, s.created_at DESC\<close>\<close>

definition feed_rows :: "timestamp \<Rightarrow> uuid \<Rightarrow> db \<Rightarrow> story_row list" where
  "feed_rows now v d =
     sort_key (\<lambda>s. viewed_by d (s_id s) v)
       (order_by_desc s_created_at (select_where (story_visible d now v) (stories d)))"

definition list_for_user :: "timestamp \<Rightarrow> uuid \<Rightarrow> story_with_user list story_op" where
  "list_for_user now v =
     query (\<lambda>d. Inr (List.map_filter (\<lambda>s. story_with_author d (viewed_by d (s_id s) v) s) (feed_rows now v d)))"

definition story_list_mine :: "timestamp \<Rightarrow> uuid \<Rightarrow> story_with_user list story_op" where
  "story_list_mine now u =
     query (\<lambda>d. Inr (List.map_filter (story_with_author d True)
       (order_by_desc s_created_at (select_where (\<lambda>s. s_user_id s = u \<and> story_live now s) (stories d)))))"

section \<open>Handlers\<close>

text \<open>\<open>map_err(|e| ApiError(DomainError::from_boxed_err(e)))\<close>\<close>

definition boxed :: "'a story_op \<Rightarrow> 'a handler" where
  "boxed m s =
     (case m (srv_db s) of
        (Inl e, d) \<Rightarrow> (Inl (from_boxed_err (BoxedSqlx e)), s\<lparr>srv_db := d\<rparr>)
      | (Inr x, d) \<Rightarrow> (Inr x, s\<lparr>srv_db := d\<rparr>))"

definition valid_privacy_values :: "string list" where
  "valid_privacy_values = [''everyone'', ''contacts'', ''contacts_except'', ''only_me'', ''selected'']"

definition is_valid_privacy :: "string \<Rightarrow> bool" where
  "is_valid_privacy v \<longleftrightarrow> v \<in> set valid_privacy_values"

record create_story_request =
  cr_content_url :: string
  cr_content_type :: string
  cr_caption :: "string option"
  cr_privacy :: string
  cr_exceptions :: "uuid list option"

fun add_exceptions :: "uuid \<Rightarrow> bool \<Rightarrow> uuid list \<Rightarrow> unit handler" where
  "add_exceptions i excluded [] = ret ()"
| "add_exceptions i excluded (u # us) =
     and_then (boxed (add_privacy_exception i u excluded)) (\<lambda>_. add_exceptions i excluded us)"

definition h_create_story ::
  "uuid \<Rightarrow> timestamp \<Rightarrow> uuid \<Rightarrow> create_story_request \<Rightarrow> (uuid \<times> timestamp) handler" where
  "h_create_story new_id now auth req =
     (if \<not> is_valid_privacy (cr_privacy req)
      then throw (Validation
        ''Invalid privacy value. Must be one of: everyone, contacts, contacts_except, only_me, selected'')
      else
        and_then (boxed (story_create new_id now auth (cr_content_url req) (cr_content_type req)
          (cr_caption req) (cr_privacy req))) (\<lambda>story.
        and_then (add_exceptions (sto_id story) (cr_privacy req = ''contacts_except'')
          (unwrap_or (cr_exceptions req) [])) (\<lambda>_.
        ret (sto_id story, sto_expires_at story))))"

record user_story_item =
  si_id :: uuid
  si_content_url :: string
  si_content_type :: string
  si_caption :: "string option"
  si_privacy :: string
  si_created_at :: timestamp
  si_expires_at :: timestamp
  si_has_viewed :: bool

record grouped_stories =
  gr_user_id :: uuid
  gr_username :: "string option"
  gr_display_name :: "string option"
  gr_avatar_url :: "string option"
  gr_stories :: "user_story_item list"

definition story_item :: "story_with_user \<Rightarrow> user_story_item" where
  "story_item s =
     \<lparr>si_id = sw_id s, si_content_url = sw_content_url s, si_content_type = sw_content_type s,
      si_caption = sw_caption s, si_privacy = sw_privacy s, si_created_at = sw_created_at s,
      si_expires_at = sw_expires_at s, si_has_viewed = sw_has_viewed s\<rparr>"

fun push_story :: "story_with_user \<Rightarrow> grouped_stories list \<Rightarrow> grouped_stories list" where
  "push_story s [] =
     [\<lparr>gr_user_id = sw_user_id s, gr_username = sw_username s, gr_display_name = sw_display_name s,
       gr_avatar_url = sw_avatar_url s, gr_stories = [story_item s]\<rparr>]"
| "push_story s (g # gs) =
     (if gr_user_id g = sw_user_id s then g\<lparr>gr_stories := gr_stories g @ [story_item s]\<rparr> # gs
      else g # push_story s gs)"

definition group_stories :: "story_with_user list \<Rightarrow> grouped_stories list" where
  "group_stories ss = fold push_story ss []"

definition h_list_stories :: "timestamp \<Rightarrow> uuid \<Rightarrow> grouped_stories list handler" where
  "h_list_stories now auth =
     and_then (boxed (list_for_user now auth)) (\<lambda>ss. ret (group_stories ss))"

definition h_list_my_stories :: "timestamp \<Rightarrow> uuid \<Rightarrow> story_with_user list handler" where
  "h_list_my_stories now auth = boxed (story_list_mine now auth)"

definition found_story :: "timestamp \<Rightarrow> uuid \<Rightarrow> story handler" where
  "found_story now i =
     and_then (boxed (story_find now i)) (\<lambda>r. lift_result (ok_or r (NotFound ''Story not found'')))"

definition h_delete_story :: "timestamp \<Rightarrow> uuid \<Rightarrow> uuid \<Rightarrow> unit handler" where
  "h_delete_story now auth i =
     and_then (found_story now i) (\<lambda>story.
     if sto_user_id story \<noteq> auth then throw (Unauthorized ''Cannot delete another user's story'')
     else boxed (story_delete now i auth))"

text \<open>
  What the handlers of a view and of a reaction do after the change: the in-app notification, whose
  failure is only logged, and a push job for an author who is offline. \<open>se_json_string\<close> is the JSON text
  of a string.
\<close>

record story_env =
  se_redis :: redis_env
  se_json_string :: "string \<Rightarrow> string"

definition json_member :: "string \<times> json \<Rightarrow> string" where
  "json_member m = [CHR 0x22] @ fst m @ [CHR 0x22] @ '':'' @ snd m"

fun json_members :: "(string \<times> json) list \<Rightarrow> string" where
  "json_members [] = ''''"
| "json_members [m] = json_member m"
| "json_members (m # ms) = json_member m @ '','' @ json_members ms"

definition json_object :: "(string \<times> json) list \<Rightarrow> json" where
  "json_object ms = ''{'' @ json_members ms @ ''}''"

definition json_uuid :: "story_env \<Rightarrow> uuid \<Rightarrow> json" where
  "json_uuid env u = se_json_string env (re_show (se_redis env) u)"

definition note_quietly :: "uuid \<Rightarrow> timestamp \<Rightarrow> new_notification \<Rightarrow> unit handler" where
  "note_quietly note_id now n s = (Inr (), snd (on_db (create_notification note_id now n) s))"

definition push_if_offline :: "story_env \<Rightarrow> timestamp \<Rightarrow> push_job \<Rightarrow> unit handler" where
  "push_if_offline env now job s =
     (if is_online (se_redis env) now (job_user_id job) s then (Inr (), s)
      else enqueue_push (se_redis env) job s)"

definition h_view_story :: "story_env \<Rightarrow> uuid \<Rightarrow> uuid \<Rightarrow> timestamp \<Rightarrow> uuid \<Rightarrow> uuid \<Rightarrow> unit handler" where
  "h_view_story env view_id note_id now auth i =
     and_then (found_story now i) (\<lambda>story.
     if sto_user_id story = auth then ret ()
     else
       and_then (boxed (can_user_view_story now i auth)) (\<lambda>can_view.
       if \<not> can_view then throw (Unauthorized ''You do not have permission to view this story'')
       else
         and_then (boxed (mark_viewed view_id now i auth)) (\<lambda>_.
         and_then (note_quietly note_id now
           \<lparr>nn_user_id = sto_user_id story, nn_type = StoryView,
            nn_data = json_object [(''story_id'', json_uuid env (sto_id story)),
              (''viewer_id'', json_uuid env auth)]\<rparr>) (\<lambda>_.
         push_if_offline env now
           \<lparr>job_user_id = sto_user_id story, job_notification_type = ''story_view'',
            job_payload = StoryViewPush (sto_id story) auth\<rparr>))))"

definition h_react_to_story ::
  "story_env \<Rightarrow> uuid \<Rightarrow> uuid \<Rightarrow> timestamp \<Rightarrow> uuid \<Rightarrow> uuid \<Rightarrow> string \<Rightarrow> unit handler" where
  "h_react_to_story env view_id note_id now auth i x =
     and_then (found_story now i) (\<lambda>story.
     if sto_user_id story = auth then ret ()
     else
       and_then (boxed (can_user_view_story now i auth)) (\<lambda>can_view.
       if \<not> can_view then throw (Unauthorized ''You do not have permission to interact with this story'')
       else
         and_then (boxed (has_viewed i auth)) (\<lambda>seen.
         if \<not> seen then throw (Validation ''Cannot react to a story you haven't viewed'')
         else
           and_then (boxed (story_add_reaction view_id now i auth x)) (\<lambda>_.
           and_then (note_quietly note_id now
             \<lparr>nn_user_id = sto_user_id story, nn_type = StoryReaction,
              nn_data = json_object [(''reaction'', se_json_string env x),
                (''reactor_id'', json_uuid env auth), (''story_id'', json_uuid env (sto_id story))]\<rparr>) (\<lambda>_.
           push_if_offline env now
             \<lparr>job_user_id = sto_user_id story, job_notification_type = ''story_reaction'',
              job_payload = StoryReactionPush (sto_id story) auth x\<rparr>)))))"

definition h_get_story_views :: "timestamp \<Rightarrow> uuid \<Rightarrow> uuid \<Rightarrow> story_view_with_user list handler" where
  "h_get_story_views now auth i =
     and_then (found_story now i) (\<lambda>story.
     if sto_user_id story \<noteq> auth then throw (Unauthorized ''Only the story author can view viewers'')
     else boxed (get_views_with_user i))"

end
