(* ===== verification/StoryProps.thy ===== *)
theory StoryProps
  imports Stories
begin

text \<open>
  What the stories promise, as an abstract bulletin board: a post has an author, an audience, the people
  named when it was posted and the people who looked at it with their reactions. The handlers of
  \<open>Stories\<close> refine the operations of the board (\<open>board_of\<close> is the abstraction), and the feed shows
  exactly the posts that the viewer may see.
\<close>

section \<open>The board\<close>

datatype audience = ToEveryone | ToContacts | ToContactsExcept | ToNobody | ToSelected

record post =
  po_author :: uuid
  po_audience :: audience
  po_named :: "uuid set"
  po_until :: timestamp
  po_seen :: "uuid \<Rightarrow> string option option"

type_synonym board = "uuid \<Rightarrow> post option"

fun reaches :: "audience \<Rightarrow> bool \<Rightarrow> bool \<Rightarrow> bool" where
  "reaches ToEveryone contact named = True"
| "reaches ToContacts contact named = contact"
| "reaches ToContactsExcept contact named = (contact \<and> \<not> named)"
| "reaches ToNobody contact named = False"
| "reaches ToSelected contact named = named"

definition may_see :: "(uuid \<Rightarrow> uuid \<Rightarrow> bool) \<Rightarrow> timestamp \<Rightarrow> uuid \<Rightarrow> post \<Rightarrow> bool" where
  "may_see contact now v p \<longleftrightarrow>
     now < po_until p \<and> po_author p \<noteq> v \<and>
     reaches (po_audience p) (contact (po_author p) v) (v \<in> po_named p)"

definition audience_of :: "string \<Rightarrow> audience" where
  "audience_of s =
     (if s = ''everyone'' then ToEveryone
      else if s = ''contacts'' then ToContacts
      else if s = ''contacts_except'' then ToContactsExcept
      else if s = ''selected'' then ToSelected
      else ToNobody)"

datatype story_request =
    PostStory uuid timestamp uuid create_story_request
  | RemoveStory timestamp uuid uuid
  | ViewStory uuid uuid timestamp uuid uuid
  | ReactStory uuid uuid timestamp uuid uuid string

datatype outcome = Done | Missing | Forbidden | Refused | Broken

definition on_board :: "board \<Rightarrow> timestamp \<Rightarrow> uuid \<Rightarrow> post option" where
  "on_board B now i =
     (case B i of None \<Rightarrow> None | Some p \<Rightarrow> if now < po_until p then Some p else None)"

text \<open>
  A new post that names somebody who is not \<open>known\<close> is refused, and yet on the board, with the people who were
  named before him.
\<close>

fun board_step ::
  "(uuid \<Rightarrow> bool) \<Rightarrow> (uuid \<Rightarrow> uuid \<Rightarrow> bool) \<Rightarrow> story_request \<Rightarrow> board \<Rightarrow> outcome \<times> board" where
  "board_step known contact (PostStory i now u req) B =
     (if cr_privacy req \<notin> set valid_privacy_values then (Refused, B)
      else (if list_all known (unwrap_or (cr_exceptions req) []) then Done else Refused,
            B(i \<mapsto> \<lparr>po_author = u, po_audience = audience_of (cr_privacy req),
              po_named = set (takeWhile known (unwrap_or (cr_exceptions req) [])), po_until = now + story_lifetime,
              po_seen = (\<lambda>_. None)\<rparr>)))"
| "board_step known contact (RemoveStory now u i) B =
     (case on_board B now i of
        None \<Rightarrow> (Missing, B)
      | Some p \<Rightarrow> if po_author p \<noteq> u then (Forbidden, B) else (Done, B(i := None)))"
| "board_step known contact (ViewStory _ _ now u i) B =
     (case on_board B now i of
        None \<Rightarrow> (Missing, B)
      | Some p \<Rightarrow>
          if po_author p = u then (Done, B)
          else if \<not> may_see contact now u p then (Forbidden, B)
          else (Done, B(i \<mapsto> p\<lparr>po_seen := (po_seen p)(u \<mapsto> unwrap_or (po_seen p u) None)\<rparr>)))"
| "board_step known contact (ReactStory _ _ now u i x) B =
     (case on_board B now i of
        None \<Rightarrow> (Missing, B)
      | Some p \<Rightarrow>
          if po_author p = u then (Done, B)
          else if \<not> may_see contact now u p then (Forbidden, B)
          else if po_seen p u = None then (Refused, B)
          else (Done, B(i \<mapsto> p\<lparr>po_seen := (po_seen p)(u \<mapsto> Some x)\<rparr>)))"

section \<open>The abstraction\<close>

definition post_of :: "db \<Rightarrow> story_row \<Rightarrow> post" where
  "post_of d s =
     \<lparr>po_author = s_user_id s, po_audience = audience_of (s_privacy s),
      po_named = {u. exists_where (exception_for (s_id s) u) (story_privacy_exceptions d)},
      po_until = s_expires_at s,
      po_seen = (\<lambda>u. map_option sv_reaction (select_one (view_by (s_id s) u) (story_views d)))\<rparr>"

definition board_of :: "db \<Rightarrow> board" where
  "board_of d i =
     map_option (post_of d) (select_one (\<lambda>s. s_id s = i \<and> s_deleted_at s = None) (stories d))"

definition outcome_of :: "domain_error + 'a \<Rightarrow> outcome" where
  "outcome_of r =
     (case r of
        Inr _ \<Rightarrow> Done
      | Inl e \<Rightarrow>
          (case e of NotFound _ \<Rightarrow> Missing | Unauthorized _ \<Rightarrow> Forbidden | Validation _ \<Rightarrow> Refused
           | _ \<Rightarrow> Broken))"

fun story_step :: "story_env \<Rightarrow> story_request \<Rightarrow> srv \<Rightarrow> outcome \<times> srv" where
  "story_step env (PostStory i now u req) s = map_prod outcome_of id (h_create_story i now u req s)"
| "story_step env (RemoveStory now u i) s = map_prod outcome_of id (h_delete_story now u i s)"
| "story_step env (ViewStory vid nid now u i) s = map_prod outcome_of id (h_view_story env vid nid now u i s)"
| "story_step env (ReactStory vid nid now u i x) s =
     map_prod outcome_of id (h_react_to_story env vid nid now u i x s)"

text \<open>
  The tables of the stories in every state that the handlers produce: unique ids, known privacy values,
  exceptions and views of existing stories, and exceptions that are exclusions exactly for
  \<open>contacts_except\<close>.
\<close>

definition stories_ok :: "db \<Rightarrow> bool" where
  "stories_ok d \<longleftrightarrow>
     unique_on s_id (stories d) \<and>
     (\<forall>s\<in>set (stories d). s_privacy s \<in> set story_privacy_values) \<and>
     (\<forall>e\<in>set (story_privacy_exceptions d). \<exists>s\<in>set (stories d).
        s_id s = spe_story_id e \<and> (spe_is_excluded e \<longleftrightarrow> s_privacy s = ''contacts_except'')) \<and>
     (\<forall>v\<in>set (story_views d). story_exists d (sv_story_id v))"

text \<open>What the server guarantees of a request: the caller exists, new ids are new.\<close>

fun request_ok :: "db \<Rightarrow> story_request \<Rightarrow> bool" where
  "request_ok d (PostStory i now u req) \<longleftrightarrow>
     \<not> story_exists d i \<and> user_exists d u"
| "request_ok d (RemoveStory now u i) \<longleftrightarrow> True"
| "request_ok d (ViewStory vid nid now u i) \<longleftrightarrow>
     user_exists d u \<and> (\<forall>v\<in>set (story_views d). sv_id v \<noteq> vid)"
| "request_ok d (ReactStory vid nid now u i x) \<longleftrightarrow> True"

section \<open>Lemmas\<close>

lemma srv_db_same [simp]: "s\<lparr>srv_db := srv_db s\<rparr> = s"
  by (cases s) simp

lemma boxed_query: "boxed (query (\<lambda>d. Inr (f d))) s = (Inr (f (srv_db s)), s)"
  by (simp add: boxed_def)

lemma boxed_execute_Inr:
  "w (srv_db s) = Inr d \<Longrightarrow> boxed (execute w) s = (Inr (), s\<lparr>srv_db := d\<rparr>)"
  by (simp add: boxed_def execute_def)

lemma boxed_execute_Inl:
  "w (srv_db s) = Inl e \<Longrightarrow> boxed (execute w) s = (Inl (from_sqlx e), s)"
  by (simp add: boxed_def execute_def)

lemma boxed_ok: "m (srv_db s) = (Inr x, d) \<Longrightarrow> boxed m s = (Inr x, s\<lparr>srv_db := d\<rparr>)"
  by (simp add: boxed_def)

lemma and_then_eq: "m s = (Inr x, s') \<Longrightarrow> and_then m f s = f x s'"
  and and_then_err: "m s = (Inl e, s') \<Longrightarrow> and_then m f s = (Inl e, s')"
  by (simp_all add: and_then_def)

lemma stories_okD:
  assumes "stories_ok d"
  shows "unique_on s_id (stories d)"
    and "s \<in> set (stories d) \<Longrightarrow> s_privacy s \<in> set story_privacy_values"
    and "e \<in> set (story_privacy_exceptions d) \<Longrightarrow> s \<in> set (stories d) \<Longrightarrow> s_id s = spe_story_id e \<Longrightarrow>
      spe_is_excluded e \<longleftrightarrow> s_privacy s = ''contacts_except''"
    and "e \<in> set (story_privacy_exceptions d) \<Longrightarrow> story_exists d (spe_story_id e)"
    and "v \<in> set (story_views d) \<Longrightarrow> story_exists d (sv_story_id v)"
proof -
  show u: "unique_on s_id (stories d)" using assms by (simp add: stories_ok_def)
  show "s \<in> set (stories d) \<Longrightarrow> s_privacy s \<in> set story_privacy_values"
    using assms by (simp add: stories_ok_def)
  show "e \<in> set (story_privacy_exceptions d) \<Longrightarrow> s \<in> set (stories d) \<Longrightarrow> s_id s = spe_story_id e \<Longrightarrow>
      spe_is_excluded e \<longleftrightarrow> s_privacy s = ''contacts_except''"
    using assms u unfolding stories_ok_def by (metis unique_on_eq)
  show "e \<in> set (story_privacy_exceptions d) \<Longrightarrow> story_exists d (spe_story_id e)"
    using assms by (auto simp: stories_ok_def story_exists_def exists_where_iff)
  show "v \<in> set (story_views d) \<Longrightarrow> story_exists d (sv_story_id v)"
    using assms by (simp add: stories_ok_def)
qed

text \<open>In a consistent database the lookup of a live story is the lookup on the board.\<close>

lemma live_lookup:
  assumes "stories_ok d"
  shows "select_one (\<lambda>s. s_id s = i \<and> story_live now s) (stories d) =
    (case select_one (\<lambda>s. s_id s = i \<and> s_deleted_at s = None) (stories d) of
       None \<Rightarrow> None | Some s \<Rightarrow> if now < s_expires_at s then Some s else None)"
proof (cases "select_one (\<lambda>s. s_id s = i \<and> s_deleted_at s = None) (stories d)")
  case None
  then have "select_one (\<lambda>s. s_id s = i \<and> story_live now s) (stories d) = None"
    by (auto simp: select_one_None_iff story_live_def)
  with None show ?thesis by simp
next
  case (Some s)
  then have s: "s \<in> set (stories d)" "s_id s = i" "s_deleted_at s = None"
    by (auto dest: select_one_SomeD)
  have u: "t = s" if "t \<in> set (stories d)" "s_id t = i" for t
    using stories_okD(1) [OF assms] s(1,2) that by (auto dest: unique_on_eq)
  show ?thesis
  proof (cases "now < s_expires_at s")
    case True
    then have l: "story_live now s" using s(3) by (simp add: story_live_def)
    have "select_one (\<lambda>s. s_id s = i \<and> story_live now s) (stories d) = Some s"
      by (rule select_one_unique [OF stories_okD(1) [OF assms] s(1)]) (use u s(2) l in metis)
    then show ?thesis using Some True by simp
  next
    case False
    then have l: "\<not> story_live now s" by (simp add: story_live_def)
    have "select_one (\<lambda>s. s_id s = i \<and> story_live now s) (stories d) = None"
      unfolding select_one_None_iff using u l by metis
    then show ?thesis using Some False by simp
  qed
qed

lemma found_story_board:
  assumes "stories_ok (srv_db s)"
  shows "on_board (board_of (srv_db s)) now i = None \<Longrightarrow>
      found_story now i s = (Inl (NotFound ''Story not found''), s)"
    and "on_board (board_of (srv_db s)) now i = Some p \<Longrightarrow>
      \<exists>r. r \<in> set (stories (srv_db s)) \<and> s_id r = i \<and> story_live now r \<and> p = post_of (srv_db s) r \<and>
        board_of (srv_db s) i = Some p \<and> found_story now i s = (Inr (story_of_row r), s)"
proof -
  have f: "found_story now i s =
    (case select_one (\<lambda>s. s_id s = i \<and> story_live now s) (stories (srv_db s)) of
       None \<Rightarrow> (Inl (NotFound ''Story not found''), s) | Some r \<Rightarrow> (Inr (story_of_row r), s))"
    by (simp add: found_story_def story_find_def boxed_query and_then_eq split: option.split)
  show "on_board (board_of (srv_db s)) now i = None \<Longrightarrow>
      found_story now i s = (Inl (NotFound ''Story not found''), s)"
    by (auto simp: f live_lookup [OF assms] on_board_def board_of_def post_of_def split: option.splits if_splits)
  assume o: "on_board (board_of (srv_db s)) now i = Some p"
  then obtain r where r: "select_one (\<lambda>s. s_id s = i \<and> s_deleted_at s = None) (stories (srv_db s)) = Some r"
    and p: "p = post_of (srv_db s) r" "now < s_expires_at r" "board_of (srv_db s) i = Some p"
    by (auto simp: on_board_def board_of_def post_of_def split: option.splits if_splits)
  have "found_story now i s = (Inr (story_of_row r), s)"
    by (simp add: f live_lookup [OF assms] r p)
  then show "\<exists>r. r \<in> set (stories (srv_db s)) \<and> s_id r = i \<and> story_live now r \<and> p = post_of (srv_db s) r \<and>
        board_of (srv_db s) i = Some p \<and> found_story now i s = (Inr (story_of_row r), s)"
    using select_one_SomeD [OF r] p by (auto simp: story_live_def)
qed

lemma excepted_iff:
  assumes "stories_ok d" "s \<in> set (stories d)"
  shows "excepted d (s_id s) v b \<longleftrightarrow>
    exists_where (exception_for (s_id s) v) (story_privacy_exceptions d) \<and>
    (b \<longleftrightarrow> s_privacy s = ''contacts_except'')"
  using stories_okD(3) [OF assms(1) _ assms(2)]
  by (auto simp: excepted_def exists_where_iff exception_for_def)

text \<open>The condition of the queries is the policy of the board.\<close>

lemma story_visible_may_see:
  assumes "stories_ok d" "s \<in> set (stories d)" "s_deleted_at s = None"
  shows "story_visible d now v s \<longleftrightarrow> may_see (in_contacts d) now v (post_of d s)"
proof -
  have p: "s_privacy s \<in> set story_privacy_values" by (rule stories_okD(2) [OF assms(1,2)])
  have e: "excepted d (s_id s) v b \<longleftrightarrow> v \<in> po_named (post_of d s) \<and> (b \<longleftrightarrow> s_privacy s = ''contacts_except'')"
    for b by (simp add: excepted_iff [OF assms(1,2)] post_of_def)
  show ?thesis
    using p assms(3) unfolding story_visible_def may_see_def e
    by (auto simp: story_privacy_values_def audience_of_def story_live_def post_of_def)
qed

lemma board_of_notifications [simp]: "board_of (d\<lparr>notifications := n\<rparr>) = board_of d"
proof -
  have "post_of (d\<lparr>notifications := n\<rparr>) = post_of d" by (rule ext) (simp add: post_of_def)
  then show ?thesis by (intro ext) (simp add: board_of_def)
qed

lemma stories_ok_notifications [simp]: "stories_ok (d\<lparr>notifications := n\<rparr>) \<longleftrightarrow> stories_ok d"
  by (simp add: stories_ok_def story_exists_def)

text \<open>What follows the change in a view or a reaction touches neither the stories nor the contacts.\<close>

lemma note_quietly_effect:
  "\<exists>n'. note_quietly nid now n s = (Inr (), s\<lparr>srv_db := (srv_db s)\<lparr>notifications := n'\<rparr>\<rparr>)"
proof -
  have "\<exists>n'. snd (create_notification nid now n d) = d\<lparr>notifications := n'\<rparr>" for d
  proof (cases "map_sqlx (enum_cast notification_type_values (notification_as_db_str (nn_type n)))")
    case (Inl e)
    then have "snd (create_notification nid now n d) = d\<lparr>notifications := notifications d\<rparr>"
      by (simp add: create_notification_def)
    then show ?thesis by blast
  next
    case (Inr ty)
    then have "snd (create_notification nid now n d) = d\<lparr>notifications := notifications d\<rparr> \<or>
        snd (create_notification nid now n d) = d\<lparr>notifications := notifications d @
          [\<lparr>n_id = nid, n_user_id = nn_user_id n, n_type = ty, n_data = nn_data n, n_is_read = False,
            n_read_at = None, n_created_at = now\<rparr>]\<rparr>"
      by (simp add: create_notification_def Let_def)
    then show ?thesis by blast
  qed
  then obtain n' where "snd (create_notification nid now n (srv_db s)) = (srv_db s)\<lparr>notifications := n'\<rparr>"
    by blast
  then show ?thesis by (auto simp: note_quietly_def on_db_def split: prod.split)
qed

lemma push_if_offline_effect:
  "\<exists>s'. push_if_offline env now job s = (Inr (), s') \<and> srv_db s' = srv_db s"
  by (simp add: push_if_offline_def enqueue_push_def)

lemma notify_author_effect:
  "\<exists>s' n'. and_then (note_quietly nid now n) (\<lambda>_. push_if_offline env now job) s = (Inr (), s') \<and>
     srv_db s' = (srv_db s)\<lparr>notifications := n'\<rparr>"
proof -
  obtain n' where "note_quietly nid now n s = (Inr (), s\<lparr>srv_db := (srv_db s)\<lparr>notifications := n'\<rparr>\<rparr>)"
    using note_quietly_effect by blast
  then show ?thesis
    using push_if_offline_effect [of env now job "s\<lparr>srv_db := (srv_db s)\<lparr>notifications := n'\<rparr>\<rparr>"]
    by (auto simp: and_then_eq)
qed

lemma board_of_views:
  assumes "\<And>j w. map_option sv_reaction (select_one (view_by j w) vs) =
      (if j = i \<and> w = u then Some x else map_option sv_reaction (select_one (view_by j w) (story_views d)))"
    and "board_of d i = Some p"
  shows "board_of (d\<lparr>story_views := vs\<rparr>) = (board_of d)(i \<mapsto> p\<lparr>po_seen := (po_seen p)(u \<mapsto> x)\<rparr>)"
proof
  fix j
  have r: "post_of (d\<lparr>story_views := vs\<rparr>) r =
      (if s_id r = i then (post_of d r)\<lparr>po_seen := (po_seen (post_of d r))(u \<mapsto> x)\<rparr> else post_of d r)" for r
    by (auto simp: post_of_def assms(1) fun_eq_iff)
  show "board_of (d\<lparr>story_views := vs\<rparr>) j = ((board_of d)(i \<mapsto> p\<lparr>po_seen := (po_seen p)(u \<mapsto> x)\<rparr>)) j"
  proof (cases "select_one (\<lambda>s. s_id s = j \<and> s_deleted_at s = None) (stories d)")
    case None
    then show ?thesis using assms(2) by (auto simp: board_of_def)
  next
    case (Some s)
    then have "s_id s = j" by (auto dest: select_one_SomeD)
    then show ?thesis using assms(2) Some by (auto simp: board_of_def r)
  qed
qed

lemma upsert_view_effect:
  assumes "stories_ok d" "story_exists d i"
    and "user_exists d u \<and> (\<forall>v\<in>set (story_views d). sv_id v \<noteq> vid) \<or> viewed_by d i u"
    and "\<And>v. sv_story_id (upd v) = sv_story_id v \<and> sv_viewer_id (upd v) = sv_viewer_id v \<and>
      sv_reaction (upd v) = f (sv_reaction v)"
  shows "\<exists>vs. upsert_view vid now i u x upd d = Inr (d\<lparr>story_views := vs\<rparr>) \<and>
    (\<forall>j w. map_option sv_reaction (select_one (view_by j w) vs) =
      (if j = i \<and> w = u
       then Some (case select_one (view_by i u) (story_views d) of None \<Rightarrow> x | Some v \<Rightarrow> f (sv_reaction v))
       else map_option sv_reaction (select_one (view_by j w) (story_views d)))) \<and>
    stories_ok (d\<lparr>story_views := vs\<rparr>)"
proof (cases "viewed_by d i u")
  case True
  let ?vs = "update_where (view_by i u) upd (story_views d)"
  have k: "view_by j w (upd v) = view_by j w v" for j w v by (simp add: view_by_def assms(4))
  obtain v where v: "select_one (view_by i u) (story_views d) = Some v"
    using True by (cases "select_one (view_by i u) (story_views d)")
      (auto simp: viewed_by_def exists_where_iff select_one_None_iff)
  have "map_option sv_reaction (select_one (view_by j w) ?vs) =
      (if j = i \<and> w = u then Some (f (sv_reaction v))
       else map_option sv_reaction (select_one (view_by j w) (story_views d)))" for j w
    using v select_one_SomeD [of "view_by j w" "story_views d"]
    by (auto simp: select_one_update_same k option.map_comp comp_def assms(4) view_by_def intro!: map_option_cong)
  moreover have "stories_ok (d\<lparr>story_views := ?vs\<rparr>)"
    using assms(1,4) by (auto simp: stories_ok_def story_exists_def elim!: in_update_whereE)
  ultimately show ?thesis
    using True v by (intro exI [of _ ?vs] conjI) (simp_all add: upsert_view_def viewed_by_def)
next
  case False
  let ?r = "\<lparr>sv_id = vid, sv_story_id = i, sv_viewer_id = u, sv_reaction = x, sv_viewed_at = now\<rparr>"
  have n: "select_one (view_by i u) (story_views d) = None"
    using False by (auto simp: viewed_by_def exists_where_iff select_one_None_iff)
  have "map_option sv_reaction (select_one (view_by j w) (story_views d @ [?r])) =
      (if j = i \<and> w = u then Some x
       else map_option sv_reaction (select_one (view_by j w) (story_views d)))" for j w
    using n by (auto simp: select_one_append view_by_def coalesce_def split: option.split)
  moreover have "stories_ok (d\<lparr>story_views := story_views d @ [?r]\<rparr>)"
    using assms(1,2) by (auto simp: stories_ok_def story_exists_def)
  moreover have "upsert_view vid now i u x upd d = Inr (d\<lparr>story_views := story_views d @ [?r]\<rparr>)"
    using False assms(2,3) by (auto simp: upsert_view_def viewed_by_def exists_where_iff)
  ultimately show ?thesis
    using n by (intro exI [of _ "story_views d @ [?r]"] conjI) simp_all
qed

lemma can_view_board:
  assumes "stories_ok (srv_db s)" "r \<in> set (stories (srv_db s))" "s_id r = i" "story_live now r"
  shows "boxed (can_user_view_story now i v) s =
    (Inr (may_see (in_contacts (srv_db s)) now v (post_of (srv_db s) r)), s)"
proof -
  have "x = r" if "x \<in> set (stories (srv_db s))" "s_id x = i" for x
    using unique_on_eq [OF stories_okD(1) [OF assms(1)] that(1) assms(2)] that(2) assms(3) by simp
  then have "exists_where (\<lambda>x. s_id x = i \<and> story_visible (srv_db s) now v x) (stories (srv_db s)) \<longleftrightarrow>
      story_visible (srv_db s) now v r"
    unfolding exists_where_iff using assms(2,3) by metis
  then show ?thesis
    using story_visible_may_see [OF assms(1,2)] assms(4)
    by (simp add: can_user_view_story_def boxed_query story_live_def)
qed

text \<open>A live story of the board, as a handler finds it, and what the caller may see of it.\<close>

lemma on_board_story:
  assumes "stories_ok (srv_db s)" "on_board (board_of (srv_db s)) now i = Some p"
  obtains q where "q \<in> set (stories (srv_db s))" "s_id q = i" "p = post_of (srv_db s) q"
    "board_of (srv_db s) i = Some p" "found_story now i s = (Inr (story_of_row q), s)"
    "sto_user_id (story_of_row q) = po_author p" "sto_id (story_of_row q) = i"
    "\<And>u. boxed (can_user_view_story now i u) s = (Inr (may_see (in_contacts (srv_db s)) now u p), s)"
    "story_exists (srv_db s) i" "\<And>u. viewed_by (srv_db s) i u \<longleftrightarrow> po_seen p u \<noteq> None"
proof -
  obtain q where q: "q \<in> set (stories (srv_db s))" "s_id q = i" "story_live now q"
      "p = post_of (srv_db s) q" "board_of (srv_db s) i = Some p"
      "found_story now i s = (Inr (story_of_row q), s)"
    using found_story_board(2) [OF assms] by blast
  show ?thesis
  proof (rule that [OF q(1,2,4,5,6)])
    show "sto_user_id (story_of_row q) = po_author p" "sto_id (story_of_row q) = i"
      by (simp_all add: story_of_row_def post_of_def q)
    show "boxed (can_user_view_story now i u) s = (Inr (may_see (in_contacts (srv_db s)) now u p), s)" for u
      by (simp add: can_view_board [OF assms(1) q(1,2,3)] q(4))
    show "story_exists (srv_db s) i" using q by (auto simp: story_exists_def exists_where_iff)
    show "viewed_by (srv_db s) i u \<longleftrightarrow> po_seen p u \<noteq> None" for u
      by (simp add: viewed_by_def q(2,4) post_of_def exists_where_iff select_one_None_iff)
  qed
qed

text \<open>A row of \<open>story_views\<close> entered or updated is the post seen by the viewer.\<close>

lemma seen_on_board:
  assumes "stories_ok d" "board_of d i = Some p" "story_exists d i"
    and "user_exists d u \<and> (\<forall>v\<in>set (story_views d). sv_id v \<noteq> vid) \<or> viewed_by d i u"
    and "\<And>v. sv_story_id (upd v) = sv_story_id v \<and> sv_viewer_id (upd v) = sv_viewer_id v \<and>
      sv_reaction (upd v) = f (sv_reaction v)"
  obtains vs where "upsert_view vid now i u x upd d = Inr (d\<lparr>story_views := vs\<rparr>)"
    "stories_ok (d\<lparr>story_views := vs\<rparr>)"
    "board_of (d\<lparr>story_views := vs\<rparr>) =
      (board_of d)(i \<mapsto> p\<lparr>po_seen := (po_seen p)(u \<mapsto> (case po_seen p u of None \<Rightarrow> x | Some y \<Rightarrow> f y))\<rparr>)"
proof -
  let ?x = "case select_one (view_by i u) (story_views d) of None \<Rightarrow> x | Some v \<Rightarrow> f (sv_reaction v)"
  obtain vs where vs: "upsert_view vid now i u x upd d = Inr (d\<lparr>story_views := vs\<rparr>)"
      "\<And>j w. map_option sv_reaction (select_one (view_by j w) vs) =
        (if j = i \<and> w = u then Some ?x else map_option sv_reaction (select_one (view_by j w) (story_views d)))"
      "stories_ok (d\<lparr>story_views := vs\<rparr>)"
    using upsert_view_effect [OF assms(1,3,4), of upd f now x] assms(5) by auto
  obtain q where "s_id q = i" "p = post_of d q"
    using assms(2) by (auto simp: board_of_def dest: select_one_SomeD)
  then have x: "?x = (case po_seen p u of None \<Rightarrow> x | Some y \<Rightarrow> f y)" by (simp add: post_of_def split: option.split)
  show ?thesis by (rule that [OF vs(1,3) board_of_views [OF vs(2) assms(2), unfolded x]])
qed

section \<open>The handlers refine the board\<close>

lemma view_refines:
  assumes "stories_ok (srv_db s)" "request_ok (srv_db s) (ViewStory vid nid now u i)"
    and "h_view_story env vid nid now u i s = (r, s')"
  shows "board_step (user_exists (srv_db s)) (in_contacts (srv_db s)) (ViewStory vid nid now u i) (board_of (srv_db s)) =
      (outcome_of r, board_of (srv_db s')) \<and> stories_ok (srv_db s')"
proof (cases "on_board (board_of (srv_db s)) now i")
  case None
  then show ?thesis
    using assms found_story_board(1) [OF assms(1) None]
    by (auto simp: h_view_story_def and_then_err outcome_of_def)
next
  case (Some p)
  from on_board_story [OF assms(1) Some] obtain q where q: "board_of (srv_db s) i = Some p"
      "found_story now i s = (Inr (story_of_row q), s)" "sto_user_id (story_of_row q) = po_author p"
      "sto_id (story_of_row q) = i"
      "boxed (can_user_view_story now i u) s = (Inr (may_see (in_contacts (srv_db s)) now u p), s)"
      "story_exists (srv_db s) i"
    by metis
  show ?thesis
  proof (cases "po_author p = u \<or> \<not> may_see (in_contacts (srv_db s)) now u p")
    case True
    then show ?thesis
      using assms Some by (auto simp: h_view_story_def and_then_eq q outcome_of_def split: if_splits)
  next
    case False
    obtain vs where vs: "upsert_view vid now i u None (\<lambda>v. v\<lparr>sv_viewed_at := now\<rparr>) (srv_db s) =
          Inr ((srv_db s)\<lparr>story_views := vs\<rparr>)" "stories_ok ((srv_db s)\<lparr>story_views := vs\<rparr>)"
        "board_of ((srv_db s)\<lparr>story_views := vs\<rparr>) = (board_of (srv_db s))(i \<mapsto>
          p\<lparr>po_seen := (po_seen p)(u \<mapsto> (case po_seen p u of None \<Rightarrow> None | Some y \<Rightarrow> y))\<rparr>)"
      by (rule seen_on_board [OF assms(1) q(1,6), where f = "\<lambda>x. x" and u = u and vid = vid and x = None and
          upd = "\<lambda>v. v\<lparr>sv_viewed_at := now\<rparr>" and now = now]) (use assms(2) in auto)
    have m: "boxed (mark_viewed vid now i u) s = (Inr (), s\<lparr>srv_db := (srv_db s)\<lparr>story_views := vs\<rparr>\<rparr>)"
      unfolding mark_viewed_def by (rule boxed_execute_Inr) (rule vs(1))
    let ?n = "\<lparr>nn_user_id = po_author p, nn_type = StoryView,
      nn_data = json_object [(''story_id'', json_uuid env i), (''viewer_id'', json_uuid env u)]\<rparr>"
    let ?job = "\<lparr>job_user_id = po_author p, job_notification_type = ''story_view'', job_payload = StoryViewPush i u\<rparr>"
    obtain s'' n' where n: "and_then (note_quietly nid now ?n) (\<lambda>_. push_if_offline env now ?job)
          (s\<lparr>srv_db := (srv_db s)\<lparr>story_views := vs\<rparr>\<rparr>) = (Inr (), s'')"
        "srv_db s'' = (srv_db s)\<lparr>story_views := vs\<rparr>\<lparr>notifications := n'\<rparr>"
      using notify_author_effect [of nid now ?n env ?job "s\<lparr>srv_db := (srv_db s)\<lparr>story_views := vs\<rparr>\<rparr>"] by auto
    have "h_view_story env vid nid now u i s = (Inr (), s'')"
      using False n(1) by (simp add: h_view_story_def and_then_eq q m)
    then have "r = Inr ()" "srv_db s' = (srv_db s)\<lparr>story_views := vs\<rparr>\<lparr>notifications := n'\<rparr>"
      using assms(3) n(2) by simp_all
    then show ?thesis
      using Some False vs(2,3) by (simp add: outcome_of_def unwrap_or_def)
  qed
qed

lemma react_refines:
  assumes "stories_ok (srv_db s)"
    and "h_react_to_story env vid nid now u i x s = (r, s')"
  shows "board_step (user_exists (srv_db s)) (in_contacts (srv_db s)) (ReactStory vid nid now u i x) (board_of (srv_db s)) =
      (outcome_of r, board_of (srv_db s')) \<and> stories_ok (srv_db s')"
proof (cases "on_board (board_of (srv_db s)) now i")
  case None
  then show ?thesis
    using assms found_story_board(1) [OF assms(1) None]
    by (auto simp: h_react_to_story_def and_then_err outcome_of_def)
next
  case (Some p)
  from on_board_story [OF assms(1) Some] obtain q where q: "board_of (srv_db s) i = Some p"
      "found_story now i s = (Inr (story_of_row q), s)" "sto_user_id (story_of_row q) = po_author p"
      "sto_id (story_of_row q) = i"
      "boxed (can_user_view_story now i u) s = (Inr (may_see (in_contacts (srv_db s)) now u p), s)"
      "story_exists (srv_db s) i" "viewed_by (srv_db s) i u \<longleftrightarrow> po_seen p u \<noteq> None"
    by metis
  have hv: "boxed (has_viewed i u) s = (Inr (po_seen p u \<noteq> None), s)"
    by (simp add: has_viewed_def boxed_query q(7))
  show ?thesis
  proof (cases "po_author p = u \<or> \<not> may_see (in_contacts (srv_db s)) now u p \<or> po_seen p u = None")
    case True
    then show ?thesis
      using assms Some by (auto simp: h_react_to_story_def and_then_eq q hv outcome_of_def split: if_splits)
  next
    case False
    obtain vs where vs: "upsert_view vid now i u (Some x) (\<lambda>v. v\<lparr>sv_reaction := Some x, sv_viewed_at := now\<rparr>)
          (srv_db s) = Inr ((srv_db s)\<lparr>story_views := vs\<rparr>)" "stories_ok ((srv_db s)\<lparr>story_views := vs\<rparr>)"
        "board_of ((srv_db s)\<lparr>story_views := vs\<rparr>) = (board_of (srv_db s))(i \<mapsto>
          p\<lparr>po_seen := (po_seen p)(u \<mapsto> (case po_seen p u of None \<Rightarrow> Some x | Some y \<Rightarrow> Some x))\<rparr>)"
      by (rule seen_on_board [OF assms(1) q(1,6), where f = "\<lambda>_. Some x" and u = u and vid = vid and x = "Some x" and
          upd = "\<lambda>v. v\<lparr>sv_reaction := Some x, sv_viewed_at := now\<rparr>" and now = now]) (use False q(7) in auto)
    have m: "boxed (story_add_reaction vid now i u x) s = (Inr (), s\<lparr>srv_db := (srv_db s)\<lparr>story_views := vs\<rparr>\<rparr>)"
      unfolding story_add_reaction_def by (rule boxed_execute_Inr) (rule vs(1))
    let ?n = "\<lparr>nn_user_id = po_author p, nn_type = StoryReaction,
      nn_data = json_object [(''reaction'', se_json_string env x), (''reactor_id'', json_uuid env u),
        (''story_id'', json_uuid env i)]\<rparr>"
    let ?job = "\<lparr>job_user_id = po_author p, job_notification_type = ''story_reaction'',
      job_payload = StoryReactionPush i u x\<rparr>"
    obtain s'' n' where n: "and_then (note_quietly nid now ?n) (\<lambda>_. push_if_offline env now ?job)
          (s\<lparr>srv_db := (srv_db s)\<lparr>story_views := vs\<rparr>\<rparr>) = (Inr (), s'')"
        "srv_db s'' = (srv_db s)\<lparr>story_views := vs\<rparr>\<lparr>notifications := n'\<rparr>"
      using notify_author_effect [of nid now ?n env ?job "s\<lparr>srv_db := (srv_db s)\<lparr>story_views := vs\<rparr>\<rparr>"] by auto
    have "h_react_to_story env vid nid now u i x s = (Inr (), s'')"
      using False n(1) by (simp add: h_react_to_story_def and_then_eq q hv m)
    then have "r = Inr ()" "srv_db s' = (srv_db s)\<lparr>story_views := vs\<rparr>\<lparr>notifications := n'\<rparr>"
      using assms(2) n(2) by simp_all
    then show ?thesis
      using Some False vs(2,3) by (auto simp: outcome_of_def split: option.splits)
  qed
qed

text \<open>Marking a story as deleted takes it off the board.\<close>

lemma unposted_ok:
  assumes "stories_ok d"
  shows "stories_ok (d\<lparr>stories := update_where P (\<lambda>s. s\<lparr>s_deleted_at := Some now\<rparr>) (stories d)\<rparr>)"
    (is "stories_ok ?d")
proof -
  let ?f = "\<lambda>s. s\<lparr>s_deleted_at := Some now\<rparr>"
  have un: "unique_on s_id (stories ?d)" using stories_okD(1) [OF assms] by (simp add: unique_on_update_where)
  have ex: "story_exists ?d j \<longleftrightarrow> story_exists d j" for j
    by (simp add: story_exists_def exists_where_update_same)
  have st: "\<exists>y\<in>set (stories ?d). s_id y = s_id x \<and> s_privacy y = s_privacy x" if "x \<in> set (stories d)" for x
    using that by (intro bexI [of _ "if P x then ?f x else x"]) (simp_all add: set_update_where)
  have "\<exists>y\<in>set (stories ?d). s_id y = spe_story_id e \<and> (spe_is_excluded e \<longleftrightarrow> s_privacy y = ''contacts_except'')"
    if e: "e \<in> set (story_privacy_exceptions d)" for e
  proof -
    obtain x where "x \<in> set (stories d)" "s_id x = spe_story_id e"
        "spe_is_excluded e \<longleftrightarrow> s_privacy x = ''contacts_except''"
      using assms e unfolding stories_ok_def by blast
    then show ?thesis using st [of x] by auto
  qed
  moreover have "s_privacy x \<in> set story_privacy_values" if "x \<in> set (stories ?d)" for x
    using that stories_okD(2) [OF assms] by (auto elim!: in_update_whereE)
  ultimately show ?thesis
    unfolding stories_ok_def ex using un assms by (simp add: stories_ok_def)
qed

lemma unposted_board:
  assumes "\<And>x. x \<in> set (stories d) \<Longrightarrow> P x \<longleftrightarrow> s_id x = i"
  shows "board_of (d\<lparr>stories := update_where P (\<lambda>s. s\<lparr>s_deleted_at := Some now\<rparr>) (stories d)\<rparr>) =
    (board_of d)(i := None)"
proof -
  let ?f = "\<lambda>s. s\<lparr>s_deleted_at := Some now\<rparr>"
  have l: "select_one (\<lambda>s. s_id s = j \<and> s_deleted_at s = None) (update_where P ?f t) =
      (if j = i then None else select_one (\<lambda>s. s_id s = j \<and> s_deleted_at s = None) t)"
    if "\<forall>x\<in>set t. P x \<longleftrightarrow> s_id x = i" for t j
    using that by (induction t) auto
  have po: "post_of (d\<lparr>stories := update_where P ?f (stories d)\<rparr>) = post_of d" by (rule ext) (simp add: post_of_def)
  show ?thesis
    by (rule ext) (use l [of "stories d"] assms in \<open>simp add: board_of_def po\<close>)
qed

lemma remove_refines:
  assumes "stories_ok (srv_db s)" "h_delete_story now u i s = (r, s')"
  shows "board_step known c (RemoveStory now u i) (board_of (srv_db s)) =
      (outcome_of r, board_of (srv_db s')) \<and> stories_ok (srv_db s')"
proof (cases "on_board (board_of (srv_db s)) now i")
  case None
  then show ?thesis
    using assms found_story_board(1) [OF assms(1) None]
    by (auto simp: h_delete_story_def and_then_err outcome_of_def)
next
  case (Some p)
  from on_board_story [OF assms(1) Some] obtain q where q: "q \<in> set (stories (srv_db s))" "s_id q = i"
      "p = post_of (srv_db s) q" "found_story now i s = (Inr (story_of_row q), s)"
      "sto_user_id (story_of_row q) = po_author p"
    by metis
  show ?thesis
  proof (cases "po_author p = u")
    case False
    then show ?thesis
      using assms Some by (auto simp: h_delete_story_def and_then_eq q(4,5) outcome_of_def)
  next
    case True
    let ?P = "\<lambda>s. s_id s = i \<and> s_user_id s = u"
    let ?d = "(srv_db s)\<lparr>stories := update_where ?P (\<lambda>s. s\<lparr>s_deleted_at := Some now\<rparr>) (stories (srv_db s))\<rparr>"
    have "s_user_id q = u" using True by (simp add: q(3) post_of_def)
    then have "?P x \<longleftrightarrow> s_id x = i" if "x \<in> set (stories (srv_db s))" for x
      using unique_on_eq [OF stories_okD(1) [OF assms(1)] that q(1)] q(2) by auto
    then have b: "board_of ?d = (board_of (srv_db s))(i := None)" by (rule unposted_board)
    have "h_delete_story now u i s = (Inr (), s\<lparr>srv_db := ?d\<rparr>)"
      using True by (simp add: h_delete_story_def and_then_eq q(4,5) boxed_def story_delete_def)
    then show ?thesis
      using assms(2) Some True b unposted_ok [OF assms(1)] by (auto simp: outcome_of_def)
  qed
qed

text \<open>The loop of \<open>create_story\<close>: the state after it, and when it stops with an error.\<close>

definition put_exception :: "uuid \<Rightarrow> bool \<Rightarrow> uuid \<Rightarrow> exception_row list \<Rightarrow> exception_row list" where
  "put_exception i b u t =
     (if exists_where (exception_for i u) t
      then update_where (exception_for i u) (\<lambda>e. e\<lparr>spe_is_excluded := b\<rparr>) t
      else t @ [\<lparr>spe_story_id = i, spe_user_id = u, spe_is_excluded = b\<rparr>])"

lemma add_exceptions_ok:
  assumes "story_exists (srv_db s) i" "\<forall>u\<in>set us. user_exists (srv_db s) u"
  shows "add_exceptions i b us s =
    (Inr (), s\<lparr>srv_db := (srv_db s)\<lparr>story_privacy_exceptions :=
       fold (put_exception i b) us (story_privacy_exceptions (srv_db s))\<rparr>\<rparr>)"
  using assms
proof (induction us arbitrary: s)
  case (Cons u us)
  let ?s = "s\<lparr>srv_db := (srv_db s)\<lparr>story_privacy_exceptions :=
       put_exception i b u (story_privacy_exceptions (srv_db s))\<rparr>\<rparr>"
  have "boxed (add_privacy_exception i u b) s = (Inr (), ?s)"
    unfolding add_privacy_exception_def by (rule boxed_execute_Inr) (use Cons.prems in \<open>simp add: put_exception_def\<close>)
  moreover have "story_exists (srv_db ?s) i" "\<forall>u\<in>set us. user_exists (srv_db ?s) u"
    using Cons.prems by (simp_all add: story_exists_def user_exists_def)
  ultimately show ?case using Cons.IH [of ?s] by (simp add: and_then_eq)
qed simp

lemma add_exceptions_stops:
  assumes "story_exists (srv_db s) i" "\<forall>u\<in>set us. user_exists (srv_db s) u" "\<not> user_exists (srv_db s) v"
    and "\<forall>e\<in>set (story_privacy_exceptions (srv_db s)). spe_story_id e \<noteq> i \<or> user_exists (srv_db s) (spe_user_id e)"
  shows "add_exceptions i b (us @ v # ws) s =
    (Inl (Validation ''Referenced resource not found''), s\<lparr>srv_db := (srv_db s)\<lparr>story_privacy_exceptions :=
       fold (put_exception i b) us (story_privacy_exceptions (srv_db s))\<rparr>\<rparr>)"
  using assms
proof (induction us arbitrary: s)
  case Nil
  have "boxed (add_privacy_exception i v b) s = (Inl (from_sqlx foreign_key_violation), s)"
    unfolding add_privacy_exception_def
    by (rule boxed_execute_Inl) (use Nil.prems in \<open>auto simp: exists_where_iff exception_for_def\<close>)
  then show ?case by (simp add: and_then_err)
next
  case (Cons u us)
  let ?s = "s\<lparr>srv_db := (srv_db s)\<lparr>story_privacy_exceptions :=
       put_exception i b u (story_privacy_exceptions (srv_db s))\<rparr>\<rparr>"
  have "boxed (add_privacy_exception i u b) s = (Inr (), ?s)"
    unfolding add_privacy_exception_def by (rule boxed_execute_Inr) (use Cons.prems in \<open>simp add: put_exception_def\<close>)
  moreover have "story_exists (srv_db ?s) i" "\<forall>u\<in>set us. user_exists (srv_db ?s) u" "\<not> user_exists (srv_db ?s) v"
    using Cons.prems by (simp_all add: story_exists_def user_exists_def)
  moreover have "\<forall>e\<in>set (story_privacy_exceptions (srv_db ?s)).
      spe_story_id e \<noteq> i \<or> user_exists (srv_db ?s) (spe_user_id e)"
    using Cons.prems by (auto simp: put_exception_def user_exists_def elim!: in_update_whereE)
  ultimately show ?case using Cons.IH [of ?s] by (simp add: and_then_eq)
qed

lemma exists_put_exception:
  "exists_where (exception_for j w) (put_exception i b u t) \<longleftrightarrow>
     exists_where (exception_for j w) t \<or> j = i \<and> w = u"
proof -
  have "exists_where (exception_for j w) (update_where (exception_for i u) (\<lambda>e. e\<lparr>spe_is_excluded := b\<rparr>) t) =
      exists_where (exception_for j w) t"
    by (rule exists_where_update_same) (simp add: exception_for_def)
  then show ?thesis
    by (auto simp: put_exception_def exists_where_iff exception_for_def)
qed

lemma exists_put_exceptions:
  "exists_where (exception_for j w) (fold (put_exception i b) us t) \<longleftrightarrow>
     exists_where (exception_for j w) t \<or> j = i \<and> w \<in> set us"
  by (induction us arbitrary: t) (auto simp: exists_put_exception)

lemma in_put_exceptions:
  "e \<in> set (fold (put_exception i b) us t) \<Longrightarrow>
     e \<in> set t \<or> spe_story_id e = i \<and> spe_is_excluded e = b"
proof (induction us arbitrary: t)
  case (Cons u us)
  then have "e \<in> set (put_exception i b u t) \<or> spe_story_id e = i \<and> spe_is_excluded e = b" by simp
  then show ?case
    by (auto simp: put_exception_def exception_for_def elim!: in_update_whereE split: if_splits)
qed simp

text \<open>A new story with the exceptions \<open>us\<close>, as a change of the tables and of the board.\<close>

definition posted_row :: "uuid \<Rightarrow> timestamp \<Rightarrow> uuid \<Rightarrow> create_story_request \<Rightarrow> story_row" where
  "posted_row i now u req =
     \<lparr>s_id = i, s_user_id = u, s_content_url = cr_content_url req, s_content_type = cr_content_type req,
      s_caption = cr_caption req, s_privacy = cr_privacy req, s_created_at = now,
      s_expires_at = now + story_lifetime, s_deleted_at = None\<rparr>"

definition with_story :: "uuid \<Rightarrow> timestamp \<Rightarrow> uuid \<Rightarrow> create_story_request \<Rightarrow> uuid list \<Rightarrow> db \<Rightarrow> db" where
  "with_story i now u req us d =
     d\<lparr>stories := stories d @ [posted_row i now u req],
       story_privacy_exceptions :=
         fold (put_exception i (cr_privacy req = ''contacts_except'')) us (story_privacy_exceptions d)\<rparr>"

lemma with_story_board:
  assumes "stories_ok d" "\<not> story_exists d i" "cr_privacy req \<in> set valid_privacy_values"
  shows "board_of (with_story i now u req us d) = (board_of d)
      (i \<mapsto> \<lparr>po_author = u, po_audience = audience_of (cr_privacy req), po_named = set us,
             po_until = now + story_lifetime, po_seen = (\<lambda>_. None)\<rparr>)"
    and "stories_ok (with_story i now u req us d)"
proof -
  let ?d = "with_story i now u req us d" and ?r = "posted_row i now u req"
  have n: "s_id s \<noteq> i" if "s \<in> set (stories d)" for s
    using assms(2) that by (auto simp: story_exists_def exists_where_iff)
  have e: "\<not> exists_where (exception_for i w) (story_privacy_exceptions d)" for w
    using stories_okD(4) [OF assms(1)] assms(2) by (auto simp: exists_where_iff exception_for_def)
  have v: "select_one (view_by i w) (story_views d) = None" for w
    using stories_okD(5) [OF assms(1)] assms(2) by (auto simp: select_one_None_iff view_by_def)
  have old: "post_of ?d s = post_of d s" if "s_id s \<noteq> i" for s
    using that by (simp add: post_of_def with_story_def exists_put_exceptions)
  have new: "post_of ?d ?r = \<lparr>po_author = u, po_audience = audience_of (cr_privacy req), po_named = set us,
             po_until = now + story_lifetime, po_seen = (\<lambda>_. None)\<rparr>"
    by (simp add: post_of_def with_story_def exists_put_exceptions posted_row_def e v)
  show "board_of ?d = (board_of d)
      (i \<mapsto> \<lparr>po_author = u, po_audience = audience_of (cr_privacy req), po_named = set us,
             po_until = now + story_lifetime, po_seen = (\<lambda>_. None)\<rparr>)" (is "_ = ?b")
  proof
    fix j
    have st: "stories ?d = stories d @ [?r]" by (simp add: with_story_def)
    show "board_of ?d j = ?b j"
    proof (cases "j = i")
      case True
      have "select_one (\<lambda>s. s_id s = i \<and> s_deleted_at s = None) (stories d) = None"
        using n by (auto simp: select_one_None_iff)
      then show ?thesis using True new by (simp add: board_of_def st select_one_append posted_row_def)
    next
      case False
      then have "select_one (\<lambda>s. s_id s = j \<and> s_deleted_at s = None) (stories ?d) =
          select_one (\<lambda>s. s_id s = j \<and> s_deleted_at s = None) (stories d)"
        by (simp add: st select_one_append posted_row_def)
      moreover have "post_of ?d s = post_of d s"
        if "select_one (\<lambda>s. s_id s = j \<and> s_deleted_at s = None) (stories d) = Some s" for s
        using select_one_SomeD [OF that] False by (intro old) auto
      ultimately show ?thesis
        using False by (cases "select_one (\<lambda>s. s_id s = j \<and> s_deleted_at s = None) (stories d)")
          (simp_all add: board_of_def)
    qed
  qed
  show "stories_ok ?d"
  proof -
    have "unique_on s_id (stories ?d)"
      using stories_okD(1) [OF assms(1)] n by (auto simp: with_story_def unique_on_snoc posted_row_def)
    moreover have "\<exists>s\<in>set (stories ?d). s_id s = spe_story_id x \<and> (spe_is_excluded x \<longleftrightarrow> s_privacy s = ''contacts_except'')"
      if "x \<in> set (story_privacy_exceptions ?d)" for x
    proof -
      have "x \<in> set (story_privacy_exceptions d) \<or>
          spe_story_id x = i \<and> spe_is_excluded x = (cr_privacy req = ''contacts_except'')"
        using that by (simp add: with_story_def) (rule in_put_exceptions)
      then show ?thesis using assms(1) by (auto simp: stories_ok_def with_story_def posted_row_def)
    qed
    moreover have "story_exists ?d (sv_story_id x)" if "x \<in> set (story_views ?d)" for x
      using that stories_okD(5) [OF assms(1)]
      by (auto simp: with_story_def story_exists_def exists_where_iff)
    moreover have "s_privacy s \<in> set story_privacy_values" if "s \<in> set (stories ?d)" for s
      using that stories_okD(2) [OF assms(1)] assms(3)
      by (auto simp: with_story_def posted_row_def valid_privacy_values_def story_privacy_values_def)
    ultimately show ?thesis by (simp add: stories_ok_def)
  qed
qed

lemma story_create_posted:
  assumes "cr_privacy req \<in> set valid_privacy_values" "\<not> story_exists (srv_db s) i" "user_exists (srv_db s) u"
  shows "boxed (story_create i now u (cr_content_url req) (cr_content_type req) (cr_caption req) (cr_privacy req)) s =
    (Inr (story_of_row (posted_row i now u req)),
     s\<lparr>srv_db := (srv_db s)\<lparr>stories := stories (srv_db s) @ [posted_row i now u req]\<rparr>\<rparr>)"
proof -
  have "enum_cast story_privacy_values (cr_privacy req) = Inr (cr_privacy req)"
    using assms(1) by (simp add: enum_cast_def story_privacy_values_def valid_privacy_values_def)
  then show ?thesis
    using assms(2,3) by (simp add: boxed_def story_create_def posted_row_def story_exists_def Let_def)
qed

text \<open>The list of exceptions is stored up to the first unknown user.\<close>

lemma add_exceptions_prefix:
  assumes "story_exists (srv_db s) i"
    and "\<forall>e\<in>set (story_privacy_exceptions (srv_db s)). spe_story_id e \<noteq> i"
  shows "add_exceptions i b us s =
    (if list_all (user_exists (srv_db s)) us then Inr () else Inl (Validation ''Referenced resource not found''),
     s\<lparr>srv_db := (srv_db s)\<lparr>story_privacy_exceptions :=
       fold (put_exception i b) (takeWhile (user_exists (srv_db s)) us) (story_privacy_exceptions (srv_db s))\<rparr>\<rparr>)"
proof (cases "list_all (user_exists (srv_db s)) us")
  case True
  then have all: "\<forall>u\<in>set us. user_exists (srv_db s) u" by (simp add: list_all_iff)
  then have whole: "takeWhile (user_exists (srv_db s)) us = us" by (simp add: takeWhile_eq_all_conv)
  show ?thesis unfolding add_exceptions_ok [OF assms(1) all] whole if_P [OF True] by (rule refl)
next
  case False
  let ?known = "takeWhile (user_exists (srv_db s)) us"
  have "dropWhile (user_exists (srv_db s)) us \<noteq> []" using False by (simp add: list_all_iff)
  then obtain v ws where v: "dropWhile (user_exists (srv_db s)) us = v # ws" unfolding neq_Nil_conv by blast
  have us: "?known @ v # ws = us" using takeWhile_dropWhile_id [of "user_exists (srv_db s)" us] unfolding v .
  have no: "\<not> user_exists (srv_db s) v" using hd_dropWhile [of "user_exists (srv_db s)" us] v by simp
  have "add_exceptions i b (?known @ v # ws) s =
    (Inl (Validation ''Referenced resource not found''), s\<lparr>srv_db := (srv_db s)\<lparr>story_privacy_exceptions :=
       fold (put_exception i b) ?known (story_privacy_exceptions (srv_db s))\<rparr>\<rparr>)"
    by (rule add_exceptions_stops [OF assms(1) _ no]) (use assms(2) in \<open>auto dest: set_takeWhileD\<close>)
  then show ?thesis unfolding us by (simp add: False)
qed

lemma post_refines:
  assumes "stories_ok (srv_db s)" "request_ok (srv_db s) (PostStory i now u req)"
    and "h_create_story i now u req s = (r, s')"
  shows "board_step (user_exists (srv_db s)) c (PostStory i now u req) (board_of (srv_db s)) =
      (outcome_of r, board_of (srv_db s')) \<and> stories_ok (srv_db s')"
proof (cases "cr_privacy req \<in> set valid_privacy_values")
  case False
  then show ?thesis using assms by (auto simp: h_create_story_def is_valid_privacy_def outcome_of_def)
next
  case True
  let ?us = "unwrap_or (cr_exceptions req) []" and ?r = "posted_row i now u req"
  let ?known = "takeWhile (user_exists (srv_db s)) ?us" and ?all = "list_all (user_exists (srv_db s)) ?us"
  let ?s = "s\<lparr>srv_db := (srv_db s)\<lparr>stories := stories (srv_db s) @ [?r]\<rparr>\<rparr>"
  have known: "user_exists ((srv_db s)\<lparr>stories := x\<rparr>) = user_exists (srv_db s)" for x
    by (simp add: fun_eq_iff user_exists_def)
  have "\<forall>e\<in>set (story_privacy_exceptions (srv_db s)). spe_story_id e \<noteq> i"
    using assms(1,2) by (auto simp: stories_ok_def story_exists_def exists_where_iff)
  then have a: "add_exceptions i (cr_privacy req = ''contacts_except'') ?us ?s =
      (if ?all then Inr () else Inl (Validation ''Referenced resource not found''),
       s\<lparr>srv_db := with_story i now u req ?known (srv_db s)\<rparr>)"
    by (subst add_exceptions_prefix)
      (simp_all add: known with_story_def story_exists_def exists_where_iff posted_row_def)
  have "h_create_story i now u req s =
      (if ?all then Inr (i, now + story_lifetime) else Inl (Validation ''Referenced resource not found''),
       s\<lparr>srv_db := with_story i now u req ?known (srv_db s)\<rparr>)"
    using assms(2) True a
    by (simp add: h_create_story_def is_valid_privacy_def and_then_eq story_create_posted)
      (simp add: story_of_row_def posted_row_def and_then_eq and_then_err)
  then show ?thesis
    using assms(2,3) True with_story_board [OF assms(1) _ True, of i now u ?known]
    by (auto simp: outcome_of_def)
qed

text \<open>
  C11. The story handlers refine the bulletin board: every request of an existing user, whose new ids are
  fresh, answers as the board does and takes the board of the database to the board after the step, so a
  view or a reaction is recorded exactly for a live post whose audience the caller belongs to. A post
  that names an unknown user is refused and stays all the same, with the people named before him. The
  audiences are the five modes of the code and the README, not those of the API document.
\<close>

theorem stories_refine_board:
  assumes "stories_ok (srv_db s)" "request_ok (srv_db s) req" "story_step env req s = (out, s')"
  shows "board_step (user_exists (srv_db s)) (in_contacts (srv_db s)) req (board_of (srv_db s)) = (out, board_of (srv_db s')) \<and>
    stories_ok (srv_db s')"
proof (cases req)
  case (PostStory i now u r)
  obtain a t where h: "h_create_story i now u r s = (a, t)" by fastforce
  have "out = outcome_of a" "s' = t" using assms(3) by (simp_all add: PostStory h)
  then show ?thesis using post_refines [OF assms(1) assms(2) [unfolded PostStory] h] by (simp only: PostStory simp_thms)
next
  case (RemoveStory now u i)
  obtain a t where h: "h_delete_story now u i s = (a, t)" by fastforce
  have "out = outcome_of a" "s' = t" using assms(3) by (simp_all add: RemoveStory h)
  then show ?thesis using remove_refines [OF assms(1) h] by (simp only: RemoveStory simp_thms)
next
  case (ViewStory vid nid now u i)
  obtain a t where h: "h_view_story env vid nid now u i s = (a, t)" by fastforce
  have "out = outcome_of a" "s' = t" using assms(3) by (simp_all add: ViewStory h)
  then show ?thesis using view_refines [OF assms(1) assms(2) [unfolded ViewStory] h] by (simp only: ViewStory simp_thms)
next
  case (ReactStory vid nid now u i x)
  obtain a t where h: "h_react_to_story env vid nid now u i x s = (a, t)" by fastforce
  have "out = outcome_of a" "s' = t" using assms(3) by (simp_all add: ReactStory h)
  then show ?thesis using react_refines [OF assms(1) h] by (simp only: ReactStory simp_thms)
qed

end
