(* ===== verification/StoryFeed.thy ===== *)
theory StoryFeed
  imports StoryProps
begin

text \<open>
  The feed of stories: grouping by author, its order, and that it shows exactly the part of the board that
  the viewer may see; then a run of the stories' handlers on a small database and what goes wrong when
  the list of exceptions names an unknown user.
\<close>

section \<open>The feed\<close>

lemma push_story_users:
  assumes "distinct (map gr_user_id gs)"
  shows "distinct (map gr_user_id (push_story s gs))"
    and "gr_user_id ` set (push_story s gs) = insert (sw_user_id s) (gr_user_id ` set gs)"
proof -
  show i: "gr_user_id ` set (push_story s gs) = insert (sw_user_id s) (gr_user_id ` set gs)" for gs
    by (induction gs) auto
  show "distinct (map gr_user_id (push_story s gs))"
    using assms
  proof (induction gs)
    case (Cons g gs)
    have "set (map gr_user_id (push_story s gs)) = insert (sw_user_id s) (set (map gr_user_id gs))"
      using i by simp
    then show ?case using Cons by auto
  qed simp
qed

lemma push_story_group:
  assumes "g \<in> set (push_story s gs)" "distinct (map gr_user_id gs)"
    and "\<And>h. h \<in> set gs \<Longrightarrow> gr_stories h = items (gr_user_id h)"
    and "sw_user_id s \<notin> gr_user_id ` set gs \<Longrightarrow> items (sw_user_id s) = []"
  shows "gr_stories g = items (gr_user_id g) @ (if gr_user_id g = sw_user_id s then [story_item s] else [])"
  using assms
proof (induction gs)
  case (Cons h gs)
  show ?case
  proof (cases "gr_user_id h = sw_user_id s")
    case True
    then show ?thesis using Cons.prems by force
  next
    case False
    then show ?thesis using Cons by (cases "g = h") auto
  qed
qed simp

lemma group_stories_spec:
  "distinct (map gr_user_id (group_stories ss)) \<and>
   gr_user_id ` set (group_stories ss) = sw_user_id ` set ss \<and>
   (\<forall>g\<in>set (group_stories ss).
      gr_stories g = map story_item (filter (\<lambda>s. sw_user_id s = gr_user_id g) ss))"
proof (induction ss rule: rev_induct)
  case (snoc s ss)
  have g: "group_stories (ss @ [s]) = push_story s (group_stories ss)" by (simp add: group_stories_def)
  have e: "map story_item (filter (\<lambda>x. sw_user_id x = sw_user_id s) ss) = []"
    if n: "sw_user_id s \<notin> gr_user_id ` set (group_stories ss)"
  proof -
    have "sw_user_id s \<notin> sw_user_id ` set ss" using n snoc by simp
    then show ?thesis by (simp add: filter_empty_conv) (metis imageI)
  qed
  have "gr_stories h = map story_item (filter (\<lambda>s. sw_user_id s = gr_user_id h) (ss @ [s]))"
    if h: "h \<in> set (push_story s (group_stories ss))" for h
    using push_story_group [OF h, where items = "\<lambda>u. map story_item (filter (\<lambda>s. sw_user_id s = u) ss)"]
      snoc e by simp
  then show ?case using snoc push_story_users [of "group_stories ss" s] by (simp add: g)
qed (simp add: group_stories_def)

lemma sort_key_bool: "sort_key f xs = filter (\<lambda>x. \<not> f x) xs @ filter f xs" for f :: "'a \<Rightarrow> bool"
proof (induction xs)
  case (Cons x xs)
  have i: "insort_key f x (filter (\<lambda>x. \<not> f x) ys @ filter f xs) =
      (if f x then filter (\<lambda>x. \<not> f x) ys @ x # filter f xs else x # filter (\<lambda>x. \<not> f x) ys @ filter f xs)" for ys
  proof (induction ys)
    case Nil
    then show ?case by (cases "filter f xs") (auto dest!: arg_cong [where f = set])
  qed auto
  show ?case using i [of xs] Cons.IH by simp
qed simp

text \<open>The order of the feed: unseen before seen, and newest first among each.\<close>

definition feed_before :: "user_story_item \<Rightarrow> user_story_item \<Rightarrow> bool" where
  "feed_before x y \<longleftrightarrow>
     (\<not> si_has_viewed x \<or> si_has_viewed y) \<and>
     (si_has_viewed x = si_has_viewed y \<longrightarrow> si_created_at y \<le> si_created_at x)"

lemma order_by_desc_weak: "sorted_wrt (\<lambda>x y. k y \<le> k x) (order_by_desc k t)"
proof -
  have "sorted (map k (sort_key k t))" by simp
  then show ?thesis by (simp add: order_by_desc_def sorted_wrt_rev sorted_map)
qed

lemma feed_rows_sorted:
  "sorted_wrt (\<lambda>x y. (\<not> viewed_by d (s_id x) v \<or> viewed_by d (s_id y) v) \<and>
     (viewed_by d (s_id x) v = viewed_by d (s_id y) v \<longrightarrow> s_created_at y \<le> s_created_at x)) (feed_rows now v d)"
proof -
  let ?xs = "order_by_desc s_created_at (select_where (story_visible d now v) (stories d))"
  have s: "sorted_wrt (\<lambda>x y. s_created_at y \<le> s_created_at x) (filter P ?xs)" for P
    by (rule sorted_wrt_filter) (rule order_by_desc_weak)
  have "sorted_wrt (\<lambda>x y. (\<not> f x \<or> f y) \<and> (f x = f y \<longrightarrow> s_created_at y \<le> s_created_at x)) (sort_key f ?xs)"
    for f :: "story_row \<Rightarrow> bool"
    unfolding sort_key_bool sorted_wrt_append
    using s [of f] s [of "\<lambda>x. \<not> f x"] by (auto elim!: sorted_wrt_mono_rel [rotated])
  then show ?thesis by (simp add: feed_rows_def)
qed

lemma set_feed_rows: "set (feed_rows now v d) = {s \<in> set (stories d). story_visible d now v s}"
  by (simp add: feed_rows_def set_select_where)

lemma distinct_feed_rows:
  assumes "stories_ok d"
  shows "distinct (map s_id (feed_rows now v d))"
proof -
  have u: "distinct (map s_id (stories d))" using stories_okD(1) [OF assms] by (simp add: unique_on_def)
  then have "distinct (feed_rows now v d)"
    by (simp add: feed_rows_def select_where_def distinct_map order_by_desc_def)
  moreover have "inj_on s_id (set (feed_rows now v d))"
    using u by (auto simp: set_feed_rows distinct_map intro: inj_on_subset)
  ultimately show ?thesis by (simp add: distinct_map)
qed

text \<open>The item of a row in the feed of \<open>v\<close>.\<close>

definition row_item :: "db \<Rightarrow> uuid \<Rightarrow> story_row \<Rightarrow> user_story_item" where
  "row_item d v s =
     \<lparr>si_id = s_id s, si_content_url = s_content_url s, si_content_type = s_content_type s,
      si_caption = s_caption s, si_privacy = s_privacy s, si_created_at = s_created_at s,
      si_expires_at = s_expires_at s, si_has_viewed = viewed_by d (s_id s) v\<rparr>"

lemma list_for_user_rows:
  assumes "\<forall>s\<in>set (stories d). user_exists d (s_user_id s)"
  shows "\<exists>f. list_for_user now v d = (Inr (map f (feed_rows now v d)), d) \<and>
    (\<forall>s. sw_user_id (f s) = s_user_id s \<and> story_item (f s) = row_item d v s)"
proof -
  let ?f = "\<lambda>s. case story_with_author d (viewed_by d (s_id s) v) s of
      Some x \<Rightarrow> x | None \<Rightarrow> \<lparr>sw_id = s_id s, sw_user_id = s_user_id s, sw_content_url = s_content_url s,
        sw_content_type = s_content_type s, sw_caption = s_caption s, sw_privacy = s_privacy s,
        sw_created_at = s_created_at s, sw_expires_at = s_expires_at s, sw_username = None,
        sw_display_name = None, sw_avatar_url = None, sw_has_viewed = viewed_by d (s_id s) v\<rparr>"
  have e: "account_of d (s_user_id s) \<noteq> None" if "s \<in> set (feed_rows now v d)" for s
    using assms that
    by (auto simp: set_feed_rows account_of_def select_one_None_iff user_exists_def exists_where_iff)
  have "List.map_filter (\<lambda>s. story_with_author d (viewed_by d (s_id s) v) s) rs = map ?f rs"
    if "set rs \<subseteq> set (feed_rows now v d)" for rs
    using that
  proof (induction rs)
    case (Cons s rs)
    then obtain a where "account_of d (s_user_id s) = Some a" using e [of s] by auto
    with Cons show ?case by (simp add: story_with_author_def)
  qed (simp add: List.map_filter_def)
  then have "list_for_user now v d = (Inr (map ?f (feed_rows now v d)), d)"
    by (simp add: list_for_user_def)
  moreover have "\<forall>s. sw_user_id (?f s) = s_user_id s \<and> story_item (?f s) = row_item d v s"
    by (auto simp: story_with_author_def story_item_def row_item_def split: option.split)
  ultimately show ?thesis by blast
qed

lemma visible_board:
  assumes "stories_ok d"
  shows "{(s_user_id r, s_id r, viewed_by d (s_id r) v) | r. r \<in> set (stories d) \<and> story_visible d now v r} =
    {(po_author p, i, po_seen p v \<noteq> None) | i p. board_of d i = Some p \<and> may_see (in_contacts d) now v p}"
    (is "?A = ?B")
proof (intro equalityI subsetI)
  have seen: "viewed_by d (s_id r) v \<longleftrightarrow> po_seen (post_of d r) v \<noteq> None" for r
    by (simp add: viewed_by_def post_of_def exists_where_iff select_one_None_iff)
  fix x
  assume "x \<in> ?A"
  then obtain r where r: "r \<in> set (stories d)" "story_visible d now v r"
      "x = (s_user_id r, s_id r, viewed_by d (s_id r) v)" by blast
  then have del: "s_deleted_at r = None" by (simp add: story_visible_def story_live_def)
  have "select_one (\<lambda>s. s_id s = s_id r \<and> s_deleted_at s = None) (stories d) = Some r"
    by (rule select_one_unique [OF stories_okD(1) [OF assms] r(1)])
      (use unique_on_eq [OF stories_okD(1) [OF assms] _ r(1)] del in metis)
  then have "board_of d (s_id r) = Some (post_of d r)" by (simp add: board_of_def)
  moreover have "may_see (in_contacts d) now v (post_of d r)"
    using story_visible_may_see [OF assms r(1) del] r(2) by simp
  moreover have "x = (po_author (post_of d r), s_id r, po_seen (post_of d r) v \<noteq> None)"
    using r(3) seen [of r] by (simp add: post_of_def)
  ultimately show "x \<in> ?B" by blast
next
  have seen: "viewed_by d (s_id r) v \<longleftrightarrow> po_seen (post_of d r) v \<noteq> None" for r
    by (simp add: viewed_by_def post_of_def exists_where_iff select_one_None_iff)
  fix x
  assume "x \<in> ?B"
  then obtain i p where p: "board_of d i = Some p" "may_see (in_contacts d) now v p"
      "x = (po_author p, i, po_seen p v \<noteq> None)" by blast
  obtain r where r: "select_one (\<lambda>s. s_id s = i \<and> s_deleted_at s = None) (stories d) = Some r" "p = post_of d r"
    using p(1) by (auto simp: board_of_def)
  have m: "r \<in> set (stories d)" "s_id r = i" "s_deleted_at r = None" using select_one_SomeD [OF r(1)] by auto
  have "story_visible d now v r" using story_visible_may_see [OF assms m(1,3)] p(2) r(2) by simp
  moreover have "x = (s_user_id r, s_id r, viewed_by d (s_id r) v)"
    using p(3) r(2) m(2) seen [of r] by (simp add: post_of_def)
  ultimately show "x \<in> ?A" using m(1) by blast
qed

text \<open>The groups of the feed: one per author, with that author's visible stories in feed order.\<close>

lemma feed_groups:
  assumes "\<forall>r\<in>set (stories (srv_db s)). user_exists (srv_db s) (s_user_id r)"
  obtains gs where "h_list_stories now v s = (Inr gs, s)" "distinct (map gr_user_id gs)"
    "\<forall>g\<in>set gs. gr_stories g =
       map (row_item (srv_db s) v) (filter (\<lambda>r. s_user_id r = gr_user_id g) (feed_rows now v (srv_db s)))"
    "gr_user_id ` set gs = s_user_id ` set (feed_rows now v (srv_db s))"
proof -
  let ?d = "srv_db s"
  let ?rows = "feed_rows now v ?d"
  obtain f where f: "list_for_user now v ?d = (Inr (map f ?rows), ?d)"
      "\<forall>r. sw_user_id (f r) = s_user_id r \<and> story_item (f r) = row_item ?d v r"
    using list_for_user_rows [OF assms] by blast
  let ?gs = "group_stories (map f ?rows)"
  note gs = group_stories_spec [of "map f ?rows"]
  show ?thesis
  proof (rule that [of ?gs])
    show "h_list_stories now v s = (Inr ?gs, s)" by (simp add: h_list_stories_def boxed_ok f(1) and_then_eq)
    show "distinct (map gr_user_id ?gs)" using gs by simp
    show "\<forall>g\<in>set ?gs. gr_stories g = map (row_item ?d v) (filter (\<lambda>r. s_user_id r = gr_user_id g) ?rows)"
      using gs f(2) by (simp add: filter_map comp_def)
    show "gr_user_id ` set ?gs = s_user_id ` set ?rows" using gs f(2) by (simp add: image_image)
  qed
qed

text \<open>What groups of that kind show.\<close>

lemma groups_show:
  assumes items: "\<And>g. g \<in> set gs \<Longrightarrow>
      gr_stories g = map (row_item d v) (filter (\<lambda>r. s_user_id r = gr_user_id g) (feed_rows now v d))"
    and users: "gr_user_id ` set gs = s_user_id ` set (feed_rows now v d)"
  shows "{(gr_user_id g, si_id x, si_has_viewed x) | g x. g \<in> set gs \<and> x \<in> set (gr_stories g)} =
    {(s_user_id r, s_id r, viewed_by d (s_id r) v) | r. r \<in> set (stories d) \<and> story_visible d now v r}"
    (is "?A = ?B")
proof (intro equalityI subsetI)
  fix x
  assume "x \<in> ?A"
  then obtain g y where g: "g \<in> set gs" "y \<in> set (gr_stories g)" "x = (gr_user_id g, si_id y, si_has_viewed y)"
    by blast
  then obtain r where r: "r \<in> set (feed_rows now v d)" "s_user_id r = gr_user_id g" "y = row_item d v r"
    by (auto simp: items)
  then have "x = (s_user_id r, s_id r, viewed_by d (s_id r) v)" using g(3) by (simp add: row_item_def)
  then show "x \<in> ?B" using r(1) by (auto simp: set_feed_rows)
next
  fix x
  assume "x \<in> ?B"
  then obtain r where r: "r \<in> set (feed_rows now v d)" "x = (s_user_id r, s_id r, viewed_by d (s_id r) v)"
    by (auto simp: set_feed_rows)
  then have "s_user_id r \<in> gr_user_id ` set gs" by (simp add: users)
  then obtain g where g: "g \<in> set gs" "gr_user_id g = s_user_id r" by auto
  then have "row_item d v r \<in> set (gr_stories g)" using r(1) by (simp add: items)
  moreover have "x = (gr_user_id g, si_id (row_item d v r), si_has_viewed (row_item d v r))"
    using r(2) g(2) by (simp add: row_item_def)
  ultimately show "x \<in> ?A" using g(1) by blast
qed

lemma group_order:
  assumes "stories_ok d"
    and "gr_stories g = map (row_item d v) (filter (\<lambda>r. s_user_id r = gr_user_id g) (feed_rows now v d))"
  shows "distinct (map si_id (gr_stories g)) \<and> sorted_wrt feed_before (gr_stories g)"
proof
  show "distinct (map si_id (gr_stories g))"
    using distinct_feed_rows [OF assms(1), of now v]
    by (simp add: assms(2) row_item_def comp_def distinct_map_filter)
  show "sorted_wrt feed_before (gr_stories g)"
    unfolding assms(2) sorted_wrt_map
    by (rule sorted_wrt_filter)
      (use feed_rows_sorted [of d v now] in \<open>simp add: feed_before_def row_item_def\<close>)
qed

text \<open>
  C18. The feed of a user is exactly the part of the board that he may see: one group per author, in the
  group of an author each visible post once with whether the user has seen it, unseen before seen and
  newest first. The audiences are those of the code and the README: for \<open>contacts\<close> the exceptions of a
  post are not looked at (the API document calls them a block-list there), and the posts for everyone of
  people who are no contacts are part of the feed.
\<close>

theorem feed_is_visible_board:
  assumes "stories_ok (srv_db s)" "\<forall>r\<in>set (stories (srv_db s)). user_exists (srv_db s) (s_user_id r)"
  shows "\<exists>gs. h_list_stories now v s = (Inr gs, s) \<and> distinct (map gr_user_id gs) \<and>
    {(gr_user_id g, si_id x, si_has_viewed x) | g x. g \<in> set gs \<and> x \<in> set (gr_stories g)} =
      {(po_author p, i, po_seen p v \<noteq> None) | i p.
         board_of (srv_db s) i = Some p \<and> may_see (in_contacts (srv_db s)) now v p} \<and>
    (\<forall>g\<in>set gs. distinct (map si_id (gr_stories g)) \<and> sorted_wrt feed_before (gr_stories g))"
proof -
  obtain gs where gs: "h_list_stories now v s = (Inr gs, s)" "distinct (map gr_user_id gs)"
    and all: "\<forall>g\<in>set gs. gr_stories g =
       map (row_item (srv_db s) v) (filter (\<lambda>r. s_user_id r = gr_user_id g) (feed_rows now v (srv_db s)))"
    and users: "gr_user_id ` set gs = s_user_id ` set (feed_rows now v (srv_db s))"
    by (rule feed_groups [OF assms(2), where now = now and v = v])
  have items: "gr_stories g =
      map (row_item (srv_db s) v) (filter (\<lambda>r. s_user_id r = gr_user_id g) (feed_rows now v (srv_db s)))"
    if "g \<in> set gs" for g
    using all that by blast
  note shown = groups_show [OF items users, unfolded visible_board [OF assms(1)]]
  show ?thesis
    by (rule exI [of _ gs]) (intro conjI ballI gs shown group_order [OF assms(1) items, THEN conjunct1]
      group_order [OF assms(1) items, THEN conjunct2])
qed

section \<open>A run\<close>

text \<open>Users 1, 2 and 3; user 1 has 2 and 3 in the contacts.\<close>

definition sample_story_env :: story_env where
  "sample_story_env = \<lparr>se_redis = ue_redis sample_user_env, se_json_string = (\<lambda>s. s)\<rparr>"

definition contact_of_1 :: "uuid \<Rightarrow> contact_row" where
  "contact_of_1 u = \<lparr>co_id = u, co_owner_id = 1, co_contact_id = Some u, co_phone = '''', co_nickname = None,
     co_is_favorite = False, co_created_at = 0\<rparr>"

definition circle :: srv where
  "circle = no_users\<lparr>srv_db := empty_db\<lparr>
     users := [sample_user 1 ''+1000000001'', sample_user 2 ''+1000000002'', sample_user 3 ''+1000000003''],
     contacts := [contact_of_1 2, contact_of_1 3]\<rparr>\<rparr>"

definition not_for :: "uuid list \<Rightarrow> create_story_request" where
  "not_for us = \<lparr>cr_content_url = ''u'', cr_content_type = ''image'', cr_caption = None,
     cr_privacy = ''contacts_except'', cr_exceptions = Some us\<rparr>"

definition posted :: srv where
  "posted = snd (h_create_story 50 1 1 (not_for [3]) circle)"

lemma circle_ok: "stories_ok (srv_db circle)"
  by (simp add: stories_ok_def circle_def no_users_def empty_db_def)

lemma posted_run: "story_step sample_story_env (PostStory 50 1 1 (not_for [3])) circle = (Done, posted)"
proof -
  have "outcome_of (fst (h_create_story 50 1 1 (not_for [3]) circle)) = Done" by code_simp
  then show ?thesis by (cases "h_create_story 50 1 1 (not_for [3]) circle") (simp add: posted_def)
qed

lemma posted_ok: "stories_ok (srv_db posted)"
proof -
  have "request_ok (srv_db circle) (PostStory 50 1 1 (not_for [3]))" by code_simp
  then show ?thesis
    using post_refines [OF circle_ok, of 50 1 1 "not_for [3]" "fst (h_create_story 50 1 1 (not_for [3]) circle)" posted]
    by (simp add: posted_def)
qed

theorem stories_refine_board_witness:
  "board_step (user_exists (srv_db circle)) (in_contacts (srv_db circle)) (PostStory 50 1 1 (not_for [9, 3])) (board_of (srv_db circle)) =
     (Refused, board_of (srv_db (snd (story_step sample_story_env (PostStory 50 1 1 (not_for [9, 3])) circle)))) \<and>
   story_step sample_story_env (ViewStory 60 61 2 2 50) posted =
     (Done, snd (story_step sample_story_env (ViewStory 60 61 2 2 50) posted)) \<and>
   board_step (user_exists (srv_db posted)) (in_contacts (srv_db posted)) (ViewStory 60 61 2 2 50) (board_of (srv_db posted)) =
     (Done, board_of (srv_db (snd (story_step sample_story_env (ViewStory 60 61 2 2 50) posted)))) \<and>
   board_step (user_exists (srv_db posted)) (in_contacts (srv_db posted)) (ViewStory 60 61 2 3 50) (board_of (srv_db posted)) =
     (Forbidden, board_of (srv_db (snd (story_step sample_story_env (ViewStory 60 61 2 3 50) posted))))"
proof -
  have r: "request_ok (srv_db posted) (ViewStory 60 61 2 2 50)" "request_ok (srv_db posted) (ViewStory 60 61 2 3 50)"
    "request_ok (srv_db circle) (PostStory 50 1 1 (not_for [9, 3]))"
    by code_simp+
  have o: "fst (story_step sample_story_env (PostStory 50 1 1 (not_for [9, 3])) circle) = Refused"
    "fst (story_step sample_story_env (ViewStory 60 61 2 2 50) posted) = Done"
    "fst (story_step sample_story_env (ViewStory 60 61 2 3 50) posted) = Forbidden"
    by code_simp+
  show ?thesis
    using stories_refine_board [OF circle_ok r(3), of sample_story_env Refused
        "snd (story_step sample_story_env (PostStory 50 1 1 (not_for [9, 3])) circle)"]
      stories_refine_board [OF posted_ok r(1), of sample_story_env Done
        "snd (story_step sample_story_env (ViewStory 60 61 2 2 50) posted)"]
      stories_refine_board [OF posted_ok r(2), of sample_story_env Forbidden
        "snd (story_step sample_story_env (ViewStory 60 61 2 3 50) posted)"] o
    by (metis prod.collapse)
qed

theorem feed_is_visible_board_witness:
  "\<exists>gs. h_list_stories 2 2 posted = (Inr gs, posted) \<and> distinct (map gr_user_id gs) \<and>
     {(gr_user_id g, si_id x, si_has_viewed x) | g x. g \<in> set gs \<and> x \<in> set (gr_stories g)} =
       {(po_author p, i, po_seen p 2 \<noteq> None) | i p.
          board_of (srv_db posted) i = Some p \<and> may_see (in_contacts (srv_db posted)) 2 2 p}"
proof -
  have "list_all (\<lambda>r. user_exists (srv_db posted) (s_user_id r)) (stories (srv_db posted))" by code_simp
  then have "\<forall>r\<in>set (stories (srv_db posted)). user_exists (srv_db posted) (s_user_id r)"
    by (simp add: list_all_iff)
  then show ?thesis using feed_is_visible_board [OF posted_ok, of 2 2] by blast
qed

text \<open>
  The exceptions are stored one by one after the story, without a transaction. When the list names an
  unknown user the request is answered 400, but the story stays, and a contact named after the unknown
  user, whom the author wanted to exclude, sees it.
\<close>

lemma create_story_partial:
  "\<exists>s'. h_create_story 50 1 1 (not_for [9, 3]) circle =
      (Inl (Validation ''Referenced resource not found''), s') \<and>
     boxed (can_user_view_story 2 50 3) s' = (Inr True, s')"
proof -
  let ?r = "h_create_story 50 1 1 (not_for [9, 3]) circle"
  have "fst ?r = Inl (Validation ''Referenced resource not found'')" by code_simp
  moreover have "fst (boxed (can_user_view_story 2 50 3) (snd ?r)) = Inr True" by code_simp
  moreover have "snd (boxed (can_user_view_story 2 50 3) (snd ?r)) = snd ?r"
    by (simp add: can_user_view_story_def boxed_query)
  ultimately show ?thesis by (metis prod.collapse)
qed

text \<open>Blocking is not considered: a user whom the author blocked still sees a story for everyone.\<close>

lemma blocked_user_sees_story:
  "\<exists>s'. snd (h_block_user 9 0 1 2 circle) = s' \<and> blocks (srv_db s') 1 2 \<and>
     fst (boxed (can_user_view_story 2 50 2)
       (snd (h_create_story 50 1 1 ((not_for [])\<lparr>cr_privacy := ''everyone''\<rparr>) s'))) = Inr True"
  by (intro exI conjI, rule refl) code_simp+

end
