(* ===== verification/Calls.thy ===== *)
theory Calls
  imports Database
begin

text \<open>
  Voice and video calls: the entities of \<open>crates/domain/src/call/entities.rs\<close>, the repository
  trait and its Postgres implementation (\<open>crates/infrastructure/src/repositories/call\<close>), and the
  \<open>CallService\<close> of \<open>crates/domain/src/call/service.rs\<close>.

  \<open>CallService\<close> is generic in its repository (\<open>Arc<dyn CallRepository>\<close>): the trait is the
  record \<open>call_repository\<close> of its four methods over an arbitrary state, and the service operations
  take it as an argument. What the service needs of the repository is the locale \<open>call_store\<close>;
  its lemmas hold for every repository with these laws, and the Postgres repository is one.
\<close>

section \<open>Entities\<close>

datatype call_type = Audio | Video

fun call_type_as_db_str :: "call_type \<Rightarrow> string" where
  "call_type_as_db_str Audio = ''audio''"
| "call_type_as_db_str Video = ''video''"

definition call_type_from_db_str :: "string \<Rightarrow> call_type option" where
  "call_type_from_db_str s =
     (if s = ''audio'' then Some Audio
      else if s = ''video'' then Some Video
      else None)"

datatype call_status = Initiated | Ringing | Answered | Ended | Missed | Rejected | Busy

fun call_status_as_db_str :: "call_status \<Rightarrow> string" where
  "call_status_as_db_str Initiated = ''initiated''"
| "call_status_as_db_str Ringing = ''ringing''"
| "call_status_as_db_str Answered = ''answered''"
| "call_status_as_db_str Ended = ''ended''"
| "call_status_as_db_str Missed = ''missed''"
| "call_status_as_db_str Rejected = ''rejected''"
| "call_status_as_db_str Busy = ''busy''"

definition call_status_from_db_str :: "string \<Rightarrow> call_status option" where
  "call_status_from_db_str s =
     (if s = ''initiated'' then Some Initiated
      else if s = ''ringing'' then Some Ringing
      else if s = ''answered'' then Some Answered
      else if s = ''ended'' then Some Ended
      else if s = ''missed'' then Some Missed
      else if s = ''rejected'' then Some Rejected
      else if s = ''busy'' then Some Busy
      else None)"

text \<open>The derived \<open>Debug\<close> text of a status.\<close>

fun call_status_debug :: "call_status \<Rightarrow> string" where
  "call_status_debug Initiated = ''Initiated''"
| "call_status_debug Ringing = ''Ringing''"
| "call_status_debug Answered = ''Answered''"
| "call_status_debug Ended = ''Ended''"
| "call_status_debug Missed = ''Missed''"
| "call_status_debug Rejected = ''Rejected''"
| "call_status_debug Busy = ''Busy''"

definition is_active :: "call_status \<Rightarrow> bool" where
  "is_active st \<longleftrightarrow> st \<in> {Initiated, Ringing, Answered}"

record call =
  cl_id :: uuid
  cl_caller_id :: uuid
  cl_receiver_id :: uuid
  cl_call_type :: call_type
  cl_status :: call_status
  cl_started_at :: "timestamp option"
  cl_ended_at :: "timestamp option"
  cl_created_at :: timestamp
  cl_updated_at :: timestamp

record new_call =
  nc_caller_id :: uuid
  nc_receiver_id :: uuid
  nc_call_type :: call_type

lemma is_active_simps [simp]:
  "is_active Initiated" "is_active Ringing" "is_active Answered"
  "\<not> is_active Ended" "\<not> is_active Missed" "\<not> is_active Rejected" "\<not> is_active Busy"
  by (simp_all add: is_active_def)

lemma call_type_roundtrip [simp]: "call_type_from_db_str (call_type_as_db_str t) = Some t"
  by (cases t) (simp_all add: call_type_from_db_str_def)

lemma call_status_roundtrip [simp]: "call_status_from_db_str (call_status_as_db_str t) = Some t"
  by (cases t) (simp_all add: call_status_from_db_str_def)

lemma call_type_db_value [simp]: "enum_cast call_type_values (call_type_as_db_str t) = Inr (call_type_as_db_str t)"
  by (cases t) (simp_all add: enum_cast_def call_type_values_def)

lemma call_status_db_value [simp]:
  "enum_cast call_status_values (call_status_as_db_str t) = Inr (call_status_as_db_str t)"
  by (cases t) (simp_all add: enum_cast_def call_status_values_def)

lemma call_type_from_db_str_Some:
  "call_type_from_db_str s = Some t \<longleftrightarrow> s = call_type_as_db_str t"
  by (cases t) (auto simp: call_type_from_db_str_def)

lemma call_status_from_db_str_Some:
  "call_status_from_db_str s = Some t \<longleftrightarrow> s = call_status_as_db_str t"
  by (cases t) (auto simp: call_status_from_db_str_def)

lemma active_status_text:
  "call_status_as_db_str st \<in> set [''initiated'', ''ringing'', ''answered''] \<longleftrightarrow> is_active st"
  by (cases st) simp_all

section \<open>The Postgres repository\<close>

text \<open>\<open>impl TryFrom<CallRow> for Call\<close>; both text columns are \<open>NOT NULL\<close>.\<close>

definition debug_some :: "string \<Rightarrow> string" where
  "debug_some s = ''Some('' @ [CHR 0x22] @ s @ [CHR 0x22] @ '')''"

definition call_of_row :: "call_row \<Rightarrow> call dres" where
  "call_of_row r =
     (case call_type_from_db_str (ca_type r) of
        None \<Rightarrow> Inl (Internal (''Unknown call_type: '' @ debug_some (ca_type r)))
      | Some ty \<Rightarrow>
          (case call_status_from_db_str (ca_status r) of
             None \<Rightarrow> Inl (Internal (''Unknown call_status: '' @ debug_some (ca_status r)))
           | Some st \<Rightarrow>
               Inr \<lparr>cl_id = ca_id r, cl_caller_id = ca_caller_id r, cl_receiver_id = ca_receiver_id r,
                    cl_call_type = ty, cl_status = st, cl_started_at = ca_started_at r,
                    cl_ended_at = ca_ended_at r, cl_created_at = ca_created_at r,
                    cl_updated_at = ca_updated_at r\<rparr>))"

text \<open>The table's constraints (019): CHECK, PRIMARY KEY and the two foreign keys.\<close>

definition insert_call :: "call_row \<Rightarrow> db \<Rightarrow> sqlx_error + db" where
  "insert_call r d =
     (if ca_caller_id r = ca_receiver_id r then Inl check_violation
      else if exists_where (\<lambda>x. ca_id x = ca_id r) (calls d) then Inl unique_violation
      else if \<not> user_exists d (ca_caller_id r) \<or> \<not> user_exists d (ca_receiver_id r)
        then Inl foreign_key_violation
      else Inr (d\<lparr>calls := calls d @ [r]\<rparr>))"

definition call_create :: "uuid \<Rightarrow> timestamp \<Rightarrow> new_call \<Rightarrow> (db, domain_error, call) op" where
  "call_create new_id now nc d =
     (case enum_cast call_type_values (call_type_as_db_str (nc_call_type nc)) of
        Inl e \<Rightarrow> (Inl (from_sqlx e), d)
      | Inr ty \<Rightarrow>
          (let r = \<lparr>ca_id = new_id, ca_caller_id = nc_caller_id nc,
                    ca_receiver_id = nc_receiver_id nc, ca_type = ty, ca_status = ''initiated'',
                    ca_started_at = None, ca_ended_at = None, ca_created_at = now,
                    ca_updated_at = now\<rparr>
           in case insert_call r d of
                Inl e \<Rightarrow> (Inl (from_sqlx e), d)
              | Inr d' \<Rightarrow> (call_of_row r, d')))"

definition call_find_by_id :: "uuid \<Rightarrow> db \<Rightarrow> call option dres" where
  "call_find_by_id i d =
     (case select_one (\<lambda>r. ca_id r = i) (calls d) of
        None \<Rightarrow> Inr None
      | Some r \<Rightarrow> (case call_of_row r of Inl e \<Rightarrow> Inl e | Inr c \<Rightarrow> Inr (Some c)))"

text \<open>\<open>UPDATE calls SET .. RETURNING ..\<close>; the trigger \<open>calls_updated_at\<close> sets \<open>updated_at\<close>.\<close>

definition call_update_status ::
  "timestamp \<Rightarrow> uuid \<Rightarrow> call_status \<Rightarrow> timestamp option \<Rightarrow> timestamp option
     \<Rightarrow> (db, domain_error, call) op" where
  "call_update_status now i st started ended d =
     (case enum_cast call_status_values (call_status_as_db_str st) of
        Inl e \<Rightarrow> (Inl (from_sqlx e), d)
      | Inr st_text \<Rightarrow>
          (let upd = (\<lambda>r. r\<lparr>ca_status := st_text,
                            ca_started_at := coalesce started (ca_started_at r),
                            ca_ended_at := ended, ca_updated_at := now\<rparr>);
               t = update_where (\<lambda>r. ca_id r = i) upd (calls d)
           in case fetch_one (select_one (\<lambda>r. ca_id r = i) t) of
                Inl e \<Rightarrow> (Inl (from_sqlx e), d)
              | Inr r \<Rightarrow> (call_of_row r, d\<lparr>calls := t\<rparr>)))"

definition call_is_user_in_active_call :: "uuid \<Rightarrow> db \<Rightarrow> bool dres" where
  "call_is_user_in_active_call u d =
     Inr (exists_where
            (\<lambda>r. (ca_caller_id r = u \<or> ca_receiver_id r = u) \<and>
                 ca_status r \<in> set [''initiated'', ''ringing'', ''answered''])
            (calls d))"

section \<open>The repository trait and the service\<close>

record 's call_repository =
  repo_create :: "new_call \<Rightarrow> ('s, domain_error, call) op"
  repo_find_by_id :: "uuid \<Rightarrow> ('s, domain_error, call option) op"
  repo_update_status ::
    "uuid \<Rightarrow> call_status \<Rightarrow> timestamp option \<Rightarrow> timestamp option \<Rightarrow> ('s, domain_error, call) op"
  repo_is_user_in_active_call :: "uuid \<Rightarrow> ('s, domain_error, bool) op"

definition pg_call_repo :: "uuid \<Rightarrow> timestamp \<Rightarrow> db call_repository" where
  "pg_call_repo new_id now =
     \<lparr>repo_create = call_create new_id now,
      repo_find_by_id = (\<lambda>i. query (call_find_by_id i)),
      repo_update_status = call_update_status now,
      repo_is_user_in_active_call = (\<lambda>u. query (call_is_user_in_active_call u))\<rparr>"

definition initiate_call ::
  "'s call_repository \<Rightarrow> uuid \<Rightarrow> uuid \<Rightarrow> call_type \<Rightarrow> ('s, domain_error, call) op" where
  "initiate_call R caller receiver ty =
     (if caller = receiver then throw (BadRequest ''Cannot call yourself'')
      else
        and_then (repo_is_user_in_active_call R receiver) (\<lambda>receiver_busy.
          if receiver_busy
          then throw (Conflict ''Receiver is currently busy in another call'')
          else
            and_then (repo_is_user_in_active_call R caller) (\<lambda>caller_busy.
              if caller_busy
              then throw (Conflict ''You are already in an active call'')
              else repo_create R \<lparr>nc_caller_id = caller, nc_receiver_id = receiver,
                                  nc_call_type = ty\<rparr>)))"

definition mark_ringing :: "'s call_repository \<Rightarrow> uuid \<Rightarrow> ('s, domain_error, call) op" where
  "mark_ringing R i = repo_update_status R i Ringing None None"

definition accept_call ::
  "'s call_repository \<Rightarrow> timestamp \<Rightarrow> uuid \<Rightarrow> uuid \<Rightarrow> ('s, domain_error, call) op" where
  "accept_call R now i u =
     and_then (repo_find_by_id R i) (\<lambda>found.
       case found of
         None \<Rightarrow> throw (NotFound ''Call not found'')
       | Some c \<Rightarrow>
           if cl_receiver_id c \<noteq> u
           then throw (Unauthorized ''Only the receiver can accept a call'')
           else if cl_status c \<notin> {Initiated, Ringing}
           then throw (BadRequest
                  (''Cannot accept a call in status: '' @ call_status_debug (cl_status c)))
           else repo_update_status R i Answered (Some now) None)"

definition end_call ::
  "'s call_repository \<Rightarrow> timestamp \<Rightarrow> uuid \<Rightarrow> uuid \<Rightarrow> call_status \<Rightarrow> ('s, domain_error, call) op"
where
  "end_call R now i u requested =
     and_then (repo_find_by_id R i) (\<lambda>found.
       case found of
         None \<Rightarrow> throw (NotFound ''Call not found'')
       | Some c \<Rightarrow>
           if cl_caller_id c \<noteq> u \<and> cl_receiver_id c \<noteq> u
           then throw (Unauthorized ''You are not a participant of this call'')
           else if \<not> is_active (cl_status c)
           then throw (BadRequest
                  (''Call is already in a terminal state: '' @ call_status_debug (cl_status c)))
           else if requested \<notin> {Ended, Missed, Rejected, Busy}
           then throw (BadRequest ''Invalid terminal status requested'')
           else repo_update_status R i requested (cl_started_at c) (Some now))"

section \<open>What the service relies on\<close>

text \<open>
  A view of the repository's state: which call is stored under an id. \<open>party u c\<close> is the SQL
  condition \<open>caller_id = u OR receiver_id = u\<close>.
\<close>

definition party :: "uuid \<Rightarrow> call \<Rightarrow> bool" where
  "party u c \<longleftrightarrow> cl_caller_id c = u \<or> cl_receiver_id c = u"

definition busy_in :: "(uuid \<Rightarrow> call option) \<Rightarrow> uuid \<Rightarrow> bool" where
  "busy_in v u \<longleftrightarrow> (\<exists>i c. v i = Some c \<and> party u c \<and> is_active (cl_status c))"

text \<open>No user takes part in two active calls.\<close>

definition call_exclusive :: "(uuid \<Rightarrow> call option) \<Rightarrow> bool" where
  "call_exclusive v \<longleftrightarrow>
     (\<forall>u i j c c'. v i = Some c \<longrightarrow> v j = Some c' \<longrightarrow> party u c \<longrightarrow> party u c' \<longrightarrow>
        is_active (cl_status c) \<longrightarrow> is_active (cl_status c') \<longrightarrow> i = j)"

text \<open>
  The life cycle as the columns record it: two distinct parties; \<open>ended_at\<close> is set exactly in a
  terminal status; an answered call has a start time.
\<close>

definition call_wf :: "call \<Rightarrow> bool" where
  "call_wf c \<longleftrightarrow>
     cl_caller_id c \<noteq> cl_receiver_id c \<and>
     (is_active (cl_status c) \<longleftrightarrow> cl_ended_at c = None) \<and>
     (cl_status c = Answered \<longrightarrow> cl_started_at c \<noteq> None) \<and>
     (cl_status c \<in> {Initiated, Ringing} \<longrightarrow> cl_started_at c = None)"

definition calls_wf :: "(uuid \<Rightarrow> call option) \<Rightarrow> bool" where
  "calls_wf v \<longleftrightarrow> (\<forall>i c. v i = Some c \<longrightarrow> cl_id c = i \<and> call_wf c)"

text \<open>The row that \<open>update_status\<close> leaves, up to the \<open>updated_at\<close> of the repository's clock.\<close>

definition set_status ::
  "call_status \<Rightarrow> timestamp option \<Rightarrow> timestamp option \<Rightarrow> timestamp \<Rightarrow> call \<Rightarrow> call" where
  "set_status st started ended t c =
     c\<lparr>cl_status := st, cl_started_at := coalesce started (cl_started_at c),
       cl_ended_at := ended, cl_updated_at := t\<rparr>"

lemma set_status_simps [simp]:
  "cl_id (set_status st sa ea t c) = cl_id c"
  "cl_caller_id (set_status st sa ea t c) = cl_caller_id c"
  "cl_receiver_id (set_status st sa ea t c) = cl_receiver_id c"
  "cl_status (set_status st sa ea t c) = st"
  "cl_started_at (set_status st sa ea t c) = coalesce sa (cl_started_at c)"
  "cl_ended_at (set_status st sa ea t c) = ea"
  "party u (set_status st sa ea t c) = party u c"
  by (simp_all add: set_status_def party_def)

lemma busy_inI: "v i = Some c \<Longrightarrow> party u c \<Longrightarrow> is_active (cl_status c) \<Longrightarrow> busy_in v u"
  unfolding busy_in_def by blast

lemma call_exclusive_new:
  assumes "call_exclusive v" "\<not> busy_in v (cl_caller_id c)" "\<not> busy_in v (cl_receiver_id c)"
  shows "call_exclusive (v(i \<mapsto> c))"
  unfolding call_exclusive_def
proof (intro allI impI)
  fix u j k a b
  assume h: "(v(i \<mapsto> c)) j = Some a" "(v(i \<mapsto> c)) k = Some b"
    "party u a" "party u b" "is_active (cl_status a)" "is_active (cl_status b)"
  have no: "\<not> party u c" if "busy_in v u"
    using that assms(2,3) by (auto simp: party_def)
  show "j = k"
  proof (cases "j = i \<or> k = i")
    case True
    then show ?thesis using h no busy_inI [of v j a u] busy_inI [of v k b u]
      by (cases "j = i"; cases "k = i") auto
  next
    case False
    then have "v j = Some a" "v k = Some b" using h(1,2) by auto
    then show ?thesis using h(3-6) assms(1) unfolding call_exclusive_def by blast
  qed
qed

text \<open>A status change keeps exclusivity unless it makes an inactive call active.\<close>

lemma call_exclusive_set_status:
  assumes "call_exclusive v" "v i = Some c" "is_active st \<longrightarrow> is_active (cl_status c)"
  shows "call_exclusive (v(i \<mapsto> set_status st sa ea t c))"
  unfolding call_exclusive_def
proof (intro allI impI)
  fix u j k a b
  assume h: "(v(i \<mapsto> set_status st sa ea t c)) j = Some a" "(v(i \<mapsto> set_status st sa ea t c)) k = Some b"
    "party u a" "party u b" "is_active (cl_status a)" "is_active (cl_status b)"
  have "\<exists>a'. v j = Some a' \<and> party u a' \<and> is_active (cl_status a')"
    using h(1,3,5) assms(2,3) by (cases "j = i") auto
  moreover have "\<exists>b'. v k = Some b' \<and> party u b' \<and> is_active (cl_status b')"
    using h(2,4,6) assms(2,3) by (cases "k = i") auto
  ultimately show "j = k"
    using assms(1) unfolding call_exclusive_def by blast
qed

lemma calls_wf_set_status:
  assumes "calls_wf v" "v i = Some c" "call_wf (set_status st sa ea t c)"
  shows "calls_wf (v(i \<mapsto> set_status st sa ea t c))"
  using assms by (auto simp: calls_wf_def)

section \<open>The service over any repository with these laws\<close>

locale call_store =
  fixes R :: "'s call_repository"
    and view :: "'s \<Rightarrow> uuid \<Rightarrow> call option"
    and inv :: "'s \<Rightarrow> bool"
  assumes find_law: "inv s \<Longrightarrow> repo_find_by_id R i s = (Inr (view s i), s)"
    and active_law: "inv s \<Longrightarrow> repo_is_user_in_active_call R u s = (Inr (busy_in (view s) u), s)"
    and update_Some_law: "inv s \<Longrightarrow> view s i = Some c \<Longrightarrow>
      \<exists>t s'. repo_update_status R i st sa ea s = (Inr (set_status st sa ea t c), s') \<and> inv s' \<and>
            view s' = (view s)(i \<mapsto> set_status st sa ea t c)"
    and update_None_law: "inv s \<Longrightarrow> view s i = None \<Longrightarrow>
      \<exists>e. repo_update_status R i st sa ea s = (Inl e, s)"
    and create_Inr_law: "inv s \<Longrightarrow> repo_create R nc s = (Inr c, s') \<Longrightarrow>
      inv s' \<and> view s (cl_id c) = None \<and> view s' = (view s)(cl_id c \<mapsto> c) \<and>
      cl_caller_id c = nc_caller_id nc \<and> cl_receiver_id c = nc_receiver_id nc \<and>
      cl_call_type c = nc_call_type nc \<and> cl_status c = Initiated \<and>
      cl_started_at c = None \<and> cl_ended_at c = None"
    and create_Inl_law: "inv s \<Longrightarrow> repo_create R nc s = (Inl e, s') \<Longrightarrow> s' = s"
begin

lemma initiate_unfold:
  assumes "inv s"
  shows "initiate_call R a b ty s =
    (if a = b then (Inl (BadRequest ''Cannot call yourself''), s)
     else if busy_in (view s) b
       then (Inl (Conflict ''Receiver is currently busy in another call''), s)
     else if busy_in (view s) a then (Inl (Conflict ''You are already in an active call''), s)
     else repo_create R \<lparr>nc_caller_id = a, nc_receiver_id = b, nc_call_type = ty\<rparr> s)"
  using assms by (simp add: initiate_call_def and_then_def active_law)

lemma initiate_Inr:
  assumes "inv s" "initiate_call R a b ty s = (Inr c, s')"
  shows "a \<noteq> b \<and> \<not> busy_in (view s) a \<and> \<not> busy_in (view s) b \<and> inv s' \<and>
    view s (cl_id c) = None \<and> view s' = (view s)(cl_id c \<mapsto> c) \<and>
    cl_caller_id c = a \<and> cl_receiver_id c = b \<and> cl_call_type c = ty \<and> cl_status c = Initiated \<and>
    cl_started_at c = None \<and> cl_ended_at c = None"
proof -
  let ?nc = "\<lparr>nc_caller_id = a, nc_receiver_id = b, nc_call_type = ty\<rparr>"
  from assms have free: "a \<noteq> b" "\<not> busy_in (view s) a" "\<not> busy_in (view s) b"
    and "repo_create R ?nc s = (Inr c, s')"
    by (auto simp: initiate_unfold split: if_splits)
  from create_Inr_law [OF assms(1) this(4)] free show ?thesis by simp
qed

lemma initiate_Inl:
  assumes "inv s" "initiate_call R a b ty s = (Inl e, s')"
  shows "s' = s"
  using assms(2) create_Inl_law [OF assms(1)] by (auto simp: initiate_unfold [OF assms(1)] split: if_splits)

lemma initiate_busy:
  assumes "inv s" "a \<noteq> b" "busy_in (view s) a \<or> busy_in (view s) b"
  shows "\<exists>m. initiate_call R a b ty s = (Inl (Conflict m), s)"
  using assms by (auto simp: initiate_unfold)

lemma accept_cases:
  assumes "inv s"
  shows "(\<exists>e. accept_call R now i u s = (Inl e, s) \<and>
            \<not> (\<exists>c. view s i = Some c \<and> cl_receiver_id c = u \<and> cl_status c \<in> {Initiated, Ringing}))
       \<or> (\<exists>c t s'. view s i = Some c \<and> cl_receiver_id c = u \<and> cl_status c \<in> {Initiated, Ringing} \<and>
            accept_call R now i u s = (Inr (set_status Answered (Some now) None t c), s') \<and> inv s' \<and>
            view s' = (view s)(i \<mapsto> set_status Answered (Some now) None t c))"
  using assms update_Some_law [of s i _ Answered "Some now" None]
  by (cases "view s i") (auto simp: accept_call_def and_then_def find_law)

lemma end_cases:
  assumes "inv s"
  shows "(\<exists>e. end_call R now i u st s = (Inl e, s) \<and>
            \<not> (st \<in> {Ended, Missed, Rejected, Busy} \<and>
               (\<exists>c. view s i = Some c \<and> party u c \<and> is_active (cl_status c))))
       \<or> (\<exists>c t s'. st \<in> {Ended, Missed, Rejected, Busy} \<and>
            view s i = Some c \<and> party u c \<and> is_active (cl_status c) \<and>
            end_call R now i u st s = (Inr (set_status st (cl_started_at c) (Some now) t c), s') \<and>
            inv s' \<and> view s' = (view s)(i \<mapsto> set_status st (cl_started_at c) (Some now) t c))"
proof (cases "view s i")
  case None
  then show ?thesis using assms by (auto simp: end_call_def and_then_def find_law)
next
  case (Some c)
  show ?thesis
    using assms Some update_Some_law [OF assms Some, of st "cl_started_at c" "Some now"]
    by (auto simp: end_call_def and_then_def find_law party_def)
qed

lemma ring_cases:
  assumes "inv s"
  shows "(\<exists>e. mark_ringing R i s = (Inl e, s) \<and> view s i = None)
       \<or> (\<exists>c t s'. view s i = Some c \<and> mark_ringing R i s = (Inr (set_status Ringing None None t c), s') \<and>
            inv s' \<and> view s' = (view s)(i \<mapsto> set_status Ringing None None t c))"
  using assms update_Some_law [of s i _ Ringing None None] update_None_law [of s i Ringing None None]
  unfolding mark_ringing_def by (cases "view s i") auto

lemma initiate_exclusive:
  assumes "inv s" "call_exclusive (view s)"
  shows "call_exclusive (view (snd (initiate_call R a b ty s)))"
proof (cases "initiate_call R a b ty s")
  case (Pair r s')
  show ?thesis
  proof (cases r)
    case (Inl e)
    then have "initiate_call R a b ty s = (Inl e, s')" using Pair by simp
    from initiate_Inl [OF assms(1) this] show ?thesis using Pair assms(2) by simp
  next
    case (Inr c)
    then have "initiate_call R a b ty s = (Inr c, s')" using Pair by simp
    from initiate_Inr [OF assms(1) this] show ?thesis
      using Pair call_exclusive_new [OF assms(2), of c "cl_id c"] by auto
  qed
qed

lemma accept_exclusive:
  assumes "inv s" "call_exclusive (view s)"
  shows "call_exclusive (view (snd (accept_call R now i u s)))"
  using accept_cases [OF assms(1), of now i u]
proof (elim disjE exE conjE)
  fix c t s'
  assume "view s i = Some c" "cl_status c \<in> {Initiated, Ringing}"
    and r: "accept_call R now i u s = (Inr (set_status Answered (Some now) None t c), s')"
      "view s' = (view s)(i \<mapsto> set_status Answered (Some now) None t c)"
  then show ?thesis using call_exclusive_set_status [OF assms(2), of i c Answered] by auto
qed (use assms(2) in simp)

lemma end_exclusive:
  assumes "inv s" "call_exclusive (view s)"
  shows "call_exclusive (view (snd (end_call R now i u st s)))"
  using end_cases [OF assms(1), of now i u st]
proof (elim disjE exE conjE)
  fix c t s'
  assume "view s i = Some c" "is_active (cl_status c)"
    and r: "end_call R now i u st s = (Inr (set_status st (cl_started_at c) (Some now) t c), s')"
      "view s' = (view s)(i \<mapsto> set_status st (cl_started_at c) (Some now) t c)"
  then show ?thesis using call_exclusive_set_status [OF assms(2), of i c st] by auto
qed (use assms(2) in simp)

text \<open>A terminal status is final for \<open>accept_call\<close> and \<open>end_call\<close>.\<close>

lemma terminal_is_final:
  assumes "inv s" "view s i = Some c" "\<not> is_active (cl_status c)"
  shows "snd (accept_call R now i u s) = s" "snd (end_call R now' i u' st s) = s"
  using accept_cases [OF assms(1), of now i u] end_cases [OF assms(1), of now' i u' st] assms(2,3)
  by auto

text \<open>The life cycle of every stored call stays well-formed.\<close>

lemma initiate_wf:
  assumes "inv s" "calls_wf (view s)"
  shows "calls_wf (view (snd (initiate_call R a b ty s)))"
proof (cases "initiate_call R a b ty s")
  case (Pair r s')
  show ?thesis
  proof (cases r)
    case (Inl e)
    then have "initiate_call R a b ty s = (Inl e, s')" using Pair by simp
    from initiate_Inl [OF assms(1) this] show ?thesis using Pair assms(2) by simp
  next
    case (Inr c)
    then have "initiate_call R a b ty s = (Inr c, s')" using Pair by simp
    from initiate_Inr [OF assms(1) this] show ?thesis
      using Pair assms(2) by (auto simp: calls_wf_def call_wf_def)
  qed
qed

lemma accept_wf:
  assumes "inv s" "calls_wf (view s)"
  shows "calls_wf (view (snd (accept_call R now i u s)))"
  using accept_cases [OF assms(1), of now i u]
proof (elim disjE exE conjE)
  fix c t s'
  assume c: "view s i = Some c"
    and r: "accept_call R now i u s = (Inr (set_status Answered (Some now) None t c), s')"
      "view s' = (view s)(i \<mapsto> set_status Answered (Some now) None t c)"
  have "call_wf (set_status Answered (Some now) None t c)"
    using assms(2) c by (auto simp: calls_wf_def call_wf_def)
  with c r show ?thesis using calls_wf_set_status [OF assms(2) c] by simp
qed (use assms(2) in simp)

lemma end_wf:
  assumes "inv s" "calls_wf (view s)"
  shows "calls_wf (view (snd (end_call R now i u st s)))"
  using end_cases [OF assms(1), of now i u st]
proof (elim disjE exE conjE)
  fix c t s'
  assume c: "view s i = Some c" and st: "st \<in> {Ended, Missed, Rejected, Busy}"
    and r: "end_call R now i u st s = (Inr (set_status st (cl_started_at c) (Some now) t c), s')"
      "view s' = (view s)(i \<mapsto> set_status st (cl_started_at c) (Some now) t c)"
  have "call_wf (set_status st (cl_started_at c) (Some now) t c)"
    using assms(2) c st by (auto simp: calls_wf_def call_wf_def)
  with c r show ?thesis using calls_wf_set_status [OF assms(2) c] by simp
qed (use assms(2) in simp)

end

section \<open>The Postgres repository has these laws\<close>

definition call_view :: "db \<Rightarrow> uuid \<Rightarrow> call option" where
  "call_view d i =
     (case select_one (\<lambda>r. ca_id r = i) (calls d) of
        None \<Rightarrow> None
      | Some r \<Rightarrow> (case call_of_row r of Inl e \<Rightarrow> None | Inr c \<Rightarrow> Some c))"

text \<open>The primary key, and that the two ENUM columns hold values of their types.\<close>

definition call_inv :: "db \<Rightarrow> bool" where
  "call_inv d \<longleftrightarrow>
     unique_on ca_id (calls d) \<and>
     (\<forall>r\<in>set (calls d). ca_type r \<in> set call_type_values \<and> ca_status r \<in> set call_status_values)"

lemma call_of_row_fields:
  assumes "call_of_row r = Inr c"
  shows "cl_id c = ca_id r" "cl_caller_id c = ca_caller_id r" "cl_receiver_id c = ca_receiver_id r"
    "cl_started_at c = ca_started_at r" "cl_ended_at c = ca_ended_at r"
    "call_type_as_db_str (cl_call_type c) = ca_type r" "call_status_as_db_str (cl_status c) = ca_status r"
  using assms
  by (auto simp: call_of_row_def call_type_from_db_str_Some call_status_from_db_str_Some
      split: option.splits)

lemma call_of_row_total:
  assumes "ca_type r \<in> set call_type_values" "ca_status r \<in> set call_status_values"
  obtains c where "call_of_row r = Inr c"
proof -
  obtain ty st where "call_type_from_db_str (ca_type r) = Some ty"
    "call_status_from_db_str (ca_status r) = Some st"
    using assms by (auto simp: call_type_values_def call_status_values_def
        call_type_from_db_str_def call_status_from_db_str_def)
  then show thesis using that by (simp add: call_of_row_def)
qed

lemma call_view_row:
  assumes "call_inv d" "r \<in> set (calls d)" "call_of_row r = Inr c"
  shows "call_view d (ca_id r) = Some c"
proof -
  have "select_one (\<lambda>x. ca_id x = ca_id r) (calls d) = Some r"
    using assms(1,2) by (intro select_one_unique [of ca_id]) (auto simp: call_inv_def)
  then show ?thesis using assms(3) by (simp add: call_view_def)
qed

lemma call_view_SomeE:
  assumes "call_view d i = Some c"
  obtains r where "r \<in> set (calls d)" "ca_id r = i" "call_of_row r = Inr c"
  using assms by (auto simp: call_view_def split: option.splits sum.splits dest: select_one_SomeD)

lemma pg_find:
  assumes "call_inv d"
  shows "call_find_by_id i d = Inr (call_view d i)"
proof (cases "select_one (\<lambda>r. ca_id r = i) (calls d)")
  case None
  then show ?thesis by (simp add: call_find_by_id_def call_view_def)
next
  case (Some r)
  then have "ca_type r \<in> set call_type_values" "ca_status r \<in> set call_status_values"
    using assms by (auto simp: call_inv_def dest: select_one_SomeD)
  then obtain c where "call_of_row r = Inr c" by (rule call_of_row_total)
  then show ?thesis using Some by (simp add: call_find_by_id_def call_view_def)
qed

lemma pg_active:
  assumes "call_inv d"
  shows "call_is_user_in_active_call u d = Inr (busy_in (call_view d) u)"
proof -
  have "(\<exists>r\<in>set (calls d). (ca_caller_id r = u \<or> ca_receiver_id r = u) \<and>
          ca_status r \<in> set [''initiated'', ''ringing'', ''answered'']) \<longleftrightarrow> busy_in (call_view d) u"
    (is "?L \<longleftrightarrow> ?R")
  proof
    assume ?L
    then obtain r where r: "r \<in> set (calls d)" "ca_caller_id r = u \<or> ca_receiver_id r = u"
      "ca_status r \<in> set [''initiated'', ''ringing'', ''answered'']" by blast
    have "ca_type r \<in> set call_type_values" "ca_status r \<in> set call_status_values"
      using assms r(1) by (simp_all add: call_inv_def)
    then obtain c where c: "call_of_row r = Inr c" by (rule call_of_row_total)
    have "party u c" using r(2) by (simp add: party_def call_of_row_fields [OF c])
    moreover have "is_active (cl_status c)"
      using r(3) active_status_text [of "cl_status c"] by (simp add: call_of_row_fields [OF c])
    ultimately show ?R using busy_inI call_view_row [OF assms r(1) c] by blast
  next
    assume ?R
    then obtain i c where c: "call_view d i = Some c" "party u c" "is_active (cl_status c)"
      unfolding busy_in_def by blast
    from c(1) obtain r where r: "r \<in> set (calls d)" "call_of_row r = Inr c"
      by (rule call_view_SomeE)
    moreover have "ca_caller_id r = u \<or> ca_receiver_id r = u"
      using c(2) by (simp add: party_def call_of_row_fields [OF r(2)])
    moreover have "ca_status r \<in> set [''initiated'', ''ringing'', ''answered'']"
      using c(3) active_status_text [of "cl_status c"] by (simp add: call_of_row_fields [OF r(2)])
    ultimately show ?L by blast
  qed
  then show ?thesis by (simp only: call_is_user_in_active_call_def exists_where_iff)
qed

definition updated_row ::
  "call_status \<Rightarrow> timestamp option \<Rightarrow> timestamp option \<Rightarrow> timestamp \<Rightarrow> call_row \<Rightarrow> call_row" where
  "updated_row st started ended now r =
     r\<lparr>ca_status := call_status_as_db_str st, ca_started_at := coalesce started (ca_started_at r),
       ca_ended_at := ended, ca_updated_at := now\<rparr>"

lemma call_of_updated_row:
  "call_of_row r = Inr c \<Longrightarrow> call_of_row (updated_row st sa ea now r) = Inr (set_status st sa ea now c)"
  by (auto simp: call_of_row_def updated_row_def set_status_def split: option.splits)

lemma call_update_status_eq:
  "call_update_status now i st sa ea d =
     (case select_one (\<lambda>r. ca_id r = i) (calls d) of
        None \<Rightarrow> (Inl (NotFound ''Resource not found''), d)
      | Some r \<Rightarrow>
          (call_of_row (updated_row st sa ea now r),
           d\<lparr>calls := update_where (\<lambda>r. ca_id r = i) (updated_row st sa ea now) (calls d)\<rparr>))"
proof -
  have upd: "(\<lambda>r. r\<lparr>ca_status := call_status_as_db_str st,
      ca_started_at := coalesce sa (ca_started_at r), ca_ended_at := ea, ca_updated_at := now\<rparr>)
      = updated_row st sa ea now"
    by (simp add: fun_eq_iff updated_row_def)
  have sel: "select_one (\<lambda>r. ca_id r = i)
        (update_where (\<lambda>r. ca_id r = i) (updated_row st sa ea now) (calls d))
      = map_option (updated_row st sa ea now) (select_one (\<lambda>r. ca_id r = i) (calls d))"
    by (rule select_one_update_hit) (simp_all add: updated_row_def)
  show ?thesis
    by (simp add: call_update_status_def upd sel Let_def split: option.splits)
qed

lemma call_view_None_iff:
  assumes "call_inv d"
  shows "call_view d i = None \<longleftrightarrow> select_one (\<lambda>r. ca_id r = i) (calls d) = None"
proof (cases "select_one (\<lambda>r. ca_id r = i) (calls d)")
  case (Some r)
  then have "r \<in> set (calls d)" using select_one_SomeD by metis
  then have "ca_type r \<in> set call_type_values" "ca_status r \<in> set call_status_values"
    using assms by (simp_all add: call_inv_def)
  then obtain c where "call_of_row r = Inr c" by (rule call_of_row_total)
  then show ?thesis using Some by (simp add: call_view_def)
qed (simp add: call_view_def)

lemma pg_update_None:
  "call_inv d \<Longrightarrow> call_view d i = None \<Longrightarrow>
     call_update_status now i st sa ea d = (Inl (NotFound ''Resource not found''), d)"
  by (simp add: call_update_status_eq call_view_None_iff)

lemma pg_update_Some:
  assumes "call_inv d" "call_view d i = Some c"
  shows "\<exists>t d'. call_update_status now i st sa ea d = (Inr (set_status st sa ea t c), d') \<and>
    call_inv d' \<and> call_view d' = (call_view d)(i \<mapsto> set_status st sa ea t c)"
proof -
  let ?u = "updated_row st sa ea now"
  let ?d = "d\<lparr>calls := update_where (\<lambda>r. ca_id r = i) ?u (calls d)\<rparr>"
  obtain r where r: "select_one (\<lambda>r. ca_id r = i) (calls d) = Some r" "call_of_row r = Inr c"
    using assms(2) by (auto simp: call_view_def split: option.splits sum.splits)
  have run: "call_update_status now i st sa ea d = (Inr (set_status st sa ea now c), ?d)"
    using r by (simp add: call_update_status_eq call_of_updated_row)
  have st: "call_status_as_db_str st \<in> set call_status_values"
    by (cases st) (simp_all add: call_status_values_def)
  have "call_inv ?d"
    using assms(1) st
    by (auto simp: call_inv_def unique_on_update_where set_update_where updated_row_def)
  moreover have "call_view ?d = (call_view d)(i \<mapsto> set_status st sa ea now c)"
  proof
    fix j
    have sel: "select_one (\<lambda>r. ca_id r = j) (calls ?d) =
        map_option (\<lambda>r. if ca_id r = i then ?u r else r) (select_one (\<lambda>r. ca_id r = j) (calls d))"
      by (simp add: select_one_update_same updated_row_def)
    show "call_view ?d j = ((call_view d)(i \<mapsto> set_status st sa ea now c)) j"
    proof (cases "j = i")
      case True
      have "ca_id r = i" using select_one_SomeD [OF r(1)] by simp
      then show ?thesis using r call_of_updated_row True unfolding call_view_def sel by simp
    next
      case False
      have "ca_id x \<noteq> i" if "select_one (\<lambda>r. ca_id r = j) (calls d) = Some x" for x
        using select_one_SomeD [OF that] False by simp
      then show ?thesis
        using False unfolding call_view_def sel
        by (cases "select_one (\<lambda>r. ca_id r = j) (calls d)") simp_all
    qed
  qed
  ultimately show ?thesis using run by blast
qed

lemma pg_create:
  assumes "call_inv d" "call_create new_id now nc d = (res, d')"
  shows "(\<exists>e. res = Inl e \<and> d' = d) \<or>
    (\<exists>c. res = Inr c \<and> call_inv d' \<and> cl_id c = new_id \<and> call_view d new_id = None \<and>
       call_view d' = (call_view d)(new_id \<mapsto> c) \<and> cl_caller_id c = nc_caller_id nc \<and>
       cl_receiver_id c = nc_receiver_id nc \<and> cl_call_type c = nc_call_type nc \<and>
       cl_status c = Initiated \<and> cl_started_at c = None \<and> cl_ended_at c = None)"
proof -
  define r where "r = \<lparr>ca_id = new_id, ca_caller_id = nc_caller_id nc,
    ca_receiver_id = nc_receiver_id nc, ca_type = call_type_as_db_str (nc_call_type nc),
    ca_status = ''initiated'', ca_started_at = None, ca_ended_at = None, ca_created_at = now,
    ca_updated_at = now\<rparr>"
  define c where "c = \<lparr>cl_id = new_id, cl_caller_id = nc_caller_id nc,
    cl_receiver_id = nc_receiver_id nc, cl_call_type = nc_call_type nc, cl_status = Initiated,
    cl_started_at = None, cl_ended_at = None, cl_created_at = now, cl_updated_at = now\<rparr>"
  have "call_status_from_db_str ''initiated'' = Some Initiated"
    by (simp add: call_status_from_db_str_def)
  then have c: "call_of_row r = Inr c"
    by (simp add: call_of_row_def r_def c_def)
  have run: "call_create new_id now nc d =
      (case insert_call r d of Inl e \<Rightarrow> (Inl (from_sqlx e), d) | Inr d' \<Rightarrow> (Inr c, d'))"
    by (simp only: call_create_def call_type_db_value sum.case Let_def r_def [symmetric] c)
  show ?thesis
  proof (cases "insert_call r d")
    case (Inl e)
    then show ?thesis using run assms(2) by simp
  next
    case (Inr d2)
    then have d': "d' = d\<lparr>calls := calls d @ [r]\<rparr>" "res = Inr c"
      and fresh: "\<forall>x\<in>set (calls d). ca_id x \<noteq> new_id"
      using run assms(2) by (auto simp: insert_call_def exists_where_iff r_def split: if_splits)
    have ty: "call_type_as_db_str ty \<in> set call_type_values" for ty
      by (cases ty) (simp_all add: call_type_values_def)
    have none: "select_one (\<lambda>r. ca_id r = new_id) (calls d) = None"
      using fresh by (simp add: select_one_None_iff)
    have "call_inv d'"
      using assms(1) fresh ty
      by (auto simp: call_inv_def d' unique_on_snoc r_def call_status_values_def)
    moreover have "call_view d' = (call_view d)(new_id \<mapsto> c)"
    proof
      fix j
      show "call_view d' j = ((call_view d)(new_id \<mapsto> c)) j"
        using none c by (auto simp: call_view_def d' select_one_append r_def split: option.splits)
    qed
    ultimately show ?thesis using d' none by (simp add: c_def call_view_def)
  qed
qed

interpretation pg: call_store "pg_call_repo new_id now" call_view call_inv
  for new_id now
proof unfold_locales
  show "repo_create (pg_call_repo new_id now) nc s = (Inr c, s') \<Longrightarrow>
      call_inv s' \<and> call_view s (cl_id c) = None \<and> call_view s' = (call_view s)(cl_id c \<mapsto> c) \<and>
      cl_caller_id c = nc_caller_id nc \<and> cl_receiver_id c = nc_receiver_id nc \<and>
      cl_call_type c = nc_call_type nc \<and> cl_status c = Initiated \<and>
      cl_started_at c = None \<and> cl_ended_at c = None" if "call_inv s" for s nc c s'
    using pg_create [OF that, of new_id now nc "Inr c" s'] by (auto simp: pg_call_repo_def)
  show "repo_create (pg_call_repo new_id now) nc s = (Inl e, s') \<Longrightarrow> s' = s" if "call_inv s" for s nc e s'
    using pg_create [OF that, of new_id now nc "Inl e" s'] by (auto simp: pg_call_repo_def)
qed (simp_all add: pg_call_repo_def pg_find pg_active pg_update_Some pg_update_None)

end
