(* ===== verification/CallSignaling.thy ===== *)
theory CallSignaling
  imports Calls
begin

text \<open>
  The signalling of calls over the WebSocket: the client messages of
  \<open>crates/api/src/handlers/ws/dto.rs\<close> and the five \<open>call:*\<close> branches of
  \<open>handle_client_message\<close> (\<open>crates/api/src/handlers/ws/handlers.rs\<close>).

  A branch is a function of the state that returns the list of its outgoing effects in the order
  the code sends them, and the new state. \<open>Publish u e\<close> is the publication on the Redis channel
  \<open>user:{u}:events\<close>, whose failures the code ignores; \<open>Reply e\<close> is the message on the sender's own
  socket; \<open>PushJob j\<close> is the job queued for the push worker. SDP and ICE payloads are opaque.

  \<open>CallInitiate\<close> runs in a task of its own and writes twice: it creates the call, relays it, and
  then marks it as ringing. \<open>initiate_start\<close> and \<open>initiate_finish\<close> are these two halves, so that
  what happens between them can be stated.
\<close>

section \<open>Messages\<close>

datatype ws_client_message =
    TypingStart uuid
  | TypingStop uuid
  | SyncRequest "timestamp option"
  | CallInitiate uuid string json
  | CallAccept uuid json
  | CallReject uuid "string option"
  | CallIceCandidate uuid uuid json
  | CallHangup uuid

datatype call_signal =
    CallError string timestamp
  | CallIncoming uuid uuid string json timestamp
  | CallAccepted uuid uuid json timestamp
  | CallRejected uuid uuid string timestamp
  | IceCandidate uuid uuid json timestamp
  | CallEnded uuid uuid string timestamp

record call_push_payload =
  cpp_call_id :: uuid
  cpp_caller_id :: uuid
  cpp_call_type :: string
  cpp_title :: string
  cpp_body :: string

record push_notification_job =
  pj_user_id :: uuid
  pj_notification_type :: string
  pj_payload :: call_push_payload

datatype effect =
    Reply call_signal
  | Publish uuid call_signal
  | PushJob push_notification_job

section \<open>The handlers\<close>

definition call_type_of_message :: "string \<Rightarrow> call_type" where
  "call_type_of_message s = (if s = ''video'' then Video else Audio)"

definition initiate_start ::
  "'s call_repository \<Rightarrow> timestamp \<Rightarrow> uuid \<Rightarrow> uuid \<Rightarrow> string \<Rightarrow> json \<Rightarrow> 's
     \<Rightarrow> call option \<times> effect list \<times> 's" where
  "initiate_start R now caller receiver ty offer s =
     (case initiate_call R caller receiver (call_type_of_message ty) s of
        (Inl e, s') \<Rightarrow> (None, [Reply (CallError (error_to_string e) now)], s')
      | (Inr c, s') \<Rightarrow>
          (Some c,
           [Publish receiver (CallIncoming (cl_id c) caller
              (call_type_as_db_str (call_type_of_message ty)) offer now)],
           s'))"

definition call_push_job :: "uuid \<Rightarrow> uuid \<Rightarrow> call_type \<Rightarrow> uuid \<Rightarrow> push_notification_job" where
  "call_push_job receiver caller ty i =
     \<lparr>pj_user_id = receiver, pj_notification_type = ''call'',
      pj_payload = \<lparr>cpp_call_id = i, cpp_caller_id = caller, cpp_call_type = call_type_as_db_str ty,
        cpp_title = ''Incoming Call'',
        cpp_body = ''You have an incoming '' @ call_type_as_db_str ty @ '' call''\<rparr>\<rparr>"

text \<open>\<open>let _ = call_service.mark_ringing(..)\<close>: the result is dropped, the write is not.\<close>

definition initiate_finish ::
  "'s call_repository \<Rightarrow> uuid \<Rightarrow> uuid \<Rightarrow> string \<Rightarrow> uuid \<Rightarrow> 's \<Rightarrow> effect list \<times> 's" where
  "initiate_finish R caller receiver ty i s =
     ([PushJob (call_push_job receiver caller (call_type_of_message ty) i)],
      snd (mark_ringing R i s))"

definition handle_call_initiate ::
  "'s call_repository \<Rightarrow> timestamp \<Rightarrow> uuid \<Rightarrow> uuid \<Rightarrow> string \<Rightarrow> json \<Rightarrow> 's \<Rightarrow> effect list \<times> 's" where
  "handle_call_initiate R now caller receiver ty offer s =
     (case initiate_start R now caller receiver ty offer s of
        (None, out, s') \<Rightarrow> (out, s')
      | (Some c, out, s') \<Rightarrow>
          (let (out', s'') = initiate_finish R caller receiver ty (cl_id c) s'
           in (out @ out', s'')))"

definition handle_call_accept ::
  "'s call_repository \<Rightarrow> timestamp \<Rightarrow> uuid \<Rightarrow> uuid \<Rightarrow> json \<Rightarrow> 's \<Rightarrow> effect list \<times> 's" where
  "handle_call_accept R now u i answer s =
     (case accept_call R now i u s of
        (Inl e, s') \<Rightarrow> ([], s')
      | (Inr c, s') \<Rightarrow> ([Publish (cl_caller_id c) (CallAccepted i u answer now)], s'))"

definition handle_call_reject ::
  "'s call_repository \<Rightarrow> timestamp \<Rightarrow> uuid \<Rightarrow> uuid \<Rightarrow> string option \<Rightarrow> 's \<Rightarrow> effect list \<times> 's" where
  "handle_call_reject R now u i reason s =
     (let reason_str = unwrap_or reason ''rejected'';
          terminal_status = (if reason_str = ''busy'' then Busy else Rejected)
      in case end_call R now i u terminal_status s of
           (Inl e, s') \<Rightarrow> ([], s')
         | (Inr c, s') \<Rightarrow> ([Publish (cl_caller_id c) (CallRejected i u reason_str now)], s'))"

definition handle_call_ice ::
  "timestamp \<Rightarrow> uuid \<Rightarrow> uuid \<Rightarrow> uuid \<Rightarrow> json \<Rightarrow> 's \<Rightarrow> effect list \<times> 's" where
  "handle_call_ice now u i receiver candidate s =
     ([Publish receiver (IceCandidate i u candidate now)], s)"

definition handle_call_hangup ::
  "'s call_repository \<Rightarrow> timestamp \<Rightarrow> uuid \<Rightarrow> uuid \<Rightarrow> 's \<Rightarrow> effect list \<times> 's" where
  "handle_call_hangup R now u i s =
     (let (r, s1) = end_call R now i u Ended s;
          (r', s2) = (case r of Inr c \<Rightarrow> (Inr c, s1) | Inl e \<Rightarrow> end_call R now i u Missed s1)
      in case r' of
           Inl e \<Rightarrow> ([], s2)
         | Inr c \<Rightarrow>
             (let peer = (if cl_caller_id c = u then cl_receiver_id c else cl_caller_id c)
              in ([Publish peer (CallEnded i u (call_status_as_db_str (cl_status c)) now)], s2)))"

text \<open>The five branches; the other messages are no concern of the calls.\<close>

fun handle_call_message ::
  "'s call_repository \<Rightarrow> timestamp \<Rightarrow> uuid \<Rightarrow> ws_client_message \<Rightarrow> 's \<Rightarrow> effect list \<times> 's" where
  "handle_call_message R now u (CallInitiate receiver ty offer) s =
     handle_call_initiate R now u receiver ty offer s"
| "handle_call_message R now u (CallAccept i answer) s = handle_call_accept R now u i answer s"
| "handle_call_message R now u (CallReject i reason) s = handle_call_reject R now u i reason s"
| "handle_call_message R now u (CallIceCandidate i receiver candidate) s =
     handle_call_ice now u i receiver candidate s"
| "handle_call_message R now u (CallHangup i) s = handle_call_hangup R now u i s"
| "handle_call_message R now u _ s = ([], s)"

section \<open>Lemmas over any call store\<close>

context call_store
begin

text \<open>What \<open>handle_call_initiate\<close> leaves: the state as it was, or one new ringing call.\<close>

lemma handle_initiate_cases:
  assumes "inv s" "handle_call_initiate R now a b ty offer s = (out, s')"
  shows "(s' = s \<and> (\<exists>m. out = [Reply (CallError m now)])) \<or>
    (\<exists>c. inv s' \<and> a \<noteq> b \<and> \<not> busy_in (view s) a \<and> \<not> busy_in (view s) b \<and> view s (cl_id c) = None \<and>
       view s' = (view s)(cl_id c \<mapsto> c) \<and> cl_caller_id c = a \<and> cl_receiver_id c = b \<and>
       cl_status c = Ringing \<and> cl_started_at c = None \<and> cl_ended_at c = None \<and>
       out = [Publish b (CallIncoming (cl_id c) a (call_type_as_db_str (call_type_of_message ty)) offer now),
              PushJob (call_push_job b a (call_type_of_message ty) (cl_id c))])"
proof (cases "initiate_call R a b (call_type_of_message ty) s")
  case (Pair r s1)
  show ?thesis
  proof (cases r)
    case (Inl e)
    then have e: "initiate_call R a b (call_type_of_message ty) s = (Inl e, s1)" using Pair by simp
    with initiate_Inl [OF assms(1) e] show ?thesis
      using assms(2) by (auto simp: handle_call_initiate_def initiate_start_def)
  next
    case (Inr c)
    then have c: "initiate_call R a b (call_type_of_message ty) s = (Inr c, s1)" using Pair by simp
    note i = initiate_Inr [OF assms(1) c]
    then obtain t s2 where r: "mark_ringing R (cl_id c) s1 = (Inr (set_status Ringing None None t c), s2)"
      "inv s2" "view s2 = (view s1)(cl_id c \<mapsto> set_status Ringing None None t c)"
      using ring_cases [of s1 "cl_id c"] by auto
    have "s' = s2" and out: "out = [Publish b (CallIncoming (cl_id c) a
        (call_type_as_db_str (call_type_of_message ty)) offer now),
        PushJob (call_push_job b a (call_type_of_message ty) (cl_id c))]"
      using assms(2) c r(1) by (simp_all add: handle_call_initiate_def initiate_start_def initiate_finish_def)
    then show ?thesis
      using i r by (intro disjI2 exI [of _ "set_status Ringing None None t c"]) simp
  qed
qed

text \<open>
  Hanging up ends the call as \<open>Ended\<close> or does nothing: the second attempt, with \<open>Missed\<close>, has the
  same guards as the first and can not succeed where the first failed.
\<close>

lemma handle_hangup_cases:
  assumes "inv s"
  shows "(handle_call_hangup R now u i s = ([], s) \<and>
            \<not> (\<exists>c. view s i = Some c \<and> party u c \<and> is_active (cl_status c)))
       \<or> (\<exists>c t s'. view s i = Some c \<and> party u c \<and> is_active (cl_status c) \<and>
            handle_call_hangup R now u i s =
              ([Publish (if cl_caller_id c = u then cl_receiver_id c else cl_caller_id c)
                  (CallEnded i u ''ended'' now)], s') \<and>
            inv s' \<and> view s' = (view s)(i \<mapsto> set_status Ended (cl_started_at c) (Some now) t c))"
proof (cases "\<exists>c. view s i = Some c \<and> party u c \<and> is_active (cl_status c)")
  case False
  then obtain e e' where "end_call R now i u Ended s = (Inl e, s)" "end_call R now i u Missed s = (Inl e', s)"
    using end_cases [OF assms, of now i u Ended] end_cases [OF assms, of now i u Missed] by blast
  then show ?thesis using False by (simp add: handle_call_hangup_def)
next
  case True
  then obtain c t s' where "view s i = Some c" "party u c" "is_active (cl_status c)"
    "end_call R now i u Ended s = (Inr (set_status Ended (cl_started_at c) (Some now) t c), s')"
    "inv s'" "view s' = (view s)(i \<mapsto> set_status Ended (cl_started_at c) (Some now) t c)"
    using end_cases [OF assms, of now i u Ended] by blast
  then show ?thesis by (auto simp: handle_call_hangup_def)
qed

lemma snd_handle_accept: "snd (handle_call_accept R now u i answer s) = snd (accept_call R now i u s)"
  by (simp add: handle_call_accept_def split: prod.split sum.split)

lemma snd_handle_reject:
  "snd (handle_call_reject R now u i reason s) =
     snd (end_call R now i u (if unwrap_or reason ''rejected'' = ''busy'' then Busy else Rejected) s)"
  by (simp add: handle_call_reject_def Let_def split: prod.split sum.split)

lemma accept_inv: "inv s \<Longrightarrow> inv (snd (accept_call R now i u s))"
  using accept_cases [of s now i u] by auto

lemma end_inv: "inv s \<Longrightarrow> inv (snd (end_call R now i u st s))"
  using end_cases [of s now i u st] by auto

text \<open>Every message keeps the repository's invariant, exclusivity and the life cycle.\<close>

definition good :: "'s \<Rightarrow> bool" where
  "good s \<longleftrightarrow> inv s \<and> call_exclusive (view s) \<and> calls_wf (view s)"

lemma initiate_good:
  assumes "good s"
  shows "good (snd (handle_call_initiate R now a b ty offer s))"
proof (cases "handle_call_initiate R now a b ty offer s")
  case (Pair out s')
  have s: "inv s" "call_exclusive (view s)" "calls_wf (view s)"
    using assms by (simp_all add: good_def)
  from handle_initiate_cases [OF s(1) Pair] show ?thesis
  proof (elim disjE exE conjE)
    fix c
    assume c: "inv s'" "view s' = (view s)(cl_id c \<mapsto> c)" "a \<noteq> b"
      "\<not> busy_in (view s) a" "\<not> busy_in (view s) b" "cl_caller_id c = a" "cl_receiver_id c = b"
      "cl_status c = Ringing" "cl_started_at c = None" "cl_ended_at c = None"
    have "call_exclusive (view s')"
      using call_exclusive_new [OF s(2), of c "cl_id c"] c by simp
    moreover have "calls_wf (view s')"
      using s(3) c by (auto simp: calls_wf_def call_wf_def)
    ultimately show ?thesis using c(1) Pair by (simp add: good_def)
  qed (use assms Pair in simp)
qed

lemma hangup_good:
  assumes "good s"
  shows "good (snd (handle_call_hangup R now u i s))"
proof -
  have s: "inv s" "call_exclusive (view s)" "calls_wf (view s)"
    using assms by (simp_all add: good_def)
  from handle_hangup_cases [OF s(1), of now u i] show ?thesis
  proof (elim disjE exE conjE)
    fix c t s'
    assume c: "view s i = Some c" "inv s'" "view s' = (view s)(i \<mapsto> set_status Ended (cl_started_at c) (Some now) t c)"
      and r: "handle_call_hangup R now u i s =
        ([Publish (if cl_caller_id c = u then cl_receiver_id c else cl_caller_id c) (CallEnded i u ''ended'' now)], s')"
    have "call_exclusive (view s')"
      using call_exclusive_set_status [OF s(2) c(1), of Ended] c(3) by simp
    moreover have "call_wf (set_status Ended (cl_started_at c) (Some now) t c)"
      using s(3) c(1) by (auto simp: calls_wf_def call_wf_def)
    then have "calls_wf (view s')"
      using calls_wf_set_status [OF s(3) c(1)] c(3) by simp
    ultimately show ?thesis using c(2) r by (simp add: good_def)
  qed (use assms in simp)
qed

lemma message_good:
  assumes "good s"
  shows "good (snd (handle_call_message R now u msg s))"
  using assms initiate_good hangup_good accept_inv end_inv accept_exclusive end_exclusive accept_wf end_wf
  by (cases msg) (simp_all add: good_def snd_handle_accept snd_handle_reject handle_call_ice_def)

end

section \<open>Runs of the server\<close>

text \<open>
  A step is the complete handling of one client message by one connection, or any operation
  elsewhere that leaves the table \<open>calls\<close> alone. Interleavings inside a handler are not steps here;
  \<open>late_ringing_resurrects\<close> and \<open>concurrent_initiate\<close> below state what they can do.
\<close>

inductive call_step :: "db \<Rightarrow> db \<Rightarrow> bool" where
  message: "call_step d (snd (handle_call_message (pg_call_repo new_id now) now u msg d))"
| elsewhere: "calls d' = calls d \<Longrightarrow> call_step d d'"

inductive call_reachable :: "db \<Rightarrow> bool" where
  start: "calls d = [] \<Longrightarrow> call_reachable d"
| step: "call_reachable d \<Longrightarrow> call_step d d' \<Longrightarrow> call_reachable d'"

lemma call_view_cong: "calls d' = calls d \<Longrightarrow> call_view d' = call_view d"
  by (simp add: call_view_def fun_eq_iff)

lemma call_inv_cong: "calls d' = calls d \<Longrightarrow> call_inv d' = call_inv d"
  by (simp add: call_inv_def)

lemma call_step_good:
  assumes "call_step d d'" "pg.good d"
  shows "pg.good d'"
  using assms
proof (cases rule: call_step.cases)
  case (message new_id now u msg)
  then show ?thesis using pg.message_good [OF assms(2)] by simp
next
  case elsewhere
  then show ?thesis
    using assms(2) by (simp add: pg.good_def call_view_cong [of d' d] call_inv_cong [of d' d])
qed

lemma call_reachable_good: "call_reachable d \<Longrightarrow> pg.good d"
proof (induction rule: call_reachable.induct)
  case (start d)
  then have "call_view d = (\<lambda>_. None)" "call_inv d"
    by (simp_all add: call_view_def call_inv_def fun_eq_iff)
  then show ?case by (simp add: pg.good_def call_exclusive_def calls_wf_def)
next
  case (step d d')
  then show ?case by (metis call_step_good)
qed

section \<open>Properties\<close>

text \<open>Two users and the state after the first has called the second.\<close>

definition two_users :: db where
  "two_users = empty_db\<lparr>users := [sample_user 1 ''+100'', sample_user 2 ''+200'']\<rparr>"

definition one_call :: db where
  "one_call = snd (handle_call_message (pg_call_repo 7 5) 5 1 (CallInitiate 2 ''video'' []) two_users)"

lemma one_call_eq:
  "one_call = two_users\<lparr>calls := [\<lparr>ca_id = 7, ca_caller_id = 1, ca_receiver_id = 2,
     ca_type = ''video'', ca_status = ''ringing'', ca_started_at = None, ca_ended_at = None,
     ca_created_at = 5, ca_updated_at = 5\<rparr>]\<rparr>"
  by code_simp

text \<open>
  C1. In every state the server reaches by handling call messages one at a time, no user takes part
  in two active calls, and every stored call is well-formed: distinct parties, \<open>ended_at\<close> set exactly
  in the terminal statuses, \<open>started_at\<close> set once answered and not before.
\<close>

theorem calls_exclusive_and_wf:
  assumes "call_reachable d"
  shows "call_exclusive (call_view d) \<and> calls_wf (call_view d)"
  using call_reachable_good [OF assms] by (simp add: pg.good_def)

lemma one_call_reachable: "call_reachable one_call"
proof -
  have "call_reachable two_users" by (rule call_reachable.start) (simp add: two_users_def empty_db_def)
  then show ?thesis unfolding one_call_def by (rule call_reachable.step) (rule call_step.message)
qed

theorem calls_exclusive_and_wf_witness:
  "call_exclusive (call_view one_call) \<and> calls_wf (call_view one_call)"
  by (rule calls_exclusive_and_wf [OF one_call_reachable])

text \<open>
  C2. A call becomes answered only by an accept of its own receiver while it is initiated or
  ringing: whatever message is handled, a call that is answered afterwards and was not before was
  accepted by its receiver, and its start time is the time of that message.
\<close>

theorem answered_only_by_receiver:
  assumes "call_reachable d"
    and "call_view (snd (handle_call_message (pg_call_repo new_id now) now u msg d)) i = Some c'"
    and "cl_status c' = Answered"
    and "\<And>c. call_view d i = Some c \<Longrightarrow> cl_status c \<noteq> Answered"
  shows "\<exists>c answer. msg = CallAccept i answer \<and> call_view d i = Some c \<and> cl_receiver_id c = u \<and>
    cl_status c \<in> {Initiated, Ringing} \<and> cl_started_at c' = Some now"
proof -
  have inv: "call_inv d" using call_reachable_good [OF assms(1)] by (simp add: pg.good_def)
  show ?thesis
  proof (cases msg)
    case (CallInitiate r ty offer)
    then show ?thesis
      using pg.handle_initiate_cases [OF inv, of new_id now now u r ty offer] assms(2-4)
      by (cases "handle_call_initiate (pg_call_repo new_id now) now u r ty offer d")
        (force split: if_splits)
  next
    case (CallAccept j answer)
    then show ?thesis
      using pg.accept_cases [OF inv, of new_id now now j u] assms(2-4)
      by (force simp: pg.snd_handle_accept split: if_splits)
  next
    case (CallReject j reason)
    then show ?thesis
      using pg.end_cases [OF inv, of new_id now now j u] assms(2-4)
      by (force simp: pg.snd_handle_reject split: if_splits)
  next
    case (CallHangup j)
    then show ?thesis
      using pg.handle_hangup_cases [OF inv, of new_id now now u j] assms(2-4)
      by (force split: if_splits)
  qed (use assms(2-4) in \<open>auto simp: handle_call_ice_def\<close>)
qed

definition answered_call :: db where
  "answered_call = snd (handle_call_message (pg_call_repo 0 9) 9 2 (CallAccept 7 []) one_call)"

lemma one_call_view:
  "call_view one_call 7 = Some \<lparr>cl_id = 7, cl_caller_id = 1, cl_receiver_id = 2,
     cl_call_type = Video, cl_status = Ringing, cl_started_at = None, cl_ended_at = None,
     cl_created_at = 5, cl_updated_at = 5\<rparr>"
  by code_simp

lemma answered_call_view:
  "call_view answered_call 7 = Some \<lparr>cl_id = 7, cl_caller_id = 1, cl_receiver_id = 2,
     cl_call_type = Video, cl_status = Answered, cl_started_at = Some 9, cl_ended_at = None,
     cl_created_at = 5, cl_updated_at = 9\<rparr>"
  by code_simp

theorem answered_only_by_receiver_witness:
  "\<exists>c answer. CallAccept 7 [] = CallAccept 7 answer \<and> call_view one_call 7 = Some c \<and>
     cl_receiver_id c = 2 \<and> cl_status c \<in> {Initiated, Ringing} \<and> Some 9 = Some (9::int)"
  using answered_only_by_receiver [OF one_call_reachable, of 0 9 2 "CallAccept 7 []" 7
      "the (call_view answered_call 7)"] answered_call_view
  by (simp add: one_call_view answered_call_def [symmetric])

text \<open>
  C3. Hanging up an active call always ends it as \<open>Ended\<close> with the time of the hangup, and tells
  exactly the other party; a caller who hangs up before the answer does not make it \<open>Missed\<close>. For
  anyone else, and for a call that is over, nothing changes and nobody is told. (The comment in
  \<open>handle_call_hangup\<close> and the protocol's documentation say that both participants are told.)
\<close>

theorem hangup_effect:
  assumes "call_reachable d"
  shows "case call_view d i of
      None \<Rightarrow> handle_call_hangup (pg_call_repo new_id now) now u i d = ([], d)
    | Some c \<Rightarrow>
        if party u c \<and> is_active (cl_status c)
        then (\<exists>t d'. handle_call_hangup (pg_call_repo new_id now) now u i d =
            ([Publish (if cl_caller_id c = u then cl_receiver_id c else cl_caller_id c)
                (CallEnded i u ''ended'' now)], d') \<and>
            call_view d' = (call_view d)(i \<mapsto> set_status Ended (cl_started_at c) (Some now) t c))
        else handle_call_hangup (pg_call_repo new_id now) now u i d = ([], d)"
proof -
  have inv: "call_inv d" using call_reachable_good [OF assms] by (simp add: pg.good_def)
  show ?thesis
    using pg.handle_hangup_cases [OF inv, of new_id now now u i]
    by (cases "call_view d i") auto
qed

theorem hangup_effect_witness:
  "\<exists>t d'. handle_call_hangup (pg_call_repo 0 9) 9 1 7 one_call = ([Publish 2 (CallEnded 7 1 ''ended'' 9)], d') \<and>
     call_view d' = (call_view one_call)(7 \<mapsto>
       set_status Ended None (Some 9) t (the (call_view one_call 7)))"
  using hangup_effect [OF one_call_reachable, where i = 7 and new_id = 0 and now = 9 and u = 1] by (simp add: one_call_view party_def)

section \<open>What interleavings can do\<close>

text \<open>
  The second half of \<open>CallInitiate\<close> does not look at the status: if the call was hung up or rejected
  before it runs, the call becomes ringing again, without an end time, and both parties are busy
  until somebody ends it once more.
\<close>

lemma late_ringing_resurrects:
  assumes "call_inv d" "call_view d i = Some c"
  shows "\<exists>c'. call_view (snd (initiate_finish (pg_call_repo new_id now) a b ty i d)) i = Some c' \<and>
    cl_status c' = Ringing \<and> cl_ended_at c' = None \<and>
    busy_in (call_view (snd (initiate_finish (pg_call_repo new_id now) a b ty i d))) (cl_caller_id c)"
  using pg.ring_cases [OF assms(1), of new_id now i] assms(2)
  by (auto simp: initiate_finish_def busy_in_def party_def)

text \<open>
  The check of \<open>is_user_in_active_call\<close> and the insert are separate statements, and no constraint of
  the table stands in for the check: two initiates to the same receiver that both checked first
  both succeed.
\<close>

lemma concurrent_initiate:
  defines "d0 \<equiv> empty_db\<lparr>users := [sample_user 1 ''1'', sample_user 2 ''2'', sample_user 3 ''3'']\<rparr>"
  defines "d1 \<equiv> snd (call_create 7 5 \<lparr>nc_caller_id = 1, nc_receiver_id = 2, nc_call_type = Audio\<rparr> d0)"
  defines "d2 \<equiv> snd (call_create 8 5 \<lparr>nc_caller_id = 3, nc_receiver_id = 2, nc_call_type = Audio\<rparr> d1)"
  shows "call_is_user_in_active_call 2 d0 = Inr False \<and> \<not> call_exclusive (call_view d2)"
proof -
  have chk: "call_is_user_in_active_call 2 d0 = Inr False" unfolding d0_def by code_simp
  have v: "map_option (\<lambda>c. (cl_receiver_id c, cl_status c)) (call_view d2 7) = Some (2, Initiated)"
    "map_option (\<lambda>c. (cl_receiver_id c, cl_status c)) (call_view d2 8) = Some (2, Initiated)"
    unfolding d2_def d1_def d0_def by code_simp+
  then obtain c c' where "call_view d2 7 = Some c" "party 2 c" "is_active (cl_status c)"
    "call_view d2 8 = Some c'" "party 2 c'" "is_active (cl_status c')"
    by (auto simp: party_def)
  moreover have "(7::uuid) \<noteq> 8" by simp
  ultimately show ?thesis using chk unfolding call_exclusive_def by blast
qed

end
