(* ===== verification/Messages.thy ===== *)
theory Messages
  imports ChatList RateLimit
begin

text \<open>
  Messages: the message operations of \<open>PostgresChatRepository\<close>
  (\<open>crates/infrastructure/src/repositories/chat.rs\<close>), the stored function \<open>mark_messages_read\<close>
  (migration 014), the constraints of the message tables (migration 010), and the message handlers of
  \<open>crates/api/src/handlers/chats/handlers.rs\<close> with their events and push jobs. A \<open>ChatMessage\<close> has
  the columns of its row, so \<open>message_row\<close> stands for both (\<open>map_message_row\<close> is the identity).
\<close>

section \<open>Constraints\<close>

text \<open>\<open>chk_text_message_has_content\<close> and \<open>chk_content_iv_consistency\<close>\<close>

definition message_checks :: "message_row \<Rightarrow> bool" where
  "message_checks r \<longleftrightarrow>
     (m_message_type r \<noteq> ''text'' \<or> m_deleted_at r \<noteq> None \<or>
        (m_content_encrypted r \<noteq> None \<and> m_content_iv r \<noteq> None)) \<and>
     (m_content_encrypted r = None \<longleftrightarrow> m_content_iv r = None)"

definition message_fks :: "db \<Rightarrow> message_row \<Rightarrow> bool" where
  "message_fks d r \<longleftrightarrow>
     chat_exists d (m_chat_id r) \<and>
     (case m_sender_id r of None \<Rightarrow> True | Some u \<Rightarrow> user_exists d u) \<and>
     (case m_reply_to_id r of None \<Rightarrow> True | Some m \<Rightarrow> m = m_id r \<or> message_exists d m)"

definition insert_message :: "message_row \<Rightarrow> db \<Rightarrow> sqlx_error + db" where
  "insert_message r d =
     (if \<not> message_checks r then Inl check_violation
      else if message_exists d (m_id r) then Inl unique_violation
      else if \<not> message_fks d r then Inl foreign_key_violation
      else Inr (d\<lparr>messages := messages d @ [r]\<rparr>))"

definition update_messages :: "(message_row \<Rightarrow> bool) \<Rightarrow> (message_row \<Rightarrow> message_row) \<Rightarrow> db \<Rightarrow> sqlx_error + db" where
  "update_messages P f d =
     (if exists_where (\<lambda>r. P r \<and> \<not> message_checks (f r)) (messages d) then Inl check_violation
      else Inr (d\<lparr>messages := update_where P f (messages d)\<rparr>))"

definition status_key :: "status_row \<Rightarrow> uuid \<times> uuid" where
  "status_key s = (ms_message_id s, ms_user_id s)"

definition new_status :: "timestamp \<Rightarrow> uuid \<Rightarrow> uuid \<Rightarrow> status_row" where
  "new_status now m u = \<lparr>ms_message_id = m, ms_user_id = u, ms_status = ''sent'', ms_updated_at = now\<rparr>"

text \<open>\<open>INSERT INTO message_status .. SELECT .. ON CONFLICT DO NOTHING\<close>: a row for each active participant.\<close>

definition insert_statuses :: "timestamp \<Rightarrow> uuid \<Rightarrow> uuid \<Rightarrow> db \<Rightarrow> sqlx_error + db" where
  "insert_statuses now m c d =
     (let us = map cp_user_id (select_where (active_in c) (chat_participants d));
          new = filter (\<lambda>u. \<not> exists_where (\<lambda>s. status_key s = (m, u)) (message_status d)) (remdups us)
      in if \<not> message_exists d m \<or> \<not> list_all (user_exists d) new then Inl foreign_key_violation
         else Inr (d\<lparr>message_status := message_status d @
                map (new_status now m) new\<rparr>))"

section \<open>Sending\<close>

record new_message =
  nm_content_encrypted :: "string option"
  nm_content_iv :: "string option"
  nm_message_type :: string
  nm_reply_to_id :: "uuid option"
  nm_is_forwarded :: bool
  nm_metadata :: "json option"

definition blocked_in_private_chat :: "uuid \<Rightarrow> uuid \<Rightarrow> db \<Rightarrow> bool" where
  "blocked_in_private_chat u c d \<longleftrightarrow>
     exists_where
       (\<lambda>p. cp_chat_id p = c \<and> cp_user_id p \<noteq> u \<and> cp_left_at p = None \<and>
            exists_where
              (\<lambda>b. (ub_blocker_id b = u \<and> ub_blocked_id b = cp_user_id p) \<or>
                   (ub_blocked_id b = u \<and> ub_blocker_id b = cp_user_id p))
              (user_blocks d))
       (chat_participants d)"

definition ensure_not_blocked_in_private_chat :: "uuid \<Rightarrow> uuid \<Rightarrow> db \<Rightarrow> unit dres" where
  "ensure_not_blocked_in_private_chat u c d =
     (if blocked_in_private_chat u c d
      then Inl (Unauthorized ''cannot send messages in blocked private chat'') else Inr ())"

definition new_message_row :: "uuid \<Rightarrow> timestamp \<Rightarrow> uuid \<Rightarrow> uuid \<Rightarrow> new_message \<Rightarrow> message_row" where
  "new_message_row i now sender c m =
     \<lparr>m_id = i, m_chat_id = c, m_sender_id = Some sender, m_reply_to_id = nm_reply_to_id m,
      m_content_encrypted = nm_content_encrypted m, m_content_iv = nm_content_iv m,
      m_message_type = nm_message_type m, m_metadata = nm_metadata m,
      m_is_forwarded = nm_is_forwarded m, m_created_at = now, m_edited_at = None, m_deleted_at = None\<rparr>"

definition send_message ::
  "uuid \<Rightarrow> timestamp \<Rightarrow> uuid \<Rightarrow> uuid \<Rightarrow> new_message \<Rightarrow> (db, domain_error, message_row) op" where
  "send_message new_id now sender c m =
     transaction
       (and_then (query (ensure_active_membership sender c)) (\<lambda>chat_type.
        and_then (query (\<lambda>d. if chat_type = ''private''
                             then ensure_not_blocked_in_private_chat sender c d else Inr ())) (\<lambda>_.
        if nm_message_type m = ''text'' \<and> (nm_content_encrypted m = None \<or> nm_content_iv m = None)
        then throw (Validation ''text messages require content_encrypted and content_iv'')
        else
          and_then (lift_result (map_sqlx (enum_cast message_type_values (nm_message_type m)))) (\<lambda>_.
          and_then (sql (insert_message (new_message_row new_id now sender c m))) (\<lambda>_.
          and_then (sql (insert_statuses now new_id c)) (\<lambda>_.
          ret (new_message_row new_id now sender c m)))))))"

section \<open>Listing\<close>

datatype message_direction = Before | After

record message_cursor =
  mc_created_at :: timestamp
  mc_message_id :: uuid

definition message_key :: "message_row \<Rightarrow> timestamp \<times> uuid" where
  "message_key m = (m_created_at m, m_id m)"

definition message_cursor_key :: "message_cursor \<Rightarrow> timestamp \<times> uuid" where
  "message_cursor_key c = (mc_created_at c, mc_message_id c)"

definition on_side :: "message_direction \<Rightarrow> message_cursor option \<Rightarrow> message_row \<Rightarrow> bool" where
  "on_side dir cursor m \<longleftrightarrow>
     (case cursor of
        None \<Rightarrow> True
      | Some c \<Rightarrow>
          (dir = Before \<and> message_key m < message_cursor_key c) \<or>
          (dir = After \<and> message_cursor_key c < message_key m))"

definition live_messages :: "uuid \<Rightarrow> db \<Rightarrow> message_row list" where
  "live_messages c d = select_where (\<lambda>m. m_chat_id m = c \<and> m_deleted_at m = None) (messages d)"

definition select_messages ::
  "uuid \<Rightarrow> message_cursor option \<Rightarrow> message_direction \<Rightarrow> nat \<Rightarrow> db \<Rightarrow> message_row list" where
  "select_messages c cursor dir n d =
     (let rows = select_where (on_side dir cursor) (live_messages c d)
      in take n (case dir of Before \<Rightarrow> order_by_desc message_key rows | After \<Rightarrow> sort_key message_key rows))"

definition list_messages ::
  "uuid \<Rightarrow> uuid \<Rightarrow> message_cursor option \<Rightarrow> message_direction \<Rightarrow> int \<Rightarrow> db \<Rightarrow> message_row list dres" where
  "list_messages u c cursor dir limit d =
     (case ensure_active_membership_pool u c d of
        Inl e \<Rightarrow> Inl e
      | Inr _ \<Rightarrow>
          (let page_size = clamp 1 50 limit;
               rows = select_messages c cursor dir (nat page_size) d
           in Inr (case dir of Before \<Rightarrow> rev rows | After \<Rightarrow> rows)))"

text \<open>
  The limit is not clamped; a negative one is an error of the database (2201W). The join with the caller's memberships is on
  its key.
\<close>

definition list_messages_since :: "uuid \<Rightarrow> timestamp \<Rightarrow> int \<Rightarrow> db \<Rightarrow> message_row list dres" where
  "list_messages_since u since limit d =
     (if limit < 0 then Inl (from_sqlx (Database (Some ''2201W'')))
      else Inr (take (nat limit)
        (sort_key m_created_at
          (select_where
            (\<lambda>m. active_member d u (m_chat_id m) \<and> m_created_at m > since \<and> m_deleted_at m = None)
            (messages d)))))"

section \<open>Read marks and reactions\<close>

definition verify_message_in_chat :: "uuid \<Rightarrow> uuid \<Rightarrow> db \<Rightarrow> unit dres" where
  "verify_message_in_chat m c d =
     (if exists_where (\<lambda>r. m_id r = m \<and> m_chat_id r = c \<and> m_deleted_at r = None) (messages d)
      then Inr () else Inl (NotFound ''message not found or not in chat''))"

text \<open>The condition of the function's \<open>UPDATE\<close>; \<open>!=\<close> on a NULL sender is not true.\<close>

definition to_mark :: "uuid \<Rightarrow> uuid \<Rightarrow> timestamp \<Rightarrow> db \<Rightarrow> status_row \<Rightarrow> bool" where
  "to_mark u c up_to d s \<longleftrightarrow>
     exists_where
       (\<lambda>m. m_id m = ms_message_id s \<and> m_chat_id m = c \<and> m_sender_id m \<noteq> None \<and> m_sender_id m \<noteq> Some u \<and>
            active_member d u c \<and> m_created_at m \<le> up_to \<and> m_deleted_at m = None)
       (messages d) \<and>
     ms_user_id s = u \<and> (ms_status s \<noteq> ''read'' \<or> ms_updated_at s > up_to)"

definition mark_messages_read ::
  "timestamp \<Rightarrow> uuid \<Rightarrow> uuid \<Rightarrow> timestamp \<Rightarrow> (db, domain_error, nat) op" where
  "mark_messages_read now u c up_to d =
     (Inr (count_where (to_mark u c up_to d) (message_status d)),
      d\<lparr>message_status := update_where (to_mark u c up_to d)
          (\<lambda>s. s\<lparr>ms_status := ''read'', ms_updated_at := now\<rparr>) (message_status d)\<rparr>)"

text \<open>\<open>ON CONFLICT DO NOTHING RETURNING\<close> returns no row on a conflict, and \<open>fetch_one\<close> fails then.\<close>

definition same_reaction :: "uuid \<Rightarrow> uuid \<Rightarrow> string \<Rightarrow> reaction_row \<Rightarrow> bool" where
  "same_reaction m u x r \<longleftrightarrow> mr_message_id r = m \<and> mr_user_id r = u \<and> mr_reaction r = x"

definition add_reaction ::
  "uuid \<Rightarrow> timestamp \<Rightarrow> uuid \<Rightarrow> uuid \<Rightarrow> string \<Rightarrow> (db, domain_error, reaction_row) op" where
  "add_reaction new_id now m u x d =
     (if exists_where (same_reaction m u x) (message_reactions d)
      then (Inl (from_sqlx RowNotFound), d)
      else if exists_where (\<lambda>r. mr_id r = new_id) (message_reactions d)
      then (Inl (from_sqlx unique_violation), d)
      else if \<not> message_exists d m \<or> \<not> user_exists d u
      then (Inl (from_sqlx foreign_key_violation), d)
      else
        (let r = \<lparr>mr_id = new_id, mr_message_id = m, mr_user_id = u, mr_reaction = x, mr_created_at = now\<rparr>
         in (Inr r, d\<lparr>message_reactions := message_reactions d @ [r]\<rparr>)))"

definition remove_reaction :: "uuid \<Rightarrow> uuid \<Rightarrow> string \<Rightarrow> (db, domain_error, bool) op" where
  "remove_reaction m u x d =
     (Inr (count_where (same_reaction m u x) (message_reactions d) > 0),
      d\<lparr>message_reactions := delete_where (same_reaction m u x) (message_reactions d)\<rparr>)"

section \<open>Editing and deleting\<close>

definition own_message :: "uuid \<Rightarrow> uuid \<Rightarrow> message_row \<Rightarrow> bool" where
  "own_message u m r \<longleftrightarrow> m_id r = m \<and> m_sender_id r = Some u \<and> m_deleted_at r = None"

definition edited :: "timestamp \<Rightarrow> string option \<Rightarrow> string option \<Rightarrow> message_row \<Rightarrow> message_row" where
  "edited now content iv r =
     r\<lparr>m_content_encrypted := coalesce content (m_content_encrypted r),
       m_content_iv := coalesce iv (m_content_iv r), m_edited_at := Some now\<rparr>"

definition erased :: "timestamp \<Rightarrow> message_row \<Rightarrow> message_row" where
  "erased now r =
     r\<lparr>m_deleted_at := Some now, m_content_encrypted := None, m_content_iv := None,
       m_message_type := ''deleted''\<rparr>"

definition edit_message ::
  "timestamp \<Rightarrow> uuid \<Rightarrow> uuid \<Rightarrow> string option \<Rightarrow> string option \<Rightarrow> (db, domain_error, message_row) op" where
  "edit_message now u m content iv =
     and_then (query (\<lambda>d. ok_or (map_option m_chat_id (select_one (own_message u m) (messages d)))
       (NotFound ''message not found or not authorized''))) (\<lambda>c.
     and_then (query (ensure_active_membership_pool u c)) (\<lambda>_.
     if content = None \<and> iv = None
     then throw (Validation ''content_encrypted and content_iv are required'')
     else
       and_then (sql (update_messages (\<lambda>r. m_id r = m) (edited now content iv))) (\<lambda>_.
       query (\<lambda>d. map_sqlx (fetch_one (select_one (\<lambda>r. m_id r = m) (messages d)))))))"

definition delete_message :: "timestamp \<Rightarrow> uuid \<Rightarrow> uuid \<Rightarrow> (db, domain_error, unit) op" where
  "delete_message now u m d =
     (let n = count_where (own_message u m) (messages d)
      in and_then (sql (update_messages (own_message u m) (erased now)))
         (\<lambda>_. if n = 0 then throw (NotFound ''message not found or not authorized'') else ret ()) d)"

section \<open>Events\<close>

definition new_message_job :: "uuid \<Rightarrow> message_row \<Rightarrow> push_job" where
  "new_message_job u m =
     \<lparr>job_user_id = u, job_notification_type = ''new_message'',
      job_payload = MessagePush (m_chat_id m) (m_id m) (m_sender_id m)\<rparr>"

text \<open>\<open>.await.unwrap_or(None).unwrap_or_default()\<close>, then the two conditions for a muted chat.\<close>

definition settings_or_default :: "uuid \<Rightarrow> uuid \<Rightarrow> db \<Rightarrow> chat_settings_value" where
  "settings_or_default u c d =
     (case get_chat_settings u c d of Inl _ \<Rightarrow> default_settings | Inr s \<Rightarrow> unwrap_or s default_settings)"

definition is_muted :: "timestamp \<Rightarrow> chat_settings_value \<Rightarrow> bool" where
  "is_muted now s \<longleftrightarrow>
     st_is_muted s \<or> (case st_muted_until s of None \<Rightarrow> False | Some until \<Rightarrow> until > now)"

definition notify_participant :: "redis_env \<Rightarrow> timestamp \<Rightarrow> message_row \<Rightarrow> uuid \<Rightarrow> unit handler" where
  "notify_participant env now m u =
     and_then (publish env ''failed to publish user event'' (UserEvents u)
       (EvNewMessageFor (m_chat_id m) (m_id m) (m_sender_id m) (m_content_encrypted m) (m_content_iv m)
          (m_message_type m) (m_created_at m))) (\<lambda>_ s.
       if is_online env now u s \<or> is_muted now (settings_or_default u (m_chat_id m) (srv_db s))
       then (Inr (), s) else enqueue_push env (new_message_job u m) s)"

fun notify_participants :: "redis_env \<Rightarrow> timestamp \<Rightarrow> message_row \<Rightarrow> uuid \<Rightarrow> uuid list \<Rightarrow> unit handler" where
  "notify_participants env now m sender [] = ret ()"
| "notify_participants env now m sender (u # us) =
     (if u = sender then notify_participants env now m sender us
      else and_then (notify_participant env now m u) (\<lambda>_. notify_participants env now m sender us))"

definition publish_message_event :: "redis_env \<Rightarrow> timestamp \<Rightarrow> message_row \<Rightarrow> uuid \<Rightarrow> unit handler" where
  "publish_message_event env now m sender =
     and_then (publish env ''failed to publish message event'' (ChatEvents (m_chat_id m))
       (EvNewMessage (m_chat_id m) (m_id m) (m_sender_id m) (m_created_at m))) (\<lambda>_.
     and_then (read_db (get_chat_participants (m_chat_id m))) (\<lambda>us.
     notify_participants env now m sender us))"

definition publish_messages_read_event :: "redis_env \<Rightarrow> uuid \<Rightarrow> uuid \<Rightarrow> timestamp \<Rightarrow> unit handler" where
  "publish_messages_read_event env c u up_to =
     publish env ''failed to publish messages_read event'' (ChatEvents c) (EvMessagesRead c u up_to)"

definition publish_reaction_event ::
  "redis_env \<Rightarrow> uuid \<Rightarrow> uuid \<Rightarrow> uuid \<Rightarrow> string \<Rightarrow> string \<Rightarrow> unit handler" where
  "publish_reaction_event env c m u x action =
     publish env ''failed to publish reaction event'' (ChatEvents c) (EvReaction c m u x action)"

section \<open>Handlers\<close>

text \<open>\<open>None\<close> in place of the body is the answer 429.\<close>

definition h_send_message ::
  "redis_env \<Rightarrow> uuid \<Rightarrow> timestamp \<Rightarrow> uuid \<Rightarrow> uuid \<Rightarrow> new_message \<Rightarrow> (nat \<times> message_row option) handler" where
  "h_send_message env new_id now auth c req =
     and_then (on_redis env (check_rate_limit now (''msg:'' @ re_show env auth) 15 10)) (\<lambda>allowed.
       if \<not> allowed then ret (429, None)
       else
         and_then (on_db (send_message new_id now auth c req)) (\<lambda>m.
         and_then (publish_message_event env now m auth) (\<lambda>_.
         ret (201, Some m))))"

definition parse_direction :: "string option \<Rightarrow> message_direction dres" where
  "parse_direction s =
     (let d = unwrap_or s ''before''
      in if d = ''before'' then Inr Before
         else if d = ''after'' then Inr After
         else Inl (Validation ''direction must be before or after''))"

definition message_cursor_of :: "message_row \<Rightarrow> message_cursor" where
  "message_cursor_of m = \<lparr>mc_created_at = m_created_at m, mc_message_id = m_id m\<rparr>"

definition h_list_messages ::
  "message_cursor cursor_codec \<Rightarrow> uuid \<Rightarrow> uuid \<Rightarrow> string option \<Rightarrow> int option \<Rightarrow> string option \<Rightarrow> db
     \<Rightarrow> (message_row list \<times> string option \<times> bool) dres" where
  "h_list_messages cc auth c cursor limit_opt direction d =
     (let limit = clamp 1 50 (unwrap_or limit_opt 50)
      in case parse_direction direction of
           Inl e \<Rightarrow> Inl e
         | Inr dir \<Rightarrow>
             list_handler ''message '' cc message_cursor_of
               (\<lambda>cur n. list_messages auth c cur dir n) limit cursor d)"

definition h_mark_messages_read ::
  "redis_env \<Rightarrow> timestamp \<Rightarrow> uuid \<Rightarrow> uuid \<Rightarrow> timestamp \<Rightarrow> (nat \<times> nat) handler" where
  "h_mark_messages_read env now auth c up_to =
     and_then (read_db (verify_participant auth c)) (\<lambda>_.
     and_then (on_db (mark_messages_read now auth c up_to)) (\<lambda>n.
     and_then (publish_messages_read_event env c auth up_to) (\<lambda>_. ret (200, n))))"

definition h_add_reaction ::
  "redis_env \<Rightarrow> uuid \<Rightarrow> timestamp \<Rightarrow> uuid \<Rightarrow> uuid \<Rightarrow> uuid \<Rightarrow> string \<Rightarrow> (nat \<times> reaction_row) handler" where
  "h_add_reaction env new_id now auth c m x =
     and_then (read_db (verify_participant auth c)) (\<lambda>_.
     and_then (read_db (verify_message_in_chat m c)) (\<lambda>_.
     and_then (on_db (add_reaction new_id now m auth x)) (\<lambda>r.
     and_then (publish_reaction_event env c m auth (mr_reaction r) ''add'') (\<lambda>_.
     ret (201, r)))))"

text \<open>\<open>url_decode\<close> is \<open>urlencoding::decode\<close>.\<close>

definition h_remove_reaction ::
  "(string \<Rightarrow> string option) \<Rightarrow> redis_env \<Rightarrow> uuid \<Rightarrow> uuid \<Rightarrow> uuid \<Rightarrow> string \<Rightarrow> (nat \<times> bool) handler" where
  "h_remove_reaction url_decode env auth c m emoji =
     and_then (lift_result (ok_or (url_decode emoji) (Validation ''invalid emoji encoding''))) (\<lambda>x.
     and_then (read_db (verify_participant auth c)) (\<lambda>_.
     and_then (read_db (verify_message_in_chat m c)) (\<lambda>_.
     and_then (on_db (remove_reaction m auth x)) (\<lambda>removed.
     and_then (if removed then publish_reaction_event env c m auth x ''remove'' else ret ()) (\<lambda>_.
     ret (200, removed))))))"

record edit_message_response =
  em_id :: uuid
  em_chat_id :: uuid
  em_content_encrypted :: "string option"
  em_content_iv :: "string option"
  em_edited_at :: timestamp

definition h_edit_message ::
  "timestamp \<Rightarrow> uuid \<Rightarrow> uuid \<Rightarrow> uuid \<Rightarrow> string option \<Rightarrow> string option
     \<Rightarrow> (nat \<times> edit_message_response) handler" where
  "h_edit_message now auth c m content iv =
     and_then (read_db (verify_participant auth c)) (\<lambda>_.
     and_then (on_db (edit_message now auth m content iv)) (\<lambda>r.
     ret (200, \<lparr>em_id = m_id r, em_chat_id = m_chat_id r, em_content_encrypted = m_content_encrypted r,
                em_content_iv = m_content_iv r,
                em_edited_at = unwrap_or (m_edited_at r) (m_created_at r)\<rparr>)))"

definition h_delete_message :: "timestamp \<Rightarrow> uuid \<Rightarrow> uuid \<Rightarrow> uuid \<Rightarrow> (nat \<times> bool) handler" where
  "h_delete_message now auth c m =
     and_then (read_db (verify_participant auth c)) (\<lambda>_.
     and_then (on_db (delete_message now auth m)) (\<lambda>_. ret (200, True)))"

end
