(* ===== verification/MessageProps.thy ===== *)
theory MessageProps
  imports Messages
begin

text \<open>
  What the message operations guarantee: the invariant of the message tables in every reachable state,
  who can send, edit and delete, and what a message leaves behind for each participant.
\<close>

section \<open>The invariant of the message tables\<close>

definition tombstone :: "message_row \<Rightarrow> bool" where
  "tombstone r \<longleftrightarrow>
     m_content_encrypted r = None \<and> m_content_iv r = None \<and> m_message_type r = ''deleted''"

definition reaction_key :: "reaction_row \<Rightarrow> uuid \<times> uuid \<times> string" where
  "reaction_key r = (mr_message_id r, mr_user_id r, mr_reaction r)"

definition message_inv :: "db \<Rightarrow> bool" where
  "message_inv d \<longleftrightarrow>
     unique_on m_id (messages d) \<and>
     (\<forall>r\<in>set (messages d). message_checks r \<and> (m_deleted_at r \<noteq> None \<longrightarrow> tombstone r)) \<and>
     unique_on status_key (message_status d) \<and>
     (\<forall>s\<in>set (message_status d). message_exists d (ms_message_id s)) \<and>
     unique_on reaction_key (message_reactions d)"

lemma message_inv_unique: "message_inv d \<Longrightarrow> unique_on m_id (messages d)"
  by (simp add: message_inv_def)

lemma message_exists_append:
  "message_exists (d\<lparr>messages := messages d @ [r]\<rparr>) m \<longleftrightarrow> message_exists d m \<or> m_id r = m"
  by (auto simp: message_exists_def exists_where_iff)

lemma message_exists_frame [simp]:
  "message_exists (d\<lparr>message_status := t\<rparr>) m = message_exists d m"
  "message_exists (d\<lparr>message_reactions := t'\<rparr>) m = message_exists d m"
  by (simp_all add: message_exists_def)

lemma insert_message_keeps:
  assumes "message_inv d" "insert_message r d = Inr d'" "m_deleted_at r = None"
  shows "message_inv d'"
proof -
  from assms(2) have d': "d' = d\<lparr>messages := messages d @ [r]\<rparr>" "message_checks r" "\<not> message_exists d (m_id r)"
    by (auto simp: insert_message_def split: if_splits)
  then show ?thesis
    using assms(1,3)
    by (auto simp: message_inv_def unique_on_snoc message_exists_append)
      (auto simp: message_exists_def exists_where_iff)
qed

lemma insert_statuses_keeps:
  assumes "message_inv d" "insert_statuses now m c d = Inr d'"
  shows "message_inv d'"
proof -
  let ?new = "filter (\<lambda>u. \<not> exists_where (\<lambda>s. status_key s = (m, u)) (message_status d))
    (remdups (map cp_user_id (select_where (active_in c) (chat_participants d))))"
  let ?rows = "map (new_status now m) ?new"
  from assms(2) have d': "d' = d\<lparr>message_status := message_status d @ ?rows\<rparr>" "message_exists d m"
    by (auto simp: insert_statuses_def Let_def split: if_splits)
  have keys: "map status_key ?rows = map (Pair m) ?new" by (simp add: status_key_def new_status_def)
  have "distinct (map status_key ?rows)" unfolding keys by (simp add: distinct_map inj_on_def)
  moreover have "set (map status_key ?rows) \<inter> set (map status_key (message_status d)) = {}"
    unfolding keys by (auto simp: exists_where_iff)
  moreover have "distinct (map status_key (message_status d))"
    using assms(1) by (simp add: message_inv_def unique_on_def)
  ultimately have "unique_on status_key (message_status d @ ?rows)"
    unfolding unique_on_def map_append distinct_append by blast
  then show ?thesis
    using assms(1) d' by (auto simp: message_inv_def new_status_def)
qed

lemma update_messages_keeps:
  assumes "message_inv d" "update_messages P f d = Inr d'"
    and f: "\<And>r. P r \<Longrightarrow> m_id (f r) = m_id r"
    and del: "\<And>r. r \<in> set (messages d) \<Longrightarrow> P r \<Longrightarrow> m_deleted_at (f r) \<noteq> None \<Longrightarrow> tombstone (f r)"
  shows "message_inv d'"
proof -
  from assms(2) have d': "d' = d\<lparr>messages := update_where P f (messages d)\<rparr>"
    and ok: "\<forall>r\<in>set (messages d). P r \<longrightarrow> message_checks (f r)"
    by (auto simp: update_messages_def exists_where_iff split: if_splits)
  have ids: "message_exists d' m = message_exists d m" for m
    unfolding d' message_exists_def using f by (simp add: exists_where_update_same)
  have "unique_on m_id (update_where P f (messages d))"
    using assms(1) f by (simp add: unique_on_update_where message_inv_def)
  moreover have "message_checks r \<and> (m_deleted_at r \<noteq> None \<longrightarrow> tombstone r)"
    if "r \<in> set (update_where P f (messages d))" for r
    using that
  proof (cases rule: in_update_whereE)
    case (hit x)
    then show ?thesis using ok del by simp
  next
    case miss
    then show ?thesis using assms(1) by (simp add: message_inv_def)
  qed
  ultimately show ?thesis
    using assms(1) ids by (simp add: message_inv_def d')
qed

lemma send_message_Inr:
  assumes "send_message i now u c m d = (Inr r, d')"
  obtains ty d1 where "r = new_message_row i now u c m"
    "ensure_active_membership u c d = Inr ty" "ty = ''private'' \<longrightarrow> \<not> blocked_in_private_chat u c d"
    "nm_message_type m \<in> set message_type_values"
    "insert_message r d = Inr d1" "insert_statuses now i c d1 = Inr d'"
proof -
  obtain ty where ty: "ensure_active_membership u c d = Inr ty"
    using assms by (cases "ensure_active_membership u c d") (auto simp: send_message_def run_simps)
  have b: "ty = ''private'' \<longrightarrow> \<not> blocked_in_private_chat u c d"
    using assms ty by (auto simp: send_message_def run_simps ensure_not_blocked_in_private_chat_def)
  show ?thesis
    using assms ty b that
    by (auto simp: send_message_def run_simps ensure_not_blocked_in_private_chat_def enum_cast_def map_sqlx_def
        split: if_splits sum.splits)
qed

lemma send_message_Inl: "send_message i now u c m d = (Inl e, d') \<Longrightarrow> d' = d"
  by (auto simp: send_message_def transaction_Inl_iff)

lemma send_message_keeps:
  assumes "message_inv d" shows "message_inv (snd (send_message i now u c m d))"
proof (cases "send_message i now u c m d")
  case (Pair x d')
  show ?thesis
  proof (cases x)
    case (Inl e)
    then have "d' = d" using Pair by (intro send_message_Inl) simp
    then show ?thesis using Pair assms by simp
  next
    case (Inr r)
    with Pair obtain d1 where r: "r = new_message_row i now u c m"
      and ins: "insert_message r d = Inr d1" "insert_statuses now i c d1 = Inr d'"
      by (auto elim!: send_message_Inr)
    have "message_inv d1" by (rule insert_message_keeps [OF assms ins(1)]) (simp add: r new_message_row_def)
    then have "message_inv d'" using ins(2) by (rule insert_statuses_keeps)
    then show ?thesis using Pair by simp
  qed
qed

lemma own_message_unique:
  assumes "message_inv d" "select_one (own_message u m) (messages d) = Some r"
  shows "\<forall>x\<in>set (messages d). m_id x = m \<longrightarrow> x = r" "own_message u m r" "r \<in> set (messages d)"
  using assms unique_on_eq [OF message_inv_unique [OF assms(1)]]
  by (auto dest!: select_one_SomeD simp: own_message_def)

lemma edit_message_cases:
  obtains (err) e where "edit_message now u m content iv d = (Inl e, d)"
  | (ok) r r' d' where "edit_message now u m content iv d = (Inr r', d')"
      "select_one (own_message u m) (messages d) = Some r"
      "active_member d u (m_chat_id r)"
      "content \<noteq> None \<or> iv \<noteq> None"
      "update_messages (\<lambda>r. m_id r = m) (edited now content iv) d = Inr d'"
      "select_one (\<lambda>r. m_id r = m) (messages d') = Some r'"
proof -
  let ?upd = "update_messages (\<lambda>r. m_id r = m) (edited now content iv) d"
  show ?thesis
  proof (cases "\<exists>e. edit_message now u m content iv d = (Inl e, d)")
    case True
    then show ?thesis using err by blast
  next
    case False
    then obtain r where r: "select_one (own_message u m) (messages d) = Some r"
      by (cases "select_one (own_message u m) (messages d)") (auto simp: edit_message_def run_simps)
    have mem: "chat_of_member d u (m_chat_id r) \<noteq> None"
      using False r by (auto simp: edit_message_def run_simps ensure_active_membership_pool_def split: if_splits)
    then have act: "active_member d u (m_chat_id r)" by (auto simp: chat_of_member_eq split: if_splits)
    have given: "content \<noteq> None \<or> iv \<noteq> None"
      using False r mem
      by (auto simp: edit_message_def run_simps ensure_active_membership_pool_def split: if_splits)
    then obtain d' where d': "?upd = Inr d'"
      using False r mem by (cases ?upd) (auto simp: edit_message_def run_simps ensure_active_membership_pool_def)
    have "\<exists>r'. select_one (\<lambda>r. m_id r = m) (messages d') = Some r'"
    proof -
      have "select_one (\<lambda>r. m_id r = m) (messages d) \<noteq> None"
        using r by (auto simp: own_message_def select_one_None_iff dest!: select_one_SomeD)
      moreover have "messages d' = update_where (\<lambda>r. m_id r = m) (edited now content iv) (messages d)"
        using d' by (auto simp: update_messages_def split: if_splits)
      ultimately show ?thesis by (simp add: select_one_update_hit edited_def)
    qed
    then obtain r' where r': "select_one (\<lambda>r. m_id r = m) (messages d') = Some r'" by blast
    then have "edit_message now u m content iv d = (Inr r', d')"
      using r mem given d' by (auto simp: edit_message_def run_simps ensure_active_membership_pool_def)
    from ok [OF this r act given d' r'] show ?thesis .
  qed
qed

lemma edit_message_keeps:
  assumes "message_inv d" shows "message_inv (snd (edit_message now u m content iv d))"
proof (cases rule: edit_message_cases [of now u m content iv d])
  case (err e)
  then show ?thesis using assms by simp
next
  case (ok r r' d')
  note own = own_message_unique [OF assms ok(2)]
  have live: "m_deleted_at x = None" if "x \<in> set (messages d)" "m_id x = m" for x
  proof -
    have "x = r" using own(1) that by blast
    then show ?thesis using own(2) by (simp add: own_message_def)
  qed
  have "message_inv d'"
  proof (rule update_messages_keeps [OF assms ok(5)])
    show "m_id (edited now content iv x) = m_id x" for x by (simp add: edited_def)
    show "tombstone (edited now content iv x)"
      if "x \<in> set (messages d)" "m_id x = m" "m_deleted_at (edited now content iv x) \<noteq> None" for x
      using live [OF that(1,2)] that(3) by (simp add: edited_def)
  qed
  then show ?thesis using ok(1) by simp
qed

lemma delete_message_cases:
  obtains (none) "delete_message now u m d = (Inl (NotFound ''message not found or not authorized''), d)"
      "\<forall>r\<in>set (messages d). \<not> own_message u m r"
  | (deleted) "delete_message now u m d = (Inr (), d\<lparr>messages := update_where (own_message u m) (erased now) (messages d)\<rparr>)"
      "\<exists>r\<in>set (messages d). own_message u m r"
proof -
  have upd: "update_messages (own_message u m) (erased now) d = Inr (d\<lparr>messages := update_where (own_message u m) (erased now) (messages d)\<rparr>)"
    by (auto simp: update_messages_def message_checks_def exists_where_iff erased_def)
  show ?thesis
  proof (cases "count_where (own_message u m) (messages d) = 0")
    case True
    then have no: "\<forall>r\<in>set (messages d). \<not> own_message u m r" by (simp add: count_where_0_iff)
    then have "update_where (own_message u m) (erased now) (messages d) = messages d" by (rule update_where_none)
    then show ?thesis using none no True upd by (simp add: delete_message_def run_simps)
  next
    case False
    then have "\<exists>r\<in>set (messages d). own_message u m r" by (simp add: count_where_0_iff)
    then show ?thesis using deleted False upd by (simp add: delete_message_def run_simps)
  qed
qed

lemma delete_message_none:
  assumes "\<And>r. r \<in> set (messages d) \<Longrightarrow> \<not> own_message u m r"
  shows "delete_message now u m d = (Inl (NotFound ''message not found or not authorized''), d)"
  using assms by (cases rule: delete_message_cases [of now u m d]) blast+

lemma delete_message_keeps:
  assumes "message_inv d" shows "message_inv (snd (delete_message now u m d))"
proof (cases rule: delete_message_cases [of now u m d])
  case none
  then show ?thesis using assms by simp
next
  case deleted
  have "update_messages (own_message u m) (erased now) d = Inr (d\<lparr>messages := update_where (own_message u m) (erased now) (messages d)\<rparr>)"
    by (auto simp: update_messages_def message_checks_def exists_where_iff erased_def)
  from update_messages_keeps [OF assms this] show ?thesis
    using deleted(1) by (simp add: tombstone_def erased_def)
qed

lemma mark_messages_read_keeps:
  assumes "message_inv d" shows "message_inv (snd (mark_messages_read now u c up_to d))"
proof -
  have "unique_on status_key (update_where P (\<lambda>s. s\<lparr>ms_status := x, ms_updated_at := now\<rparr>) (message_status d)) =
      unique_on status_key (message_status d)" for P x
    by (rule unique_on_update_where) (simp add: status_key_def)
  then show ?thesis
    using assms by (auto simp: message_inv_def mark_messages_read_def set_update_where)
qed

lemma add_reaction_keeps:
  assumes "message_inv d" shows "message_inv (snd (add_reaction i now m u x d))"
  using assms
  by (auto simp: message_inv_def add_reaction_def Let_def unique_on_snoc reaction_key_def same_reaction_def
      exists_where_iff)

lemma remove_reaction_keeps:
  assumes "message_inv d" shows "message_inv (snd (remove_reaction m u x d))"
  using assms by (simp add: message_inv_def remove_reaction_def unique_on_delete_where)

text \<open>
  A step of the message operations, or of anything else that leaves the three message tables alone.
\<close>

inductive message_step :: "db \<Rightarrow> db \<Rightarrow> bool" where
  send: "message_step d (snd (send_message i now u c m d))"
| edit: "message_step d (snd (edit_message now u m content iv d))"
| delete: "message_step d (snd (delete_message now u m d))"
| mark: "message_step d (snd (mark_messages_read now u c up_to d))"
| react: "message_step d (snd (add_reaction i now m u x d))"
| unreact: "message_step d (snd (remove_reaction m u x d))"
| other: "messages d' = messages d \<Longrightarrow> message_status d' = message_status d \<Longrightarrow>
    message_reactions d' = message_reactions d \<Longrightarrow> message_step d d'"

inductive message_reachable :: "db \<Rightarrow> bool" where
  start: "messages d = [] \<Longrightarrow> message_status d = [] \<Longrightarrow> message_reactions d = [] \<Longrightarrow> message_reachable d"
| step: "message_reachable d \<Longrightarrow> message_step d d' \<Longrightarrow> message_reachable d'"

lemma message_step_keeps: "message_step d d' \<Longrightarrow> message_inv d \<Longrightarrow> message_inv d'"
proof (induction rule: message_step.induct)
  case (other d' d)
  then show ?case by (simp add: message_inv_def message_exists_def)
qed (rule send_message_keeps edit_message_keeps delete_message_keeps mark_messages_read_keeps
      add_reaction_keeps remove_reaction_keeps, assumption)+

lemma message_reachable_inv: "message_reachable d \<Longrightarrow> message_inv d"
  by (induction rule: message_reachable.induct)
    (simp add: message_inv_def, blast intro: message_step_keeps)

section \<open>Sending\<close>

lemma unique_map_select:
  assumes "chat_schema d"
  shows "distinct (map cp_user_id (select_where (active_in c) (chat_participants d)))"
proof -
  let ?ps = "select_where (active_in c) (chat_participants d)"
  have "distinct (map pkey ?ps)"
    using schema_pkey [OF assms] by (simp add: unique_on_def select_where_def distinct_map_filter)
  moreover have "map pkey ?ps = map (Pair c) (map cp_user_id ?ps)"
    by (simp add: pkey_def select_where_def active_in_def)
  ultimately have "distinct (map (Pair c) (map cp_user_id ?ps))" by (rule subst [rotated])
  then show ?thesis by (simp only: distinct_map)
qed

definition can_send :: "db \<Rightarrow> uuid \<Rightarrow> uuid \<Rightarrow> new_message \<Rightarrow> bool" where
  "can_send d u c m \<longleftrightarrow>
     (\<exists>r. chat_of_member d u c = Some r \<and> (c_type r = ''private'' \<longrightarrow> \<not> blocked_in_private_chat u c d)) \<and>
     nm_message_type m \<in> set message_type_values \<and>
     (nm_message_type m = ''text'' \<longrightarrow> nm_content_encrypted m \<noteq> None) \<and>
     (nm_content_encrypted m = None \<longleftrightarrow> nm_content_iv m = None) \<and>
     (case nm_reply_to_id m of None \<Rightarrow> True | Some x \<Rightarrow> message_exists d x)"

lemma member_user_exists:
  assumes "chat_schema d" "active_member d u c"
  shows "user_exists d u"
  using assms row_fks [OF assms(1)]
  by (auto simp: active_member_def active_in_def exists_where_iff participant_fks_def)

lemma chat_of_member_exists: "chat_of_member d u c = Some r \<Longrightarrow> chat_exists d c"
  by (auto simp: chat_of_member_eq chat_exists_def exists_where_iff split: if_splits dest!: select_one_SomeD)

lemma insert_statuses_new:
  assumes "chat_schema d" "message_inv d" "\<not> message_exists d i"
    and d1: "d1 = d\<lparr>messages := messages d @ [r]\<rparr>" "m_id r = i"
  shows "insert_statuses now i c d1 = Inr (d1\<lparr>message_status := message_status d @
    map (new_status now i) (map cp_user_id (select_where (active_in c) (chat_participants d)))\<rparr>)"
proof -
  let ?us = "map cp_user_id (select_where (active_in c) (chat_participants d))"
  have "filter (\<lambda>u. \<not> exists_where (\<lambda>s. status_key s = (i, u)) (message_status d)) (remdups ?us) = ?us"
    using assms(2,3) unique_map_select [OF assms(1), of c]
    by (auto simp: message_inv_def status_key_def exists_where_iff distinct_remdups_id intro!: filter_True)
  moreover have "list_all (user_exists d1) ?us"
    using row_fks [OF assms(1)] by (auto simp: list_all_iff select_where_def participant_fks_def d1 user_exists_def)
  moreover have "message_exists d1 i" using d1(2) by (simp add: d1(1) message_exists_append)
  ultimately show ?thesis by (simp add: insert_statuses_def d1(1) del: map_map)
qed

text \<open>Sending as a case distinction on the caller, who is an active member.\<close>

lemma send_message_run:
  assumes "chat_schema d" "message_inv d" "\<not> message_exists d i" and x: "chat_of_member d u c = Some x"
  shows "send_message i now u c m d =
    (let r = new_message_row i now u c m
     in if c_type x = ''private'' \<and> blocked_in_private_chat u c d
        then (Inl (Unauthorized ''cannot send messages in blocked private chat''), d)
        else if nm_message_type m = ''text'' \<and> (nm_content_encrypted m = None \<or> nm_content_iv m = None)
        then (Inl (Validation ''text messages require content_encrypted and content_iv''), d)
        else if nm_message_type m \<notin> set message_type_values then (Inl (from_sqlx invalid_enum), d)
        else if \<not> message_checks r then (Inl (from_sqlx check_violation), d)
        else if \<not> message_fks d r then (Inl (from_sqlx foreign_key_violation), d)
        else (Inr r, d\<lparr>messages := messages d @ [r], message_status := message_status d @
               map (new_status now i) (map cp_user_id (select_where (active_in c) (chat_participants d)))\<rparr>))"
proof -
  let ?r = "new_message_row i now u c m"
  have ins: "insert_message ?r d = (if \<not> message_checks ?r then Inl check_violation
      else if \<not> message_fks d ?r then Inl foreign_key_violation else Inr (d\<lparr>messages := messages d @ [?r]\<rparr>))"
    using assms(3) by (simp add: insert_message_def new_message_row_def)
  have "m_id ?r = i" by (simp add: new_message_row_def)
  note st = insert_statuses_new [OF assms(1-3) refl this, where now = now and c = c]
  have "ensure_active_membership u c d = Inr (c_type x)" using x by (simp add: ensure_active_membership_def)
  then show ?thesis
    unfolding Let_def
    by (simp add: send_message_def transaction_def run_simps ins st enum_cast_def
        ensure_not_blocked_in_private_chat_def del: map_map) auto
qed

lemma can_send_member:
  assumes "chat_schema d" and x: "chat_of_member d u c = Some x" and "nm_reply_to_id m \<noteq> Some i"
  shows "can_send d u c m \<longleftrightarrow>
    \<not> (c_type x = ''private'' \<and> blocked_in_private_chat u c d) \<and>
    \<not> (nm_message_type m = ''text'' \<and> (nm_content_encrypted m = None \<or> nm_content_iv m = None)) \<and>
    nm_message_type m \<in> set message_type_values \<and>
    message_checks (new_message_row i now u c m) \<and> message_fks d (new_message_row i now u c m)"
proof -
  have act: "active_member d u c" using x by (auto simp: chat_of_member_eq split: if_splits)
  have "message_checks (new_message_row i now u c m) \<longleftrightarrow>
      (nm_message_type m = ''text'' \<longrightarrow> nm_content_encrypted m \<noteq> None \<and> nm_content_iv m \<noteq> None) \<and>
      (nm_content_encrypted m = None \<longleftrightarrow> nm_content_iv m = None)"
    by (auto simp: message_checks_def new_message_row_def)
  moreover have "message_fks d (new_message_row i now u c m) \<longleftrightarrow>
      (case nm_reply_to_id m of None \<Rightarrow> True | Some y \<Rightarrow> message_exists d y)"
    using x chat_of_member_exists [OF x] member_user_exists [OF assms(1) act] assms(3)
    by (auto simp: message_fks_def new_message_row_def split: option.split)
  ultimately show ?thesis using x unfolding can_send_def by auto
qed

text \<open>
  C19. A message is accepted exactly when its sender is an active participant of a live chat in which he
  is not blocked (private chats), its type is one of the schema's, its content and IV are given
  together (always for a text) and the message it replies to exists. Then it is stored at the end,
  with the status \<open>sent\<close> for each active participant, and nothing else changes; otherwise nothing
  changes at all.
\<close>

theorem send_message_effect:
  assumes "chat_schema d" "message_inv d" "\<not> message_exists d i" "nm_reply_to_id m \<noteq> Some i"
  shows "(case send_message i now u c m d of
      (Inr r, d') \<Rightarrow> can_send d u c m \<and> r = new_message_row i now u c m \<and>
        d' = d\<lparr>messages := messages d @ [r], message_status := message_status d @
               map (new_status now i) (map cp_user_id (select_where (active_in c) (chat_participants d)))\<rparr>
    | (Inl e, d') \<Rightarrow> \<not> can_send d u c m \<and> d' = d)"
proof (cases "chat_of_member d u c")
  case None
  then show ?thesis
    by (simp add: send_message_def transaction_def run_simps ensure_active_membership_def can_send_def)
next
  case (Some x)
  note run = send_message_run [OF assms(1-3) Some, unfolded Let_def, of now m]
    and can = can_send_member [OF assms(1) Some assms(4), of now]
  show ?thesis
  proof (cases "can_send d u c m")
    case True
    then show ?thesis unfolding run using can by (simp del: map_map)
  next
    case False
    then show ?thesis unfolding run using can by auto
  qed
qed

definition hello :: new_message where
  "hello = \<lparr>nm_content_encrypted = Some ''c1'', nm_content_iv = Some ''v1'', nm_message_type = ''text'',
     nm_reply_to_id = None, nm_is_forwarded = False, nm_metadata = None\<rparr>"

lemma group_of_three_schema: "chat_schema group_of_three"
  using chat_reachable_ok [OF group_of_three_reachable] by (rule members_schema)

lemma group_of_three_messages: "messages group_of_three = []" "message_status group_of_three = []"
    "message_reactions group_of_three = []"
  by code_simp+

lemma group_of_three_inv: "message_inv group_of_three"
  by (rule message_reachable_inv [OF message_reachable.start]) (rule group_of_three_messages)+

theorem send_message_effect_witness:
  "\<exists>d'. send_message 100 50 1 10 hello group_of_three = (Inr (new_message_row 100 50 1 10 hello), d') \<and>
     map ms_user_id (message_status d') = [1, 2, 3]"
proof -
  have "is_ok (fst (send_message 100 50 1 10 hello group_of_three))" by code_simp
  then obtain r d' where run: "send_message 100 50 1 10 hello group_of_three = (Inr r, d')"
    unfolding is_ok_iff by (metis prod.collapse)
  have "map cp_user_id (select_where (active_in 10) (chat_participants group_of_three)) = [1, 2, 3]"
    by code_simp
  note us = this
  have new: "\<not> message_exists group_of_three 100" "nm_reply_to_id hello \<noteq> Some 100"
    by (simp_all add: message_exists_def group_of_three_messages exists_where_def hello_def)
  have "r = new_message_row 100 50 1 10 hello"
    "message_status d' = map (new_status 50 100) [1, 2, 3]"
    using send_message_effect [OF group_of_three_schema group_of_three_inv new, where now = 50 and u = 1 and c = 10]
    unfolding run us by (simp_all add: group_of_three_messages)
  then show ?thesis using run by (simp add: new_status_def)
qed

text \<open>
  When one of the two participants of a private chat has blocked the other, neither of them can
  send a message to it.
\<close>

theorem blocked_pair_cannot_message:
  assumes "chat_of_member d a c = Some r" "chat_of_member d b c = Some r" "c_type r = ''private''"
    and "a \<noteq> b" "block \<in> set (user_blocks d)" "ub_blocker_id block = a" "ub_blocked_id block = b"
    and "sender \<in> {a, b}"
  shows "send_message i now sender c m d =
    (Inl (Unauthorized ''cannot send messages in blocked private chat''), d)"
proof -
  have act: "active_member d a c" "active_member d b c"
    using assms(1,2) by (auto simp: chat_of_member_eq split: if_splits)
  then obtain p q where p: "p \<in> set (chat_participants d)" "active_in c p" "cp_user_id p = a"
    and q: "q \<in> set (chat_participants d)" "active_in c q" "cp_user_id q = b"
    by (auto simp: active_member_def exists_where_iff)
  have "blocked_in_private_chat sender c d"
  proof (cases "sender = a")
    case True
    then show ?thesis
      unfolding blocked_in_private_chat_def exists_where_iff
      using q assms(4-7) by (intro bexI [of _ q] conjI bexI [of _ block]) (auto simp: active_in_def)
  next
    case False
    then have "sender = b" using assms(8) by simp
    then show ?thesis
      unfolding blocked_in_private_chat_def exists_where_iff
      using p assms(4-7) by (intro bexI [of _ p] conjI bexI [of _ block]) (auto simp: active_in_def)
  qed
  moreover have "ensure_active_membership sender c d = Inr (c_type r)"
    using assms(1,2,8) by (auto simp: ensure_active_membership_def)
  ultimately show ?thesis
    using assms(3) by (simp add: send_message_def transaction_def run_simps ensure_not_blocked_in_private_chat_def)
qed

definition blocked_pair :: db where
  "blocked_pair = (snd (create_private_chat 20 5 1 2 three_users))
     \<lparr>user_blocks := [\<lparr>ub_id = 7, ub_blocker_id = 1, ub_blocked_id = 2, ub_created_at = 6\<rparr>]\<rparr>"

theorem blocked_pair_cannot_message_witness:
  "send_message 100 50 2 20 hello blocked_pair =
     (Inl (Unauthorized ''cannot send messages in blocked private chat''), blocked_pair)"
proof -
  have "map_option c_type (chat_of_member blocked_pair 1 20) = Some ''private''"
    "chat_of_member blocked_pair 2 20 = chat_of_member blocked_pair 1 20"
    by code_simp+
  then obtain r where r: "chat_of_member blocked_pair 1 20 = Some r" "chat_of_member blocked_pair 2 20 = Some r"
    "c_type r = ''private''" by auto
  have "user_blocks blocked_pair = [\<lparr>ub_id = 7, ub_blocker_id = 1, ub_blocked_id = 2, ub_created_at = 6\<rparr>]"
    by (simp add: blocked_pair_def)
  then show ?thesis
    by (intro blocked_pair_cannot_message [OF r, where block =
          "\<lparr>ub_id = 7, ub_blocker_id = 1, ub_blocked_id = 2, ub_created_at = 6\<rparr>"]) simp_all
qed

section \<open>The invariant\<close>

text \<open>
  C21. In every reachable state: message ids are unique, a live text has its content and IV, a deleted
  message has neither and the type \<open>deleted\<close>, a participant has at most one status per message, every
  status is of a stored message, and nobody has the same reaction twice on a message.
\<close>

theorem message_tables_invariant:
  assumes "message_reachable d"
  shows "distinct (map m_id (messages d)) \<and>
    (\<forall>r\<in>set (messages d).
       (if m_deleted_at r = None
        then m_message_type r = ''text'' \<longrightarrow> m_content_encrypted r \<noteq> None \<and> m_content_iv r \<noteq> None
        else m_content_encrypted r = None \<and> m_content_iv r = None \<and> m_message_type r = ''deleted'')) \<and>
    distinct (map (\<lambda>s. (ms_message_id s, ms_user_id s)) (message_status d)) \<and>
    (\<forall>s\<in>set (message_status d). \<exists>r\<in>set (messages d). m_id r = ms_message_id s) \<and>
    distinct (map (\<lambda>x. (mr_message_id x, mr_user_id x, mr_reaction x)) (message_reactions d))"
  using message_reachable_inv [OF assms]
  unfolding message_inv_def unique_on_def status_key_def [abs_def] reaction_key_def [abs_def]
    message_checks_def tombstone_def message_exists_def exists_where_iff
  by auto

definition after_delete :: db where
  "after_delete = snd (delete_message 60 1 100 (snd (send_message 100 50 1 10 hello group_of_three)))"

theorem message_tables_invariant_witness:
  "distinct (map m_id (messages after_delete)) \<and>
   map m_message_type (messages after_delete) = [''deleted''] \<and>
   map m_content_iv (messages after_delete) = [None]"
proof -
  have "message_reachable after_delete"
    unfolding after_delete_def
    by (rule message_reachable.step [OF message_reachable.step [OF message_reachable.start
        [OF group_of_three_messages] message_step.send] message_step.delete])
  moreover have "map m_message_type (messages after_delete) = [''deleted'']"
    "map m_content_iv (messages after_delete) = [None]"
    by code_simp+
  ultimately show ?thesis using message_tables_invariant [of after_delete] by blast
qed

section \<open>Editing and deleting\<close>

lemma edit_own_only:
  assumes "message_inv d"
  shows "case edit_message now u m content iv d of
      (Inl e, d') \<Rightarrow> d' = d
    | (Inr r, d') \<Rightarrow> \<exists>x\<in>set (messages d). own_message u m x \<and> r = edited now content iv x \<and>
        d' = d\<lparr>messages := map (\<lambda>y. if y = x then edited now content iv x else y) (messages d)\<rparr>"
proof (cases rule: edit_message_cases [of now u m content iv d])
  case (ok r r' d')
  note own = own_message_unique [OF assms ok(2)]
  have d': "d' = d\<lparr>messages := update_where (\<lambda>r. m_id r = m) (edited now content iv) (messages d)\<rparr>"
    using ok(5) by (auto simp: update_messages_def split: if_splits)
  have id: "m_id r = m" using own(2) by (simp add: own_message_def)
  have same: "update_where (\<lambda>r. m_id r = m) (edited now content iv) (messages d) =
      map (\<lambda>y. if y = r then edited now content iv r else y) (messages d)"
    unfolding update_where_def
  proof (rule map_cong [OF refl])
    fix y assume "y \<in> set (messages d)"
    then have "m_id y = m \<longleftrightarrow> y = r" using own(1) id by blast
    then show "(if m_id y = m then edited now content iv y else y) =
        (if y = r then edited now content iv r else y)" by simp
  qed
  have "select_one (\<lambda>r. m_id r = m) (messages d) = Some r"
    by (rule select_one_unique [OF message_inv_unique [OF assms] own(3)]) (simp add: id)
  moreover have "select_one (\<lambda>r. m_id r = m) (messages d') =
      map_option (edited now content iv) (select_one (\<lambda>r. m_id r = m) (messages d))"
    unfolding d' by (simp add: select_one_update_hit edited_def)
  ultimately have "r' = edited now content iv r" using ok(6) by simp
  then show ?thesis unfolding ok(1) d' same using own(2,3) by (simp only: prod.case sum.case) blast
qed simp

text \<open>After the author deleted a message every row with its id is a tombstone.\<close>

lemma erased_is_gone:
  assumes "message_inv d" "x \<in> set (messages d)" "own_message u m x"
    and "y \<in> set (update_where (own_message u m) (erased now) (messages d))" "m_id y = m"
  shows "m_deleted_at y \<noteq> None"
  using assms(4)
proof (cases rule: in_update_whereE)
  case (hit z)
  then show ?thesis by (simp add: erased_def)
next
  case miss
  have "y = x"
    using unique_on_eq [OF message_inv_unique [OF assms(1)] miss(1) assms(2)] assms(3,5)
    by (simp add: own_message_def)
  then show ?thesis using miss(2) assms(3) by simp
qed

lemma delete_own_only:
  assumes "message_inv d"
  shows "case delete_message now u m d of
      (Inl e, d') \<Rightarrow> d' = d \<and> (\<forall>x\<in>set (messages d). \<not> own_message u m x)
    | (Inr _, d') \<Rightarrow> (\<exists>x\<in>set (messages d). own_message u m x) \<and>
        (\<forall>c. \<forall>x\<in>set (live_messages c d'). m_id x \<noteq> m) \<and>
        (\<forall>v. fst (delete_message now v m d') = Inl (NotFound ''message not found or not authorized''))"
proof (cases rule: delete_message_cases [of now u m d])
  case deleted
  then obtain x where x: "x \<in> set (messages d)" "own_message u m x" by blast
  let ?d' = "d\<lparr>messages := update_where (own_message u m) (erased now) (messages d)\<rparr>"
  note gone = erased_is_gone [OF assms x]
  have "\<not> own_message v m y" if "y \<in> set (messages ?d')" for v y
    using gone [of y now] that by (auto simp: own_message_def)
  then have "fst (delete_message now v m ?d') = Inl (NotFound ''message not found or not authorized'')" for v
    by (subst delete_message_none) simp_all
  moreover have "m_id y \<noteq> m" if "y \<in> set (live_messages c ?d')" for c y
    using gone [of y now] that by (auto simp: live_messages_def select_where_def)
  ultimately show ?thesis unfolding deleted(1) using x by (simp only: prod.case sum.case) blast
qed simp

text \<open>
  C22. Only the author can edit or delete a message, and only while it is live. An edit changes that
  message alone, and of it only what is given; a deleted message is gone from every listing of its
  chat and cannot be edited or deleted again. (The API document also lets an admin of the chat delete a
  message; the code does not.)
\<close>

theorem only_author_edits_and_deletes:
  assumes "message_inv d"
  shows "(case edit_message now u m content iv d of
        (Inl e, d') \<Rightarrow> d' = d
      | (Inr r, d') \<Rightarrow> \<exists>x\<in>set (messages d). own_message u m x \<and> r = edited now content iv x \<and>
          d' = d\<lparr>messages := map (\<lambda>y. if y = x then edited now content iv x else y) (messages d)\<rparr>) \<and>
    (case delete_message now u m d of
        (Inl e, d') \<Rightarrow> d' = d \<and> (\<forall>x\<in>set (messages d). \<not> own_message u m x)
      | (Inr _, d') \<Rightarrow> (\<exists>x\<in>set (messages d). own_message u m x) \<and>
          (\<forall>c. \<forall>x\<in>set (live_messages c d'). m_id x \<noteq> m) \<and>
          (\<forall>v. fst (delete_message now v m d') = Inl (NotFound ''message not found or not authorized'')))"
  using edit_own_only [OF assms] delete_own_only [OF assms] by (rule conjI)

definition one_message :: db where
  "one_message = snd (send_message 100 50 1 10 hello group_of_three)"

lemma one_message_inv: "message_inv one_message"
  unfolding one_message_def by (rule send_message_keeps [OF group_of_three_inv])

theorem only_author_edits_and_deletes_witness:
  "fst (delete_message 60 2 100 one_message) = Inl (NotFound ''message not found or not authorized'') \<and>
   (\<exists>d'. delete_message 60 1 100 one_message = (Inr (), d') \<and> live_messages 10 d' = [] \<and>
     fst (delete_message 60 1 100 d') = Inl (NotFound ''message not found or not authorized''))"
proof -
  have "is_ok (fst (delete_message 60 1 100 one_message))" by code_simp
  then obtain d' where run: "delete_message 60 1 100 one_message = (Inr (), d')"
    unfolding is_ok_iff by (metis old.unit.exhaust prod.collapse)
  have again: "fst (delete_message 60 v 100 d') = Inl (NotFound ''message not found or not authorized'')" for v
    using only_author_edits_and_deletes [OF one_message_inv, where now = 60 and u = 1 and m = 100 and content = None and iv = None] unfolding run
    by (simp only: prod.case sum.case)
  have "fst (delete_message 60 2 100 one_message) = Inl (NotFound ''message not found or not authorized'')"
    "live_messages 10 (snd (delete_message 60 1 100 one_message)) = []"
    by code_simp+
  then show ?thesis using run again by simp
qed

section \<open>Reading\<close>

text \<open>A live message that its own author has a status for, other than \<open>read\<close>.\<close>

definition own_unread :: "db \<Rightarrow> uuid \<Rightarrow> uuid \<Rightarrow> uuid \<Rightarrow> bool" where
  "own_unread d u c i \<longleftrightarrow>
     (\<exists>s\<in>set (message_status d). status_key s = (i, u) \<and> ms_status s \<noteq> ''read'') \<and>
     (\<forall>r\<in>set (messages d). m_id r = i \<longrightarrow> m_sender_id r = Some u) \<and>
     exists_where (\<lambda>r. m_id r = i \<and> m_chat_id r = c \<and> m_deleted_at r = None) (messages d)"

lemma own_unread_counts:
  assumes "own_unread d u c i" shows "1 \<le> unread_count d u c"
proof -
  obtain s where s: "s \<in> set (message_status d)" "status_key s = (i, u)" "ms_status s \<noteq> ''read''"
    using assms by (auto simp: own_unread_def)
  then have "count_where (\<lambda>s. ms_user_id s = u \<and> ms_status s \<noteq> ''read'' \<and>
      exists_where (\<lambda>m. m_id m = ms_message_id s \<and> m_chat_id m = c \<and> m_deleted_at m = None) (messages d))
      (message_status d) \<noteq> 0"
    using assms unfolding count_where_0_iff own_unread_def status_key_def by auto
  then show ?thesis by (simp add: unread_count_def)
qed

lemma own_unread_marked:
  assumes "own_unread d u c i" shows "own_unread (snd (mark_messages_read t v c' x d)) u c i"
proof -
  obtain s where s: "s \<in> set (message_status d)" "status_key s = (i, u)" "ms_status s \<noteq> ''read''"
    using assms by (auto simp: own_unread_def)
  have "\<not> to_mark v c' x d s"
    using assms s(2) by (auto simp: to_mark_def own_unread_def exists_where_iff status_key_def)
  then have "s \<in> set (update_where (to_mark v c' x d) (\<lambda>s. s\<lparr>ms_status := ''read'', ms_updated_at := t\<rparr>)
      (message_status d))"
    using s(1) by (force simp: set_update_where)
  then show ?thesis using assms s(2,3) by (auto simp: own_unread_def mark_messages_read_def)
qed

text \<open>
  C23. The sender's own copy of a message is stored unread and never becomes read: whoever marks
  whatever chat as read, however often, the sender's unread count of the chat stays at least one.
\<close>

theorem own_message_stays_unread:
  assumes "chat_schema d" "message_inv d" "\<not> message_exists d i"
    and "send_message i now u c m d = (Inr r, d')"
  shows "1 \<le> unread_count (fold (\<lambda>(t, v, c', x) d. snd (mark_messages_read t v c' x d)) marks d') u c"
proof -
  obtain ty d1 where run: "r = new_message_row i now u c m" "ensure_active_membership u c d = Inr ty"
    "insert_message r d = Inr d1" "insert_statuses now i c d1 = Inr d'"
    using send_message_Inr [OF assms(4)] by metis
  then have d1: "d1 = d\<lparr>messages := messages d @ [r]\<rparr>" by (auto simp: insert_message_def split: if_splits)
  have id: "m_id r = i" using run(1) by (simp add: new_message_row_def)
  have d': "d' = d1\<lparr>message_status := message_status d @
      map (new_status now i) (map cp_user_id (select_where (active_in c) (chat_participants d)))\<rparr>"
    using run(4) insert_statuses_new [OF assms(1-3) d1 id, where now = now and c = c] by simp
  have "active_member d u c"
    using run(2) by (auto simp: ensure_active_membership_def ok_or_def chat_of_member_eq split: option.splits if_splits)
  then have "u \<in> set (map cp_user_id (select_where (active_in c) (chat_participants d)))"
    by (auto simp: active_member_def exists_where_iff select_where_def)
  then have "new_status now i u \<in> set (message_status d')"
    unfolding d' by (auto simp del: set_map map_map simp: in_set_conv_nth)
  moreover have "\<forall>x\<in>set (messages d'). m_id x = i \<longrightarrow> m_sender_id x = Some u"
    using assms(3) by (auto simp: d' d1 run(1) new_message_row_def message_exists_def exists_where_iff)
  moreover have "exists_where (\<lambda>x. m_id x = i \<and> m_chat_id x = c \<and> m_deleted_at x = None) (messages d')"
    by (simp add: d' d1 run(1) new_message_row_def exists_where_iff)
  ultimately have "own_unread d' u c i"
    unfolding own_unread_def by (auto simp: new_status_def status_key_def intro!: bexI [of _ "new_status now i u"])
  then have "own_unread (fold (\<lambda>(t, v, c', x) d. snd (mark_messages_read t v c' x d)) marks d') u c i"
    by (induction marks arbitrary: d') (auto simp: own_unread_marked)
  then show ?thesis by (rule own_unread_counts)
qed

theorem own_message_stays_unread_witness:
  "1 \<le> unread_count (fold (\<lambda>(t, v, c, x) d. snd (mark_messages_read t v c x d))
     [(51, 1, 10, 1000), (52, 2, 10, 1000), (53, 1, 10, 1000)] one_message) 1 10 \<and>
   unread_count (snd (mark_messages_read 52 2 10 1000 one_message)) 2 10 = 0"
proof
  have new: "\<not> message_exists group_of_three 100"
    by (simp add: message_exists_def group_of_three_messages exists_where_def)
  have "is_ok (fst (send_message 100 50 1 10 hello group_of_three))" by code_simp
  then obtain r where "send_message 100 50 1 10 hello group_of_three = (Inr r, one_message)"
    unfolding is_ok_iff one_message_def by (metis prod.collapse)
  from own_message_stays_unread [OF group_of_three_schema group_of_three_inv new this]
  show "1 \<le> unread_count (fold (\<lambda>(t, v, c, x) d. snd (mark_messages_read t v c x d))
     [(51, 1, 10, 1000), (52, 2, 10, 1000), (53, 1, 10, 1000)] one_message) 1 10" .
  show "unread_count (snd (mark_messages_read 52 2 10 1000 one_message)) 2 10 = 0" by code_simp
qed

text \<open>Marking again before the given time counts rows that are read already.\<close>

lemma mark_twice_counts_twice:
  "fst (mark_messages_read 52 2 10 51 one_message) = Inr 1 \<and>
   fst (mark_messages_read 53 2 10 51 (snd (mark_messages_read 52 2 10 51 one_message))) = Inr 1"
  by code_simp

text \<open>
  An edit that gives a new ciphertext without its IV is accepted and pairs it with the old IV.
\<close>

lemma edit_keeps_old_iv:
  "(case edit_message 60 1 100 (Some ''c2'') None one_message of
      (Inl _, _) \<Rightarrow> False
    | (Inr r, _) \<Rightarrow> m_content_encrypted r = Some ''c2'' \<and> m_content_iv r = Some ''v1'')"
  by code_simp

end
