(* ===== verification/MessageListing.thy ===== *)
theory MessageListing
  imports MessageProps
begin

text \<open>
  What paging through a chat returns in both directions, and whom the event and the push job of a new
  message reach.
\<close>

section \<open>Paging\<close>

text \<open>The key of the pages after a message: newer messages come later, so the key falls with the time.\<close>

definition after_key :: "message_row \<Rightarrow> int \<times> int" where
  "after_key m = (- m_created_at m, - uint (m_id m))"

definition after_cursor_key :: "message_cursor \<Rightarrow> int \<times> int" where
  "after_cursor_key c = (- mc_created_at c, - uint (mc_message_id c))"

definition messages_from :: "uuid \<Rightarrow> db \<Rightarrow> message_row list" where
  "messages_from c d = sort_key message_key (live_messages c d)"

definition fetch_after :: "uuid \<Rightarrow> db \<Rightarrow> (int \<times> int) option \<Rightarrow> nat \<Rightarrow> message_row list" where
  "fetch_after c d k n = take n (filter (\<lambda>r. case k of None \<Rightarrow> True | Some k \<Rightarrow> after_key r < k) (messages_from c d))"

lemma after_key_less: "after_key x < after_key y \<longleftrightarrow> message_key y < message_key x"
  by (auto simp: after_key_def message_key_def less_prod_def word_less_def)

lemma after_cursor_less: "after_key x < after_cursor_key k \<longleftrightarrow> message_cursor_key k < message_key x"
  by (auto simp: after_key_def after_cursor_key_def message_key_def message_cursor_key_def less_prod_def word_less_def)

lemma live_messages_distinct:
  assumes "message_inv d" shows "distinct (live_messages c d)" "inj_on message_key (set (live_messages c d))"
proof -
  have u: "distinct (map m_id (messages d))" using message_inv_unique [OF assms] by (simp add: unique_on_def)
  show "distinct (live_messages c d)"
    using u by (simp add: live_messages_def select_where_def distinct_map)
  show "inj_on message_key (set (live_messages c d))"
    using u by (auto simp: live_messages_def select_where_def distinct_map message_key_def inj_on_def)
qed

lemma messages_from_sorted:
  assumes "message_inv d"
  shows "sorted_wrt (\<lambda>x y. message_key x < message_key y) (messages_from c d)"
proof -
  have "sorted_wrt (\<lambda>x y. message_key y < message_key x) (rev (messages_from c d))"
    using order_by_desc_sorted [OF live_messages_distinct(2,1) [OF assms]]
    by (simp add: order_by_desc_def messages_from_def)
  then show ?thesis by (simp add: sorted_wrt_rev)
qed

interpretation newer: keyset_source message_inv "messages_from c" after_key "fetch_after c"
  for c
proof unfold_locales
  show "fetch_after c d k n = take n (beyond after_key k (messages_from c d))" for d k n
    by (simp add: fetch_after_def beyond_def)
  show "sorted_wrt (\<lambda>x y. after_key y < after_key x) (messages_from c d)" if "message_inv d" for d
    using messages_from_sorted [OF that] by (simp add: after_key_less)
qed

lemma sort_key_filter: "sort_key k (filter P xs) = filter P (sort_key k xs)"
  by (simp flip: filter_sort)

lemma list_messages_after:
  assumes "chat_of_member d u c \<noteq> None" "1 \<le> limit" "limit \<le> 50"
  shows "list_messages u c cursor After limit d =
    Inr (fetch_after c d (map_option after_cursor_key cursor) (nat limit))"
proof -
  have "on_side After cursor =
      (\<lambda>r. case map_option after_cursor_key cursor of None \<Rightarrow> True | Some k \<Rightarrow> after_key r < k)"
    by (auto simp: fun_eq_iff on_side_def after_cursor_less split: option.split)
  then show ?thesis
    using assms
    by (simp add: list_messages_def ensure_active_membership_pool_def clamp_id select_messages_def Let_def
        select_where_def sort_key_filter fetch_after_def messages_from_def)
qed

text \<open>
  C24. Reading a chat forward: with pages of at most 49 messages, a participant who follows the cursors
  in the direction \<open>after\<close> gets every live message of the chat exactly once, oldest first.
\<close>

theorem list_messages_forward_complete:
  assumes "message_inv d" "chat_of_member d u c \<noteq> None" "codec_ok cc" "1 \<le> limit" "limit \<le> 49"
    and "length (live_messages c d) < n"
  shows "follow (\<lambda>raw. h_list_messages cc u c raw (Some limit) (Some ''after'') d) n None =
    Inr (messages_from c d)"
proof -
  let ?repo = "\<lambda>cur n. list_messages u c cur After n"
  have "follow (\<lambda>raw. list_handler ''message '' cc message_cursor_of ?repo limit raw d) n None =
      Inr (map (\<lambda>r. r) (messages_from c d))"
  proof (rule newer.follow_complete [OF assms(1,3,4), where ckey = after_cursor_key])
    show "list_messages u c cur After (limit + 1) d =
        Inr (map (\<lambda>r. r) (fetch_after c d (map_option after_cursor_key cur) (nat (limit + 1))))" for cur
      using list_messages_after [OF assms(2)] assms(4,5) by simp
    show "after_cursor_key (message_cursor_of r) = after_key r" for r
      by (simp add: after_cursor_key_def message_cursor_of_def after_key_def)
    show "length (messages_from c d) < n" using assms(6) by (simp add: messages_from_def)
  qed
  then show ?thesis using assms(4,5) by (simp add: h_list_messages_def parse_direction_def clamp_id)
qed

definition message_codec :: "message_cursor cursor_codec" where
  "message_codec = \<lparr>cd_base64_decode = Some, cd_base64_encode = (\<lambda>s. s),
     cd_from_slice = (\<lambda>v. case from_nat (length v) of (t, i) \<Rightarrow>
        Some \<lparr>mc_created_at = t, mc_message_id = word_of_nat i\<rparr>),
     cd_to_vec = (\<lambda>c. Inr (replicate (to_nat (mc_created_at c, unat (mc_message_id c))) (CHR ''a'')))\<rparr>"

lemma message_codec_ok: "codec_ok message_codec"
  by (simp add: codec_ok_def message_codec_def)

definition three_messages :: db where
  "three_messages =
     (let send = (\<lambda>i t d. snd (send_message i t 1 10 hello d))
      in send 103 53 (send 102 52 (send 101 51 group_of_three)))"

lemma three_messages_inv: "message_inv three_messages"
  unfolding three_messages_def Let_def by (intro send_message_keeps group_of_three_inv)

lemma three_messages_member: "chat_of_member three_messages 2 10 \<noteq> None"
  by code_simp

theorem list_messages_forward_complete_witness:
  "\<exists>items. follow (\<lambda>raw. h_list_messages message_codec 2 10 raw (Some 2) (Some ''after'') three_messages) 4 None =
      Inr items \<and> map m_id items = [101, 102, 103]"
proof -
  have ids: "length (live_messages 10 three_messages) = 3" "map m_id (messages_from 10 three_messages) = [101, 102, 103]"
    by code_simp+
  have "follow (\<lambda>raw. h_list_messages message_codec 2 10 raw (Some 2) (Some ''after'') three_messages) 4 None =
      Inr (messages_from 10 three_messages)"
    by (rule list_messages_forward_complete [OF three_messages_inv three_messages_member message_codec_ok])
      (simp_all add: ids(1))
  with ids(2) show ?thesis by (intro exI conjI)
qed

text \<open>
  C25. Reading a chat backward, the default, from a chat with more messages than the page, whatever
  limit the request gives (clamped to 1 to 50, and 50 without one). With a page of up to 49 the first
  page is not the newest messages: the look-ahead row that is cut off after the rows are put in order is
  the newest one, so the page leaves it out, and the cursor is that of the newest message shown. With a
  page of 50, the default, the query gives no look-ahead row: the page is the newest 50 messages, but it
  says that there are no more.
\<close>

theorem first_page_drops_newest:
  assumes "message_inv d" "chat_of_member d u c \<noteq> None"
    and "limit = clamp 1 50 (unwrap_or lim 50)" "limit < int (length (live_messages c d))"
    and "h_list_messages cc u c None lim None d = Inr (items, nc, has_more)"
  shows "if limit < 50
    then items = rev (take (nat limit) (tl (rev (messages_from c d)))) \<and> has_more \<and>
      last (messages_from c d) \<notin> set items \<and>
      Inr nc = next_cursor ''message '' cc message_cursor_of [last (butlast (messages_from c d))]
    else items = rev (take 50 (rev (messages_from c d))) \<and> \<not> has_more"
proof -
  let ?all = "rev (messages_from c d)" and ?n = "nat (clamp 1 50 (limit + 1))"
  have lim: "1 \<le> limit" "limit \<le> 50" using assms(3) by (simp_all add: clamp_def)
  have sel: "select_messages c None Before n d = take n ?all" for n
    by (simp add: select_messages_def Let_def on_side_def select_where_def order_by_desc_def messages_from_def)
  have run: "list_messages u c None Before (limit + 1) d = Inr (rev (take ?n ?all))"
    using assms(2) by (simp add: list_messages_def ensure_active_membership_pool_def sel Let_def)
  have h: "(items, has_more) = cut_page limit (rev (take ?n ?all)) \<and>
      Inr nc = next_cursor ''message '' cc message_cursor_of items"
    using assms(5) run
    by (auto simp: h_list_messages_def parse_direction_def assms(3) [symmetric] list_handler_def decode_cursor_def
        split: sum.splits prod.splits)
  have len: "nat limit < length ?all" using assms(4) lim by (simp add: messages_from_def)
  show ?thesis
  proof (cases "limit < 50")
    case True
    then have k: "?n = Suc (nat limit)" using lim by (simp add: clamp_id nat_add_distrib)
    obtain x xs where all: "?all = x # xs" using len by (cases ?all) auto
    have page: "rev (take ?n ?all) = rev (take (nat limit) xs) @ [x]" by (simp add: k all)
    have n: "length (take (nat limit) xs) = nat limit" using len by (simp add: all)
    have "cut_page limit (rev (take ?n ?all)) = (rev (take (nat limit) xs), True)"
      using n lim unfolding page by (simp add: cut_page_def Let_def)
    then have items: "items = rev (take (nat limit) xs)" "has_more" using h by simp_all
    have frm: "messages_from c d = rev xs @ [x]" using all by (simp add: rev_eq_Cons_iff)
    then have "x \<notin> set xs" using messages_from_sorted [OF assms(1), of c] by (auto simp: sorted_wrt_append)
    then have "x \<notin> set items" by (auto simp: items dest: in_set_takeD)
    moreover obtain y ys where xs: "xs = y # ys" using n lim by (cases xs) auto
    have "take (nat limit) xs = y # take (nat limit - 1) ys"
      using lim by (cases "nat limit") (simp_all add: xs)
    then have "next_cursor ''message '' cc message_cursor_of items = next_cursor ''message '' cc message_cursor_of [y]"
      by (simp add: items next_cursor_def)
    ultimately show ?thesis using items h True by (simp add: frm xs butlast_append)
  next
    case False
    then have "limit = 50" using lim by simp
    then have "cut_page limit (rev (take ?n ?all)) = (rev (take 50 ?all), False)"
      by (simp add: clamp_def cut_page_def)
    then show ?thesis using h False by simp
  qed
qed

lemma message_codec_next: "\<exists>nc. next_cursor w message_codec f items = Inr nc"
  by (simp add: next_cursor_def build_cursor_def message_codec_def split: option.split)

theorem first_page_drops_newest_witness:
  "\<exists>items nc. h_list_messages message_codec 2 10 None (Some 2) None three_messages = Inr (items, nc, True) \<and>
     map m_id items = [101, 102]"
proof -
  have rows: "length (live_messages 10 three_messages) = 3"
    "map m_id (rev (take (nat 2) (tl (rev (messages_from 10 three_messages))))) = [101, 102]"
    "is_ok (list_messages 2 10 None Before 3 three_messages)"
    by code_simp+
  then obtain fetched where f: "list_messages 2 10 None Before 3 three_messages = Inr fetched"
    unfolding is_ok_iff by blast
  obtain items m where cut: "cut_page 2 fetched = (items, m)" by fastforce
  obtain nc where "next_cursor ''message '' message_codec message_cursor_of items = Inr nc"
    using message_codec_next by blast
  then have run: "h_list_messages message_codec 2 10 None (Some 2) None three_messages = Inr (items, nc, m)"
    using f cut by (simp add: h_list_messages_def parse_direction_def clamp_def list_handler_def decode_cursor_def)
  from first_page_drops_newest [OF three_messages_inv three_messages_member _ _ run, of 2]
  have "items = rev (take (nat 2) (tl (rev (messages_from 10 three_messages)))) \<and> m"
    by (simp add: rows(1) clamp_def)
  then have "m" "map m_id items = [101, 102]" using rows(2) by simp_all
  then show ?thesis using run by simp
qed

section \<open>Who hears of a message\<close>

text \<open>
  The specification of the fan-out: the event of the chat, then for every other active participant, in
  the order of the table, the event of the user and, when he is offline and has not muted the chat, a
  push job.
\<close>

definition heard_by :: "redis_env \<Rightarrow> timestamp \<Rightarrow> message_row \<Rightarrow> srv \<Rightarrow> uuid \<Rightarrow> outgoing list" where
  "heard_by env now m s u =
     Published (UserEvents u) (EvNewMessageFor (m_chat_id m) (m_id m) (m_sender_id m)
       (m_content_encrypted m) (m_content_iv m) (m_message_type m) (m_created_at m)) #
     (if is_online env now u s \<or> is_muted now (settings_or_default u (m_chat_id m) (srv_db s))
      then [] else [Queued (new_message_job u m)])"

lemma heard_by_out [simp]: "heard_by env now m (s\<lparr>srv_out := x\<rparr>) = heard_by env now m s"
  by (simp add: fun_eq_iff heard_by_def is_online_def)

lemma notify_participant_all:
  assumes "\<And>ch. re_publish_ok env ch" "re_queue_ok env"
  shows "notify_participant env now m u s = (Inr (), s\<lparr>srv_out := srv_out s @ heard_by env now m s u\<rparr>)"
  using assms
  by (simp add: notify_participant_def and_then_def publish_def enqueue_push_def heard_by_def is_online_def)

lemma notify_participants_all:
  assumes "\<And>ch. re_publish_ok env ch" "re_queue_ok env"
  shows "notify_participants env now m sender us s =
    (Inr (), s\<lparr>srv_out := srv_out s @ concat (map (heard_by env now m s) (filter (\<lambda>u. u \<noteq> sender) us))\<rparr>)"
  using assms
  by (induction us arbitrary: s) (simp_all add: and_then_def notify_participant_all [OF assms])

lemma publish_message_event_all:
  assumes "\<And>ch. re_publish_ok env ch" "re_queue_ok env"
  shows "publish_message_event env now m sender s =
    (Inr (), s\<lparr>srv_out := srv_out s @
       Published (ChatEvents (m_chat_id m)) (EvNewMessage (m_chat_id m) (m_id m) (m_sender_id m) (m_created_at m)) #
       concat (map (heard_by env now m s)
         (filter (\<lambda>u. u \<noteq> sender)
           (map cp_user_id (select_where (active_in (m_chat_id m)) (chat_participants (srv_db s))))))\<rparr>)"
  using assms
  by (simp add: publish_message_event_def and_then_def publish_def get_chat_participants_def
      notify_participants_all [OF assms])

text \<open>
  C26. While Redis works, sending a message publishes one event for the chat and exactly one for each
  other active participant, and queues a push job for exactly those of them who have no presence key
  and have not muted the chat.
\<close>

theorem message_fan_out:
  assumes "\<And>ch. re_publish_ok env ch" "re_queue_ok env"
  shows "publish_message_event env now m sender s =
    (Inr (), s\<lparr>srv_out := srv_out s @
       Published (ChatEvents (m_chat_id m)) (EvNewMessage (m_chat_id m) (m_id m) (m_sender_id m) (m_created_at m)) #
       concat (map (heard_by env now m s)
         (filter (\<lambda>u. u \<noteq> sender)
           (map cp_user_id (select_where (active_in (m_chat_id m)) (chat_participants (srv_db s))))))\<rparr>)"
  by (rule publish_message_event_all [OF assms])

definition user_2_online :: srv where
  "user_2_online = \<lparr>srv_db = one_message, srv_redis = redis_set_ex 0 (presence_key quiet_redis 2) ''online'' 60 empty_redis,
     srv_out = []\<rparr>"

theorem message_fan_out_witness:
  "srv_out (snd (publish_message_event quiet_redis 50 (new_message_row 100 50 1 10 hello) 1 user_2_online)) =
     [Published (ChatEvents 10) (EvNewMessage 10 100 (Some 1) 50),
      Published (UserEvents 2) (EvNewMessageFor 10 100 (Some 1) (Some ''c1'') (Some ''v1'') ''text'' 50),
      Published (UserEvents 3) (EvNewMessageFor 10 100 (Some 1) (Some ''c1'') (Some ''v1'') ''text'' 50),
      Queued (new_message_job 3 (new_message_row 100 50 1 10 hello))]"
proof -
  have on: "is_online quiet_redis 50 2 user_2_online" "\<not> is_online quiet_redis 50 3 user_2_online"
    and mute: "\<not> is_muted 50 (settings_or_default 3 10 (srv_db user_2_online))"
    and us: "map cp_user_id (select_where (active_in 10) (chat_participants (srv_db user_2_online))) = [1, 2, 3]"
    by code_simp+
  have "srv_out user_2_online = []" by (simp add: user_2_online_def)
  then show ?thesis
    by (subst message_fan_out)
      (simp_all add: quiet_redis_def new_message_row_def us heard_by_def hello_def
        on [unfolded quiet_redis_def] mute)
qed

end
