(* ===== verification/Ws.thy ===== *)
theory Ws
  imports CallSignaling MessageListing Users OneTime
begin

text \<open>
  WebSockets (\<open>crates/api/src/handlers/ws/\<close>): tickets, the handshake, the tasks of a connected socket, and
  the messages of a client. A socket of the model is the set of tasks that \<open>handle_socket\<close> starts for one
  connection: the reader, the writer, which owns the receiving half of the channel, and the subscription
  to \<open>user:{id}:events\<close>. The entries of the connection table are the ids of these channels.

  The channel of a socket is its inbox; the sending half waits when the channel is full, so nothing is
  dropped. A publication reaches the subscriptions at once. The gauge of the metrics is in \<open>Metrics\<close>.

  A handshake reads its ticket with one command to Redis and deletes it with another one, and other
  requests may come in between; \<open>ws_handshakes\<close> has the handshakes that have read but not yet deleted, each
  with its ticket and the text it read.
\<close>

section \<open>State\<close>

datatype ws_text =
    TextEvent event
  | TextSignal call_signal
  | TextTyping bool uuid uuid timestamp
  | TextSync "message_row list" timestamp

record socket =
  so_id :: nat
  so_user :: uuid
  so_reading :: bool
  so_writing :: bool
  so_subscribed :: bool
  so_inbox :: "ws_text list"
  so_sent :: "ws_text list"

record ws_state =
  ws_srv :: srv
  ws_connections :: "uuid \<Rightarrow> nat list option"
  ws_sockets :: "socket list"
  ws_timers :: "(timestamp \<times> uuid \<times> uuid) list"
  ws_handshakes :: "nat \<Rightarrow> (string \<times> string) option"

text \<open>\<open>we_parse_uuid\<close> is \<open>Uuid::parse_str\<close>, \<open>we_parse_message\<close> the deserialisation of a client message.\<close>

record ws_env =
  we_redis :: redis_env
  we_parse_uuid :: "string \<Rightarrow> uuid option"
  we_parse_message :: "string \<Rightarrow> ws_client_message option"

section \<open>Tickets and the handshake\<close>

definition ticket_key :: "string \<Rightarrow> string" where
  "ticket_key ticket = ''ws:ticket:'' @ ticket"

definition redis_lost :: domain_error where
  "redis_lost = Internal ''Database connection error''"

text \<open>\<open>ticket\<close> is the text of the fresh UUID; \<open>set_ok\<close> says whether the command reaches Redis.\<close>

definition create_ws_ticket ::
  "ws_env \<Rightarrow> bool \<Rightarrow> timestamp \<Rightarrow> string \<Rightarrow> uuid \<Rightarrow> ws_state \<Rightarrow> (domain_error + nat \<times> string) \<times> ws_state" where
  "create_ws_ticket env set_ok now ticket auth st =
     (if \<not> set_ok then (Inl redis_lost, st)
      else (Inr (201, ticket),
        st\<lparr>ws_srv := (ws_srv st)\<lparr>srv_redis :=
          redis_set_ex now (ticket_key ticket) (re_show (we_redis env) auth) 30 (srv_redis (ws_srv st))\<rparr>\<rparr>))"

text \<open>\<open>Sender::is_closed\<close>: the receiving half is gone.\<close>

definition is_closed :: "ws_state \<Rightarrow> nat \<Rightarrow> bool" where
  "is_closed st c \<longleftrightarrow> \<not> exists_where (\<lambda>so. so_id so = c \<and> so_writing so) (ws_sockets st)"

definition retain_open :: "uuid \<Rightarrow> ws_state \<Rightarrow> ws_state" where
  "retain_open u st =
     (case ws_connections st u of
        None \<Rightarrow> st
      | Some cs \<Rightarrow> st\<lparr>ws_connections := (ws_connections st)(u \<mapsto> filter (\<lambda>c. \<not> is_closed st c) cs)\<rparr>)"

definition active_connections :: "uuid \<Rightarrow> ws_state \<Rightarrow> nat" where
  "active_connections u st = (case ws_connections st u of None \<Rightarrow> 0 | Some cs \<Rightarrow> length cs)"

text \<open>
  The handler has two commands to Redis. The first one, \<open>GET\<close>, gives the text of the ticket or the answer
  of a refused handshake.
\<close>

definition ws_get_ticket :: "bool \<Rightarrow> timestamp \<Rightarrow> string \<Rightarrow> ws_state \<Rightarrow> domain_error + string" where
  "ws_get_ticket get_ok now ticket st =
     (if \<not> get_ok then Inl redis_lost
      else case fst (redis_get now (ticket_key ticket) (srv_redis (ws_srv st))) of
             Inl e \<Rightarrow> Inl redis_lost
           | Inr None \<Rightarrow> Inl (Unauthorized ''Invalid or expired WebSocket ticket'')
           | Inr (Some text) \<Rightarrow> Inr text)"

text \<open>The second one, \<open>DEL\<close>, whose error is dropped.\<close>

definition ws_delete_ticket :: "bool \<Rightarrow> string \<Rightarrow> ws_state \<Rightarrow> ws_state" where
  "ws_delete_ticket del_ok ticket st =
     (if del_ok
      then st\<lparr>ws_srv := (ws_srv st)\<lparr>srv_redis := redis_del (ticket_key ticket) (srv_redis (ws_srv st))\<rparr>\<rparr>
      else st)"

text \<open>What follows has no further \<open>await\<close>.\<close>

definition ws_admit :: "ws_env \<Rightarrow> string \<Rightarrow> ws_state \<Rightarrow> (domain_error + uuid) \<times> ws_state" where
  "ws_admit env user_id_text st =
     (case we_parse_uuid env user_id_text of
        None \<Rightarrow> (Inl (Unauthorized ''Invalid ticket user identity''), st)
      | Some u \<Rightarrow>
          (let st' = retain_open u st
           in if active_connections u st' \<ge> 5
              then (Inl (Conflict ''Too many concurrent WebSocket connections. Maximum is 5.''), st')
              else (Inr u, st')))"

text \<open>The whole handler, when no other request comes between its commands.\<close>

definition ws_handler ::
  "ws_env \<Rightarrow> bool \<Rightarrow> bool \<Rightarrow> timestamp \<Rightarrow> string \<Rightarrow> ws_state \<Rightarrow> (domain_error + uuid) \<times> ws_state" where
  "ws_handler env get_ok del_ok now ticket st =
     (case ws_get_ticket get_ok now ticket st of
        Inl e \<Rightarrow> (Inl e, st)
      | Inr text \<Rightarrow> ws_admit env text (ws_delete_ticket del_ok ticket st))"

section \<open>Channels\<close>

definition on_socket :: "nat \<Rightarrow> (socket \<Rightarrow> socket) \<Rightarrow> ws_state \<Rightarrow> ws_state" where
  "on_socket c f st = st\<lparr>ws_sockets := update_where (\<lambda>so. so_id so = c) f (ws_sockets st)\<rparr>"

definition receive :: "ws_text \<Rightarrow> socket \<Rightarrow> socket" where
  "receive x so = (if so_writing so then so\<lparr>so_inbox := so_inbox so @ [x]\<rparr> else so)"

definition send_text :: "nat \<Rightarrow> ws_text \<Rightarrow> ws_state \<Rightarrow> ws_state" where
  "send_text c x = on_socket c (receive x)"

text \<open>
  A publication whose result is ignored. The only subscriptions of the program are those of the sockets
  to the channel of their user.
\<close>

definition listens :: "channel \<Rightarrow> socket \<Rightarrow> bool" where
  "listens ch so \<longleftrightarrow> so_subscribed so \<and> ch = UserEvents (so_user so)"

definition broadcast :: "channel \<Rightarrow> ws_text \<Rightarrow> ws_state \<Rightarrow> ws_state" where
  "broadcast ch x st = st\<lparr>ws_sockets := update_where (listens ch) (receive x) (ws_sockets st)\<rparr>"

definition ws_publish :: "ws_env \<Rightarrow> channel \<Rightarrow> ws_text \<Rightarrow> ws_state \<Rightarrow> ws_state" where
  "ws_publish env ch x st = (if re_publish_ok (we_redis env) ch then broadcast ch x st else st)"

section \<open>The messages of a client\<close>

definition typing_seconds :: int where
  "typing_seconds = 5"

definition handle_typing_start :: "ws_env \<Rightarrow> timestamp \<Rightarrow> uuid \<Rightarrow> uuid \<Rightarrow> ws_state \<Rightarrow> ws_state" where
  "handle_typing_start env now u chat st =
     (let st' = ws_publish env (ChatEvents chat) (TextTyping True chat u now) st
      in st'\<lparr>ws_timers := ws_timers st' @ [(now + seconds typing_seconds, chat, u)]\<rparr>)"

definition handle_typing_stop :: "ws_env \<Rightarrow> timestamp \<Rightarrow> uuid \<Rightarrow> uuid \<Rightarrow> ws_state \<Rightarrow> ws_state" where
  "handle_typing_stop env now u chat = ws_publish env (ChatEvents chat) (TextTyping False chat u now)"

text \<open>The tasks that \<open>typing_start\<close> left behind and that are due.\<close>

definition fire_timers :: "ws_env \<Rightarrow> timestamp \<Rightarrow> ws_state \<Rightarrow> ws_state" where
  "fire_timers env now st =
     fold (\<lambda>(t, chat, u). ws_publish env (ChatEvents chat) (TextTyping False chat u now))
       (filter (\<lambda>t. fst t \<le> now) (ws_timers st))
       (st\<lparr>ws_timers := filter (\<lambda>t. \<not> fst t \<le> now) (ws_timers st)\<rparr>)"

definition sync_messages_after :: "uuid \<Rightarrow> timestamp \<Rightarrow> db \<Rightarrow> unit + message_row list" where
  "sync_messages_after u since d =
     (case list_messages_since u since 100 d of Inl _ \<Rightarrow> Inl () | Inr ms \<Rightarrow> Inr ms)"

definition handle_sync_request :: "timestamp \<Rightarrow> uuid \<Rightarrow> nat \<Rightarrow> timestamp option \<Rightarrow> ws_state \<Rightarrow> ws_state" where
  "handle_sync_request now u c since st =
     (case since of
        None \<Rightarrow> send_text c (TextSync [] now) st
      | Some t \<Rightarrow>
          (case sync_messages_after u t (srv_db (ws_srv st)) of
             Inl _ \<Rightarrow> send_text c (TextSync [] now) st
           | Inr ms \<Rightarrow> send_text c (TextSync ms now) st))"

definition queued_call :: "push_notification_job \<Rightarrow> push_job" where
  "queued_call j =
     \<lparr>job_user_id = pj_user_id j, job_notification_type = pj_notification_type j,
      job_payload = CallPush (cpp_call_id (pj_payload j)) (cpp_caller_id (pj_payload j))
        (cpp_call_type (pj_payload j)) (cpp_title (pj_payload j)) (cpp_body (pj_payload j))\<rparr>"

fun perform :: "ws_env \<Rightarrow> nat \<Rightarrow> effect \<Rightarrow> ws_state \<Rightarrow> ws_state" where
  "perform env c (Reply x) st = send_text c (TextSignal x) st"
| "perform env c (Publish v x) st = ws_publish env (UserEvents v) (TextSignal x) st"
| "perform env c (PushJob j) st =
     st\<lparr>ws_srv := snd (enqueue_push (we_redis env) (queued_call j) (ws_srv st))\<rparr>"

fun handle_client_message ::
  "ws_env \<Rightarrow> uuid \<Rightarrow> timestamp \<Rightarrow> uuid \<Rightarrow> nat \<Rightarrow> ws_client_message \<Rightarrow> ws_state \<Rightarrow> ws_state" where
  "handle_client_message env new_id now u c (TypingStart chat) st = handle_typing_start env now u chat st"
| "handle_client_message env new_id now u c (TypingStop chat) st = handle_typing_stop env now u chat st"
| "handle_client_message env new_id now u c (SyncRequest since) st = handle_sync_request now u c since st"
| "handle_client_message env new_id now u c msg st =
     (let (out, d) = handle_call_message (pg_call_repo new_id now) now u msg (srv_db (ws_srv st))
      in fold (perform env c) out (st\<lparr>ws_srv := (ws_srv st)\<lparr>srv_db := d\<rparr>\<rparr>))"

section \<open>The tasks of a socket\<close>

text \<open>The first part of \<open>handle_socket\<close>; \<open>sub_ok\<close> says whether the subscription could be set up.\<close>

definition open_socket :: "ws_env \<Rightarrow> timestamp \<Rightarrow> nat \<Rightarrow> uuid \<Rightarrow> bool \<Rightarrow> ws_state \<Rightarrow> ws_state" where
  "open_socket env now c u sub_ok st =
     st\<lparr>ws_connections := (ws_connections st)(u \<mapsto> unwrap_or (ws_connections st u) [] @ [c]),
        ws_srv := (ws_srv st)\<lparr>srv_redis :=
          redis_set_ex now (presence_key (we_redis env) u) ''1'' 65 (srv_redis (ws_srv st))\<rparr>,
        ws_sockets := ws_sockets st @
          [\<lparr>so_id = c, so_user = u, so_reading = True, so_writing = True, so_subscribed = sub_ok,
            so_inbox = [], so_sent = []\<rparr>]\<rparr>"

definition drop_if_empty :: "uuid \<Rightarrow> ws_state \<Rightarrow> ws_state" where
  "drop_if_empty u st =
     (if ws_connections st u = Some [] then st\<lparr>ws_connections := (ws_connections st)(u := None)\<rparr> else st)"

text \<open>What the reader does after its loop.\<close>

definition close_reader :: "ws_env \<Rightarrow> timestamp \<Rightarrow> nat \<Rightarrow> uuid \<Rightarrow> ws_state \<Rightarrow> ws_state" where
  "close_reader env now c u st =
     (let st1 = drop_if_empty u (retain_open u (on_socket c (\<lambda>so. so\<lparr>so_reading := False\<rparr>) st));
          s1 = (ws_srv st1)\<lparr>srv_redis := redis_del (presence_key (we_redis env) u) (srv_redis (ws_srv st1))\<rparr>
      in st1\<lparr>ws_srv := snd (update_last_seen now u (of_micros now) s1)\<rparr>)"

datatype ws_frame = FrameText string | FramePing | FramePong | FrameClose | FrameError | FrameBinary

text \<open>One round of the reader's loop.\<close>

definition read_frame :: "ws_env \<Rightarrow> uuid \<Rightarrow> timestamp \<Rightarrow> nat \<Rightarrow> ws_frame \<Rightarrow> ws_state \<Rightarrow> ws_state" where
  "read_frame env new_id now c frame st =
     (case select_one (\<lambda>so. so_id so = c \<and> so_reading so) (ws_sockets st) of
        None \<Rightarrow> st
      | Some so \<Rightarrow>
          (case frame of
             FrameText text \<Rightarrow>
               (case we_parse_message env text of
                  None \<Rightarrow> st
                | Some msg \<Rightarrow> handle_client_message env new_id now (so_user so) c msg st)
           | FrameClose \<Rightarrow> close_reader env now c (so_user so) st
           | FrameError \<Rightarrow> close_reader env now c (so_user so) st
           | _ \<Rightarrow> st))"

text \<open>One round of the writer's loop; \<open>ok\<close> is the result of the write to the peer.\<close>

definition write_next :: "bool \<Rightarrow> socket \<Rightarrow> socket" where
  "write_next ok so =
     (case so_inbox so of
        [] \<Rightarrow> so
      | x # xs \<Rightarrow>
          if \<not> so_writing so then so
          else if ok then so\<lparr>so_inbox := xs, so_sent := so_sent so @ [x]\<rparr>
          else so\<lparr>so_inbox := [], so_writing := False\<rparr>)"

definition write_frame :: "nat \<Rightarrow> bool \<Rightarrow> ws_state \<Rightarrow> ws_state" where
  "write_frame c ok = on_socket c (write_next ok)"

section \<open>HTTP requests next to the sockets\<close>

text \<open>The publications of a handler reach the subscriptions in order.\<close>

fun relay :: "outgoing \<Rightarrow> ws_state \<Rightarrow> ws_state" where
  "relay (Published ch ev) st = broadcast ch (TextEvent ev) st"
| "relay (Queued j) st = st"

definition http_request :: "'a handler \<Rightarrow> ws_state \<Rightarrow> (domain_error + 'a) \<times> ws_state" where
  "http_request m st =
     (case m (ws_srv st) of
        (r, s) \<Rightarrow> (r, fold relay (drop (length (srv_out (ws_srv st))) (srv_out s)) (st\<lparr>ws_srv := s\<rparr>)))"

end
