(* ===== verification/WsProps.thy ===== *)
theory WsProps
  imports Ws
begin

text \<open>
  WebSockets: which handshakes a ticket lets in, with the steps of all handshakes and sockets in any
  order: only for the user it was made for, only if they read it within its 30 seconds, and only before a
  handshake that was let in has deleted it. A message that a client sends over HTTP reaches exactly the
  sockets of the other active participants, once. The end shows what goes wrong when handshakes overlap or
  \<open>DEL\<close> fails, and how the connection table and the presence key go wrong when a connection closes.
\<close>

section \<open>Requests\<close>

text \<open>
  \<open>TicketGet h ticket get_ok\<close> is the first step of the handshake \<open>h\<close>, \<open>TicketDelete h del_ok\<close> its second one, in
  which it is accepted or not.
\<close>

datatype ws_request =
    MakeTicket string uuid bool
  | TicketGet nat string bool
  | TicketDelete nat bool
  | OpenSocket nat uuid bool
  | Frame uuid nat ws_frame
  | WriteOut nat bool
  | FireTimers

datatype ws_outcome = Accepted string uuid | Rejected domain_error | Silent

fun ws_use :: "ws_env \<Rightarrow> timestamp \<Rightarrow> ws_request \<Rightarrow> ws_state \<Rightarrow> ws_outcome \<times> ws_state" where
  "ws_use env now (MakeTicket ticket u ok) st = (Silent, snd (create_ws_ticket env ok now ticket u st))"
| "ws_use env now (TicketGet h ticket ok) st =
     (case ws_get_ticket ok now ticket st of
        Inl e \<Rightarrow> (Rejected e, st)
      | Inr text \<Rightarrow> (Silent, st\<lparr>ws_handshakes := (ws_handshakes st)(h \<mapsto> (ticket, text))\<rparr>))"
| "ws_use env now (TicketDelete h ok) st =
     (case ws_handshakes st h of
        None \<Rightarrow> (Silent, st)
      | Some (ticket, text) \<Rightarrow>
          (case ws_admit env text
                  (ws_delete_ticket ok ticket (st\<lparr>ws_handshakes := (ws_handshakes st)(h := None)\<rparr>)) of
             (Inl e, st') \<Rightarrow> (Rejected e, st') | (Inr u, st') \<Rightarrow> (Accepted ticket u, st')))"
| "ws_use env now (OpenSocket c u sub_ok) st = (Silent, open_socket env now c u sub_ok st)"
| "ws_use env now (Frame new_id c frame) st = (Silent, read_frame env new_id now c frame st)"
| "ws_use env now (WriteOut c ok) st = (Silent, write_frame c ok st)"
| "ws_use env now FireTimers st = (Silent, fire_timers env now st)"

text \<open>The two steps, one right after the other, are the handler.\<close>

lemma handshake_steps:
  assumes "ws_get_ticket ok now ticket st = Inr text" "ws_use env now (TicketGet h ticket ok) st = (r, st1)"
    and "ws_handshakes st h = None"
  shows "fst (ws_use env now' (TicketDelete h ok') st1) =
    (case fst (ws_handler env ok ok' now ticket st) of Inl e \<Rightarrow> Rejected e | Inr u \<Rightarrow> Accepted ticket u)"
proof -
  have "st1\<lparr>ws_handshakes := (ws_handshakes st1)(h := None)\<rparr> = st"
    using assms by (cases st) (auto simp: fun_upd_idem)
  moreover have "ws_handshakes st1 h = Some (ticket, text)" using assms(1,2) by auto
  ultimately show ?thesis
    by (simp add: ws_handler_def assms(1) split: prod.split sum.split)
qed

section \<open>What the messages of a client leave alone\<close>

lemma srv_on_socket [simp]: "ws_srv (on_socket c f st) = ws_srv st"
  and srv_send_text [simp]: "ws_srv (send_text c x st) = ws_srv st"
  and srv_broadcast [simp]: "ws_srv (broadcast ch x st) = ws_srv st"
  and srv_ws_publish [simp]: "ws_srv (ws_publish env ch x st) = ws_srv st"
  and srv_retain_open [simp]: "ws_srv (retain_open u st) = ws_srv st"
  and srv_drop_if_empty [simp]: "ws_srv (drop_if_empty u st) = ws_srv st"
  and srv_write_frame [simp]: "ws_srv (write_frame c ok st) = ws_srv st"
  by (simp_all add: on_socket_def send_text_def broadcast_def ws_publish_def retain_open_def drop_if_empty_def
      write_frame_def split: option.split)

lemma hs_on_socket [simp]: "ws_handshakes (on_socket c f st) = ws_handshakes st"
  and hs_send_text [simp]: "ws_handshakes (send_text c x st) = ws_handshakes st"
  and hs_ws_publish [simp]: "ws_handshakes (ws_publish env ch x st) = ws_handshakes st"
  and hs_retain_open [simp]: "ws_handshakes (retain_open u st) = ws_handshakes st"
  and hs_drop_if_empty [simp]: "ws_handshakes (drop_if_empty u st) = ws_handshakes st"
  and hs_write_frame [simp]: "ws_handshakes (write_frame c ok st) = ws_handshakes st"
  by (simp_all add: on_socket_def send_text_def broadcast_def ws_publish_def retain_open_def drop_if_empty_def
      write_frame_def split: option.split)

lemma redis_perform: "srv_redis (ws_srv (perform env c e st)) = srv_redis (ws_srv st)"
  and hs_perform: "ws_handshakes (perform env c e st) = ws_handshakes st"
  by (cases e; simp)+

lemma redis_performs: "srv_redis (ws_srv (fold (perform env c) es st)) = srv_redis (ws_srv st)"
  and hs_performs: "ws_handshakes (fold (perform env c) es st) = ws_handshakes st"
  by (induction es arbitrary: st) (simp_all add: redis_perform hs_perform)

lemma redis_client_message:
  "srv_redis (ws_srv (handle_client_message env new_id now u c msg st)) = srv_redis (ws_srv st)"
  and hs_client_message: "ws_handshakes (handle_client_message env new_id now u c msg st) = ws_handshakes st"
  by (cases msg;
    simp add: handle_typing_start_def handle_typing_stop_def handle_sync_request_def Let_def redis_performs hs_performs
      split: option.split sum.split prod.split)+

lemma redis_fire_timers: "srv_redis (ws_srv (fire_timers env now st)) = srv_redis (ws_srv st)"
  and hs_fire_timers: "ws_handshakes (fire_timers env now st) = ws_handshakes st"
proof -
  have "ws_srv (fold (\<lambda>(t, chat, u). ws_publish env (ChatEvents chat) (TextTyping False chat u now)) ts st) =
      ws_srv st \<and> ws_handshakes (fold (\<lambda>(t, chat, u). ws_publish env (ChatEvents chat) (TextTyping False chat u now)) ts st) =
      ws_handshakes st" for ts and st :: ws_state
    by (induction ts arbitrary: st) auto
  from this [of "filter (\<lambda>t. fst t \<le> now) (ws_timers st)"]
  show "srv_redis (ws_srv (fire_timers env now st)) = srv_redis (ws_srv st)"
    "ws_handshakes (fire_timers env now st) = ws_handshakes st" by (simp_all add: fire_timers_def)
qed

lemma redis_update_last_seen: "srv_redis (snd (update_last_seen now u t s)) = srv_redis s"
  by (simp add: update_last_seen_def sql_on_db_def on_db_def split: prod.split)

lemma hs_close_reader: "ws_handshakes (close_reader env now c u st) = ws_handshakes st"
  by (simp add: close_reader_def Let_def)

lemma hs_read_frame: "ws_handshakes (read_frame env i now c f st) = ws_handshakes st"
  by (auto simp: read_frame_def hs_client_message hs_close_reader split: option.split ws_frame.split)

lemma key_kinds:
  "ticket_key t \<noteq> presence_key env u"
  "ticket_key t = ticket_key t' \<longleftrightarrow> t = t'"
  by (simp_all add: ticket_key_def presence_key_def)

lemma redis_ticket_frame:
  "srv_redis (ws_srv (read_frame env i now c f st)) (ticket_key ticket) = srv_redis (ws_srv st) (ticket_key ticket)"
proof -
  have "srv_redis (ws_srv (close_reader env now c u st)) (ticket_key ticket) = srv_redis (ws_srv st) (ticket_key ticket)" for u
    using key_kinds(1) by (simp add: close_reader_def Let_def redis_update_last_seen redis_del_def)
  then show ?thesis
    by (auto simp: read_frame_def redis_client_message split: option.split ws_frame.split)
qed

section \<open>Tickets\<close>

lemma ws_admit_keeps [simp]:
  "ws_srv (snd (ws_admit env x st)) = ws_srv st" "ws_handshakes (snd (ws_admit env x st)) = ws_handshakes st"
  by (simp_all add: ws_admit_def Let_def split: option.split)

lemma ws_delete_keeps [simp]:
  "ws_handshakes (ws_delete_ticket ok t st) = ws_handshakes st"
  "srv_redis (ws_srv (ws_delete_ticket ok t st)) (ticket_key t') =
     (if ok \<and> t' = t then None else srv_redis (ws_srv st) (ticket_key t'))"
  by (auto simp: ws_delete_ticket_def redis_del_def key_kinds)

lemma ws_admit_Inr: "fst (ws_admit env x st) = Inr u \<Longrightarrow> we_parse_uuid env x = Some u"
  by (auto simp: ws_admit_def Let_def split: option.splits if_splits)

lemma ws_get_Inr:
  "ws_get_ticket ok now ticket st = Inr x \<Longrightarrow>
     ok \<and> (\<exists>e. lookup now (ticket_key ticket) (srv_redis (ws_srv st)) = Some e \<and> (\<forall>y. re_value e = RStr y \<longrightarrow> x = y))"
  by (auto simp: ws_get_ticket_def redis_get_def split: if_splits sum.splits option.splits redis_value.splits)

lemma lookup_entry:
  "lookup now k r = Some e \<Longrightarrow> r k = Some e \<and> (\<forall>limit. re_expires e = Some limit \<longrightarrow> now < limit)"
  by (auto simp: lookup_def split: option.splits if_splits)

text \<open>The second step of a handshake.\<close>

lemma ws_use_delete:
  assumes "ws_handshakes st h = Some (t, x)" "ws_use env now (TicketDelete h ok) st = (out, st')"
  shows "ws_handshakes st' = (ws_handshakes st)(h := None)"
    and "srv_redis (ws_srv st') (ticket_key t') = (if ok \<and> t' = t then None else srv_redis (ws_srv st) (ticket_key t'))"
    and "out = Accepted t' u \<Longrightarrow> t' = t \<and> we_parse_uuid env x = Some u"
proof -
  let ?st = "ws_delete_ticket ok t (st\<lparr>ws_handshakes := (ws_handshakes st)(h := None)\<rparr>)"
  have "st' = snd (ws_admit env x ?st)" and o: "out = Accepted t' u \<Longrightarrow> t' = t \<and> fst (ws_admit env x ?st) = Inr u"
    using assms by (auto split: prod.splits sum.splits)
  then show "ws_handshakes st' = (ws_handshakes st)(h := None)"
    and "srv_redis (ws_srv st') (ticket_key t') = (if ok \<and> t' = t then None else srv_redis (ws_srv st) (ticket_key t'))"
    by simp_all
  show "t' = t \<and> we_parse_uuid env x = Some u" if "out = Accepted t' u" using o [OF that] ws_admit_Inr by blast
qed

text \<open>A request other than making the same ticket leaves the ticket as it is or deletes it.\<close>

lemma ws_use_ticket:
  assumes "\<forall>u ok. req \<noteq> MakeTicket ticket u ok" "ws_use env now req st = (out, st')"
  shows "srv_redis (ws_srv st') (ticket_key ticket) = srv_redis (ws_srv st) (ticket_key ticket) \<or>
    srv_redis (ws_srv st') (ticket_key ticket) = None \<and> (\<exists>h x. req = TicketDelete h True \<and> ws_handshakes st h = Some (ticket, x))"
proof (cases req)
  case (TicketDelete h ok)
  show ?thesis
  proof (cases "ws_handshakes st h")
    case None
    then show ?thesis using assms(2) TicketDelete by simp
  next
    case (Some y)
    then show ?thesis
      using ws_use_delete(2) [OF _ assms(2) [unfolded TicketDelete], of "fst y" "snd y" ticket] TicketDelete
      by (cases y) (auto split: if_splits)
  qed
qed (use assms in \<open>auto simp: create_ws_ticket_def redis_set_ex_def key_kinds redis_ticket_frame redis_fire_timers
    open_socket_def split: sum.splits\<close>)

text \<open>A handshake is underway because it was before, or because it has just read its ticket.\<close>

lemma ws_use_handshakes:
  assumes "ws_use env now req st = (out, st')" "ws_handshakes st' h = Some (t, x)"
  shows "ws_handshakes st h = Some (t, x) \<and> (\<forall>ok. req \<noteq> TicketDelete h ok) \<or>
    req = TicketGet h t True \<and> ws_get_ticket True now t st = Inr x"
proof (cases req)
  case (TicketGet h' t' ok)
  show ?thesis
  proof (cases "ws_get_ticket ok now t' st")
    case (Inr y)
    then have "ok" by (auto dest: ws_get_Inr)
    then show ?thesis using assms Inr TicketGet by (auto split: if_splits)
  qed (use assms TicketGet in auto)
next
  case (TicketDelete h' ok)
  show ?thesis
  proof (cases "ws_handshakes st h'")
    case None
    then show ?thesis using assms TicketDelete by auto
  next
    case (Some y)
    then show ?thesis
      using ws_use_delete(1) [OF _ assms(1) [unfolded TicketDelete], of "fst y" "snd y"] assms(2) TicketDelete
      by (cases y) (auto split: if_splits)
  qed
qed (use assms in \<open>auto simp: create_ws_ticket_def hs_read_frame hs_fire_timers open_socket_def split: if_splits\<close>)

lemma ws_use_accepted:
  assumes "ws_use env now req st = (Accepted ticket u, st')"
  shows "\<exists>h ok x. req = TicketDelete h ok \<and> ws_handshakes st h = Some (ticket, x) \<and> we_parse_uuid env x = Some u \<and>
    (ok \<longrightarrow> srv_redis (ws_srv st') (ticket_key ticket) = None)"
proof -
  obtain h ok where r: "req = TicketDelete h ok" using assms by (cases req) (auto split: sum.splits)
  obtain t x where y: "ws_handshakes st h = Some (t, x)"
    using assms r by (cases "ws_handshakes st h") auto
  show ?thesis using ws_use_delete(2,3) [OF y assms [unfolded r]] r y by auto
qed

text \<open>
  Runs, by position: \<open>used_up k\<close> says that step \<open>k\<close> accepted a handshake with the ticket and deleted it,
  \<open>read_at h j i\<close> that the handshake \<open>h\<close>, when it comes to its second step at \<open>j\<close>, has read the ticket at \<open>i\<close>,
  in time and before it was used up.
\<close>

definition used_up :: "string \<Rightarrow> (timestamp \<times> ws_request) list \<Rightarrow> ws_outcome list \<Rightarrow> nat \<Rightarrow> bool" where
  "used_up ticket rs outs k \<longleftrightarrow> (\<exists>g v. snd (rs ! k) = TicketDelete g True \<and> outs ! k = Accepted ticket v)"

definition read_at ::
  "string \<Rightarrow> timestamp \<Rightarrow> (timestamp \<times> ws_request) list \<Rightarrow> ws_outcome list \<Rightarrow> nat \<Rightarrow> nat \<Rightarrow> nat \<Rightarrow> bool" where
  "read_at ticket limit rs outs h j i \<longleftrightarrow>
     i < j \<and> snd (rs ! i) = TicketGet h ticket True \<and> fst (rs ! i) < limit \<and>
     (\<forall>k<i. \<not> used_up ticket rs outs k) \<and> (\<forall>k. i < k \<and> k < j \<longrightarrow> (\<forall>ok. snd (rs ! k) \<noteq> TicketDelete h ok))"

lemma takes_snoc:
  "takes use (rs @ [(t, a)]) s =
     (fst (takes use rs s) @ [fst (use t a (snd (takes use rs s)))], snd (use t a (snd (takes use rs s))))"
proof (induction rs arbitrary: s)
  case Nil
  show ?case by (simp add: takes.simps(2) split: prod.split)
next
  case (Cons x rs)
  show ?case using Cons by (cases x) (simp add: takes.simps(2) split: prod.split)
qed

lemma takes_length: "length (fst (takes use rs s)) = length rs"
  by (induction rs rule: rev_induct) (auto simp: takes_snoc)

lemma used_up_snoc:
  "k < length rs \<Longrightarrow> length outs = length rs \<Longrightarrow> used_up ticket (rs @ [x]) (outs @ [r]) k = used_up ticket rs outs k"
  by (simp add: used_up_def nth_append)

lemma read_at_snoc:
  "j \<le> length rs \<Longrightarrow> length outs = length rs \<Longrightarrow>
     read_at ticket limit (rs @ [x]) (outs @ [r]) h j i = read_at ticket limit rs outs h j i"
  by (auto simp: read_at_def nth_append used_up_snoc)

lemma read_at_later:
  "read_at ticket limit rs outs h j i \<Longrightarrow> \<forall>ok. snd (rs ! j) \<noteq> TicketDelete h ok \<Longrightarrow> read_at ticket limit rs outs h (Suc j) i"
  by (auto simp: read_at_def less_Suc_eq)

text \<open>
  The invariant of all runs in which the ticket is not made again, from a state in which nobody has read it:
  its entry is the one it was made with or gone, and gone once it is used up; who is between the two
  steps has read that entry in time; and whoever was accepted had done so.
\<close>

definition ticket_trace ::
  "ws_env \<Rightarrow> string \<Rightarrow> string \<Rightarrow> timestamp \<Rightarrow> (timestamp \<times> ws_request) list \<Rightarrow> ws_outcome list \<Rightarrow> ws_state \<Rightarrow> bool" where
  "ticket_trace env ticket body limit rs outs st \<longleftrightarrow>
     srv_redis (ws_srv st) (ticket_key ticket) \<in> {None, Some \<lparr>re_value = RStr body, re_expires = Some limit\<rparr>} \<and>
     (\<forall>k<length rs. used_up ticket rs outs k \<longrightarrow> srv_redis (ws_srv st) (ticket_key ticket) = None) \<and>
     (\<forall>h x. ws_handshakes st h = Some (ticket, x) \<longrightarrow> x = body \<and> (\<exists>i. read_at ticket limit rs outs h (length rs) i)) \<and>
     (\<forall>j<length rs. \<forall>v. outs ! j = Accepted ticket v \<longrightarrow> we_parse_uuid env body = Some v \<and>
        (\<exists>h ok i. snd (rs ! j) = TicketDelete h ok \<and> read_at ticket limit rs outs h j i))"

lemma ticket_trace_step:
  assumes tr: "ticket_trace env ticket body limit rs outs st" and len: "length outs = length rs"
    and use: "ws_use env t req st = (r, st')" and no: "\<forall>u ok. req \<noteq> MakeTicket ticket u ok"
  shows "ticket_trace env ticket body limit (rs @ [(t, req)]) (outs @ [r]) st'"
proof -
  let ?n = "length rs" and ?rs = "rs @ [(t, req)]" and ?outs = "outs @ [r]" and ?k = "ticket_key ticket"
  let ?e = "\<lparr>re_value = RStr body, re_expires = Some limit\<rparr>"
  have at_n: "?rs ! ?n = (t, req)" "?outs ! ?n = r" by (simp_all add: nth_append len)
  have entry: "srv_redis (ws_srv st) ?k \<in> {None, Some ?e}"
    and gone: "k < ?n \<Longrightarrow> used_up ticket rs outs k \<Longrightarrow> srv_redis (ws_srv st) ?k = None"
    and between: "ws_handshakes st h = Some (ticket, x) \<Longrightarrow> x = body \<and> (\<exists>i. read_at ticket limit rs outs h ?n i)"
    and done_so: "j < ?n \<Longrightarrow> outs ! j = Accepted ticket v \<Longrightarrow> we_parse_uuid env body = Some v \<and>
      (\<exists>h ok i. snd (rs ! j) = TicketDelete h ok \<and> read_at ticket limit rs outs h j i)" for k h x j v
    using tr by (auto simp: ticket_trace_def)
  have entry': "srv_redis (ws_srv st') ?k \<in> {None, srv_redis (ws_srv st) ?k}"
    using ws_use_ticket [OF no use] by auto
  have gone': "srv_redis (ws_srv st') ?k = None" if k: "k < Suc ?n" "used_up ticket ?rs ?outs k" for k
  proof (cases "k = ?n")
    case True
    then obtain g v where "req = TicketDelete g True" "r = Accepted ticket v"
      using k(2) at_n by (auto simp: used_up_def)
    then show ?thesis using ws_use_accepted use by fastforce
  next
    case False
    then have "used_up ticket rs outs k" "k < ?n" using k used_up_snoc [of k rs outs] len by auto
    then show ?thesis using gone entry' by auto
  qed
  have between': "x = body \<and> (\<exists>i. read_at ticket limit ?rs ?outs h (Suc ?n) i)"
    if "ws_handshakes st' h = Some (ticket, x)" for h x
    using ws_use_handshakes [OF use that]
  proof (elim disjE conjE)
    assume h: "ws_handshakes st h = Some (ticket, x)" "\<forall>ok. req \<noteq> TicketDelete h ok"
    then obtain i where "x = body" "read_at ticket limit rs outs h ?n i" using between by blast
    then have "read_at ticket limit ?rs ?outs h ?n i" using read_at_snoc [of ?n rs outs] len by simp
    then show ?thesis using read_at_later h(2) at_n(1) \<open>x = body\<close> by fastforce
  next
    assume q: "req = TicketGet h ticket True" "ws_get_ticket True t ticket st = Inr x"
    obtain e where e: "lookup t ?k (srv_redis (ws_srv st)) = Some e" "\<forall>y. re_value e = RStr y \<longrightarrow> x = y"
      using ws_get_Inr [OF q(2)] by blast
    then have "e = ?e" "t < limit" using lookup_entry [OF e(1)] entry by auto
    moreover have "\<not> used_up ticket rs outs k" if "k < ?n" for k
      using gone [OF that] lookup_entry [OF e(1)] by auto
    ultimately have "x = body" "read_at ticket limit ?rs ?outs h (Suc ?n) ?n"
      using e(2) at_n q(1) len by (auto simp: read_at_def used_up_snoc)
    then show ?thesis by blast
  qed
  have done_so': "we_parse_uuid env body = Some v \<and>
      (\<exists>h ok i. snd (?rs ! j) = TicketDelete h ok \<and> read_at ticket limit ?rs ?outs h j i)"
    if "j < Suc ?n" "?outs ! j = Accepted ticket v" for j v
  proof (cases "j = ?n")
    case True
    then have "r = Accepted ticket v" using that(2) at_n by simp
    then obtain h ok x where h: "req = TicketDelete h ok" "ws_handshakes st h = Some (ticket, x)" "we_parse_uuid env x = Some v"
      using ws_use_accepted use by blast
    moreover obtain i where "x = body" "read_at ticket limit rs outs h ?n i" using between [OF h(2)] by blast
    ultimately show ?thesis using True at_n read_at_snoc [of ?n rs outs] len by auto
  next
    case False
    then have "j < ?n" using that(1) by simp
    then show ?thesis
      using done_so [of j v] that(2) len by (auto simp: nth_append read_at_snoc)
  qed
  show ?thesis
    unfolding ticket_trace_def using entry entry' gone' between' done_so' by auto
qed

lemma ticket_trace_run:
  assumes "ticket_trace env ticket body limit [] [] st" "\<forall>x\<in>set rs. \<forall>u ok. snd x \<noteq> MakeTicket ticket u ok"
  shows "ticket_trace env ticket body limit rs (fst (takes (ws_use env) rs st)) (snd (takes (ws_use env) rs st))"
  using assms(2)
proof (induction rs rule: rev_induct)
  case Nil
  then show ?case using assms(1) by simp
next
  case (snoc x rs)
  obtain t req where x: "x = (t, req)" by fastforce
  show ?case
    unfolding x takes_snoc fst_conv snd_conv
    by (rule ticket_trace_step [OF _ takes_length]) (use snoc x in auto)
qed

text \<open>Requests that do not concern the ticket.\<close>

lemma ticket_waits:
  assumes "\<forall>x\<in>set rs. (\<forall>u ok. snd x \<noteq> MakeTicket ticket u ok) \<and> (\<forall>h ok. snd x \<noteq> TicketGet h ticket ok)"
    and "\<forall>h x. ws_handshakes st h \<noteq> Some (ticket, x)"
  shows "srv_redis (ws_srv (snd (takes (ws_use env) rs st))) (ticket_key ticket) = srv_redis (ws_srv st) (ticket_key ticket) \<and>
    (\<forall>h x. ws_handshakes (snd (takes (ws_use env) rs st)) h \<noteq> Some (ticket, x))"
  using assms(1)
proof (induction rs rule: rev_induct)
  case Nil
  then show ?case using assms(2) by simp
next
  case (snoc y rs)
  obtain t req where y: "y = (t, req)" by fastforce
  obtain r st' where u: "ws_use env t req (snd (takes (ws_use env) rs st)) = (r, st')" by fastforce
  have no: "\<forall>u ok. req \<noteq> MakeTicket ticket u ok" "\<forall>h ok. req \<noteq> TicketGet h ticket ok" using snoc.prems by (simp_all add: y)
  have ih: "srv_redis (ws_srv (snd (takes (ws_use env) rs st))) (ticket_key ticket) = srv_redis (ws_srv st) (ticket_key ticket)"
    "\<forall>h x. ws_handshakes (snd (takes (ws_use env) rs st)) h \<noteq> Some (ticket, x)" using snoc by auto
  have "ws_handshakes st' h \<noteq> Some (ticket, x)" for h x
    using ws_use_handshakes [OF u] no(2) ih(2) by blast
  then show ?case
    using ws_use_ticket [OF no(1) u] ih by (auto simp: y takes_snoc u)
qed

lemma at_most_one_position:
  assumes "\<And>i j. i < j \<Longrightarrow> j < length xs \<Longrightarrow> P (xs ! i) \<Longrightarrow> P (xs ! j) \<Longrightarrow> False"
  shows "length (filter P xs) \<le> 1"
proof -
  have "card {i. i < length xs \<and> P (xs ! i)} \<le> 1"
    unfolding One_nat_def by (subst card_le_Suc0_iff_eq) (auto, metis assms linorder_neqE_nat)
  then show ?thesis by (simp add: length_filter_conv_card)
qed

text \<open>
  C39. A WebSocket ticket. Let a ticket be made while Redis takes the command, and let the steps of all
  handshakes and sockets follow one another in any order, without the same ticket being made again. Every
  handshake that is accepted with it is for the user who asked for it, and has read it within the 30
  seconds of its life and before any accepted handshake that deleted it had done so: so two handshakes can
  be accepted only if the second one reads before the first one deletes, or if that \<open>DEL\<close> fails. If each
  \<open>GET\<close> of the ticket is directly followed by its own \<open>DEL\<close>, and that goes through, then at most one
  handshake is accepted. And the ticket does open a connection: whatever happens that does not concern it,
  an undisturbed handshake within the 30 seconds is accepted unless five connections of the user are
  open.
\<close>

theorem ticket_single_use:
  assumes "we_parse_uuid env (re_show (we_redis env) u) = Some u"
    and "create_ws_ticket env True now ticket u st = (r, st1)"
    and "\<forall>h x. ws_handshakes st h \<noteq> Some (ticket, x)"
    and "\<forall>x\<in>set rs. \<forall>v ok. snd x \<noteq> MakeTicket ticket v ok"
    and "takes (ws_use env) rs st1 = (outs, st2)"
  shows "(\<forall>j<length rs. \<forall>v. outs ! j = Accepted ticket v \<longrightarrow> v = u \<and>
      (\<exists>h ok i. snd (rs ! j) = TicketDelete h ok \<and> i < j \<and> snd (rs ! i) = TicketGet h ticket True \<and>
        fst (rs ! i) < now + seconds 30 \<and>
        (\<forall>k<i. \<forall>g w. snd (rs ! k) = TicketDelete g True \<longrightarrow> outs ! k \<noteq> Accepted ticket w))) \<and>
    ((\<forall>i h ok. Suc i < length rs \<and> snd (rs ! i) = TicketGet h ticket ok \<longrightarrow> snd (rs ! Suc i) = TicketDelete h True) \<longrightarrow>
      length (filter (\<lambda>out. \<exists>v. out = Accepted ticket v) outs) \<le> 1) \<and>
    ((\<forall>x\<in>set rs. \<forall>h ok. snd x \<noteq> TicketGet h ticket ok) \<and> t < now + seconds 30 \<and>
        active_connections u (retain_open u st2) < 5 \<longrightarrow>
      fst (ws_handler env True del_ok t ticket st2) = Inr u)"
proof -
  let ?body = "re_show (we_redis env) u" and ?limit = "now + seconds 30"
  let ?e = "\<lparr>re_value = RStr ?body, re_expires = Some ?limit\<rparr>"
  have st1: "srv_redis (ws_srv st1) (ticket_key ticket) = Some ?e" "ws_handshakes st1 = ws_handshakes st"
    using assms(2) by (auto simp: create_ws_ticket_def redis_set_ex_def)
  have "ticket_trace env ticket ?body ?limit [] [] st1"
    using assms(3) by (simp add: ticket_trace_def st1)
  from ticket_trace_run [OF this assms(4)]
  have tr: "v = u \<and> (\<exists>h ok i. snd (rs ! j) = TicketDelete h ok \<and> read_at ticket ?limit rs outs h j i)"
    if "j < length rs" "outs ! j = Accepted ticket v" for j v
    using that assms(1) unfolding assms(5) by (auto simp: ticket_trace_def)
  have len: "length outs = length rs" using takes_length [of "ws_use env" rs st1] by (simp add: assms(5))
  have one: "length (filter (\<lambda>out. \<exists>v. out = Accepted ticket v) outs) \<le> 1"
    if seq: "\<forall>i h ok. Suc i < length rs \<and> snd (rs ! i) = TicketGet h ticket ok \<longrightarrow> snd (rs ! Suc i) = TicketDelete h True"
  proof (rule at_most_one_position, elim exE)
    fix a b v w
    assume ab: "a < b" "b < length outs" "outs ! a = Accepted ticket v" "outs ! b = Accepted ticket w"
    have own: "\<exists>h i. j = Suc i \<and> snd (rs ! j) = TicketDelete h True \<and> snd (rs ! i) = TicketGet h ticket True \<and>
        (\<forall>k<i. \<not> used_up ticket rs outs k)" if j: "j < length rs" "outs ! j = Accepted ticket x" for j x
    proof -
      obtain h ok i where i: "snd (rs ! j) = TicketDelete h ok" "read_at ticket ?limit rs outs h j i" using tr j by blast
      then have "i < j" "snd (rs ! i) = TicketGet h ticket True" by (auto simp: read_at_def)
      moreover from this have "snd (rs ! Suc i) = TicketDelete h True" using seq j(1) Suc_leI le_less_trans by blast
      moreover from this have "\<not> Suc i < j" using i(2) by (auto simp: read_at_def)
      ultimately have "j = Suc i" by simp
      then show ?thesis using i(2) \<open>snd (rs ! Suc i) = TicketDelete h True\<close> by (auto simp: read_at_def)
    qed
    obtain g where g: "snd (rs ! a) = TicketDelete g True" using own [OF _ ab(3)] ab(1,2) len by auto
    then have up: "used_up ticket rs outs a" using ab(3) by (auto simp: used_up_def)
    obtain h i where i: "b = Suc i" "snd (rs ! i) = TicketGet h ticket True" "\<forall>k<i. \<not> used_up ticket rs outs k"
      using own [OF ab(2) [unfolded len] ab(4)] by blast
    have "a \<noteq> i" using g i(2) by auto
    then have "a < i" using ab(1) i(1) by simp
    then show False using up i(3) by blast
  qed
  have first: "fst (ws_handler env True del_ok t ticket st2) = Inr u"
    if "\<forall>x\<in>set rs. \<forall>h ok. snd x \<noteq> TicketGet h ticket ok" "t < ?limit" "active_connections u (retain_open u st2) < 5"
  proof -
    have "srv_redis (ws_srv st2) (ticket_key ticket) = Some ?e"
      using ticket_waits [of rs ticket st1 env] assms(3,4,5) that(1) st1 by auto
    then have "ws_get_ticket True t ticket st2 = Inr ?body"
      using that(2) by (simp add: ws_get_ticket_def redis_get_def lookup_def)
    moreover have "active_connections u (retain_open u (ws_delete_ticket del_ok ticket st2)) =
        active_connections u (retain_open u st2)"
      by (simp add: active_connections_def retain_open_def is_closed_def ws_delete_ticket_def split: option.split)
    ultimately show ?thesis using that(3) by (simp add: ws_handler_def ws_admit_def assms(1) Let_def)
  qed
  have "v = u \<and> (\<exists>h ok i. snd (rs ! j) = TicketDelete h ok \<and> i < j \<and> snd (rs ! i) = TicketGet h ticket True \<and>
        fst (rs ! i) < ?limit \<and>
        (\<forall>k<i. \<forall>g w. snd (rs ! k) = TicketDelete g True \<longrightarrow> outs ! k \<noteq> Accepted ticket w))"
    if j: "j < length rs" "outs ! j = Accepted ticket v" for j v
  proof -
    obtain h ok i where "v = u" "snd (rs ! j) = TicketDelete h ok" "read_at ticket ?limit rs outs h j i"
      using tr [OF j] by blast
    then show ?thesis unfolding read_at_def used_up_def by blast
  qed
  then show ?thesis using one first by blast
qed

section \<open>Delivery\<close>

text \<open>What the events of a list are for one socket.\<close>

definition texts_for :: "socket \<Rightarrow> outgoing list \<Rightarrow> ws_text list" where
  "texts_for so evs =
     concat (map (\<lambda>e. case e of Published ch ev \<Rightarrow> if listens ch so then [TextEvent ev] else [] | Queued _ \<Rightarrow> []) evs)"

lemma texts_for_simps [simp]:
  "texts_for so [] = []"
  "texts_for so (Queued j # evs) = texts_for so evs"
  "texts_for so (Published ch ev # evs) = (if listens ch so then TextEvent ev # texts_for so evs else texts_for so evs)"
  "texts_for so (xs @ ys) = texts_for so xs @ texts_for so ys"
  by (simp_all add: texts_for_def)

definition receive_all :: "ws_text list \<Rightarrow> socket \<Rightarrow> socket" where
  "receive_all xs so = (if so_writing so then so\<lparr>so_inbox := so_inbox so @ xs\<rparr> else so)"

lemma receive_all_simps [simp]:
  "receive_all [] so = so"
  "receive_all xs (receive x so) = receive_all (x # xs) so"
  by (simp_all add: receive_all_def receive_def)

lemma listens_receive [simp]: "listens ch (receive x so) = listens ch so"
  by (simp add: listens_def receive_def)

lemma texts_for_receive [simp]: "texts_for (receive x so) evs = texts_for so evs"
  by (induction evs) (auto simp: texts_for_def split: outgoing.split)

lemma sockets_relay:
  "ws_sockets (fold relay evs st) = map (\<lambda>so. receive_all (texts_for so evs) so) (ws_sockets st)"
proof (induction evs arbitrary: st)
  case (Cons e evs)
  then show ?case
    by (cases e) (auto simp: broadcast_def update_where_def)
qed simp

lemma sockets_http:
  assumes "m (ws_srv st) = (r, s')" "srv_out s' = srv_out (ws_srv st) @ evs"
  shows "http_request m st = (r, fold relay evs (st\<lparr>ws_srv := s'\<rparr>)) \<and>
    ws_sockets (snd (http_request m st)) = map (\<lambda>so. receive_all (texts_for so evs) so) (ws_sockets st)"
  by (simp add: http_request_def assms sockets_relay)

lemma texts_for_heard:
  assumes "distinct us"
  shows "texts_for so (concat (map (heard_by env now m s) us)) =
    (if so_subscribed so \<and> so_user so \<in> set us
     then [TextEvent (EvNewMessageFor (m_chat_id m) (m_id m) (m_sender_id m) (m_content_encrypted m)
       (m_content_iv m) (m_message_type m) (m_created_at m))] else [])"
  using assms by (induction us) (auto simp: heard_by_def listens_def)

lemma send_message_participants:
  assumes "send_message i now u c nm d = (Inr m, d')"
  shows "chat_participants d' = chat_participants d \<and> m = new_message_row i now u c nm"
  using assms
  by (auto elim!: send_message_Inr simp: insert_message_def insert_statuses_def Let_def split: if_splits)

text \<open>What an accepted message leaves behind while Redis works.\<close>

lemma send_accepted:
  assumes "\<And>ch. re_publish_ok env ch" "re_queue_ok env"
    and "h_send_message env i now auth c nm s = (Inr (201, Some m), s')"
  shows "m = new_message_row i now auth c nm \<and>
    chat_participants (srv_db s') = chat_participants (srv_db s) \<and>
    srv_out s' = srv_out s @ Published (ChatEvents c) (EvNewMessage c i (Some auth) now) #
      concat (map (heard_by env now m s')
        (filter (\<lambda>u. u \<noteq> auth) (map cp_user_id (select_where (active_in c) (chat_participants (srv_db s))))))"
proof -
  obtain s1 where s1: "on_redis env (check_rate_limit now (''msg:'' @ re_show env auth) 15 10) s = (Inr True, s1)"
    using assms(3) by (auto simp: h_send_message_def and_then_def ret_def split: prod.splits sum.splits if_splits)
  have s1': "srv_db s1 = srv_db s" "srv_out s1 = srv_out s"
    using on_redis_db [of env "check_rate_limit now (''msg:'' @ re_show env auth) 15 10" s]
      on_redis_out [of env "check_rate_limit now (''msg:'' @ re_show env auth) 15 10" s]
    unfolding s1 snd_conv by blast+
  obtain d' where d': "send_message i now auth c nm (srv_db s) = (Inr m, d')"
    and e: "publish_message_event env now m auth (s1\<lparr>srv_db := d'\<rparr>) = (Inr (), s')"
    using assms(3) s1 s1'
    by (auto simp: h_send_message_def and_then_def on_db_def ret_def publish_message_event_all [OF assms(1,2)]
        split: prod.splits sum.splits)
  note m = send_message_participants [OF d']
  have row: "m_chat_id m = c" "m_id m = i" "m_sender_id m = Some auth" "m_created_at m = now"
    using m by (simp_all add: new_message_row_def)
  let ?s2 = "s1\<lparr>srv_db := d'\<rparr>"
  have s': "s' = ?s2\<lparr>srv_out := srv_out s1 @ Published (ChatEvents c) (EvNewMessage c i (Some auth) now) #
      concat (map (heard_by env now m ?s2)
        (filter (\<lambda>u. u \<noteq> auth) (map cp_user_id (select_where (active_in c) (chat_participants d')))))\<rparr>"
    using e by (simp add: publish_message_event_all [OF assms(1,2)] row)
  have "heard_by env now m s' = heard_by env now m ?s2"
    unfolding s' by (rule heard_by_out)
  then show ?thesis
    using m s1' by (simp add: s')
qed

text \<open>
  C40. Sending a message reaches the right sockets: when a message is accepted while Redis works, every
  open socket that is subscribed to the events of its user, when that user is another active
  participant of the chat, gets it exactly once, at the end of its inbox, and no other socket gets
  anything, not even of the sender.
\<close>

theorem message_reaches_sockets:
  assumes "\<And>ch. re_publish_ok env ch" "re_queue_ok env" "chat_schema (srv_db (ws_srv st))"
    and "http_request (h_send_message env i now auth c nm) st = (Inr (201, Some m), st')"
  shows "ws_sockets st' = map (\<lambda>so.
      if so_writing so \<and> so_subscribed so \<and> so_user so \<noteq> auth \<and> active_member (srv_db (ws_srv st)) (so_user so) c
      then so\<lparr>so_inbox := so_inbox so @ [TextEvent (EvNewMessageFor c i (Some auth) (nm_content_encrypted nm)
        (nm_content_iv nm) (nm_message_type nm) now)]\<rparr>
      else so) (ws_sockets st)"
proof -
  let ?s = "ws_srv st"
  let ?us = "map cp_user_id (select_where (active_in c) (chat_participants (srv_db ?s)))"
  obtain s' where h: "h_send_message env i now auth c nm ?s = (Inr (201, Some m), s')"
    using assms(4) by (auto simp: http_request_def split: prod.splits)
  note sent = send_accepted [OF assms(1,2) h]
  have row: "m_chat_id m = c" "m_id m = i" "m_sender_id m = Some auth" "m_content_encrypted m = nm_content_encrypted nm"
      "m_content_iv m = nm_content_iv nm" "m_message_type m = nm_message_type nm" "m_created_at m = now"
    using sent by (simp_all add: new_message_row_def)
  let ?evs = "Published (ChatEvents c) (EvNewMessage c i (Some auth) now) #
     concat (map (heard_by env now m s') (filter (\<lambda>u. u \<noteq> auth) ?us))"
  from sent have "srv_out s' = srv_out ?s @ ?evs" by blast
  from conjunct2 [OF sockets_http [where m = "h_send_message env i now auth c nm" and st = st, OF h this]]
  have "ws_sockets st' = map (\<lambda>so. receive_all (texts_for so ?evs) so) (ws_sockets st)"
    unfolding assms(4) snd_conv .
  moreover have "texts_for so ?evs = (if so_subscribed so \<and> so_user so \<noteq> auth \<and>
        active_member (srv_db ?s) (so_user so) c
      then [TextEvent (EvNewMessageFor c i (Some auth) (nm_content_encrypted nm) (nm_content_iv nm)
        (nm_message_type nm) now)] else [])" for so
  proof -
    have "so_user so \<in> set ?us \<longleftrightarrow> active_member (srv_db ?s) (so_user so) c"
      by (auto simp: active_member_def exists_where_iff set_select_where image_iff)
    moreover have "distinct (filter (\<lambda>u. u \<noteq> auth) ?us)"
      using unique_map_select [OF assms(3)] by (rule distinct_filter)
    ultimately show ?thesis by (simp add: texts_for_heard listens_def row)
  qed
  ultimately show ?thesis by (auto simp: receive_all_def)
qed

section \<open>Runs\<close>

text \<open>Three users in a group, of whom 1 and 2 are connected.\<close>

definition parse_small :: "string \<Rightarrow> uuid option" where
  "parse_small s = (if s = ''1'' then Some 1 else if s = ''2'' then Some 2 else None)"

definition sample_ws_env :: ws_env where
  "sample_ws_env = \<lparr>we_redis = quiet_redis\<lparr>re_show := (\<lambda>u. nat_to_string (unat u))\<rparr>,
     we_parse_uuid = parse_small, we_parse_message = (\<lambda>_. None)\<rparr>"

definition no_sockets :: ws_state where
  "no_sockets = \<lparr>ws_srv = \<lparr>srv_db = group_of_three, srv_redis = empty_redis, srv_out = []\<rparr>,
     ws_connections = (\<lambda>_. None), ws_sockets = [], ws_timers = [],
     ws_handshakes = (\<lambda>_. None)\<rparr>"

definition two_sockets :: ws_state where
  "two_sockets = open_socket sample_ws_env 0 8 2 True (open_socket sample_ws_env 0 7 1 True no_sockets)"

theorem message_reaches_sockets_witness:
  "map so_inbox (ws_sockets (snd (http_request (h_send_message quiet_redis 100 50 1 10 hello) two_sockets))) =
     [[], [TextEvent (EvNewMessageFor 10 100 (Some 1) (Some ''c1'') (Some ''v1'') ''text'' 50)]]"
proof -
  let ?r = "http_request (h_send_message quiet_redis 100 50 1 10 hello) two_sockets"
  have "(case fst ?r of Inr (n, Some m) \<Rightarrow> n = 201 | _ \<Rightarrow> False)" by code_simp
  then obtain m where "fst ?r = Inr (201, Some m)"
    by (auto split: sum.splits option.splits)
  then have r: "?r = (Inr (201, Some m), snd ?r)" by (metis prod.collapse)
  have s: "srv_db (ws_srv two_sockets) = group_of_three"
    "map so_user (ws_sockets two_sockets) = [1, 2]" "ws_sockets two_sockets = [\<lparr>so_id = 7, so_user = 1,
      so_reading = True, so_writing = True, so_subscribed = True, so_inbox = [], so_sent = []\<rparr>,
      \<lparr>so_id = 8, so_user = 2, so_reading = True, so_writing = True, so_subscribed = True, so_inbox = [], so_sent = []\<rparr>]"
    by (simp_all add: two_sockets_def open_socket_def no_sockets_def)
  have a: "active_member group_of_three 2 10" by code_simp
  have "\<And>ch. re_publish_ok quiet_redis ch" "re_queue_ok quiet_redis" by (simp_all add: quiet_redis_def)
  from message_reaches_sockets [OF this _ r] group_of_three_schema
  show ?thesis by (simp add: s a hello_def)
qed

definition with_ticket :: ws_state where
  "with_ticket = snd (create_ws_ticket sample_ws_env True 0 ''t'' 2 two_sockets)"

definition two_handshakes :: "(timestamp \<times> ws_request) list" where
  "two_handshakes = [(1, OpenSocket 9 2 True), (2, TicketGet 1 ''t'' True), (3, TicketDelete 1 True),
     (4, TicketGet 2 ''t'' True), (5, TicketDelete 2 True)]"

theorem ticket_single_use_witness:
  "fst (takes (ws_use sample_ws_env) two_handshakes with_ticket) =
    [Silent, Silent, Accepted ''t'' 2, Rejected (Unauthorized ''Invalid or expired WebSocket ticket''), Silent] \<and>
   length (filter (\<lambda>out. \<exists>v. out = Accepted ''t'' v) (fst (takes (ws_use sample_ws_env) two_handshakes with_ticket))) \<le> 1"
proof
  show "fst (takes (ws_use sample_ws_env) two_handshakes with_ticket) =
    [Silent, Silent, Accepted ''t'' 2, Rejected (Unauthorized ''Invalid or expired WebSocket ticket''), Silent]"
    by code_simp
  have p: "we_parse_uuid sample_ws_env (re_show (we_redis sample_ws_env) 2) = Some 2" by code_simp
  have c: "create_ws_ticket sample_ws_env True 0 ''t'' 2 two_sockets = (Inr (201, ''t''), with_ticket)"
    by (simp add: create_ws_ticket_def with_ticket_def)
  have h: "\<forall>h x. ws_handshakes two_sockets h \<noteq> Some (''t'', x)"
    by (simp add: two_sockets_def open_socket_def no_sockets_def)
  have n: "\<forall>x\<in>set two_handshakes. \<forall>v ok. snd x \<noteq> MakeTicket ''t'' v ok" by (simp add: two_handshakes_def)
  have "\<forall>i h ok. Suc i < length two_handshakes \<and> snd (two_handshakes ! i) = TicketGet h ''t'' ok \<longrightarrow>
      snd (two_handshakes ! Suc i) = TicketDelete h True"
    by (auto simp: two_handshakes_def less_Suc_eq)
  with ticket_single_use [OF p c h n surjective_pairing]
  show "length (filter (\<lambda>out. \<exists>v. out = Accepted ''t'' v) (fst (takes (ws_use sample_ws_env) two_handshakes with_ticket))) \<le> 1"
    by blast
qed

text \<open>
  What the two commands allow, although the comment in the handler says that the ticket is deleted to
  ensure one-time use: two handshakes that both read it before one of them deletes it are both accepted,
  and so are two handshakes one after the other when the first \<open>DEL\<close> fails.
\<close>

lemma ticket_used_twice:
  "fst (takes (ws_use sample_ws_env) [(1, TicketGet 1 ''t'' True), (1, TicketGet 2 ''t'' True),
      (2, TicketDelete 1 True), (2, TicketDelete 2 True)] with_ticket) =
    [Silent, Silent, Accepted ''t'' 2, Accepted ''t'' 2] \<and>
   fst (takes (ws_use sample_ws_env) [(1, TicketGet 1 ''t'' True), (2, TicketDelete 1 False),
      (3, TicketGet 2 ''t'' True), (4, TicketDelete 2 True)] with_ticket) =
    [Silent, Accepted ''t'' 2, Silent, Accepted ''t'' 2]"
  by (rule conjI) code_simp+

text \<open>
  The check of the closed connections when a reader ends comes while the writer still waits on its
  channel, so the closed connection stays in the table until a text is written to it and fails. A user
  who reconnects five times without traffic cannot connect any more although no socket of his is open.
\<close>

definition come_and_go :: "nat \<Rightarrow> ws_state \<Rightarrow> ws_state" where
  "come_and_go c st = read_frame sample_ws_env 0 2 c FrameClose (open_socket sample_ws_env 1 c 2 True st)"

definition after_five :: ws_state where
  "after_five = come_and_go 5 (come_and_go 4 (come_and_go 3 (come_and_go 2 (come_and_go 1 no_sockets))))"

lemma closed_connections_lock_out:
  "list_all (\<lambda>so. \<not> so_reading so) (ws_sockets after_five) \<and>
   fst (ws_handler sample_ws_env True True 4 ''t'' (snd (create_ws_ticket sample_ws_env True 3 ''t'' 2 after_five))) =
     Inl (Conflict ''Too many concurrent WebSocket connections. Maximum is 5.'')"
  by (rule conjI) code_simp+

text \<open>When one of two connections of a user closes, the user counts as offline although the other is open.\<close>

lemma presence_lost_with_first_close:
  "let st = read_frame sample_ws_env 0 2 1 FrameClose
        (open_socket sample_ws_env 1 2 2 True (open_socket sample_ws_env 0 1 2 True no_sockets))
   in \<not> is_online (we_redis sample_ws_env) 3 2 (ws_srv st) \<and>
      exists_where (\<lambda>so. so_user so = 2 \<and> so_reading so \<and> so_writing so) (ws_sockets st)"
  by code_simp

text \<open>
  Nothing subscribes to the channels of chats, so what is published there (typing, reactions, read
  marks, changes of a group) reaches no socket.
\<close>

lemma chat_events_unheard: "broadcast (ChatEvents c) x st = st"
proof -
  have "update_where (listens (ChatEvents c)) (receive x) (ws_sockets st) = ws_sockets st"
    by (rule update_where_none) (simp add: listens_def)
  then show ?thesis by (simp add: broadcast_def)
qed

text \<open>Handshakes that overlap all see the table before any of them is entered.\<close>

lemma overlapping_handshakes:
  "let st1 = snd (create_ws_ticket sample_ws_env True 0 ''a'' 2 (snd (create_ws_ticket sample_ws_env True 0 ''b'' 2
       (open_socket sample_ws_env 0 1 2 True (open_socket sample_ws_env 0 2 2 True
         (open_socket sample_ws_env 0 3 2 True (open_socket sample_ws_env 0 4 2 True no_sockets)))))));
       (r, st2) = ws_handler sample_ws_env True True 1 ''a'' st1;
       (r', st3) = ws_handler sample_ws_env True True 1 ''b'' st2
   in r = Inr 2 \<and> r' = Inr 2 \<and>
      active_connections 2 (open_socket sample_ws_env 2 6 2 True (open_socket sample_ws_env 2 5 2 True st3)) = 6"
  by code_simp

end
