(* ===== verification/Attachments.thy ===== *)
theory Attachments
  imports MessageProps
begin

text \<open>
  Attachments are uploaded in two steps: a pending row with a presigned URL of the object store, and a
  confirmation that ties the row to a message. This theory has the three operations of
  \<open>PostgresChatRepository\<close> for it, the object URL of \<open>crates/api/src/services/storage.rs\<close> and the handlers of
  \<open>crates/api/src/handlers/attachments/\<close>. The object store is a parameter: \<open>ob_presign\<close> signs an upload
  URL and \<open>ob_head\<close> asks whether an object exists.
\<close>

section \<open>Repository\<close>

record pending_attachment =
  pa_id :: uuid
  pa_uploader_id :: uuid
  pa_chat_id :: "uuid option"
  pa_object_key :: string
  pa_file_url :: string
  pa_file_type :: string
  pa_file_size :: int
  pa_file_name :: "string option"
  pa_confirmed :: bool
  pa_created_at :: timestamp

record new_pending_attachment =
  np_attachment_id :: uuid
  np_uploader_id :: uuid
  np_chat_id :: "uuid option"
  np_object_key :: string
  np_file_url :: string
  np_file_type :: string
  np_file_size :: int
  np_file_name :: "string option"

record confirm_attachment_input =
  ci_attachment_id :: uuid
  ci_message_id :: uuid
  ci_uploader_id :: uuid
  ci_encryption_key_enc :: "string option"
  ci_encryption_iv :: "string option"

definition pending_row :: "timestamp \<Rightarrow> new_pending_attachment \<Rightarrow> attachment_row" where
  "pending_row now n =
     \<lparr>ma_id = np_attachment_id n, ma_message_id = None, ma_uploader_id = Some (np_uploader_id n),
      ma_chat_id = np_chat_id n, ma_object_key = np_object_key n, ma_file_url = np_file_url n,
      ma_file_type = np_file_type n, ma_file_size = np_file_size n, ma_file_name = np_file_name n,
      ma_encryption_key_enc = None, ma_encryption_iv = None, ma_confirmed = False,
      ma_confirmed_at = None, ma_created_at = now\<rparr>"

definition pending_of_row :: "uuid \<Rightarrow> attachment_row \<Rightarrow> pending_attachment" where
  "pending_of_row uploader r =
     \<lparr>pa_id = ma_id r, pa_uploader_id = uploader, pa_chat_id = ma_chat_id r,
      pa_object_key = ma_object_key r, pa_file_url = ma_file_url r, pa_file_type = ma_file_type r,
      pa_file_size = ma_file_size r, pa_file_name = ma_file_name r, pa_confirmed = ma_confirmed r,
      pa_created_at = ma_created_at r\<rparr>"

definition insert_attachment :: "attachment_row \<Rightarrow> db \<Rightarrow> sqlx_error + db" where
  "insert_attachment r d =
     (if exists_where (\<lambda>x. ma_id x = ma_id r) (message_attachments d) then Inl unique_violation
      else if \<not> (case ma_uploader_id r of None \<Rightarrow> True | Some u \<Rightarrow> user_exists d u) \<or>
        \<not> (case ma_chat_id r of None \<Rightarrow> True | Some c \<Rightarrow> chat_exists d c)
      then Inl foreign_key_violation
      else Inr (d\<lparr>message_attachments := message_attachments d @ [r]\<rparr>))"

definition create_pending_attachment ::
  "timestamp \<Rightarrow> new_pending_attachment \<Rightarrow> (db, domain_error, pending_attachment) op" where
  "create_pending_attachment now n =
     and_then (case np_chat_id n of
         None \<Rightarrow> ret ()
       | Some c \<Rightarrow> query (ensure_active_membership_pool (np_uploader_id n) c)) (\<lambda>_.
     and_then (sql (insert_attachment (pending_row now n))) (\<lambda>_.
     ret (pending_of_row (np_uploader_id n) (pending_row now n))))"

definition is_pending_of :: "uuid \<Rightarrow> uuid \<Rightarrow> attachment_row \<Rightarrow> bool" where
  "is_pending_of i u r \<longleftrightarrow> ma_id r = i \<and> ma_uploader_id r = Some u \<and> \<not> ma_confirmed r"

definition get_pending_attachment_for_user :: "uuid \<Rightarrow> uuid \<Rightarrow> db \<Rightarrow> pending_attachment option dres" where
  "get_pending_attachment_for_user i u d =
     Inr (map_option (pending_of_row u) (select_one (is_pending_of i u) (message_attachments d)))"

definition chat_of_live_message :: "uuid \<Rightarrow> db \<Rightarrow> uuid option" where
  "chat_of_live_message m d =
     map_option m_chat_id (select_one (\<lambda>r. m_id r = m \<and> m_deleted_at r = None) (messages d))"

definition confirmed_row :: "timestamp \<Rightarrow> confirm_attachment_input \<Rightarrow> attachment_row \<Rightarrow> attachment_row" where
  "confirmed_row now inp r =
     r\<lparr>ma_message_id := Some (ci_message_id inp), ma_encryption_key_enc := ci_encryption_key_enc inp,
       ma_encryption_iv := ci_encryption_iv inp, ma_confirmed := True, ma_confirmed_at := Some now\<rparr>"

text \<open>\<open>chat_id = $6\<close> is not true for a row without a chat.\<close>

definition confirmable :: "confirm_attachment_input \<Rightarrow> uuid \<Rightarrow> attachment_row \<Rightarrow> bool" where
  "confirmable inp c r \<longleftrightarrow>
     is_pending_of (ci_attachment_id inp) (ci_uploader_id inp) r \<and> ma_chat_id r = Some c"

definition confirm_attachment :: "timestamp \<Rightarrow> confirm_attachment_input \<Rightarrow> (db, domain_error, unit) op" where
  "confirm_attachment now inp =
     transaction
       (and_then (query (\<lambda>d. ok_or (chat_of_live_message (ci_message_id inp) d) (NotFound ''message not found''))) (\<lambda>c.
        and_then (query (ensure_active_membership (ci_uploader_id inp) c)) (\<lambda>_ d.
          (if count_where (confirmable inp c) (message_attachments d) = 0
           then Inl (NotFound ''pending attachment not found for message'') else Inr (),
           d\<lparr>message_attachments := update_where (confirmable inp c) (confirmed_row now inp) (message_attachments d)\<rparr>))))"

section \<open>Handlers\<close>

record object_store =
  ob_presign :: "string \<Rightarrow> string \<Rightarrow> nat \<Rightarrow> string + string"
  ob_head :: "string \<Rightarrow> string + unit"
  ob_endpoint :: string
  ob_bucket :: string
  ob_show :: "uuid \<Rightarrow> string"

definition presign_put_url :: "object_store \<Rightarrow> string \<Rightarrow> string \<Rightarrow> nat \<Rightarrow> service_error + string" where
  "presign_put_url env key ty ttl =
     (case ob_presign env key ty ttl of Inl e \<Rightarrow> Inl (SInternal e) | Inr url \<Rightarrow> Inr url)"

definition head_object :: "object_store \<Rightarrow> string \<Rightarrow> service_error + unit" where
  "head_object env key = (case ob_head env key of Inl e \<Rightarrow> Inl (SInternal e) | Inr _ \<Rightarrow> Inr ())"

definition bucket_object_url :: "object_store \<Rightarrow> string \<Rightarrow> string" where
  "bucket_object_url env key =
     rev (dropWhile (\<lambda>c. c = CHR ''/'') (rev (ob_endpoint env))) @ ''/'' @ ob_bucket env @ ''/'' @ key"

text \<open>
  \<open>apply_lifecycle_rules\<close>, run once at the start: the store removes the objects under a prefix some days
  after they were written. \<open>build\<close> and \<open>put\<close> are the outcomes of the SDK's builders and of the request.
\<close>

record lifecycle_rule =
  lr_id :: string
  lr_prefix :: string
  lr_enabled :: bool
  lr_days :: int

definition story_rule :: lifecycle_rule where
  "story_rule =
     \<lparr>lr_id = ''ExpireStoriesAfter24H'', lr_prefix = ''attachments/stories/'', lr_enabled = True, lr_days = 1\<rparr>"

definition apply_lifecycle_rules ::
  "(lifecycle_rule \<Rightarrow> string + lifecycle_rule) \<Rightarrow> (lifecycle_rule list \<Rightarrow> string + lifecycle_rule list) \<Rightarrow>
     (lifecycle_rule list \<Rightarrow> string + unit) \<Rightarrow> service_error + lifecycle_rule list" where
  "apply_lifecycle_rules build build_config put =
     (case build story_rule of
        Inl e \<Rightarrow> Inl (SInternal (''Failed to build lifecycle rule: '' @ e))
      | Inr r \<Rightarrow>
          (case build_config [r] of
             Inl e \<Rightarrow> Inl (SInternal (''Failed to build lifecycle config: '' @ e))
           | Inr rs \<Rightarrow>
               (case put rs of
                  Inl e \<Rightarrow> Inl (SInternal (''Failed to apply lifecycle rules: '' @ e))
                | Inr _ \<Rightarrow> Inr rs)))"

definition storage_result :: "service_error + 'a \<Rightarrow> 'a handler" where
  "storage_result r = (case r of Inl e \<Rightarrow> throw (domain_of_service e) | Inr x \<Rightarrow> ret x)"

definition key_char :: "string \<Rightarrow> bool" where
  "key_char ch \<longleftrightarrow>
     (case ch of [c] \<Rightarrow> is_ascii_alphanumeric c \<or> c = CHR ''.'' \<or> c = CHR ''_'' \<or> c = CHR ''-'' | _ \<Rightarrow> False)"

definition sanitize_file_name :: "string option \<Rightarrow> string" where
  "sanitize_file_name name =
     (case name of
        None \<Rightarrow> ''file.bin''
      | Some n \<Rightarrow>
          if trim n = '''' then ''file.bin''
          else concat (map (\<lambda>ch. if key_char ch then ch else ''_'') (chars (trim n))))"

definition image_types :: "string list" where
  "image_types = [''image/jpeg'', ''image/png'', ''image/webp'', ''image/gif'']"

definition video_types :: "string list" where
  "video_types = [''video/mp4'', ''video/quicktime'', ''video/webm'']"

definition audio_types :: "string list" where
  "audio_types = [''audio/mpeg'', ''audio/ogg'', ''audio/aac'', ''audio/wav'']"

definition max_file_size :: "string \<Rightarrow> int" where
  "max_file_size ty =
     (if ty \<in> set image_types then 25 * 1024 * 1024
      else if ty \<in> set video_types then 100 * 1024 * 1024
      else if ty \<in> set audio_types then 25 * 1024 * 1024
      else 100 * 1024 * 1024)"

definition validate_file_constraints :: "string \<Rightarrow> int \<Rightarrow> unit dres" where
  "validate_file_constraints ty n =
     (if n \<le> 0 then Inl (Validation ''file_size must be positive'')
      else if n > max_file_size ty
      then Inl (Validation (''file_size exceeds maximum allowed for mime type: '' @ ty))
      else Inr ())"

record upload_url_request =
  ur_file_type :: string
  ur_file_size :: int
  ur_chat_id :: "uuid option"
  ur_file_name :: "string option"

record upload_url_response =
  us_upload_url :: string
  us_file_url :: string
  us_attachment_id :: uuid
  us_url_expires_at :: timestamp

definition upload_object_key :: "object_store \<Rightarrow> uuid \<Rightarrow> uuid \<Rightarrow> uuid option \<Rightarrow> string option \<Rightarrow> string" where
  "upload_object_key env i auth chat name =
     (case chat of
        Some c \<Rightarrow> ''attachments/chats/'' @ ob_show env c @ ''/'' @ ob_show env i @ ''/'' @ sanitize_file_name name
      | None \<Rightarrow> ''attachments/stories/'' @ ob_show env auth @ ''/'' @ ob_show env i)"

definition chat_for_upload :: "uuid \<Rightarrow> uuid option \<Rightarrow> unit handler" where
  "chat_for_upload auth chat =
     (case chat of
        None \<Rightarrow> ret ()
      | Some c \<Rightarrow>
          and_then (read_db (get_chat_for_user auth c)) (\<lambda>r.
          and_then (lift_result (ok_or r (NotFound ''chat not found or not a participant''))) (\<lambda>_. ret ())))"

definition h_create_upload_url ::
  "object_store \<Rightarrow> uuid \<Rightarrow> timestamp \<Rightarrow> uuid \<Rightarrow> upload_url_request \<Rightarrow> (nat \<times> upload_url_response) handler" where
  "h_create_upload_url env i now auth req =
     and_then (lift_result (validate_file_constraints (ur_file_type req) (ur_file_size req))) (\<lambda>_.
     and_then (chat_for_upload auth (ur_chat_id req)) (\<lambda>_.
     let key = upload_object_key env i auth (ur_chat_id req) (ur_file_name req)
     in and_then (storage_result (presign_put_url env key (ur_file_type req) 300)) (\<lambda>url.
        let file_url = bucket_object_url env key
        in and_then (on_db (create_pending_attachment now
             \<lparr>np_attachment_id = i, np_uploader_id = auth, np_chat_id = ur_chat_id req, np_object_key = key,
              np_file_url = file_url, np_file_type = ur_file_type req, np_file_size = ur_file_size req,
              np_file_name = ur_file_name req\<rparr>)) (\<lambda>_.
           ret (200, \<lparr>us_upload_url = url, us_file_url = file_url, us_attachment_id = i,
                      us_url_expires_at = now + seconds 300\<rparr>)))))"

record confirm_attachment_request =
  cf_attachment_id :: uuid
  cf_message_id :: uuid
  cf_encryption_key_enc :: "string option"
  cf_encryption_iv :: "string option"

definition h_confirm_attachment ::
  "object_store \<Rightarrow> timestamp \<Rightarrow> uuid \<Rightarrow> confirm_attachment_request \<Rightarrow> (nat \<times> string) handler" where
  "h_confirm_attachment env now auth req =
     and_then (read_db (get_pending_attachment_for_user (cf_attachment_id req) auth)) (\<lambda>r.
     and_then (lift_result (ok_or r (NotFound ''pending attachment not found''))) (\<lambda>a.
     and_then (storage_result (head_object env (pa_object_key a))) (\<lambda>_.
     and_then (on_db (confirm_attachment now
       \<lparr>ci_attachment_id = cf_attachment_id req, ci_message_id = cf_message_id req, ci_uploader_id = auth,
        ci_encryption_key_enc = cf_encryption_key_enc req, ci_encryption_iv = cf_encryption_iv req\<rparr>)) (\<lambda>_.
     ret (200, ''attachment confirmed'')))))"

section \<open>Names and sizes\<close>

lemma sanitized_chars:
  "c \<in> set (sanitize_file_name name) \<Longrightarrow>
     is_ascii_alphanumeric c \<or> c = CHR ''.'' \<or> c = CHR ''_'' \<or> c = CHR ''-''"
proof -
  assume c: "c \<in> set (sanitize_file_name name)"
  have "list_all (\<lambda>c. is_ascii_alphanumeric c \<or> c = CHR ''.'') ''file.bin''" by code_simp
  then show ?thesis
    using c by (auto simp: sanitize_file_name_def key_char_def list_all_iff split: option.splits if_splits list.splits)
qed

text \<open>A file name cannot leave the folder of its attachment, though \<open>..\<close> is kept as it is.\<close>

lemma sanitized_no_slash: "CHR ''/'' \<notin> set (sanitize_file_name name)"
proof
  assume "CHR ''/'' \<in> set (sanitize_file_name name)"
  then show False
    by (auto dest!: sanitized_chars simp: is_ascii_alphanumeric_def is_ascii_digit_def)
qed

lemma file_size_bounds:
  "validate_file_constraints ty n = Inr () \<longleftrightarrow> 0 < n \<and> n \<le> max_file_size ty"
  by (auto simp: validate_file_constraints_def)

text \<open>The rule that removes old objects covers exactly the uploads without a chat, the stories.\<close>

lemma lifecycle_covers_stories:
  "starts_with (lr_prefix story_rule) (upload_object_key env i auth chat name) \<longleftrightarrow> chat = None"
  by (cases chat) (simp_all add: story_rule_def upload_object_key_def starts_with_def)

section \<open>Confirmation\<close>

text \<open>What a confirmation needs: an own pending row, its object, and a live message of its chat.\<close>

definition can_confirm :: "object_store \<Rightarrow> uuid \<Rightarrow> confirm_attachment_request \<Rightarrow> db \<Rightarrow> bool" where
  "can_confirm env auth req d \<longleftrightarrow>
     (\<exists>a c. select_one (is_pending_of (cf_attachment_id req) auth) (message_attachments d) = Some a \<and>
        ob_head env (ma_object_key a) = Inr () \<and> ma_chat_id a = Some c \<and>
        chat_of_live_message (cf_message_id req) d = Some c \<and> chat_of_member d auth c \<noteq> None)"

definition attached_row :: "timestamp \<Rightarrow> confirm_attachment_request \<Rightarrow> attachment_row \<Rightarrow> attachment_row" where
  "attached_row now req r =
     r\<lparr>ma_message_id := Some (cf_message_id req), ma_encryption_key_enc := cf_encryption_key_enc req,
       ma_encryption_iv := cf_encryption_iv req, ma_confirmed := True, ma_confirmed_at := Some now\<rparr>"

lemma confirm_attachment_run:
  "confirm_attachment now inp d =
    (case chat_of_live_message (ci_message_id inp) d of
       None \<Rightarrow> (Inl (NotFound ''message not found''), d)
     | Some c \<Rightarrow>
         if chat_of_member d (ci_uploader_id inp) c = None
         then (Inl (NotFound ''chat not found or not a participant''), d)
         else if count_where (confirmable inp c) (message_attachments d) = 0
         then (Inl (NotFound ''pending attachment not found for message''), d)
         else (Inr (), d\<lparr>message_attachments :=
                update_where (confirmable inp c) (confirmed_row now inp) (message_attachments d)\<rparr>))"
proof (cases "chat_of_live_message (ci_message_id inp) d")
  case (Some c)
  then show ?thesis
    by (cases "chat_of_member d (ci_uploader_id inp) c")
      (simp_all add: confirm_attachment_def transaction_def and_then_query ensure_active_membership_def)
qed (simp add: confirm_attachment_def transaction_def and_then_query)

definition confirm_input :: "uuid \<Rightarrow> confirm_attachment_request \<Rightarrow> confirm_attachment_input" where
  "confirm_input auth req =
     \<lparr>ci_attachment_id = cf_attachment_id req, ci_message_id = cf_message_id req, ci_uploader_id = auth,
      ci_encryption_key_enc = cf_encryption_key_enc req, ci_encryption_iv = cf_encryption_iv req\<rparr>"

text \<open>The pending row is the only one that the update can hit, and it does if its chat is the message's.\<close>

lemma confirmable_pending:
  assumes "unique_on ma_id t" "select_one (is_pending_of (cf_attachment_id req) auth) t = Some a" "x \<in> set t"
  shows "(ma_id x = cf_attachment_id req \<longleftrightarrow> x = a) \<and>
    (confirmable (confirm_input auth req) c x \<longleftrightarrow> x = a \<and> ma_chat_id a = Some c)"
proof -
  have a: "a \<in> set t" "is_pending_of (cf_attachment_id req) auth a" using select_one_SomeD [OF assms(2)] by auto
  have "x = a" if "ma_id x = cf_attachment_id req"
    using unique_on_eq [OF assms(1,3) a(1)] a(2) that by (simp add: is_pending_of_def)
  then show ?thesis using a(2) by (auto simp: confirmable_def is_pending_of_def confirm_input_def)
qed

lemma count_confirmable:
  assumes "unique_on ma_id t" "select_one (is_pending_of (cf_attachment_id req) auth) t = Some a"
  shows "count_where (confirmable (confirm_input auth req) c) t = 0 \<longleftrightarrow> ma_chat_id a \<noteq> Some c"
  unfolding count_where_0_iff using confirmable_pending [OF assms] select_one_SomeD [OF assms(2)] by metis

lemma update_confirmable:
  assumes "unique_on ma_id t" "select_one (is_pending_of (cf_attachment_id req) auth) t = Some a" "ma_chat_id a = Some c"
  shows "update_where (confirmable (confirm_input auth req) c) (confirmed_row now (confirm_input auth req)) t =
    update_where (\<lambda>x. ma_id x = cf_attachment_id req) (attached_row now req) t"
  unfolding update_where_def
proof (rule map_cong [OF refl])
  fix x assume "x \<in> set t"
  then have "confirmable (confirm_input auth req) c x \<longleftrightarrow> ma_id x = cf_attachment_id req"
    using confirmable_pending [OF assms(1,2)] assms(3) by metis
  then show "(if confirmable (confirm_input auth req) c x then confirmed_row now (confirm_input auth req) x else x) =
      (if ma_id x = cf_attachment_id req then attached_row now req x else x)"
    by (simp add: confirmed_row_def attached_row_def confirm_input_def)
qed

text \<open>The handler on a pending row; a failed confirmation changes nothing.\<close>

lemma h_confirm_pending:
  assumes u: "unique_on ma_id (message_attachments (srv_db s))"
    and p: "select_one (is_pending_of (cf_attachment_id req) auth) (message_attachments (srv_db s)) = Some a"
  shows "if can_confirm env auth req (srv_db s)
    then h_confirm_attachment env now auth req s = (Inr (200, ''attachment confirmed''),
      s\<lparr>srv_db := (srv_db s)\<lparr>message_attachments :=
        update_where (\<lambda>a. ma_id a = cf_attachment_id req) (attached_row now req) (message_attachments (srv_db s))\<rparr>\<rparr>)
    else \<exists>e. h_confirm_attachment env now auth req s = (Inl e, s)"
proof -
  have run: "h_confirm_attachment env now auth req s =
      (case ob_head env (ma_object_key a) of
         Inl e \<Rightarrow> (Inl (Internal e), s)
       | Inr _ \<Rightarrow>
           (case confirm_attachment now (confirm_input auth req) (srv_db s) of
              (Inl e, d) \<Rightarrow> (Inl e, s\<lparr>srv_db := d\<rparr>)
            | (Inr _, d) \<Rightarrow> (Inr (200, ''attachment confirmed''), s\<lparr>srv_db := d\<rparr>)))"
    by (simp add: h_confirm_attachment_def and_then_def get_pending_attachment_for_user_def p storage_result_def
        head_object_def pending_of_row_def on_db_def confirm_input_def split: sum.split prod.split)
  have inp: "ci_message_id (confirm_input auth req) = cf_message_id req" "ci_uploader_id (confirm_input auth req) = auth"
    by (simp_all add: confirm_input_def)
  have same: "s\<lparr>srv_db := srv_db s\<rparr> = s" by (cases s) simp
  note simps = run confirm_attachment_run inp count_confirmable [OF u p] update_confirmable [OF u p] p same
  show ?thesis
    unfolding can_confirm_def
    by (cases "ob_head env (ma_object_key a)") (auto simp: simps split: option.splits if_splits)
qed

text \<open>
  C9. An attachment is confirmed exactly by its uploader, while it is pending and its object is in the
  store, for a live message of the chat it was uploaded for, of which the uploader is a member; then
  exactly its row is tied to the message, and a second confirmation fails. Otherwise nothing changes.
\<close>

theorem confirm_attachment_exact:
  assumes "unique_on ma_id (message_attachments (srv_db s))" "h_confirm_attachment env now auth req s = (r, s')"
  shows "if can_confirm env auth req (srv_db s)
    then r = Inr (200, ''attachment confirmed'') \<and>
      s' = s\<lparr>srv_db := (srv_db s)\<lparr>message_attachments :=
        update_where (\<lambda>a. ma_id a = cf_attachment_id req) (attached_row now req) (message_attachments (srv_db s))\<rparr>\<rparr> \<and>
      (\<forall>env' now' req'. cf_attachment_id req' = cf_attachment_id req \<longrightarrow>
        h_confirm_attachment env' now' auth req' s' = (Inl (NotFound ''pending attachment not found''), s'))
    else (\<exists>e. r = Inl e) \<and> s' = s"
proof (cases "select_one (is_pending_of (cf_attachment_id req) auth) (message_attachments (srv_db s))")
  case None
  then have "r = Inl (NotFound ''pending attachment not found'')" "s' = s"
    using assms(2) by (auto simp: h_confirm_attachment_def and_then_def get_pending_attachment_for_user_def)
  then show ?thesis using None by (simp add: can_confirm_def)
next
  case (Some a)
  let ?t = "update_where (\<lambda>a. ma_id a = cf_attachment_id req) (attached_row now req) (message_attachments (srv_db s))"
  let ?s = "s\<lparr>srv_db := (srv_db s)\<lparr>message_attachments := ?t\<rparr>\<rparr>"
  have "select_one (is_pending_of (cf_attachment_id req) auth) ?t = None"
    by (auto simp: select_one_None_iff is_pending_of_def attached_row_def elim!: in_update_whereE)
  then have "h_confirm_attachment env' now' auth req' ?s = (Inl (NotFound ''pending attachment not found''), ?s)"
    if "cf_attachment_id req' = cf_attachment_id req" for env' now' req'
    using that by (simp add: h_confirm_attachment_def and_then_def get_pending_attachment_for_user_def)
  then show ?thesis
    using h_confirm_pending [OF assms(1) Some, of env now] assms(2) by (auto split: if_splits)
qed

text \<open>User 1 uploads a picture to chat 10 and attaches it to message 100.\<close>

definition sample_store :: object_store where
  "sample_store = \<lparr>ob_presign = (\<lambda>key ty ttl. Inr key), ob_head = (\<lambda>_. Inr ()), ob_endpoint = ''http'',
     ob_bucket = ''b'', ob_show = (\<lambda>u. nat_to_string (unat u))\<rparr>"

definition picture :: upload_url_request where
  "picture = \<lparr>ur_file_type = ''image/png'', ur_file_size = 10, ur_chat_id = Some 10, ur_file_name = Some ''a b.png''\<rparr>"

definition uploaded :: srv where
  "uploaded = snd (h_create_upload_url sample_store 77 60 1 picture
     \<lparr>srv_db = one_message, srv_redis = empty_redis, srv_out = []\<rparr>)"

definition attach_it :: confirm_attachment_request where
  "attach_it = \<lparr>cf_attachment_id = 77, cf_message_id = 100, cf_encryption_key_enc = None, cf_encryption_iv = None\<rparr>"

lemma uploaded_row:
  "map ma_object_key (message_attachments (srv_db uploaded)) = [''attachments/chats/10/77/a_b.png'']"
  by code_simp

theorem confirm_attachment_exact_witness:
  "let (r, s') = h_confirm_attachment sample_store 70 1 attach_it uploaded
   in can_confirm sample_store 1 attach_it (srv_db uploaded) \<and> r = Inr (200, ''attachment confirmed'') \<and>
      map ma_message_id (message_attachments (srv_db s')) = [Some 100] \<and>
      h_confirm_attachment sample_store 71 1 attach_it s' = (Inl (NotFound ''pending attachment not found''), s')"
proof -
  obtain r s' where run: "h_confirm_attachment sample_store 70 1 attach_it uploaded = (r, s')" by fastforce
  have k: "fst (h_confirm_attachment sample_store 70 1 attach_it uploaded) = Inr (200, ''attachment confirmed'')"
    "map ma_message_id (message_attachments (srv_db (snd (h_confirm_attachment sample_store 70 1 attach_it uploaded)))) = [Some 100]"
    by code_simp+
  have "distinct (map ma_id (message_attachments (srv_db uploaded)))" by code_simp
  then have "unique_on ma_id (message_attachments (srv_db uploaded))" by (simp add: unique_on_def)
  note exact = confirm_attachment_exact [OF this run]
  have r: "r = Inr (200, ''attachment confirmed'')" "map ma_message_id (message_attachments (srv_db s')) = [Some 100]"
    using k by (simp_all add: run)
  then have c: "can_confirm sample_store 1 attach_it (srv_db uploaded)"
    using exact by (cases "can_confirm sample_store 1 attach_it (srv_db uploaded)") simp_all
  then have "h_confirm_attachment sample_store 71 1 attach_it s' = (Inl (NotFound ''pending attachment not found''), s')"
    using conjunct2 [OF conjunct2 [OF exact [unfolded if_P [OF c]]]] by blast
  then show ?thesis using c r run by (simp only: Let_def prod.case simp_thms)
qed

text \<open>
  The picture of a story is uploaded without a chat; its row can never be confirmed, because a
  confirmation compares the chat of a message with it.
\<close>

lemma story_upload_never_confirmed:
  assumes "unique_on ma_id (message_attachments (srv_db s))" "a \<in> set (message_attachments (srv_db s))"
    and "ma_id a = cf_attachment_id req" "ma_chat_id a = None"
  shows "\<not> can_confirm env auth req (srv_db s)"
proof
  assume "can_confirm env auth req (srv_db s)"
  then obtain b c where b: "select_one (is_pending_of (cf_attachment_id req) auth) (message_attachments (srv_db s)) = Some b"
      "ma_chat_id b = Some c"
    by (auto simp: can_confirm_def)
  then have "b \<in> set (message_attachments (srv_db s))" "ma_id b = ma_id a"
    using select_one_SomeD [OF b(1)] assms(3) by (auto simp: is_pending_of_def)
  then have "b = a" using unique_on_eq [OF assms(1)] assms(2) by blast
  then show False using b(2) assms(4) by simp
qed

end
