(* ===== verification/PhoneHash.thy ===== *)
theory PhoneHash
  imports Contacts
begin

text \<open>
  The hashes of phone numbers: \<open>crates/shared/src/hash.rs\<close> and the migration of old hashes that
  \<open>crates/api/src/main.rs\<close> runs at every start (\<open>rehash_phone_numbers\<close>). HMAC-SHA256, SHA-256 and the
  hexadecimal text of bytes are library functions, collected in \<open>hash_env\<close>. PostgreSQL's
  \<open>encode(digest(phone, 'sha256'), 'hex')\<close> is the same function as \<open>hash_phone_sha256\<close>.

  The commands to Redis may fail without the migration noticing (\<open>unwrap_or(())\<close>); \<open>up h\<close> says
  whether the command for the member \<open>h\<close> reaches Redis.
\<close>

record hash_env =
  he_hmac_sha256 :: "string \<Rightarrow> string \<Rightarrow> string"
  he_sha256 :: "string \<Rightarrow> string"
  he_hex :: "string \<Rightarrow> string"

section \<open>Definitions\<close>

definition hash_phone :: "hash_env \<Rightarrow> string \<Rightarrow> string \<Rightarrow> string" where
  "hash_phone he phone secret = he_hex he (he_hmac_sha256 he secret phone)"

definition hash_phone_sha256 :: "hash_env \<Rightarrow> string \<Rightarrow> string" where
  "hash_phone_sha256 he phone = he_hex he (he_sha256 he phone)"

text \<open>The rows that the migration selects.\<close>

definition legacy_hash :: "hash_env \<Rightarrow> user_row \<Rightarrow> bool" where
  "legacy_hash he r \<longleftrightarrow> u_deleted_at r = None \<and> u_phone_hash r = hash_phone_sha256 he (u_phone r)"

text \<open>A command whose error is dropped.\<close>

definition try_redis :: "bool \<Rightarrow> unit rop \<Rightarrow> srv \<Rightarrow> srv" where
  "try_redis reached m s = (if reached then s\<lparr>srv_redis := snd (m (srv_redis s))\<rparr> else s)"

definition set_phone_hash :: "timestamp \<Rightarrow> uuid \<Rightarrow> string \<Rightarrow> srv \<Rightarrow> srv" where
  "set_phone_hash now i h s =
     s\<lparr>srv_db := touch_user now (\<lambda>r. r\<lparr>u_phone_hash := h\<rparr>) (\<lambda>r. u_id r = i) (srv_db s)\<rparr>"

definition rehash_row :: "hash_env \<Rightarrow> (string \<Rightarrow> bool) \<Rightarrow> string \<Rightarrow> timestamp \<Rightarrow> user_row \<Rightarrow> srv \<Rightarrow> srv" where
  "rehash_row he up secret now row s =
     (let old_hash = u_phone_hash row;
          new_hash = hash_phone he (u_phone row) secret
      in try_redis (up new_hash) (redis_sadd now phone_hashes new_hash)
           (try_redis (up old_hash) (redis_srem now phone_hashes old_hash)
             (set_phone_hash now (u_id row) new_hash s)))"

definition rehash_phone_numbers ::
  "hash_env \<Rightarrow> (string \<Rightarrow> bool) \<Rightarrow> string \<Rightarrow> timestamp \<Rightarrow> srv \<Rightarrow> srv" where
  "rehash_phone_numbers he up secret now s =
     fold (rehash_row he up secret now) (select_where (legacy_hash he) (users (srv_db s))) s"

section \<open>The database after the migration\<close>

definition rehashed :: "hash_env \<Rightarrow> string \<Rightarrow> timestamp \<Rightarrow> user_row \<Rightarrow> user_row" where
  "rehashed he secret now r =
     (if legacy_hash he r
      then r\<lparr>u_phone_hash := hash_phone he (u_phone r) secret, u_updated_at := now\<rparr> else r)"

lemma try_redis_db [simp]: "srv_db (try_redis b m s) = srv_db s"
  by (simp add: try_redis_def)

lemma try_redis_out [simp]: "srv_out (try_redis b m s) = srv_out s"
  by (simp add: try_redis_def)

lemma set_phone_hash_redis [simp]: "srv_redis (set_phone_hash now i h s) = srv_redis s"
  by (simp add: set_phone_hash_def)

lemma rehash_row_db:
  "srv_db (rehash_row he up secret now r s) =
     touch_user now (\<lambda>x. x\<lparr>u_phone_hash := hash_phone he (u_phone r) secret\<rparr>) (\<lambda>x. u_id x = u_id r) (srv_db s)"
  by (simp add: rehash_row_def Let_def set_phone_hash_def)

text \<open>The rows of the list, one update each: a row of the table is hit by the one with its id.\<close>

lemma fold_rehash_users:
  assumes "distinct (map u_id rs)"
  shows "srv_db (fold (rehash_row he up secret now) rs s) = (srv_db s)\<lparr>users :=
    map (\<lambda>x. case select_one (\<lambda>r. u_id r = u_id x) rs of
        None \<Rightarrow> x
      | Some r \<Rightarrow> x\<lparr>u_phone_hash := hash_phone he (u_phone r) secret, u_updated_at := now\<rparr>) (users (srv_db s))\<rparr>"
  using assms
proof (induction rs arbitrary: s)
  case Nil
  then show ?case by simp
next
  case (Cons r rs)
  have "select_one (\<lambda>x. u_id x = u_id r) rs = None"
    using Cons.prems by (auto simp: select_one_None_iff image_iff)
  then show ?case
    using Cons by (auto simp: rehash_row_db touch_user_def update_where_def)
qed

lemma select_legacy:
  assumes "unique_on u_id t" "x \<in> set t"
  shows "select_one (\<lambda>r. u_id r = u_id x) (select_where P t) = (if P x then Some x else None)"
proof (cases "P x")
  case True
  have "unique_on u_id (select_where P t)"
    using assms(1) by (simp add: unique_on_def select_where_def distinct_map_filter)
  then have "select_one (\<lambda>r. u_id r = u_id x) (select_where P t) = Some x"
    using assms(2) True by (intro select_one_unique) (auto simp: set_select_where)
  then show ?thesis using True by simp
next
  case False
  have "r = x" if "r \<in> set t" "u_id r = u_id x" for r using assms that by (auto dest: unique_on_eq)
  then show ?thesis using False by (auto simp: select_one_None_iff set_select_where)
qed

text \<open>
  Exactly the rows with an old hash get the new one, whatever happens to Redis; nothing else of the
  database changes.
\<close>

lemma rehash_db:
  assumes "unique_on u_id (users (srv_db s))"
  shows "srv_db (rehash_phone_numbers he up secret now s) =
    (srv_db s)\<lparr>users := map (rehashed he secret now) (users (srv_db s))\<rparr>"
proof -
  let ?t = "users (srv_db s)"
  have "distinct (map u_id (select_where (legacy_hash he) ?t))"
    using assms by (simp add: unique_on_def select_where_def distinct_map_filter)
  then show ?thesis
    unfolding rehash_phone_numbers_def
    by (subst fold_rehash_users) (auto simp: select_legacy [OF assms] rehashed_def)
qed

text \<open>
  The migration is idempotent, as the comment of migration 020 says: after it no row has an old
  hash, so the next start does nothing. No HMAC of a number may be the plain hash of that number.
\<close>

lemma rehash_leaves_no_legacy:
  assumes "unique_on u_id (users (srv_db s))"
    and "\<And>r. r \<in> set (users (srv_db s)) \<Longrightarrow> hash_phone he (u_phone r) secret \<noteq> hash_phone_sha256 he (u_phone r)"
    and "x \<in> set (users (srv_db (rehash_phone_numbers he up secret now s)))"
  shows "\<not> legacy_hash he x"
  using assms(2,3) by (auto simp: rehash_db [OF assms(1)] rehashed_def legacy_hash_def)

lemma rehash_nothing:
  assumes "\<And>x. x \<in> set (users (srv_db s)) \<Longrightarrow> \<not> legacy_hash he x"
  shows "rehash_phone_numbers he up secret now s = s"
  using assms by (simp add: rehash_phone_numbers_def select_where_def)

theorem rehash_idempotent:
  assumes "unique_on u_id (users (srv_db s))"
    and "\<And>r. r \<in> set (users (srv_db s)) \<Longrightarrow> hash_phone he (u_phone r) secret \<noteq> hash_phone_sha256 he (u_phone r)"
  shows "rehash_phone_numbers he up' secret now' (rehash_phone_numbers he up secret now s) =
    rehash_phone_numbers he up secret now s"
  by (rule rehash_nothing) (rule rehash_leaves_no_legacy [OF assms])

section \<open>Redis after the migration\<close>

lemma rehash_row_redis:
  assumes "set_at now phone_hashes (srv_redis s) = Inr m"
  shows "\<exists>m'. set_at now phone_hashes (srv_redis (rehash_row he up secret now r s)) = Inr m' \<and>
    set m' = {h. h = hash_phone he (u_phone r) secret \<and> up h} \<union> (set m - {h. h = u_phone_hash r \<and> up h})"
proof -
  let ?m = "if up (u_phone_hash r) then removeAll (u_phone_hash r) m else m"
  let ?s = "try_redis (up (u_phone_hash r)) (redis_srem now phone_hashes (u_phone_hash r))
    (set_phone_hash now (u_id r) (hash_phone he (u_phone r) secret) s)"
  have "set_at now phone_hashes (srv_redis ?s) = Inr ?m"
    using assms by (simp add: try_redis_def redis_srem_def set_at_put_set)
  then show ?thesis
    by (auto simp: rehash_row_def Let_def try_redis_def [of "up (hash_phone he (u_phone r) secret)"]
        redis_sadd_def set_at_put_set)
qed

text \<open>
  The members afterwards: the new hashes of the rows and the old members but the rows' hashes, each as
  far as its command reached Redis.
\<close>

lemma fold_rehash_redis:
  assumes "set_at now phone_hashes (srv_redis s) = Inr m"
    and "\<And>r r'. r \<in> set rs \<Longrightarrow> r' \<in> set rs \<Longrightarrow> hash_phone he (u_phone r) secret \<noteq> u_phone_hash r'"
  shows "\<exists>m'. set_at now phone_hashes (srv_redis (fold (rehash_row he up secret now) rs s)) = Inr m' \<and>
    set m' = {h \<in> (\<lambda>r. hash_phone he (u_phone r) secret) ` set rs. up h} \<union> (set m - {h \<in> u_phone_hash ` set rs. up h})"
  using assms
proof (induction rs arbitrary: s m)
  case Nil
  then show ?case by simp
next
  case (Cons r rs)
  let ?H = "hash_phone he (u_phone r) secret"
  obtain m1 where m1: "set_at now phone_hashes (srv_redis (rehash_row he up secret now r s)) = Inr m1"
    "set m1 = {h. h = ?H \<and> up h} \<union> (set m - {h. h = u_phone_hash r \<and> up h})"
    using rehash_row_redis [OF Cons.prems(1), where he = he and up = up and secret = secret and r = r] by blast
  obtain m' where m': "set_at now phone_hashes (srv_redis (fold (rehash_row he up secret now) (r # rs) s)) = Inr m'"
    "set m' = {h \<in> (\<lambda>r. hash_phone he (u_phone r) secret) ` set rs. up h} \<union> (set m1 - {h \<in> u_phone_hash ` set rs. up h})"
    using Cons.IH [OF m1(1)] Cons.prems(2) by auto
  have "?H \<notin> u_phone_hash ` set rs" using Cons.prems(2) by fastforce
  then have "set m' = {h \<in> (\<lambda>r. hash_phone he (u_phone r) secret) ` set (r # rs). up h} \<union>
      (set m - {h \<in> u_phone_hash ` set (r # rs). up h})"
    unfolding m'(2) m1(2) by (auto dest: sym)
  then show ?case using m'(1) by blast
qed

text \<open>
  The migration leaves every live, active account with the keyed hash of its number; of these hashes
  Redis has those it had, and those of the old rows whose \<open>SADD\<close> reached it.
\<close>

lemma rehash_discovery_state:
  assumes u: "unique_on u_id (users (srv_db s))" "unique_on u_phone (users (srv_db s))"
    and m: "set_at now phone_hashes (srv_redis s) = Inr m"
    and old: "\<And>r. r \<in> set (users (srv_db s)) \<Longrightarrow> u_deleted_at r = None \<Longrightarrow> u_is_active r \<Longrightarrow>
      legacy_hash he r \<or> u_phone_hash r = hash_phone he (u_phone r) secret"
    and no_clash: "\<And>r r'. r \<in> set (users (srv_db s)) \<Longrightarrow> r' \<in> set (users (srv_db s)) \<Longrightarrow>
      hash_phone he (u_phone r) secret \<noteq> hash_phone_sha256 he (u_phone r')"
    and inj: "inj_on (\<lambda>p. hash_phone he p secret) (u_phone ` set (users (srv_db s)))"
    and s': "s' = rehash_phone_numbers he up secret now s"
  shows "(\<forall>x\<in>set (users (srv_db s')). u_deleted_at x = None \<and> u_is_active x \<longrightarrow>
      u_phone_hash x = hash_phone he (u_phone x) secret) \<and>
    (\<exists>m'. set_at now phone_hashes (srv_redis s') = Inr m' \<and>
      (\<forall>r\<in>set (users (srv_db s)). hash_phone he (u_phone r) secret \<in> set m' \<longleftrightarrow>
        hash_phone he (u_phone r) secret \<in> set m \<or> legacy_hash he r \<and> up (hash_phone he (u_phone r) secret)))"
proof (intro conjI)
  let ?t = "users (srv_db s)" and ?H = "\<lambda>r. hash_phone he (u_phone r) secret"
  let ?rs = "select_where (legacy_hash he) ?t"
  show "\<forall>x\<in>set (users (srv_db s')). u_deleted_at x = None \<and> u_is_active x \<longrightarrow>
      u_phone_hash x = hash_phone he (u_phone x) secret"
    using old by (auto simp: s' rehash_db [OF u(1)] rehashed_def)
  have clash: "?H r \<noteq> u_phone_hash r'" if "r \<in> set ?t" "r' \<in> set ?rs" for r r'
    using that no_clash [of r r'] by (auto simp: set_select_where legacy_hash_def)
  have "?H r \<noteq> u_phone_hash r'" if "r \<in> set ?rs" "r' \<in> set ?rs" for r r'
    using that clash by (auto simp: set_select_where)
  from fold_rehash_redis [OF m this, where up = up]
  obtain m' where m': "set_at now phone_hashes (srv_redis s') = Inr m'"
    "set m' = {h \<in> ?H ` set ?rs. up h} \<union> (set m - {h \<in> u_phone_hash ` set ?rs. up h})"
    unfolding s' rehash_phone_numbers_def by blast
  have mem: "?H r \<in> ?H ` set ?rs \<longleftrightarrow> legacy_hash he r" if r: "r \<in> set ?t" for r
  proof
    assume "?H r \<in> ?H ` set ?rs"
    then obtain r' where r': "r' \<in> set ?t" "legacy_hash he r'" "?H r = ?H r'" by (auto simp: set_select_where)
    then have "u_phone r = u_phone r'" using inj_onD [OF inj, of "u_phone r" "u_phone r'"] r by simp
    then show "legacy_hash he r" using unique_on_eq [OF u(2) r r'(1)] r'(2) by simp
  next
    assume "legacy_hash he r"
    then show "?H r \<in> ?H ` set ?rs" using r by (auto simp: set_select_where)
  qed
  have "?H r \<in> set m' \<longleftrightarrow> ?H r \<in> set m \<or> legacy_hash he r \<and> up (?H r)" if r: "r \<in> set ?t" for r
  proof -
    have "?H r \<notin> u_phone_hash ` set ?rs" using clash [OF r] by auto
    then show ?thesis
      unfolding m'(2) by (simp only: Un_iff Diff_iff mem_Collect_eq mem [OF r]) blast
  qed
  then show "\<exists>m'. set_at now phone_hashes (srv_redis s') = Inr m' \<and> (\<forall>r\<in>set ?t. ?H r \<in> set m' \<longleftrightarrow>
      ?H r \<in> set m \<or> legacy_hash he r \<and> up (?H r))"
    using m'(1) by blast
qed

lemma collect_map:
  assumes "\<And>u. u \<in> set xs \<Longrightarrow> f (g u) = f u" "\<And>u. u \<in> set xs \<Longrightarrow> P (g u) \<longleftrightarrow> Q u"
  shows "{f u | u. u \<in> set (map g xs) \<and> P u} = {f u | u. u \<in> set xs \<and> Q u}"
proof -
  have "{u \<in> set (map g xs). P u} = g ` {u \<in> set xs. Q u}" using assms(2) by auto
  then have "f ` {u \<in> set (map g xs). P u} = f ` {u \<in> set xs. Q u}"
    using assms(1) by (simp add: image_image)
  moreover have "{f u | u. u \<in> A \<and> R u} = f ` {u \<in> A. R u}" for A R by blast
  ultimately show ?thesis by simp
qed

text \<open>
  C20. The migration of phone hashes and contact discovery, whichever of the migration's commands
  reach Redis: it loses no account that could be found, and an account with an old hash is found
  afterwards exactly if the \<open>SADD\<close> of its new hash got through. So the server that has run the migration
  reports, of 1 to 1000 submitted numbers, the live, active accounts whose keyed hash was in the set
  before or whose old hash was replaced with the \<open>SADD\<close> reaching Redis, each with the plain hash of
  the number. Every live, active account has the old or the keyed hash of its number before, and on the
  numbers involved the keyed hash has no collision and is never the plain hash of another one.
\<close>

theorem migration_keeps_discovery:
  assumes "unique_on u_id (users (srv_db s))" "unique_on u_phone (users (srv_db s))"
    and "set_at now phone_hashes (srv_redis s) = Inr m"
    and "\<And>r. r \<in> set (users (srv_db s)) \<Longrightarrow> u_deleted_at r = None \<Longrightarrow> u_is_active r \<Longrightarrow>
      legacy_hash he r \<or> u_phone_hash r = hash_phone he (u_phone r) secret"
    and "\<And>r r'. r \<in> set (users (srv_db s)) \<Longrightarrow> r' \<in> set (users (srv_db s)) \<Longrightarrow>
      hash_phone he (u_phone r) secret \<noteq> hash_phone_sha256 he (u_phone r')"
    and inj: "inj_on (\<lambda>p. hash_phone he p secret) (set phones \<union> u_phone ` set (users (srv_db s)))"
    and env: "ue_has_redis env" "phones \<noteq> []" "length phones \<le> 1000"
    and s': "s' = rehash_phone_numbers he up secret now s"
  shows "\<exists>found. h_sync_contacts env (\<lambda>p. hash_phone he p secret) (hash_phone_sha256 he) now phones s' =
      (Inr (200, Inr found), s') \<and>
    (\<lambda>x. (sm_user_id x, sm_hash x)) ` set found =
      {(u_id u, hash_phone_sha256 he (u_phone u)) | u. u \<in> set (users (srv_db s)) \<and> u_deleted_at u = None \<and>
        u_is_active u \<and> u_phone u \<in> set phones \<and>
        (hash_phone he (u_phone u) secret \<in> set m \<or>
         legacy_hash he u \<and> up (hash_phone he (u_phone u) secret))}"
proof -
  let ?H = "\<lambda>p. hash_phone he p secret"
  have rows: "users (srv_db s') = map (rehashed he secret now) (users (srv_db s))"
    by (simp add: s' rehash_db [OF assms(1)])
  have keep: "u_id (rehashed he secret now r) = u_id r" "u_phone (rehashed he secret now r) = u_phone r"
    "u_deleted_at (rehashed he secret now r) = u_deleted_at r" "u_is_active (rehashed he secret now r) = u_is_active r"
    for r by (simp_all add: rehashed_def)
  have inj': "inj_on ?H (set phones \<union> u_phone ` set (users (srv_db s')))" "inj_on ?H (u_phone ` set (users (srv_db s)))"
    using inj by (simp add: rows image_image keep) (rule inj_on_subset [OF inj], simp)
  obtain m' where m': "set_at now phone_hashes (srv_redis s') = Inr m'"
    "\<forall>x\<in>set (users (srv_db s')). u_deleted_at x = None \<and> u_is_active x \<longrightarrow> u_phone_hash x = ?H (u_phone x)"
    "\<forall>r\<in>set (users (srv_db s)). ?H (u_phone r) \<in> set m' \<longleftrightarrow>
      ?H (u_phone r) \<in> set m \<or> legacy_hash he r \<and> up (?H (u_phone r))"
    using rehash_discovery_state [OF assms(1-5) inj'(2) s'] by blast
  have h: "u_phone_hash u = ?H (u_phone u)"
    if "u \<in> set (users (srv_db s'))" "u_deleted_at u = None" "u_is_active u" for u
    using m'(2) that by blast
  note exact = sync_numbers [OF m'(1) h env inj'(1), where sha = "hash_phone_sha256 he"]
  have "{(u_id u, hash_phone_sha256 he (u_phone u)) | u. u \<in> set (users (srv_db s')) \<and> u_deleted_at u = None \<and>
      u_is_active u \<and> u_phone u \<in> set phones \<and> ?H (u_phone u) \<in> set m'} =
    {(u_id u, hash_phone_sha256 he (u_phone u)) | u. u \<in> set (users (srv_db s)) \<and> u_deleted_at u = None \<and>
      u_is_active u \<and> u_phone u \<in> set phones \<and>
      (?H (u_phone u) \<in> set m \<or> legacy_hash he u \<and> up (?H (u_phone u)))}"
    unfolding rows using m'(3) by (intro collect_map) (auto simp: keep)
  with exact show ?thesis by simp
qed

section \<open>A failure of Redis is never repaired\<close>

text \<open>
  When Redis is away during the migration, the rows get their new hashes and the set keeps the old
  ones. The row is no longer legacy, so no later start puts the new hash into the set: contact
  discovery, which asks the set first, does not find the account any more.
\<close>

definition sample_hashes :: hash_env where
  "sample_hashes = \<lparr>he_hmac_sha256 = (\<lambda>k p. k @ p), he_sha256 = (\<lambda>p. p), he_hex = (\<lambda>b. b)\<rparr>"

definition legacy_start :: srv where
  "legacy_start =
     \<lparr>srv_db = empty_db\<lparr>users := [(row_of_user julio None)\<lparr>u_phone_hash := ''+573001234567''\<rparr>]\<rparr>,
      srv_redis = snd (redis_sadd 5 phone_hashes ''+573001234567'' empty_redis), srv_out = []\<rparr>"

definition after_outage :: srv where
  "after_outage = rehash_phone_numbers sample_hashes (\<lambda>_. False) ''k'' 6 legacy_start"

theorem migration_keeps_discovery_witness:
  "\<exists>found. h_sync_contacts sample_user_env (\<lambda>p. hash_phone sample_hashes p ''k'') (hash_phone_sha256 sample_hashes) 6
      [''+573001234567'', ''+1000''] (rehash_phone_numbers sample_hashes (\<lambda>h. h = ''k+573001234567'') ''k'' 6 legacy_start) =
      (Inr (200, Inr found), rehash_phone_numbers sample_hashes (\<lambda>h. h = ''k+573001234567'') ''k'' 6 legacy_start) \<and>
    (\<lambda>x. (sm_user_id x, sm_hash x)) ` set found = {(7, ''+573001234567'')}"
proof -
  let ?r = "(row_of_user julio None)\<lparr>u_phone_hash := ''+573001234567''\<rparr>"
  have u: "users (srv_db legacy_start) = [?r]" by (simp add: legacy_start_def)
  have r: "u_id ?r = 7" "u_phone ?r = ''+573001234567''" "u_deleted_at ?r = None" "u_is_active ?r"
    "legacy_hash sample_hashes ?r" "hash_phone sample_hashes (u_phone ?r) ''k'' = ''k+573001234567''"
    "hash_phone_sha256 sample_hashes (u_phone ?r) = ''+573001234567''"
    by code_simp+
  have m: "set_at 6 phone_hashes (srv_redis legacy_start) = Inr [''+573001234567'']" by code_simp
  have e: "ue_has_redis sample_user_env" by code_simp
  have i: "unique_on u_id (users (srv_db legacy_start))" "unique_on u_phone (users (srv_db legacy_start))"
    by (simp_all add: u unique_on_def)
  have "inj_on (\<lambda>p. hash_phone sample_hashes p ''k'') X" for X
    by (simp add: inj_on_def hash_phone_def sample_hashes_def)
  from migration_keeps_discovery [OF i m _ _ this e _ _ refl, where phones = "[''+573001234567'', ''+1000'']" and up = "\<lambda>h. h = ''k+573001234567''"]
  show ?thesis using r by (auto simp: u)
qed

lemma rehash_outage_permanent:
  "set_at 7 phone_hashes (srv_redis (rehash_phone_numbers sample_hashes (\<lambda>_. True) ''k'' 7 after_outage)) =
     Inr [''+573001234567''] \<and>
   fst (h_sync_contacts sample_user_env (\<lambda>p. hash_phone sample_hashes p ''k'') (hash_phone_sha256 sample_hashes) 7
     [''+573001234567''] after_outage) = Inr (200, Inr []) \<and>
   map u_phone_hash (users (srv_db after_outage)) = [''k+573001234567'']"
  by code_simp

lemma rehash_without_outage:
  "fst (h_sync_contacts sample_user_env (\<lambda>p. hash_phone sample_hashes p ''k'') (hash_phone_sha256 sample_hashes) 7
     [''+573001234567''] (rehash_phone_numbers sample_hashes (\<lambda>_. True) ''k'' 6 legacy_start)) =
   Inr (200, Inr [\<lparr>sm_hash = ''+573001234567'', sm_user_id = 7, sm_username = Some ''julio_dev'',
      sm_display_name = None\<rparr>])"
  by code_simp

end
