(* ===== verification/Config.thy ===== *)
theory Config
  imports Text
begin

text \<open>
  The configuration: \<open>crates/shared/src/config.rs\<close> and the environment name of
  \<open>crates/shared/src/logging.rs\<close>. Reading the environment variables is the \<open>config\<close> crate, whose
  outcome is the argument of \<open>load_config\<close>; the code then turns the two characters \<open>\n\<close> in the JWT keys
  into line feeds.
\<close>

section \<open>Definitions\<close>

datatype app_env = Development | Staging | Production

definition app_env_str :: "app_env \<Rightarrow> string" where
  "app_env_str e =
     (case e of
        Development \<Rightarrow> ''development''
      | Staging \<Rightarrow> ''staging''
      | Production \<Rightarrow> ''production'')"

text \<open>\<open>From<&str>\<close> of the logging module.\<close>

definition app_env_from :: "string \<Rightarrow> app_env" where
  "app_env_from s =
     (let l = to_lowercase s
      in if l = ''staging'' then Staging else if l = ''production'' then Production else Development)"

record server_config =
  sv_host :: string
  sv_port :: "16 word"
  sv_cors_origins :: string
  sv_rate_limit_enabled :: bool
  sv_phone_hash_secret :: string

record database_config =
  dbc_url :: string
  dbc_max_connections :: "32 word"
  dbc_min_connections :: "32 word"

record redis_config =
  rdc_url :: string
  rdc_max_connections :: "32 word"

record jwt_config =
  jw_private_key :: string
  jw_public_key :: string
  jw_access_ttl_seconds :: u64
  jw_refresh_ttl_seconds :: u64

record s3_config =
  s3_endpoint :: string
  s3_bucket :: string
  s3_access_key_id :: string
  s3_secret_access_key :: string
  s3_region :: string

record smtp_config =
  sm_host :: string
  sm_port :: "16 word"
  sm_from :: string

record sms_config =
  ss_provider :: string
  ss_api_key :: string
  ss_sender_id :: string

record push_config =
  pc_fcm_api_key :: "string option"
  pc_apns_key_path :: "string option"
  pc_apns_key_id :: "string option"
  pc_apns_team_id :: "string option"
  pc_apns_bundle_id :: string

record turn_config =
  tc_secret :: "string option"
  tc_ttl_seconds :: "u64 option"
  tc_stun_urls :: "string list"
  tc_turn_urls :: "string list"

text \<open>
  Two defaults: a \<open>TurnConfig\<close> that is given without \<open>stun_urls\<close> gets Google's servers; one that is
  missing altogether is \<open>TurnConfig::default()\<close>, without any server.
\<close>

definition default_stun_urls :: "string list" where
  "default_stun_urls = [''stun:stun.l.google.com:19302'', ''stun:stun1.l.google.com:19302'']"

definition turn_config_default :: turn_config where
  "turn_config_default = \<lparr>tc_secret = None, tc_ttl_seconds = None, tc_stun_urls = [], tc_turn_urls = []\<rparr>"

definition turn_config_of_fields ::
  "string option \<Rightarrow> u64 option \<Rightarrow> string list option \<Rightarrow> string list option \<Rightarrow> turn_config" where
  "turn_config_of_fields secret ttl stun turn =
     \<lparr>tc_secret = secret, tc_ttl_seconds = ttl, tc_stun_urls = unwrap_or stun default_stun_urls,
      tc_turn_urls = unwrap_or turn []\<rparr>"

record config =
  cf_app_env :: app_env
  cf_server :: server_config
  cf_database :: database_config
  cf_redis :: redis_config
  cf_jwt :: jwt_config
  cf_s3 :: s3_config
  cf_smtp :: smtp_config
  cf_sms :: sms_config
  cf_push :: push_config
  cf_turn :: turn_config

text \<open>\<open>replace("\\n", "\n")\<close>: a backslash followed by an n becomes a line feed.\<close>

fun unescape_newlines :: "string \<Rightarrow> string" where
  "unescape_newlines (a # b # s) =
     (if a = CHR 0x5C \<and> b = CHR ''n'' then CHR 0x0A # unescape_newlines s
      else a # unescape_newlines (b # s))"
| "unescape_newlines s = s"

definition load_config :: "'e + config \<Rightarrow> 'e + config" where
  "load_config settings =
     (case settings of
        Inl e \<Rightarrow> Inl e
      | Inr c \<Rightarrow> Inr (c\<lparr>cf_jwt := (cf_jwt c)\<lparr>jw_private_key := unescape_newlines (jw_private_key (cf_jwt c)),
                                          jw_public_key := unescape_newlines (jw_public_key (cf_jwt c))\<rparr>\<rparr>))"

section \<open>Properties\<close>

fun has_escaped_newline :: "string \<Rightarrow> bool" where
  "has_escaped_newline (a # b # s) \<longleftrightarrow> a = CHR 0x5C \<and> b = CHR ''n'' \<or> has_escaped_newline (b # s)"
| "has_escaped_newline s \<longleftrightarrow> False"

lemma has_escaped_newline_Cons:
  "has_escaped_newline (a # s) \<longleftrightarrow> a = CHR 0x5C \<and> starts_with ''n'' s \<or> has_escaped_newline s"
  by (cases s) (auto simp: starts_with_def)

lemma unescape_newlines_head:
  "starts_with ''n'' (unescape_newlines s) \<Longrightarrow> starts_with ''n'' s"
  by (cases s rule: unescape_newlines.cases) (auto simp: starts_with_def split: if_splits)

text \<open>No escape is left, so a key that was unescaped once is not changed by a second pass.\<close>

lemma unescape_newlines_clean: "\<not> has_escaped_newline (unescape_newlines s)"
proof (induction s rule: unescape_newlines.induct)
  case (1 a b s)
  show ?case
  proof (cases "a = CHR 0x5C \<and> b = CHR ''n''")
    case True
    then show ?thesis using 1 by (simp add: has_escaped_newline_Cons)
  next
    case False
    then have "\<not> (a = CHR 0x5C \<and> starts_with ''n'' (unescape_newlines (b # s)))"
      using unescape_newlines_head [of "b # s"] by (auto simp: starts_with_def)
    then show ?thesis using 1(2) [OF False] False by (auto simp: has_escaped_newline_Cons)
  qed
qed simp_all

lemma unescape_newlines_id: "\<not> has_escaped_newline s \<Longrightarrow> unescape_newlines s = s"
  by (induction s rule: unescape_newlines.induct) auto

lemma load_config_idem: "load_config (load_config c) = load_config c"
  by (cases c) (simp_all add: load_config_def unescape_newlines_id unescape_newlines_clean)

lemma app_env_from_str [simp]: "app_env_from (app_env_str e) = e"
proof -
  have "app_env_from ''development'' = Development" "app_env_from ''staging'' = Staging"
    "app_env_from ''production'' = Production"
    by code_simp+
  then show ?thesis by (cases e) (simp_all add: app_env_str_def)
qed

end
