(* ===== verification/Turn.thy ===== *)
theory Turn
  imports Auth Config
begin

text \<open>
  TURN credentials for calls: \<open>crates/api/src/handlers/calls/mod.rs\<close>. HMAC-SHA1,
  Base64 and the text of a UUID are library functions in \<open>turn_env\<close>. The expiry is an \<open>i64\<close>: the lifetime of the configuration is a \<open>u64\<close> whose bits are
  read as \<open>i64\<close> (\<open>ttl as i64\<close>).
\<close>

record turn_env =
  te_hmac_sha1 :: "string \<Rightarrow> string \<Rightarrow> string"
  te_base64 :: "string \<Rightarrow> string"
  te_show :: "uuid \<Rightarrow> string"

section \<open>Definitions\<close>

record ice_server =
  is_urls :: "string list"
  is_username :: "string option"
  is_credential :: "string option"

record turn_credentials_response =
  tr_ice_servers :: "ice_server list"
  tr_expires_at :: i64

definition turn_expires_at :: "timestamp \<Rightarrow> turn_config \<Rightarrow> i64" where
  "turn_expires_at now cfg = word_of_int (now div 1000000) + unwrap_or (tc_ttl_seconds cfg) 3600"

definition get_turn_credentials ::
  "turn_env \<Rightarrow> turn_config \<Rightarrow> timestamp \<Rightarrow> authenticated_user \<Rightarrow> turn_credentials_response" where
  "get_turn_credentials env cfg now auth_user =
     (let user_id = au_user_id auth_user;
          expires_at = turn_expires_at now cfg;
          username = int_to_string (sint expires_at) @ '':'' @ te_show env user_id;
          credential = map_option (\<lambda>secret. te_base64 env (te_hmac_sha1 env secret username)) (tc_secret cfg);
          stun = (if tc_stun_urls cfg \<noteq> []
                  then [\<lparr>is_urls = tc_stun_urls cfg, is_username = None, is_credential = None\<rparr>] else []);
          turn = (if tc_turn_urls cfg \<noteq> []
                  then [\<lparr>is_urls = tc_turn_urls cfg, is_username = Some username, is_credential = credential\<rparr>]
                  else [])
      in \<lparr>tr_ice_servers = stun @ turn, tr_expires_at = expires_at\<rparr>)"

section \<open>What a TURN server makes of them\<close>

text \<open>
  The check that the comment of the handler relies on (\<open>use-auth-secret\<close>): the user name starts with a
  decimal time that is not over, and the password is the Base64 text of its HMAC-SHA1 under the shared
  secret.
\<close>

definition digit_value :: "char \<Rightarrow> nat" where
  "digit_value c = of_char c - 48"

definition decimal :: "string \<Rightarrow> nat" where
  "decimal s = foldl (\<lambda>n c. 10 * n + digit_value c) 0 s"

definition turn_server_accepts :: "turn_env \<Rightarrow> string \<Rightarrow> int \<Rightarrow> string \<Rightarrow> string option \<Rightarrow> bool" where
  "turn_server_accepts env secret now_secs username password \<longleftrightarrow>
     (let t = takeWhile is_ascii_digit username
      in t \<noteq> [] \<and> now_secs \<le> int (decimal t) \<and>
         password = Some (te_base64 env (te_hmac_sha1 env secret username)))"

lemma digit_value_digit_char [simp]: "digit_value (digit_char n) = n mod 10"
proof -
  have "48 + n mod 10 < 256" by simp
  then show ?thesis by (simp add: digit_value_def digit_char_def of_char_of)
qed

lemma decimal_snoc: "decimal (s @ [c]) = 10 * decimal s + digit_value c"
  by (simp add: decimal_def)

lemma decimal_nat_to_string: "decimal (nat_to_string n) = n"
proof (induction n rule: nat_to_string.induct)
  case (1 n)
  show ?case
  proof (cases "n < 10")
    case True
    then show ?thesis using decimal_snoc [of "[]" "digit_char n"]
      by (subst nat_to_string.simps) (simp add: decimal_def)
  next
    case False
    then show ?thesis using 1 by (subst nat_to_string.simps) (simp add: decimal_snoc)
  qed
qed

lemma nat_to_string_not_Nil: "nat_to_string n \<noteq> []"
  by (subst nat_to_string.simps) simp

lemma takeWhile_digits: "takeWhile is_ascii_digit (nat_to_string n @ '':'' @ r) = nat_to_string n"
proof -
  have "takeWhile is_ascii_digit (nat_to_string n @ '':'' @ r) =
      nat_to_string n @ takeWhile is_ascii_digit ('':'' @ r)"
    using nat_to_string_digits [of n] by (intro takeWhile_append2) (simp add: list_all_iff)
  then show ?thesis by (simp add: is_ascii_digit_def)
qed

section \<open>Properties\<close>

lemma sint_of_small: "0 \<le> x \<Longrightarrow> x < 2 ^ 63 \<Longrightarrow> sint (word_of_int x :: i64) = x"
  by (simp add: sint_sbintrunc' signed_take_bit_int_eq_self)

lemma turn_expires_at_sint:
  assumes "0 \<le> now" "ttl = unwrap_or (tc_ttl_seconds cfg) 3600"
    and "now div 1000000 + uint ttl < 2 ^ 63"
  shows "sint (turn_expires_at now cfg) = now div 1000000 + uint ttl"
proof -
  have "turn_expires_at now cfg = word_of_int (now div 1000000 + uint ttl)"
    by (simp add: turn_expires_at_def assms(2))
  moreover have "0 \<le> now div 1000000 + uint ttl" using assms(1) by simp
  ultimately show ?thesis using sint_of_small assms(3) by metis
qed

text \<open>
  With a secret and TURN servers configured, the credentials of a user are accepted by the TURN server
  exactly until the announced expiry, as long as the sum of time and lifetime fits into an \<open>i64\<close>.
\<close>

lemma turn_credentials_accepted:
  assumes "tc_secret cfg = Some secret" "tc_turn_urls cfg \<noteq> []" "0 \<le> now"
    and ttl: "ttl = unwrap_or (tc_ttl_seconds cfg) 3600" "now div 1000000 + uint ttl < 2 ^ 63"
    and resp: "resp = get_turn_credentials env cfg now user"
  shows "\<exists>srv\<in>set (tr_ice_servers resp). is_urls srv = tc_turn_urls cfg \<and>
    (\<exists>name. is_username srv = Some name \<and>
      (\<forall>t. turn_server_accepts env secret t name (is_credential srv) \<longleftrightarrow> t \<le> sint (tr_expires_at resp))) \<and>
    sint (tr_expires_at resp) = now div 1000000 + uint ttl"
proof -
  let ?x = "now div 1000000 + uint ttl"
  let ?name = "int_to_string ?x @ '':'' @ te_show env (au_user_id user)"
  let ?srv = "\<lparr>is_urls = tc_turn_urls cfg, is_username = Some ?name,
    is_credential = Some (te_base64 env (te_hmac_sha1 env secret ?name))\<rparr>"
  have x: "sint (turn_expires_at now cfg) = ?x" using turn_expires_at_sint [OF assms(3) ttl] .
  have srv: "?srv \<in> set (tr_ice_servers resp)" and e: "sint (tr_expires_at resp) = ?x"
    using assms(1,2) by (simp_all add: resp get_turn_credentials_def Let_def x)
  have "0 \<le> ?x" using assms(3) by simp
  then have "turn_server_accepts env secret t ?name (is_credential ?srv) \<longleftrightarrow> t \<le> ?x" for t
    unfolding turn_server_accepts_def Let_def
    by (simp add: int_to_string_def takeWhile_digits [simplified] decimal_nat_to_string nat_to_string_not_Nil)
  then show ?thesis using srv e by (intro bexI [OF _ srv]) simp
qed

text \<open>Every server that is listed has addresses, and STUN servers carry no credentials.\<close>

lemma ice_servers_wf:
  assumes "srv \<in> set (tr_ice_servers (get_turn_credentials env cfg now user))"
  shows "is_urls srv \<noteq> [] \<and> (is_username srv = None \<longrightarrow> is_credential srv = None \<and> is_urls srv = tc_stun_urls cfg)"
  using assms by (auto simp: get_turn_credentials_def Let_def split: if_splits)

text \<open>
  Without a secret the comment of the configuration promises STUN servers only; the TURN servers are
  listed all the same, with a user name and no credential, and no TURN server accepts them.
\<close>

lemma turn_without_secret:
  assumes "tc_secret cfg = None" "tc_turn_urls cfg \<noteq> []"
  shows "\<exists>srv\<in>set (tr_ice_servers (get_turn_credentials env cfg now user)).
    is_urls srv = tc_turn_urls cfg \<and> is_username srv \<noteq> None \<and> is_credential srv = None \<and>
    \<not> turn_server_accepts env secret t name (is_credential srv)"
  using assms by (auto simp: get_turn_credentials_def Let_def turn_server_accepts_def)

text \<open>
  Without any TURN variable the section of the configuration is the derived default, which has no STUN
  servers either; the default servers are only used when another field is given.
\<close>

lemma no_ice_servers_by_default: "tr_ice_servers (get_turn_credentials env turn_config_default now user) = []"
  by (simp add: get_turn_credentials_def turn_config_default_def Let_def)

text \<open>A lifetime of 2 ^ 64 - 1 seconds is read as -1: the credentials are over when they are issued.\<close>

lemma turn_lifetime_wraps:
  "sint (turn_expires_at 5000000 \<lparr>tc_secret = None, tc_ttl_seconds = Some (- 1), tc_stun_urls = [], tc_turn_urls = []\<rparr>) = 4"
  by code_simp

end
