(* ===== verification/PushWorker.thy ===== *)
theory PushWorker
  imports Server
begin

text \<open>
  The push queue and its worker: \<open>crates/api/src/services/push.rs\<close>. The queue is the Redis list
  \<open>push:queue\<close>: \<open>LPUSH\<close> adds at its head and \<open>BRPOP\<close> takes from its end. A list element is the JSON
  text of a job; serde's two directions and the outcome of \<open>LPUSH\<close> are in \<open>push_env\<close>. The worker
  sends no push: for each session with a token it writes one line into the log, and the request to FCM
  or APNs is a TODO; the token is not looked at. So the model of its work is the list of these lines
  (\<open>push_log\<close>). The worker reads one job per round; a round on an empty queue or with an error of Redis
  does nothing.
\<close>

record push_env =
  pu_to_json :: "push_job \<Rightarrow> string + string"
  pu_from_json :: "string \<Rightarrow> string + push_job"
  pu_lpush_error :: "string option"

section \<open>Definitions\<close>

datatype device_type = Android | Ios | Web

definition device_type_str :: "device_type \<Rightarrow> string" where
  "device_type_str t = (case t of Android \<Rightarrow> ''android'' | Ios \<Rightarrow> ''ios'' | Web \<Rightarrow> ''web'')"

text \<open>The names are ASCII, and no other character than their letters has a lower case letter of theirs.\<close>

definition device_type_from :: "string \<Rightarrow> device_type" where
  "device_type_from s =
     (let l = to_lowercase s
      in if l = ''android'' then Android else if l = ''ios'' then Ios else if l = ''web'' then Web else Android)"

definition enqueue_push_notification :: "push_env \<Rightarrow> push_job \<Rightarrow> (string list, domain_error, unit) op" where
  "enqueue_push_notification env job q =
     (case pu_to_json env job of
        Inl e \<Rightarrow> (Inl (Internal (''Failed to serialize job: '' @ e)), q)
      | Inr payload \<Rightarrow>
          (case pu_lpush_error env of
             Some e \<Rightarrow> (Inl (Internal (''Failed to queue push: '' @ e)), q)
           | None \<Rightarrow> (Inr (), payload # q)))"

record push_token_row =
  pt_id :: uuid
  pt_push_token :: "string option"
  pt_device_type :: "string option"

definition push_tokens :: "uuid \<Rightarrow> db \<Rightarrow> push_token_row list" where
  "push_tokens u d =
     map (\<lambda>s. \<lparr>pt_id = us_id s, pt_push_token = us_push_token s, pt_device_type = Some (us_device_type s)\<rparr>)
       (select_where (\<lambda>s. us_user_id s = u \<and> us_push_token s \<noteq> None) (user_sessions d))"

text \<open>\<open>"Sending push to session {} (type: {:?}) for user_id: {}"\<close>\<close>

record push_log =
  pl_session :: uuid
  pl_device :: device_type
  pl_user :: uuid

definition push_to :: "uuid \<Rightarrow> push_token_row \<Rightarrow> push_log list" where
  "push_to u t =
     (case pt_push_token t of
        None \<Rightarrow> []
      | Some _ \<Rightarrow>
          [\<lparr>pl_session = pt_id t, pl_device = device_type_from (unwrap_or (pt_device_type t) ''android''), pl_user = u\<rparr>])"

definition push_job_log :: "db \<Rightarrow> push_job \<Rightarrow> push_log list" where
  "push_job_log d job = concat (map (push_to (job_user_id job)) (push_tokens (job_user_id job) d))"

text \<open>One round of \<open>push_notification_worker\<close>; a job that does not parse is dropped.\<close>

definition push_worker_round :: "push_env \<Rightarrow> db \<Rightarrow> string list \<Rightarrow> push_log list \<times> string list" where
  "push_worker_round env d q =
     (if q = [] then ([], [])
      else (case pu_from_json env (last q) of
              Inl _ \<Rightarrow> []
            | Inr job \<Rightarrow> push_job_log d job, butlast q))"

fun push_worker :: "push_env \<Rightarrow> db \<Rightarrow> nat \<Rightarrow> string list \<Rightarrow> push_log list \<times> string list" where
  "push_worker env d 0 q = ([], q)"
| "push_worker env d (Suc n) q =
     (case push_worker_round env d q of (sent, q') \<Rightarrow>
       (case push_worker env d n q' of (more_sent, q'') \<Rightarrow> (sent @ more_sent, q'')))"

section \<open>Properties\<close>

lemma device_type_from_str [simp]: "device_type_from (device_type_str t) = t"
proof -
  have "device_type_from (device_type_str Android) = Android" "device_type_from (device_type_str Ios) = Ios"
    "device_type_from (device_type_str Web) = Web"
    by code_simp+
  then show ?thesis by (cases t) simp_all
qed

text \<open>
  Of the four values of the enum \<open>device_type\<close> of migration 001 three are read as themselves; a desktop
  session is taken for an Android one.
\<close>

lemma device_type_stored:
  assumes "v \<in> set device_type_values"
  shows "(v = ''desktop'' \<longrightarrow> device_type_from v = Android) \<and>
    (v \<noteq> ''desktop'' \<longrightarrow> device_type_str (device_type_from v) = v)"
proof -
  have "list_all (\<lambda>v. (v = ''desktop'' \<longrightarrow> device_type_from v = Android) \<and>
    (v \<noteq> ''desktop'' \<longrightarrow> device_type_str (device_type_from v) = v)) device_type_values"
    by code_simp
  then show ?thesis using assms by (simp add: list_all_iff)
qed

fun enqueue_all :: "push_env \<Rightarrow> push_job list \<Rightarrow> string list \<Rightarrow> string list" where
  "enqueue_all env [] q = q"
| "enqueue_all env (j # js) q = enqueue_all env js (snd (enqueue_push_notification env j q))"

definition json_faithful :: "push_env \<Rightarrow> push_job list \<Rightarrow> bool" where
  "json_faithful env js \<longleftrightarrow>
     list_all (\<lambda>j. case pu_to_json env j of Inl e \<Rightarrow> False | Inr t \<Rightarrow> pu_from_json env t = Inr j) js"

lemma enqueue_all_eq:
  assumes "json_faithful env js" "pu_lpush_error env = None"
  shows "\<exists>ts. enqueue_all env js q = rev ts @ q \<and> map (pu_from_json env) ts = map Inr js"
  using assms(1)
proof (induction js arbitrary: q)
  case (Cons j js)
  obtain t where t: "pu_to_json env j = Inr t" "pu_from_json env t = Inr j"
    using Cons.prems by (auto simp: json_faithful_def split: sum.splits)
  have "json_faithful env js" using Cons.prems by (simp add: json_faithful_def)
  then obtain ts where "enqueue_all env js (t # q) = rev ts @ t # q" "map (pu_from_json env) ts = map Inr js"
    using Cons.IH by blast
  then show ?case using t assms(2) by (intro exI [of _ "t # ts"]) (simp add: enqueue_push_notification_def)
qed simp

lemma push_worker_drains:
  assumes "length q \<le> n"
  shows "push_worker env d n q =
    (concat (map (\<lambda>t. case pu_from_json env t of Inl _ \<Rightarrow> [] | Inr job \<Rightarrow> push_job_log d job) (rev q)), [])"
  using assms
proof (induction n arbitrary: q)
  case (Suc n)
  show ?case
  proof (cases q rule: rev_cases)
    case Nil
    then show ?thesis using Suc.IH [of "[]"] by (simp add: push_worker_round_def)
  next
    case (snoc ys y)
    then show ?thesis using Suc by (simp add: push_worker_round_def)
  qed
qed simp

text \<open>
  Jobs are served in the order they were queued, each once: after as many rounds as there are jobs the
  queue is empty, and the log has for each job in turn one entry for every session of its user that has
  a push token.
\<close>

theorem push_worker_fifo:
  assumes "json_faithful env js" "pu_lpush_error env = None" "length js \<le> n"
  shows "push_worker env d n (enqueue_all env js []) = (concat (map (push_job_log d) js), [])"
proof -
  obtain ts where ts: "enqueue_all env js [] = rev ts" "map (pu_from_json env) ts = map Inr js"
    using enqueue_all_eq [OF assms(1,2), of "[]"] by auto
  then have "length ts = length js" by (metis length_map)
  moreover have "map (\<lambda>t. case pu_from_json env t of Inl _ \<Rightarrow> [] | Inr job \<Rightarrow> push_job_log d job) ts =
      map (push_job_log d) js"
    using arg_cong [OF ts(2), of "map (\<lambda>r. case r of Inl _ \<Rightarrow> [] | Inr job \<Rightarrow> push_job_log d job)"]
    by (simp add: comp_def)
  ultimately show ?thesis using push_worker_drains [of "rev ts" n] assms(3) by (simp add: ts(1))
qed

lemma push_job_log_exact:
  "a \<in> set (push_job_log d job) \<longleftrightarrow>
     (\<exists>s\<in>set (user_sessions d). us_user_id s = job_user_id job \<and> us_push_token s \<noteq> None \<and>
        pl_session a = us_id s \<and> pl_device a = device_type_from (us_device_type s) \<and> pl_user a = job_user_id job)"
  by (cases a) (auto simp: push_job_log_def push_tokens_def push_to_def set_select_where)

text \<open>A session that has expired is still served: the query does not look at \<open>expires_at\<close>.\<close>

lemma expired_session_gets_pushes:
  assumes "s \<in> set (user_sessions d)" "us_user_id s = job_user_id job" "us_push_token s \<noteq> None"
    and "us_expires_at s \<le> now"
  shows "\<exists>a\<in>set (push_job_log d job). pl_session a = us_id s"
  using assms by (intro bexI [of _ "\<lparr>pl_session = us_id s,
    pl_device = device_type_from (us_device_type s), pl_user = job_user_id job\<rparr>"])
    (auto simp: push_job_log_exact)

end
