(* ===== verification/Routes.thy ===== *)
theory Routes
  imports AuthSample "HOL-Library.List_Lexorder"
begin

text \<open>
  The routes of the service and the layers around them: \<open>crates/api/src/routes.rs\<close>,
  \<open>crates/api/src/middleware/security.rs\<close> and the header of \<open>crates/api/src/middleware/logging.rs\<close>.

  A route has the path of the source, the handler of each of its methods by name, and whether the group
  it stands in has the authentication middleware as its \<open>route_layer\<close>. Finding the route of a request is
  axum's part, stated as the locale \<open>path_router\<close> (a found route is one of the table and matches, a
  matching one is found, a literal segment is preferred to a parameter) and interpreted on a search
  that has these laws.
\<close>

section \<open>The table\<close>

datatype http_method = GET | POST | PATCH | DELETE | OPTIONS

record route =
  rt_path :: string
  rt_methods :: "(http_method \<times> string) list"
  rt_auth :: bool

definition route :: "string \<Rightarrow> (http_method \<times> string) list \<Rightarrow> route" where
  "route p ms = \<lparr>rt_path = p, rt_methods = ms, rt_auth = False\<rparr>"

text \<open>\<open>.route_layer(from_fn_with_state(auth_middleware_state, auth_middleware))\<close>\<close>

definition auth_layer :: "route list \<Rightarrow> route list" where
  "auth_layer rs = map (\<lambda>r. r\<lparr>rt_auth := True\<rparr>) rs"

definition protected_auth_routes :: "route list" where
  "protected_auth_routes = auth_layer
     [route ''/auth/2fa/setup'' [(POST, ''two_fa_setup'')],
      route ''/auth/2fa/setup/verify'' [(POST, ''two_fa_setup_verify'')],
      route ''/auth/sessions'' [(GET, ''list_sessions'')],
      route ''/auth/sessions/:session_id'' [(DELETE, ''delete_session'')],
      route ''/auth/logout'' [(POST, ''logout'')]]"

definition protected_keys_routes :: "route list" where
  "protected_keys_routes = auth_layer
     [route ''/keys/upload'' [(POST, ''upload_keys'')],
      route ''/keys/upload-prekeys'' [(POST, ''upload_prekeys'')],
      route ''/keys/me/count'' [(GET, ''get_my_prekey_count'')],
      route ''/keys/:user_id'' [(GET, ''get_key_bundle'')],
      route ''/keys/:user_id/fingerprint'' [(GET, ''get_fingerprint'')]]"

definition protected_chat_routes :: "route list" where
  "protected_chat_routes = auth_layer
     [route ''/chats'' [(POST, ''create_chat''), (GET, ''list_chats'')],
      route ''/chats/:id'' [(GET, ''get_chat''), (PATCH, ''update_chat''), (DELETE, ''delete_chat'')],
      route ''/chats/:id/messages'' [(POST, ''send_message''), (GET, ''list_messages'')],
      route ''/chats/:id/messages/:message_id'' [(PATCH, ''edit_message''), (DELETE, ''delete_message'')],
      route ''/chats/:id/messages/read'' [(POST, ''mark_messages_read'')],
      route ''/chats/:id/messages/:message_id/reactions'' [(POST, ''add_reaction'')],
      route ''/chats/:id/messages/:message_id/reactions/:emoji'' [(DELETE, ''remove_reaction'')],
      route ''/chats/:id/settings'' [(PATCH, ''update_chat_settings'')],
      route ''/chats/:id/participants'' [(GET, ''list_participants''), (POST, ''add_participant'')],
      route ''/chats/:id/participants/:user_id'' [(DELETE, ''remove_participant'')],
      route ''/chats/:id/participants/:user_id/role'' [(PATCH, ''update_participant_role'')],
      route ''/chats/:id/invite-link'' [(POST, ''create_invite_link''), (DELETE, ''delete_invite_link'')],
      route ''/chats/join/:slug'' [(POST, ''join_by_slug'')],
      route ''/chats/:id/rotate-key'' [(POST, ''rotate_group_key'')],
      route ''/chats/:id/transfer-ownership'' [(POST, ''transfer_ownership'')]]"

definition protected_notification_routes :: "route list" where
  "protected_notification_routes = auth_layer
     [route ''/notifications'' [(GET, ''list_notifications'')],
      route ''/notifications/read-all'' [(PATCH, ''mark_all_notifications_read'')],
      route ''/notifications/read'' [(DELETE, ''delete_read_notifications'')],
      route ''/notifications/:notification_id'' [(PATCH, ''mark_notification_read'')]]"

definition protected_attachment_routes :: "route list" where
  "protected_attachment_routes = auth_layer
     [route ''/attachments/upload-url'' [(POST, ''create_upload_url'')],
      route ''/attachments/confirm'' [(POST, ''confirm_attachment'')]]"

definition protected_story_routes :: "route list" where
  "protected_story_routes = auth_layer
     [route ''/stories'' [(POST, ''create_story''), (GET, ''list_stories'')],
      route ''/stories/my'' [(GET, ''list_my_stories'')],
      route ''/stories/:id'' [(DELETE, ''delete_story'')],
      route ''/stories/:id/view'' [(POST, ''view_story'')],
      route ''/stories/:id/react'' [(POST, ''react_to_story'')],
      route ''/stories/:id/views'' [(GET, ''get_story_views'')]]"

definition protected_user_routes :: "route list" where
  "protected_user_routes = auth_layer
     [route ''/users/search'' [(GET, ''search_users'')],
      route ''/users/me/profile'' [(GET, ''get_my_profile'')],
      route ''/users/:user_id/profile'' [(GET, ''get_user_profile'')]]"

definition protected_contact_routes :: "route list" where
  "protected_contact_routes = auth_layer
     [route ''/contacts'' [(GET, ''list_contacts''), (POST, ''create_contact'')],
      route ''/contacts/:contact_id'' [(PATCH, ''update_contact''), (DELETE, ''delete_contact'')],
      route ''/contacts/sync'' [(POST, ''sync_contacts'')]]"

definition protected_block_routes :: "route list" where
  "protected_block_routes = auth_layer
     [route ''/blocks'' [(GET, ''list_blocked'')],
      route ''/blocks/:user_id'' [(POST, ''block_user''), (DELETE, ''unblock_user'')]]"

definition ws_ticket_route :: "route list" where
  "ws_ticket_route = auth_layer [route ''/ws/ticket'' [(POST, ''create_ws_ticket'')]]"

definition ws_routes :: "route list" where
  "ws_routes = [route ''/ws'' [(GET, ''ws_handler'')]] @ ws_ticket_route"

definition protected_calls_routes :: "route list" where
  "protected_calls_routes = auth_layer [route ''/calls/turn-credentials'' [(GET, ''get_turn_credentials'')]]"

definition public_routes :: "route list" where
  "public_routes =
     [route ''/health'' [(GET, ''health'')],
      route ''/metrics'' [(GET, ''metrics_handler'')],
      route ''/auth/register'' [(POST, ''register'')],
      route ''/auth/verify-phone'' [(POST, ''verify_phone'')],
      route ''/auth/login'' [(POST, ''login'')],
      route ''/auth/login/verify'' [(POST, ''login_verify'')],
      route ''/auth/recover'' [(POST, ''recover'')],
      route ''/auth/recover/verify'' [(POST, ''recover_verify'')],
      route ''/auth/2fa/verify'' [(POST, ''two_fa_verify'')],
      route ''/auth/refresh'' [(POST, ''refresh'')]]"

definition create_router :: "route list" where
  "create_router =
     public_routes @ ws_routes @ protected_auth_routes @ protected_keys_routes @ protected_chat_routes @
     protected_notification_routes @ protected_attachment_routes @ protected_story_routes @
     protected_user_routes @ protected_contact_routes @ protected_block_routes @ protected_calls_routes"

definition cors_methods :: "http_method list" where
  "cors_methods = [GET, POST, PATCH, DELETE, OPTIONS]"

text \<open>\<open>split\<close>; an empty text is one empty part.\<close>

fun split_on :: "char \<Rightarrow> string \<Rightarrow> string list" where
  "split_on c [] = [[]]"
| "split_on c (x # s) = (if x = c then [] # split_on c s
     else (case split_on c s of [] \<Rightarrow> [[x]] | w # ws \<Rightarrow> (x # w) # ws))"

text \<open>An origin that is no header value stops the server at its start (\<open>expect\<close>).\<close>

definition cors_origins :: "(string \<Rightarrow> bool) \<Rightarrow> string \<Rightarrow> string list option" where
  "cors_origins header_value s =
     (let origins = split_on (CHR '','') s in if list_all header_value origins then Some origins else None)"

section \<open>Patterns\<close>

datatype segment = Lit string | Param string

definition segment_of :: "string \<Rightarrow> segment" where
  "segment_of w = (case w of c # n \<Rightarrow> (if c = CHR '':'' then Param n else Lit w) | [] \<Rightarrow> Lit [])"

definition pattern_of :: "string \<Rightarrow> segment list" where
  "pattern_of p = map segment_of (tl (split_on (CHR ''/'') p))"

fun segment_matches :: "segment \<Rightarrow> string \<Rightarrow> bool" where
  "segment_matches (Lit a) w \<longleftrightarrow> w = a"
| "segment_matches (Param n) w \<longleftrightarrow> w \<noteq> []"

definition route_matches :: "route \<Rightarrow> string list \<Rightarrow> bool" where
  "route_matches r p \<longleftrightarrow> list_all2 segment_matches (pattern_of (rt_path r)) p"

text \<open>Two patterns that the router refuses together (a panic at the start): they are the same up to the
  names of parameters, or name the parameter at one position differently.\<close>

fun patterns_conflict :: "segment list \<Rightarrow> segment list \<Rightarrow> bool" where
  "patterns_conflict [] [] \<longleftrightarrow> True"
| "patterns_conflict (Lit a # p) (Lit b # q) \<longleftrightarrow> a = b \<and> patterns_conflict p q"
| "patterns_conflict (Param a # p) (Param b # q) \<longleftrightarrow> a \<noteq> b \<or> patterns_conflict p q"
| "patterns_conflict p q \<longleftrightarrow> False"

fun no_conflicts :: "segment list list \<Rightarrow> bool" where
  "no_conflicts [] \<longleftrightarrow> True"
| "no_conflicts (p # ps) \<longleftrightarrow> list_all (\<lambda>q. \<not> patterns_conflict p q) ps \<and> no_conflicts ps"

text \<open>\<open>create_router\<close> does not panic, no handler stands on two routes, and CORS allows every method.\<close>

lemma create_router_starts: "no_conflicts (map (\<lambda>r. pattern_of (rt_path r)) create_router)"
  by code_simp

lemma handlers_once: "distinct (concat (map (\<lambda>r. map snd (rt_methods r)) create_router))"
  by code_simp

lemma cors_allows_methods: "list_all (\<lambda>r. list_all (\<lambda>m. fst m \<in> set cors_methods) (rt_methods r)) create_router"
  by code_simp

text \<open>The handlers outside the authentication layer. \<open>ws_handler\<close> asks for a ticket instead.\<close>

lemma open_handlers:
  "concat (map (\<lambda>r. map snd (rt_methods r)) (filter (\<lambda>r. \<not> rt_auth r) create_router)) =
     [''health'', ''metrics_handler'', ''register'', ''verify_phone'', ''login'', ''login_verify'', ''recover'',
      ''recover_verify'', ''two_fa_verify'', ''refresh'', ''ws_handler'']"
  by code_simp

section \<open>Finding a route\<close>

text \<open>0 for a literal and 1 for a parameter: of the matching routes the least is preferred.\<close>

definition rank_of :: "route \<Rightarrow> nat list" where
  "rank_of r = map (\<lambda>s. case s of Lit _ \<Rightarrow> 0 | Param _ \<Rightarrow> 1) (pattern_of (rt_path r))"

locale path_router =
  fixes find_route :: "route list \<Rightarrow> string list \<Rightarrow> route option"
  assumes found: "find_route rs p = Some r \<Longrightarrow> r \<in> set rs \<and> route_matches r p"
    and complete: "r \<in> set rs \<Longrightarrow> route_matches r p \<Longrightarrow> find_route rs p \<noteq> None"
    and literal_first: "find_route rs p = Some r \<Longrightarrow> r' \<in> set rs \<Longrightarrow> route_matches r' p \<Longrightarrow> rank_of r \<le> rank_of r'"
begin

lemma only_match:
  assumes "r \<in> set rs" "route_matches r p" "\<And>r'. r' \<in> set rs \<Longrightarrow> route_matches r' p \<Longrightarrow> r' = r"
  shows "find_route rs p = Some r"
  using assms complete found by (metis not_None_eq)

lemma unknown_path: "(\<And>r. r \<in> set rs \<Longrightarrow> \<not> route_matches r p) \<Longrightarrow> find_route rs p = None"
  using found by (metis not_None_eq)

end

definition search_route :: "route list \<Rightarrow> string list \<Rightarrow> route option" where
  "search_route rs p =
     (case sort_key rank_of (filter (\<lambda>r. route_matches r p) rs) of [] \<Rightarrow> None | r # _ \<Rightarrow> Some r)"

lemma search_route_Some:
  assumes "search_route rs p = Some r"
  shows "r \<in> set rs \<and> route_matches r p \<and> (\<forall>r'\<in>set rs. route_matches r' p \<longrightarrow> rank_of r \<le> rank_of r')"
proof -
  let ?ms = "filter (\<lambda>r. route_matches r p) rs"
  obtain ms where ms: "sort_key rank_of ?ms = r # ms"
    using assms by (auto simp: search_route_def split: list.splits)
  have sorted: "sorted (map rank_of (r # ms))" using sorted_sort_key [of rank_of ?ms] by (simp only: ms)
  have members: "set (r # ms) = set ?ms" using set_sort [of rank_of ?ms] by (simp only: ms)
  have "rank_of r \<le> rank_of r'" if "r' \<in> set (r # ms)" for r' using sorted that by auto
  then show ?thesis using members by auto
qed

interpretation search: path_router search_route
proof
  fix rs p r
  assume "search_route rs p = Some r"
  then show "r \<in> set rs \<and> route_matches r p" using search_route_Some by blast
next
  fix rs p and r :: route
  assume "r \<in> set rs" "route_matches r p"
  then have "filter (\<lambda>r. route_matches r p) rs \<noteq> []" by (auto simp: filter_empty_conv)
  then have "sort_key rank_of (filter (\<lambda>r. route_matches r p) rs) \<noteq> []"
    by (metis set_empty set_sort)
  then show "search_route rs p \<noteq> None" by (auto simp: search_route_def split: list.split)
next
  fix rs p r r'
  assume "search_route rs p = Some r" "r' \<in> set rs" "route_matches r' p"
  then show "rank_of r \<le> rank_of r'" using search_route_Some by blast
qed

lemma search_examples:
  "map (\<lambda>p. map_option rt_path (search_route create_router p))
     [[''keys'', ''me'', ''count''], [''keys'', ''6f'', ''fingerprint''], [''chats'', ''join'', ''messages''],
      [''chats'', ''6f'', ''messages'', ''read''], [''notifications'', ''read''], [''stories'', ''my''], [''users'']] =
   [Some ''/keys/me/count'', Some ''/keys/:user_id/fingerprint'', Some ''/chats/join/:slug'',
    Some ''/chats/:id/messages/read'', Some ''/notifications/read'', Some ''/stories/my'', None]"
  by code_simp

section \<open>Admission of a request\<close>

text \<open>
  What happens before a handler runs: the route is found, its authentication layer runs, and the method
  is looked up. The value is the handler's name with the user that the layer attached to the request.
\<close>

record request =
  rq_method :: http_method
  rq_path :: "string list"
  rq_authorization :: "string option"

definition admit ::
  "(route list \<Rightarrow> string list \<Rightarrow> route option) \<Rightarrow> auth_env \<Rightarrow> timestamp \<Rightarrow> route list \<Rightarrow> request \<Rightarrow>
     (srv, nat \<times> string, string \<times> authenticated_user option) op" where
  "admit find_route env now rs rq =
     (case find_route rs (rq_path rq) of
        None \<Rightarrow> throw (404, [])
      | Some r \<Rightarrow>
          and_then
            (if rt_auth r then and_then (auth_middleware env now (rq_authorization rq)) (\<lambda>a. ret (Some a))
             else ret None)
            (\<lambda>u. case map_of (rt_methods r) (rq_method rq) of
                   None \<Rightarrow> throw (405, [])
                 | Some h \<Rightarrow> ret (h, u)))"

definition open_handler_names :: "string list" where
  "open_handler_names =
     [''health'', ''metrics_handler'', ''register'', ''verify_phone'', ''login'', ''login_verify'', ''recover'',
      ''recover_verify'', ''two_fa_verify'', ''refresh'', ''ws_handler'']"

lemma auth_of_route:
  assumes "r \<in> set create_router" "map_of (rt_methods r) m = Some h"
  shows "rt_auth r \<longleftrightarrow> h \<notin> set open_handler_names"
proof -
  have "list_all (\<lambda>r. list_all (\<lambda>m. rt_auth r \<longleftrightarrow> snd m \<notin> set open_handler_names) (rt_methods r)) create_router"
    by code_simp
  then have "\<forall>x\<in>set (rt_methods r). rt_auth r \<longleftrightarrow> snd x \<notin> set open_handler_names"
    using assms(1) by (simp add: list_all_iff)
  then show ?thesis using map_of_SomeD [OF assms(2)] by fastforce
qed

lemma admit_Inr:
  assumes "admit find_route env now rs rq s = (Inr (h, u), s')"
  obtains r where "find_route rs (rq_path rq) = Some r" "map_of (rt_methods r) (rq_method rq) = Some h"
    "if rt_auth r then \<exists>a. u = Some a \<and> auth_middleware env now (rq_authorization rq) s = (Inr a, s')
     else u = None \<and> s' = s"
proof (cases "find_route rs (rq_path rq)")
  case None
  then show ?thesis using assms by (simp add: admit_def)
next
  case (Some r)
  then show ?thesis
    using assms that [of r] unfolding admit_def
    by (cases "rt_auth r"; cases "map_of (rt_methods r) (rq_method rq)")
      (auto simp: and_then_Inr_iff)
qed

text \<open>
  C14. Every handler is behind authentication except the eleven that are meant to be open (\<open>health\<close>,
  \<open>metrics\<close>, the steps of registration, login, recovery and refresh, and the WebSocket handshake with its
  ticket): however the router searches its table, an open handler runs without a user and any other
  only for the subject of an unexpired bearer token, not a temporary one, whose session is live or cached.
\<close>

theorem handlers_need_session:
  assumes "path_router find_route"
    and run: "admit find_route env now create_router rq s = (Inr (h, u), s')"
  shows "if h \<in> set open_handler_names then u = None \<and> s' = s
    else (\<exists>a tok c. u = Some a \<and> rq_authorization rq = Some (''Bearer '' @ tok) \<and>
      ae_decode env now tok = Inr c \<and> unix_seconds now \<le> ac_exp c \<and> ac_sid c \<noteq> temp_session_id \<and>
      ae_parse_uuid env (ac_sub c) = Inr (au_user_id a) \<and> ae_parse_uuid env (ac_sid c) = Inr (au_session_id a) \<and>
      (is_session_valid now (au_user_id a) (au_session_id a) (srv_db s) = Inr True \<or>
       (\<exists>v. fst (redis_get now (session_key env (au_session_id a)) (srv_redis s)) = Inr (Some v))))"
proof -
  obtain r where r: "find_route create_router (rq_path rq) = Some r" "map_of (rt_methods r) (rq_method rq) = Some h"
    and auth: "if rt_auth r then \<exists>a. u = Some a \<and> auth_middleware env now (rq_authorization rq) s = (Inr a, s')
      else u = None \<and> s' = s"
    using run by (rule admit_Inr)
  have "r \<in> set create_router" using path_router.found [OF assms(1) r(1)] by simp
  then have layer: "rt_auth r \<longleftrightarrow> h \<notin> set open_handler_names" using r(2) by (rule auth_of_route)
  show ?thesis
  proof (cases "rt_auth r")
    case False
    then show ?thesis using auth layer by simp
  next
    case True
    then obtain a where a: "u = Some a" "auth_middleware env now (rq_authorization rq) s = (Inr a, s')"
      using auth by auto
    have "\<exists>tok c. rq_authorization rq = Some (''Bearer '' @ tok) \<and>
      ae_decode env now tok = Inr c \<and> unix_seconds now \<le> ac_exp c \<and> ac_sid c \<noteq> temp_session_id \<and>
      ae_parse_uuid env (ac_sub c) = Inr (au_user_id a) \<and> ae_parse_uuid env (ac_sid c) = Inr (au_session_id a) \<and>
      (is_session_valid now (au_user_id a) (au_session_id a) (srv_db s) = Inr True \<or>
       (\<exists>v. fst (redis_get now (session_key env (au_session_id a)) (srv_redis s)) = Inr (Some v)))"
      using a(2) validate_session_True by (elim auth_middleware_Inr) (auto simp: validate_access_token_Inr)
    then show ?thesis using a(1) True layer by auto
  qed
qed

definition sessions_request :: request where
  "sessions_request = \<lparr>rq_method = GET, rq_path = [''auth'', ''sessions''], rq_authorization = Some (''Bearer '' @ access_of)\<rparr>"

definition admitted :: "(nat \<times> string + string \<times> authenticated_user option) \<times> srv" where
  "admitted = admit search_route sample_auth_env 1000000 create_router sessions_request (snd logged_in)"

lemma admitted_run: "fst admitted = Inr (''list_sessions'', Some \<lparr>au_user_id = 7, au_session_id = 3\<rparr>)"
  by code_simp

theorem handlers_need_session_witness:
  "fst admitted = Inr (''list_sessions'', Some \<lparr>au_user_id = 7, au_session_id = 3\<rparr>) \<and>
   is_session_valid 1000000 7 3 (srv_db (snd logged_in)) = Inr True"
proof -
  have run: "admit search_route sample_auth_env 1000000 create_router sessions_request (snd logged_in) =
      (Inr (''list_sessions'', Some \<lparr>au_user_id = 7, au_session_id = 3\<rparr>), snd admitted)"
    using admitted_run by (simp add: prod_eq_iff admitted_def)
  have closed: "''list_sessions'' \<notin> set open_handler_names" by (simp add: open_handler_names_def)
  have "is_session_valid 1000000 7 3 (srv_db (snd logged_in)) = Inr True \<or>
      (\<exists>v. fst (redis_get 1000000 (session_key sample_auth_env 3) (srv_redis (snd logged_in))) = Inr (Some v))"
    using handlers_need_session [OF search.path_router_axioms run] closed by auto
  moreover have "fst (redis_get 1000000 (session_key sample_auth_env 3) (srv_redis (snd logged_in))) = Inr None"
    by code_simp
  ultimately show ?thesis using admitted_run by simp
qed

text \<open>A known path of a protected group asks for the token before it looks at the method.\<close>

lemma protected_without_token:
  assumes "find_route rs (rq_path rq) = Some r" "rt_auth r" "rq_authorization rq = None"
  shows "admit find_route env now rs rq s = (Inl (401, ''Missing bearer token''), s)"
  using assms by (simp add: admit_def and_then_def auth_middleware_def unauthorized_response_def)

section \<open>The outer layers\<close>

text \<open>A header map; \<open>insert\<close> replaces the values of a name.\<close>

record http_response =
  hr_status :: nat
  hr_headers :: "string \<Rightarrow> string option"

definition security_headers :: "(string \<times> string) list" where
  "security_headers =
     [(''strict-transport-security'', ''max-age=31536000; includeSubDomains''),
      (''x-content-type-options'', ''nosniff''),
      (''x-frame-options'', ''DENY''),
      (''referrer-policy'', ''strict-origin-when-cross-origin''),
      (''content-security-policy'', ''default-src '' @ [CHR 0x27] @ ''none'' @ [CHR 0x27]),
      (''x-xss-protection'', ''1; mode=block'')]"

definition insert_header :: "string \<times> string \<Rightarrow> http_response \<Rightarrow> http_response" where
  "insert_header h r = r\<lparr>hr_headers := (hr_headers r)(fst h \<mapsto> snd h)\<rparr>"

definition security_headers_middleware :: "http_response \<Rightarrow> http_response" where
  "security_headers_middleware r = fold insert_header security_headers r"

text \<open>
  The logging layer adds the id it gave to the request, when that is a header value, and logs an error
  for a status of 500 or more.
\<close>

definition logging_middleware :: "bool \<Rightarrow> string \<Rightarrow> http_response \<Rightarrow> http_response" where
  "logging_middleware id_valid request_id r =
     (if id_valid then insert_header (''x-request-id'', request_id) r else r)"

definition logs_failure :: "http_response \<Rightarrow> bool" where
  "logs_failure r \<longleftrightarrow> hr_status r \<ge> 500"

definition outer_layers :: "bool \<Rightarrow> string \<Rightarrow> http_response \<Rightarrow> http_response" where
  "outer_layers id_valid request_id r = logging_middleware id_valid request_id (security_headers_middleware r)"

lemma security_headers_response:
  "security_headers_middleware r = r\<lparr>hr_headers := hr_headers r ++ map_of security_headers\<rparr>"
  by (rule http_response.equality) (auto simp: security_headers_middleware_def security_headers_def
      insert_header_def map_add_def fun_eq_iff)

text \<open>Every response, the refusals of the router included, leaves with the six headers and its own status.\<close>

lemma every_response_secured:
  assumes "(k, v) \<in> set security_headers"
  shows "hr_headers (outer_layers ok i r) k = Some v \<and> hr_status (outer_layers ok i r) = hr_status r"
proof -
  have "distinct (map fst security_headers)" "k \<noteq> ''x-request-id''"
    using assms by (auto simp: security_headers_def)
  then show ?thesis
    using map_of_is_SomeI [OF _ assms]
    by (simp add: outer_layers_def logging_middleware_def insert_header_def security_headers_response map_add_def)
qed

end
