(* ===== verification/Json.thy ===== *)
theory Json
  imports Prelude Paging Database
begin

text \<open>
  JSON as the requests, responses, cursors and socket messages use it. A JSON text is its tree (parsing and
  printing it is serde_json); the derived \<open>Serialize\<close> and \<open>Deserialize\<close> of a struct are functions between the
  struct and the tree, built from the functions of this theory. The text of a UUID, the RFC 3339 text of a
  time and the stored text of a JSON column are library functions in \<open>wire_env\<close>. A time has two texts: the
  one of its \<open>Serialize\<close> and the one of \<open>to_rfc3339\<close>, \<open>wi_rfc3339\<close>; both are read back.

  A number is an integer in the range of 64 bits or a float, which comes with its \<open>Display\<close> text.

  Deserialising ignores unknown fields and refuses a field that occurs twice; an \<open>Option\<close> may be missing
  or null. serde would also read a struct from an array of its fields in order; a client of this API sends
  objects, and only those are modelled.
\<close>

datatype wjson =
    WNull
  | WBool bool
  | WInt int
  | WFloat string
  | WStr string
  | WArr "wjson list"
  | WObj "(string \<times> wjson) list"

record wire_env =
  wi_show_uuid :: "uuid \<Rightarrow> string"
  wi_parse_uuid :: "string \<Rightarrow> uuid option"
  wi_show_time :: "timestamp \<Rightarrow> string"
  wi_parse_time :: "string \<Rightarrow> timestamp option"
  wi_rfc3339 :: "timestamp \<Rightarrow> string"
  wi_json_text :: "wjson \<Rightarrow> json"
  wi_json_parse :: "json \<Rightarrow> wjson"

section \<open>Fields\<close>

definition to_opt :: "('a \<Rightarrow> wjson) \<Rightarrow> 'a option \<Rightarrow> wjson" where
  "to_opt f v = (case v of None \<Rightarrow> WNull | Some x \<Rightarrow> f x)"

definition to_uuid :: "wire_env \<Rightarrow> uuid \<Rightarrow> wjson" where
  "to_uuid w u = WStr (wi_show_uuid w u)"

text \<open>\<open>serde_json::Value\<close> as a field.\<close>

definition to_value :: "wire_env \<Rightarrow> json \<Rightarrow> wjson" where
  "to_value w v = wi_json_parse w v"

definition to_rfc3339 :: "wire_env \<Rightarrow> timestamp \<Rightarrow> wjson" where
  "to_rfc3339 w t = WStr (wi_rfc3339 w t)"

definition to_time :: "wire_env \<Rightarrow> timestamp \<Rightarrow> wjson" where
  "to_time w t = WStr (wi_show_time w t)"

fun from_str :: "wjson \<Rightarrow> string option" where
  "from_str (WStr s) = Some s"
| "from_str _ = None"

fun from_bool :: "wjson \<Rightarrow> bool option" where
  "from_bool (WBool b) = Some b"
| "from_bool _ = None"

text \<open>An \<open>i32\<close> out of range is refused.\<close>

fun from_i32 :: "wjson \<Rightarrow> int option" where
  "from_i32 (WInt n) = (if - (2 ^ 31) \<le> n \<and> n < 2 ^ 31 then Some n else None)"
| "from_i32 _ = None"

definition from_uuid :: "wire_env \<Rightarrow> wjson \<Rightarrow> uuid option" where
  "from_uuid w j = Option.bind (from_str j) (wi_parse_uuid w)"

definition from_time :: "wire_env \<Rightarrow> wjson \<Rightarrow> timestamp option" where
  "from_time w j = Option.bind (from_str j) (wi_parse_time w)"

fun from_list :: "(wjson \<Rightarrow> 'a option) \<Rightarrow> wjson \<Rightarrow> 'a list option" where
  "from_list f (WArr js) = those (map f js)"
| "from_list f _ = None"

text \<open>The value of a field: refused when it occurs twice.\<close>

fun field :: "string \<Rightarrow> wjson \<Rightarrow> wjson option option" where
  "field n (WObj fs) =
     (case filter (\<lambda>(k, v). k = n) fs of [] \<Rightarrow> Some None | [(k, v)] \<Rightarrow> Some (Some v) | _ \<Rightarrow> None)"
| "field n _ = None"

definition required_field :: "string \<Rightarrow> (wjson \<Rightarrow> 'a option) \<Rightarrow> wjson \<Rightarrow> 'a option" where
  "required_field n f j = (case field n j of Some (Some v) \<Rightarrow> f v | _ \<Rightarrow> None)"

definition optional_field :: "string \<Rightarrow> (wjson \<Rightarrow> 'a option) \<Rightarrow> wjson \<Rightarrow> 'a option option" where
  "optional_field n f j =
     (case field n j of
        None \<Rightarrow> None
      | Some None \<Rightarrow> Some None
      | Some (Some v) \<Rightarrow> if v = WNull then Some None else map_option Some (f v))"

text \<open>\<open>#[serde(default)]\<close>\<close>

definition default_field :: "string \<Rightarrow> (wjson \<Rightarrow> 'a option) \<Rightarrow> 'a \<Rightarrow> wjson \<Rightarrow> 'a option" where
  "default_field n f d j =
     (case field n j of None \<Rightarrow> None | Some None \<Rightarrow> Some d | Some (Some v) \<Rightarrow> f v)"

text \<open>\<open>serde_json::Value\<close> as a field; null is \<open>None\<close>.\<close>

definition from_value :: "wire_env \<Rightarrow> wjson \<Rightarrow> json option" where
  "from_value w j = Some (wi_json_text w j)"

text \<open>
  The codec of the list handlers: the JSON text of the cursor in URL-safe Base64. \<open>wire_text\<close> is
  serde_json's text of a tree and the Base64 functions.
\<close>

record wire_text =
  wt_print :: "wjson \<Rightarrow> string"
  wt_parse :: "string \<Rightarrow> wjson option"
  wt_encode :: "string \<Rightarrow> string"
  wt_decode :: "string \<Rightarrow> string option"

definition wire_codec :: "wire_text \<Rightarrow> ('c \<Rightarrow> wjson) \<Rightarrow> (wjson \<Rightarrow> 'c option) \<Rightarrow> 'c cursor_codec" where
  "wire_codec t out inp =
     \<lparr>cd_base64_decode = wt_decode t, cd_base64_encode = wt_encode t,
      cd_from_slice = (\<lambda>s. Option.bind (wt_parse t s) inp), cd_to_vec = (\<lambda>c. Inr (wt_print t (out c)))\<rparr>"

section \<open>Laws\<close>

definition wire_lib :: "wire_env \<Rightarrow> bool" where
  "wire_lib w \<longleftrightarrow>
     (\<forall>u. wi_parse_uuid w (wi_show_uuid w u) = Some u) \<and> (\<forall>t. wi_parse_time w (wi_show_time w t) = Some t)"

definition json_lib :: "wire_env \<Rightarrow> bool" where
  "json_lib w \<longleftrightarrow>
     wire_lib w \<and> (\<forall>t. wi_parse_time w (wi_rfc3339 w t) = Some t) \<and>
     (\<forall>v. wi_json_text w (wi_json_parse w v) = v)"

definition text_lib :: "wire_text \<Rightarrow> bool" where
  "text_lib t \<longleftrightarrow> (\<forall>j. wt_parse t (wt_print t j) = Some j) \<and> (\<forall>s. wt_decode t (wt_encode t s) = Some s)"

lemma from_to [simp]:
  "wire_lib w \<Longrightarrow> from_uuid w (to_uuid w u) = Some u"
  "wire_lib w \<Longrightarrow> from_time w (to_time w t) = Some t"
  by (simp_all add: wire_lib_def from_uuid_def to_uuid_def from_time_def to_time_def)

lemma to_not_null [simp]: "to_uuid w u \<noteq> WNull" "to_time w t \<noteq> WNull"
  by (simp_all add: to_uuid_def to_time_def)

lemma json_libD [simp]:
  assumes "json_lib w"
  shows "wire_lib w" "from_time w (to_rfc3339 w t) = Some t" "from_value w (to_value w v) = Some v"
  using assms by (simp_all add: json_lib_def from_time_def from_value_def to_value_def to_rfc3339_def)

text \<open>A field that the object has first is found unless the object has it again.\<close>

lemma field_Cons:
  "field n (WObj ((k, v) # fs)) =
     (if k = n then if list_all (\<lambda>(k, v). k \<noteq> n) fs then Some (Some v) else None else field n (WObj fs))"
proof -
  have "list_all (\<lambda>(k, v). k \<noteq> n) fs \<longleftrightarrow> filter (\<lambda>(k, v). k = n) fs = []"
    by (auto simp: list_all_iff filter_empty_conv)
  then show ?thesis by (auto split: list.splits)
qed

lemma field_Nil: "field n (WObj []) = Some None"
  by simp

lemmas field_simps = field_Cons field_Nil required_field_def optional_field_def

text \<open>
  What the completeness theorems of the lists ask of their cursors holds for a tree that is read back,
  given the library functions.
\<close>

lemma wire_codec_ok:
  assumes "text_lib t" "\<And>c. inp (out c) = Some c"
  shows "codec_ok (wire_codec t out inp)"
  using assms by (simp add: codec_ok_def wire_codec_def text_lib_def)

text \<open>An optional field that is null reads like one that is missing.\<close>

lemma null_is_missing:
  assumes "field n (WObj fs) = Some None" "k \<noteq> n"
  shows "optional_field n f (WObj ((n, WNull) # fs)) = optional_field n f (WObj fs)"
proof -
  have "filter (\<lambda>(x, v). x = n) fs = []"
    using assms(1) by (auto split: list.splits)
  then show ?thesis by (simp add: optional_field_def)
qed

end
