(* ===== verification/Wire.thy ===== *)
theory Wire
  imports Json ChatList MessageListing Notifications
begin

text \<open>
  The JSON of the chat, message and notification requests and responses:
  \<open>crates/api/src/handlers/chats/dto.rs\<close> and the conversions to responses in
  \<open>crates/api/src/handlers/chats/handlers.rs\<close>. A refused request never reaches its handler.
\<close>

section \<open>Requests\<close>

definition read_create_chat_request :: "wire_env \<Rightarrow> wjson \<Rightarrow> create_chat_request option" where
  "read_create_chat_request w j =
     Option.bind (required_field ''type'' from_str j) (\<lambda>ty.
       if ty = ''private'' then map_option CreatePrivate (required_field ''participant_id'' (from_uuid w) j)
       else if ty = ''group''
       then Option.bind (required_field ''name'' from_str j) (\<lambda>name.
            map_option (CreateGroup name) (default_field ''participant_ids'' (from_list (from_uuid w)) [] j))
       else None)"

definition read_send_message_request :: "wire_env \<Rightarrow> wjson \<Rightarrow> new_message option" where
  "read_send_message_request w j =
     Option.bind (optional_field ''content_encrypted'' from_str j) (\<lambda>content.
     Option.bind (optional_field ''content_iv'' from_str j) (\<lambda>iv.
     Option.bind (required_field ''message_type'' from_str j) (\<lambda>ty.
     Option.bind (optional_field ''reply_to_id'' (from_uuid w) j) (\<lambda>reply.
     Option.bind (required_field ''is_forwarded'' from_bool j) (\<lambda>fwd.
     Option.bind (optional_field ''metadata'' (from_value w) j) (\<lambda>meta.
     Some \<lparr>nm_content_encrypted = content, nm_content_iv = iv, nm_message_type = ty, nm_reply_to_id = reply,
           nm_is_forwarded = fwd, nm_metadata = meta\<rparr>))))))"

definition read_mark_messages_read_request :: "wire_env \<Rightarrow> wjson \<Rightarrow> timestamp option" where
  "read_mark_messages_read_request w j = required_field ''up_to'' (from_time w) j"

definition read_add_reaction_request :: "wjson \<Rightarrow> string option" where
  "read_add_reaction_request j = required_field ''reaction'' from_str j"

definition read_update_chat_request :: "wjson \<Rightarrow> (string option \<times> string option \<times> string option) option" where
  "read_update_chat_request j =
     Option.bind (optional_field ''name'' from_str j) (\<lambda>name.
     Option.bind (optional_field ''description'' from_str j) (\<lambda>description.
     Option.bind (optional_field ''avatar_url'' from_str j) (\<lambda>avatar. Some (name, description, avatar))))"

definition read_edit_message_request :: "wjson \<Rightarrow> (string option \<times> string option) option" where
  "read_edit_message_request j =
     Option.bind (optional_field ''content_encrypted'' from_str j) (\<lambda>content.
     Option.bind (optional_field ''content_iv'' from_str j) (\<lambda>iv. Some (content, iv)))"

definition read_update_chat_settings_request :: "wire_env \<Rightarrow> wjson \<Rightarrow> update_chat_settings_input option" where
  "read_update_chat_settings_request w j =
     Option.bind (optional_field ''is_muted'' from_bool j) (\<lambda>muted.
     Option.bind (optional_field ''muted_until'' (from_time w) j) (\<lambda>until.
     Option.bind (optional_field ''is_pinned'' from_bool j) (\<lambda>pinned.
     Option.bind (optional_field ''pin_order'' from_i32 j) (\<lambda>order.
     Option.bind (optional_field ''is_archived'' from_bool j) (\<lambda>archived.
     Some \<lparr>us_is_muted = muted, us_muted_until = until, us_is_pinned = pinned, us_pin_order = order,
           us_is_archived = archived\<rparr>)))))"

section \<open>Responses\<close>

definition page_json :: "('a \<Rightarrow> wjson) \<Rightarrow> 'a list \<times> string option \<times> bool \<Rightarrow> wjson" where
  "page_json f p =
     (case p of (items, cursor, has_more) \<Rightarrow>
       WObj [(''items'', WArr (map f items)), (''next_cursor'', to_opt WStr cursor),
             (''has_more'', WBool has_more)])"

definition chat_response_json :: "wire_env \<Rightarrow> chat_response \<Rightarrow> wjson" where
  "chat_response_json w r =
     WObj [(''id'', to_uuid w (rs_id r)), (''chat_type'', WStr (rs_chat_type r)),
           (''name'', to_opt WStr (rs_name r)), (''avatar_url'', to_opt WStr (rs_avatar_url r)),
           (''created_by'', to_opt (to_uuid w) (rs_created_by r)), (''created_at'', to_time w (rs_created_at r))]"

text \<open>\<open>ChatPreviewResponse\<close> has the columns of the view, with the chat type as the text it came from.\<close>

definition preview_to_response :: "chat_preview \<Rightarrow> preview_row" where
  "preview_to_response x = (cpv_row x)\<lparr>pv_type := chat_type_as_db_str (cpv_chat_type x)\<rparr>"

definition preview_response_json :: "wire_env \<Rightarrow> preview_row \<Rightarrow> wjson" where
  "preview_response_json w r =
     WObj [(''chat_id'', to_uuid w (pv_chat_id r)), (''chat_type'', WStr (pv_type r)),
           (''name'', to_opt WStr (pv_name r)), (''avatar_url'', to_opt WStr (pv_avatar_url r)),
           (''last_message_id'', to_opt (to_uuid w) (pv_last_message_id r)),
           (''last_message_encrypted'', to_opt WStr (pv_last_message_encrypted r)),
           (''last_sender_id'', to_opt (to_uuid w) (pv_last_sender_id r)),
           (''last_message_at'', to_opt (to_time w) (pv_last_message_at r)),
           (''is_pinned'', WBool (pv_is_pinned r)), (''pin_order'', WInt (pv_pin_order r)),
           (''is_muted'', WBool (pv_is_muted r)), (''is_archived'', WBool (pv_is_archived r)),
           (''unread_count'', WInt (pv_unread_count r))]"

definition list_chats_response :: "wire_env \<Rightarrow> chat_preview list \<times> string option \<times> bool \<Rightarrow> wjson" where
  "list_chats_response w p = page_json (preview_response_json w \<circ> preview_to_response) p"

text \<open>\<open>MessageResponse\<close> has the fields of a message row.\<close>

definition message_response_json :: "wire_env \<Rightarrow> message_row \<Rightarrow> wjson" where
  "message_response_json w m =
     WObj [(''id'', to_uuid w (m_id m)), (''chat_id'', to_uuid w (m_chat_id m)),
           (''sender_id'', to_opt (to_uuid w) (m_sender_id m)),
           (''reply_to_id'', to_opt (to_uuid w) (m_reply_to_id m)),
           (''content_encrypted'', to_opt WStr (m_content_encrypted m)),
           (''content_iv'', to_opt WStr (m_content_iv m)), (''message_type'', WStr (m_message_type m)),
           (''metadata'', to_opt (wi_json_parse w) (m_metadata m)), (''is_forwarded'', WBool (m_is_forwarded m)),
           (''created_at'', to_time w (m_created_at m)), (''edited_at'', to_opt (to_time w) (m_edited_at m)),
           (''deleted_at'', to_opt (to_time w) (m_deleted_at m))]"

definition list_messages_response :: "wire_env \<Rightarrow> message_row list \<times> string option \<times> bool \<Rightarrow> wjson" where
  "list_messages_response w p = page_json (message_response_json w) p"

definition reaction_response_json :: "wire_env \<Rightarrow> reaction_row \<Rightarrow> wjson" where
  "reaction_response_json w r =
     WObj [(''id'', to_uuid w (mr_id r)), (''message_id'', to_uuid w (mr_message_id r)),
           (''user_id'', to_uuid w (mr_user_id r)), (''reaction'', WStr (mr_reaction r)),
           (''created_at'', to_time w (mr_created_at r))]"

definition update_chat_response_json :: "wire_env \<Rightarrow> update_chat_response \<Rightarrow> wjson" where
  "update_chat_response_json w r =
     WObj [(''id'', to_uuid w (uc_id r)), (''chat_type'', WStr (uc_chat_type r)),
           (''name'', to_opt WStr (uc_name r)), (''description'', to_opt WStr (uc_description r)),
           (''avatar_url'', to_opt WStr (uc_avatar_url r)), (''updated_at'', to_time w (uc_updated_at r))]"

definition edit_message_response_json :: "wire_env \<Rightarrow> edit_message_response \<Rightarrow> wjson" where
  "edit_message_response_json w r =
     WObj [(''id'', to_uuid w (em_id r)), (''chat_id'', to_uuid w (em_chat_id r)),
           (''content_encrypted'', to_opt WStr (em_content_encrypted r)),
           (''content_iv'', to_opt WStr (em_content_iv r)), (''edited_at'', to_time w (em_edited_at r))]"

definition notification_response_json :: "wire_env \<Rightarrow> notification_response \<Rightarrow> wjson" where
  "notification_response_json w r =
     WObj [(''id'', to_uuid w (nr_id r)), (''notification_type'', WStr (nr_notification_type r)),
           (''data'', wi_json_parse w (nr_data r)), (''is_read'', WBool (nr_is_read r)),
           (''read_at'', to_opt (to_time w) (nr_read_at r)), (''created_at'', to_time w (nr_created_at r))]"

definition list_notifications_response ::
  "wire_env \<Rightarrow> notification_response list \<times> string option \<times> bool \<Rightarrow> wjson" where
  "list_notifications_response w p = page_json (notification_response_json w) p"

definition chat_settings_response_json :: "wire_env \<Rightarrow> chat_settings_value \<Rightarrow> wjson" where
  "chat_settings_response_json w r =
     WObj [(''is_muted'', WBool (st_is_muted r)), (''muted_until'', to_opt (to_time w) (st_muted_until r)),
           (''is_pinned'', WBool (st_is_pinned r)), (''pin_order'', WInt (st_pin_order r)),
           (''is_archived'', WBool (st_is_archived r))]"

text \<open>The responses with one field.\<close>

definition flag_response :: "string \<Rightarrow> bool \<Rightarrow> wjson" where
  "flag_response name b = WObj [(name, WBool b)]"

definition count_response :: "string \<Rightarrow> int \<Rightarrow> wjson" where
  "count_response name n = WObj [(name, WInt n)]"

definition remove_reaction_response :: "bool \<Rightarrow> wjson" where
  "remove_reaction_response = flag_response ''removed''"

definition delete_chat_response :: "bool \<Rightarrow> wjson" where
  "delete_chat_response = flag_response ''deleted''"

definition delete_message_response :: "bool \<Rightarrow> wjson" where
  "delete_message_response = flag_response ''deleted''"

definition mark_notification_read_response :: "bool \<Rightarrow> wjson" where
  "mark_notification_read_response = flag_response ''updated''"

definition mark_messages_read_response :: "int \<Rightarrow> wjson" where
  "mark_messages_read_response = count_response ''updated_count''"

definition mark_all_notifications_read_response :: "int \<Rightarrow> wjson" where
  "mark_all_notifications_read_response = count_response ''updated_count''"

definition delete_read_notifications_response :: "int \<Rightarrow> wjson" where
  "delete_read_notifications_response = count_response ''deleted_count''"

section \<open>Cursors\<close>

definition chat_cursor_json :: "wire_env \<Rightarrow> chat_cursor \<Rightarrow> wjson" where
  "chat_cursor_json w c =
     WObj [(''is_pinned'', WBool (cu_is_pinned c)),
           (''last_message_at'', to_opt (to_time w) (cu_last_message_at c)), (''chat_id'', to_uuid w (cu_chat_id c))]"

definition read_chat_cursor :: "wire_env \<Rightarrow> wjson \<Rightarrow> chat_cursor option" where
  "read_chat_cursor w j =
     Option.bind (required_field ''is_pinned'' from_bool j) (\<lambda>pinned.
     Option.bind (optional_field ''last_message_at'' (from_time w) j) (\<lambda>at.
     Option.bind (required_field ''chat_id'' (from_uuid w) j) (\<lambda>c.
     Some \<lparr>cu_is_pinned = pinned, cu_last_message_at = at, cu_chat_id = c\<rparr>)))"

definition message_cursor_json :: "wire_env \<Rightarrow> message_cursor \<Rightarrow> wjson" where
  "message_cursor_json w c =
     WObj [(''created_at'', to_time w (mc_created_at c)), (''message_id'', to_uuid w (mc_message_id c))]"

definition read_message_cursor :: "wire_env \<Rightarrow> wjson \<Rightarrow> message_cursor option" where
  "read_message_cursor w j =
     Option.bind (required_field ''created_at'' (from_time w) j) (\<lambda>at.
     Option.bind (required_field ''message_id'' (from_uuid w) j) (\<lambda>m.
     Some \<lparr>mc_created_at = at, mc_message_id = m\<rparr>))"

definition notification_cursor_json :: "wire_env \<Rightarrow> notification_cursor \<Rightarrow> wjson" where
  "notification_cursor_json w c =
     WObj [(''created_at'', to_time w (nc_created_at c)), (''id'', to_uuid w (nc_id c))]"

definition read_notification_cursor :: "wire_env \<Rightarrow> wjson \<Rightarrow> notification_cursor option" where
  "read_notification_cursor w j =
     Option.bind (required_field ''created_at'' (from_time w) j) (\<lambda>at.
     Option.bind (required_field ''id'' (from_uuid w) j) (\<lambda>i.
     Some \<lparr>nc_created_at = at, nc_id = i\<rparr>))"

section \<open>Round trips\<close>

lemma chat_cursor_roundtrip: "wire_lib w \<Longrightarrow> read_chat_cursor w (chat_cursor_json w c) = Some c"
  by (cases "cu_last_message_at c")
    (simp_all add: read_chat_cursor_def chat_cursor_json_def required_field_def optional_field_def to_opt_def)

lemma message_cursor_roundtrip: "wire_lib w \<Longrightarrow> read_message_cursor w (message_cursor_json w c) = Some c"
  by (simp add: read_message_cursor_def message_cursor_json_def required_field_def)

lemma notification_cursor_roundtrip:
  "wire_lib w \<Longrightarrow> read_notification_cursor w (notification_cursor_json w c) = Some c"
  by (simp add: read_notification_cursor_def notification_cursor_json_def required_field_def)

lemma wire_codecs_ok:
  assumes "wire_lib w" "text_lib t"
  shows "codec_ok (wire_codec t (chat_cursor_json w) (read_chat_cursor w))"
    and "codec_ok (wire_codec t (message_cursor_json w) (read_message_cursor w))"
    and "codec_ok (wire_codec t (notification_cursor_json w) (read_notification_cursor w))"
  using assms by (simp_all add: wire_codec_ok chat_cursor_roundtrip message_cursor_roundtrip notification_cursor_roundtrip)

text \<open>A settings response read as a settings request asks for the settings it shows.\<close>

lemma settings_roundtrip:
  assumes "wire_lib w" "- (2 ^ 31) \<le> st_pin_order r" "st_pin_order r < 2 ^ 31"
  shows "read_update_chat_settings_request w (chat_settings_response_json w r) =
    Some \<lparr>us_is_muted = Some (st_is_muted r), us_muted_until = st_muted_until r,
      us_is_pinned = Some (st_is_pinned r), us_pin_order = Some (st_pin_order r),
      us_is_archived = Some (st_is_archived r)\<rparr>"
  using assms by (cases "st_muted_until r")
    (simp_all add: read_update_chat_settings_request_def chat_settings_response_json_def optional_field_def to_opt_def)

section \<open>Null and absence\<close>

text \<open>
  Since COALESCE keeps the stored value, no request ends a mute with a date early: once
  \<open>muted_until\<close> is set, it is set after every update of the settings, whatever the request.
\<close>

lemma muted_until_stays:
  assumes "update_chat_settings now u c i d = (Inr v, d')"
    and "get_chat_settings u c d = Inr (Some v0)" "st_muted_until v0 \<noteq> None"
  shows "st_muted_until v \<noteq> None"
proof -
  obtain r where r: "select_one (\<lambda>r. settings_key r = (u, c)) (chat_settings d) = Some r" "cs_muted_until r \<noteq> None"
    using assms(2,3) by (auto simp: get_chat_settings_def)
  then have "exists_where (\<lambda>r. settings_key r = (u, c)) (chat_settings d)"
    by (auto simp: exists_where_iff dest: select_one_SomeD)
  then show ?thesis
    using assms(1) r
    by (auto simp: update_chat_settings_def op_simps and_then_def sql_def upsert_settings_def execute_def
        get_chat_settings_def settings_key_def select_one_update_hit ok_or_def coalesce_def split: option.splits)
qed

end
