(* ===== verification/WsWire.thy ===== *)
theory WsWire
  imports Json WsProps
begin

text \<open>
  The JSON of the socket messages: \<open>WsClientMessage\<close> and \<open>WsServerMessage\<close> with its payloads
  (\<open>crates/api/src/handlers/ws/dto.rs\<close>), and the texts that the socket handlers, the chat handlers and the
  group handlers really send, which they build with \<open>json!\<close> and not from \<open>WsServerMessage\<close>.

  Both enums are adjacently tagged: an object with the variant in \<open>type\<close> and its fields in \<open>payload\<close>.
  No variant can do without its payload, and other fields are ignored.
\<close>

section \<open>Messages of a client\<close>

definition tagged :: "string \<Rightarrow> (string \<times> wjson) list \<Rightarrow> wjson" where
  "tagged ty fs = WObj [(''type'', WStr ty), (''payload'', WObj fs)]"

text \<open>The variant and the payload of an adjacently tagged message.\<close>

definition read_tagged :: "(string \<Rightarrow> wjson \<Rightarrow> 'a option) \<Rightarrow> wjson \<Rightarrow> 'a option" where
  "read_tagged f j =
     Option.bind (required_field ''type'' from_str j) (\<lambda>ty. required_field ''payload'' (f ty) j)"

fun ws_client_message_json :: "wire_env \<Rightarrow> ws_client_message \<Rightarrow> wjson" where
  "ws_client_message_json w (TypingStart chat) = tagged ''typing_start'' [(''chat_id'', to_uuid w chat)]"
| "ws_client_message_json w (TypingStop chat) = tagged ''typing_stop'' [(''chat_id'', to_uuid w chat)]"
| "ws_client_message_json w (SyncRequest since) = tagged ''sync_request'' [(''since'', to_opt (to_time w) since)]"
| "ws_client_message_json w (CallInitiate receiver ty offer) =
     tagged ''call:initiate'' [(''receiver_id'', to_uuid w receiver), (''call_type'', WStr ty),
       (''offer'', to_value w offer)]"
| "ws_client_message_json w (CallAccept i answer) =
     tagged ''call:accept'' [(''call_id'', to_uuid w i), (''answer'', to_value w answer)]"
| "ws_client_message_json w (CallReject i reason) =
     tagged ''call:reject'' [(''call_id'', to_uuid w i), (''reason'', to_opt WStr reason)]"
| "ws_client_message_json w (CallIceCandidate i receiver candidate) =
     tagged ''call:ice-candidate'' [(''call_id'', to_uuid w i), (''receiver_id'', to_uuid w receiver),
       (''candidate'', to_value w candidate)]"
| "ws_client_message_json w (CallHangup i) = tagged ''call:hangup'' [(''call_id'', to_uuid w i)]"

definition read_ws_client_payload :: "wire_env \<Rightarrow> string \<Rightarrow> wjson \<Rightarrow> ws_client_message option" where
  "read_ws_client_payload w ty j =
     (if ty = ''typing_start'' then map_option TypingStart (required_field ''chat_id'' (from_uuid w) j)
      else if ty = ''typing_stop'' then map_option TypingStop (required_field ''chat_id'' (from_uuid w) j)
      else if ty = ''sync_request'' then map_option SyncRequest (optional_field ''since'' (from_time w) j)
      else if ty = ''call:initiate'' then
        Option.bind (required_field ''receiver_id'' (from_uuid w) j) (\<lambda>receiver.
        Option.bind (required_field ''call_type'' from_str j) (\<lambda>cty.
        map_option (CallInitiate receiver cty) (required_field ''offer'' (from_value w) j)))
      else if ty = ''call:accept'' then
        Option.bind (required_field ''call_id'' (from_uuid w) j) (\<lambda>i.
        map_option (CallAccept i) (required_field ''answer'' (from_value w) j))
      else if ty = ''call:reject'' then
        Option.bind (required_field ''call_id'' (from_uuid w) j) (\<lambda>i.
        map_option (CallReject i) (optional_field ''reason'' from_str j))
      else if ty = ''call:ice-candidate'' then
        Option.bind (required_field ''call_id'' (from_uuid w) j) (\<lambda>i.
        Option.bind (required_field ''receiver_id'' (from_uuid w) j) (\<lambda>receiver.
        map_option (CallIceCandidate i receiver) (required_field ''candidate'' (from_value w) j)))
      else if ty = ''call:hangup'' then map_option CallHangup (required_field ''call_id'' (from_uuid w) j)
      else None)"

definition read_ws_client_message :: "wire_env \<Rightarrow> wjson \<Rightarrow> ws_client_message option" where
  "read_ws_client_message w = read_tagged (read_ws_client_payload w)"

text \<open>The deserialisation that \<open>handle_socket\<close> applies to a text frame.\<close>

definition json_ws_env :: "wire_env \<Rightarrow> wire_text \<Rightarrow> ws_env \<Rightarrow> ws_env" where
  "json_ws_env w t env =
     env\<lparr>we_parse_message := (\<lambda>s. Option.bind (wt_parse t s) (read_ws_client_message w))\<rparr>"

section \<open>The declared messages of the server\<close>

record new_message_payload =
  np_chat_id :: uuid
  np_message :: json

record message_edited_payload =
  mep_chat_id :: uuid
  mep_message_id :: uuid
  mep_content_encrypted :: string
  mep_content_iv :: string

record message_deleted_payload =
  mdp_chat_id :: uuid
  mdp_message_id :: uuid

record reaction_payload =
  rp_chat_id :: uuid
  rp_message_id :: uuid
  rp_reaction :: string
  rp_user_id :: uuid

record messages_read_payload =
  mrp_chat_id :: uuid
  mrp_user_id :: uuid
  mrp_up_to :: timestamp

record user_presence_payload =
  upp_user_id :: uuid
  upp_timestamp :: timestamp

record typing_payload =
  tp_chat_id :: uuid
  tp_user_id :: uuid

record key_changed_payload =
  kcp_user_id :: uuid
  kcp_timestamp :: timestamp

record call_incoming_payload =
  cip_call_id :: uuid
  cip_caller_id :: uuid
  cip_call_type :: string
  cip_offer :: json
  cip_timestamp :: timestamp

record call_accepted_payload =
  cap_call_id :: uuid
  cap_receiver_id :: uuid
  cap_answer :: json
  cap_timestamp :: timestamp

record call_rejected_payload =
  crp_call_id :: uuid
  crp_receiver_id :: uuid
  crp_reason :: string
  crp_timestamp :: timestamp

record call_ice_candidate_payload =
  icp_call_id :: uuid
  icp_sender_id :: uuid
  icp_candidate :: json
  icp_timestamp :: timestamp

record call_ended_payload =
  cep_call_id :: uuid
  cep_ended_by :: uuid
  cep_status :: string
  cep_timestamp :: timestamp

datatype ws_server_message =
    SNewMessage new_message_payload
  | SMessageEdited message_edited_payload
  | SMessageDeleted message_deleted_payload
  | SReactionAdded reaction_payload
  | SReactionRemoved reaction_payload
  | SMessagesRead messages_read_payload
  | SUserOnline user_presence_payload
  | SUserOffline user_presence_payload
  | STypingStart typing_payload
  | STypingStop typing_payload
  | SKeyChanged key_changed_payload
  | SCallIncoming call_incoming_payload
  | SCallAccepted call_accepted_payload
  | SCallRejected call_rejected_payload
  | SCallIceCandidate call_ice_candidate_payload
  | SCallEnded call_ended_payload

fun ws_server_message_json :: "wire_env \<Rightarrow> ws_server_message \<Rightarrow> wjson" where
  "ws_server_message_json w (SNewMessage p) =
     tagged ''new_message'' [(''chat_id'', to_uuid w (np_chat_id p)), (''message'', to_value w (np_message p))]"
| "ws_server_message_json w (SMessageEdited p) =
     tagged ''message_edited'' [(''chat_id'', to_uuid w (mep_chat_id p)), (''message_id'', to_uuid w (mep_message_id p)),
       (''content_encrypted'', WStr (mep_content_encrypted p)), (''content_iv'', WStr (mep_content_iv p))]"
| "ws_server_message_json w (SMessageDeleted p) =
     tagged ''message_deleted'' [(''chat_id'', to_uuid w (mdp_chat_id p)), (''message_id'', to_uuid w (mdp_message_id p))]"
| "ws_server_message_json w (SReactionAdded p) =
     tagged ''reaction_added'' [(''chat_id'', to_uuid w (rp_chat_id p)), (''message_id'', to_uuid w (rp_message_id p)),
       (''reaction'', WStr (rp_reaction p)), (''user_id'', to_uuid w (rp_user_id p))]"
| "ws_server_message_json w (SReactionRemoved p) =
     tagged ''reaction_removed'' [(''chat_id'', to_uuid w (rp_chat_id p)), (''message_id'', to_uuid w (rp_message_id p)),
       (''reaction'', WStr (rp_reaction p)), (''user_id'', to_uuid w (rp_user_id p))]"
| "ws_server_message_json w (SMessagesRead p) =
     tagged ''messages_read'' [(''chat_id'', to_uuid w (mrp_chat_id p)), (''user_id'', to_uuid w (mrp_user_id p)),
       (''up_to'', to_time w (mrp_up_to p))]"
| "ws_server_message_json w (SUserOnline p) =
     tagged ''user_online'' [(''user_id'', to_uuid w (upp_user_id p)), (''timestamp'', to_time w (upp_timestamp p))]"
| "ws_server_message_json w (SUserOffline p) =
     tagged ''user_offline'' [(''user_id'', to_uuid w (upp_user_id p)), (''timestamp'', to_time w (upp_timestamp p))]"
| "ws_server_message_json w (STypingStart p) =
     tagged ''typing_start'' [(''chat_id'', to_uuid w (tp_chat_id p)), (''user_id'', to_uuid w (tp_user_id p))]"
| "ws_server_message_json w (STypingStop p) =
     tagged ''typing_stop'' [(''chat_id'', to_uuid w (tp_chat_id p)), (''user_id'', to_uuid w (tp_user_id p))]"
| "ws_server_message_json w (SKeyChanged p) =
     tagged ''key_changed'' [(''user_id'', to_uuid w (kcp_user_id p)), (''timestamp'', to_time w (kcp_timestamp p))]"
| "ws_server_message_json w (SCallIncoming p) =
     tagged ''call:incoming'' [(''call_id'', to_uuid w (cip_call_id p)), (''caller_id'', to_uuid w (cip_caller_id p)),
       (''call_type'', WStr (cip_call_type p)), (''offer'', to_value w (cip_offer p)),
       (''timestamp'', to_time w (cip_timestamp p))]"
| "ws_server_message_json w (SCallAccepted p) =
     tagged ''call:accepted'' [(''call_id'', to_uuid w (cap_call_id p)), (''receiver_id'', to_uuid w (cap_receiver_id p)),
       (''answer'', to_value w (cap_answer p)), (''timestamp'', to_time w (cap_timestamp p))]"
| "ws_server_message_json w (SCallRejected p) =
     tagged ''call:rejected'' [(''call_id'', to_uuid w (crp_call_id p)), (''receiver_id'', to_uuid w (crp_receiver_id p)),
       (''reason'', WStr (crp_reason p)), (''timestamp'', to_time w (crp_timestamp p))]"
| "ws_server_message_json w (SCallIceCandidate p) =
     tagged ''call:ice-candidate'' [(''call_id'', to_uuid w (icp_call_id p)), (''sender_id'', to_uuid w (icp_sender_id p)),
       (''candidate'', to_value w (icp_candidate p)), (''timestamp'', to_time w (icp_timestamp p))]"
| "ws_server_message_json w (SCallEnded p) =
     tagged ''call:ended'' [(''call_id'', to_uuid w (cep_call_id p)), (''ended_by'', to_uuid w (cep_ended_by p)),
       (''status'', WStr (cep_status p)), (''timestamp'', to_time w (cep_timestamp p))]"

definition read_new_message_payload :: "wire_env \<Rightarrow> wjson \<Rightarrow> new_message_payload option" where
  "read_new_message_payload w j =
     Option.bind (required_field ''chat_id'' (from_uuid w) j) (\<lambda>chat.
     Option.bind (required_field ''message'' (from_value w) j) (\<lambda>message.
     Some \<lparr>np_chat_id = chat, np_message = message\<rparr>))"

definition read_message_edited_payload :: "wire_env \<Rightarrow> wjson \<Rightarrow> message_edited_payload option" where
  "read_message_edited_payload w j =
     Option.bind (required_field ''chat_id'' (from_uuid w) j) (\<lambda>chat.
     Option.bind (required_field ''message_id'' (from_uuid w) j) (\<lambda>m.
     Option.bind (required_field ''content_encrypted'' from_str j) (\<lambda>content.
     Option.bind (required_field ''content_iv'' from_str j) (\<lambda>iv.
     Some \<lparr>mep_chat_id = chat, mep_message_id = m, mep_content_encrypted = content,
           mep_content_iv = iv\<rparr>))))"

definition read_message_deleted_payload :: "wire_env \<Rightarrow> wjson \<Rightarrow> message_deleted_payload option" where
  "read_message_deleted_payload w j =
     Option.bind (required_field ''chat_id'' (from_uuid w) j) (\<lambda>chat.
     Option.bind (required_field ''message_id'' (from_uuid w) j) (\<lambda>m.
     Some \<lparr>mdp_chat_id = chat, mdp_message_id = m\<rparr>))"

definition read_reaction_payload :: "wire_env \<Rightarrow> wjson \<Rightarrow> reaction_payload option" where
  "read_reaction_payload w j =
     Option.bind (required_field ''chat_id'' (from_uuid w) j) (\<lambda>chat.
     Option.bind (required_field ''message_id'' (from_uuid w) j) (\<lambda>m.
     Option.bind (required_field ''reaction'' from_str j) (\<lambda>reaction.
     Option.bind (required_field ''user_id'' (from_uuid w) j) (\<lambda>u.
     Some \<lparr>rp_chat_id = chat, rp_message_id = m, rp_reaction = reaction, rp_user_id = u\<rparr>))))"

definition read_messages_read_payload :: "wire_env \<Rightarrow> wjson \<Rightarrow> messages_read_payload option" where
  "read_messages_read_payload w j =
     Option.bind (required_field ''chat_id'' (from_uuid w) j) (\<lambda>chat.
     Option.bind (required_field ''user_id'' (from_uuid w) j) (\<lambda>u.
     Option.bind (required_field ''up_to'' (from_time w) j) (\<lambda>t.
     Some \<lparr>mrp_chat_id = chat, mrp_user_id = u, mrp_up_to = t\<rparr>)))"

definition read_user_presence_payload :: "wire_env \<Rightarrow> wjson \<Rightarrow> user_presence_payload option" where
  "read_user_presence_payload w j =
     Option.bind (required_field ''user_id'' (from_uuid w) j) (\<lambda>u.
     Option.bind (required_field ''timestamp'' (from_time w) j) (\<lambda>t.
     Some \<lparr>upp_user_id = u, upp_timestamp = t\<rparr>))"

definition read_typing_payload :: "wire_env \<Rightarrow> wjson \<Rightarrow> typing_payload option" where
  "read_typing_payload w j =
     Option.bind (required_field ''chat_id'' (from_uuid w) j) (\<lambda>chat.
     Option.bind (required_field ''user_id'' (from_uuid w) j) (\<lambda>u.
     Some \<lparr>tp_chat_id = chat, tp_user_id = u\<rparr>))"

definition read_key_changed_payload :: "wire_env \<Rightarrow> wjson \<Rightarrow> key_changed_payload option" where
  "read_key_changed_payload w j =
     Option.bind (required_field ''user_id'' (from_uuid w) j) (\<lambda>u.
     Option.bind (required_field ''timestamp'' (from_time w) j) (\<lambda>t.
     Some \<lparr>kcp_user_id = u, kcp_timestamp = t\<rparr>))"

definition read_call_incoming_payload :: "wire_env \<Rightarrow> wjson \<Rightarrow> call_incoming_payload option" where
  "read_call_incoming_payload w j =
     Option.bind (required_field ''call_id'' (from_uuid w) j) (\<lambda>call.
     Option.bind (required_field ''caller_id'' (from_uuid w) j) (\<lambda>caller.
     Option.bind (required_field ''call_type'' from_str j) (\<lambda>ty.
     Option.bind (required_field ''offer'' (from_value w) j) (\<lambda>offer.
     Option.bind (required_field ''timestamp'' (from_time w) j) (\<lambda>t.
     Some \<lparr>cip_call_id = call, cip_caller_id = caller, cip_call_type = ty, cip_offer = offer,
           cip_timestamp = t\<rparr>)))))"

definition read_call_accepted_payload :: "wire_env \<Rightarrow> wjson \<Rightarrow> call_accepted_payload option" where
  "read_call_accepted_payload w j =
     Option.bind (required_field ''call_id'' (from_uuid w) j) (\<lambda>call.
     Option.bind (required_field ''receiver_id'' (from_uuid w) j) (\<lambda>receiver.
     Option.bind (required_field ''answer'' (from_value w) j) (\<lambda>answer.
     Option.bind (required_field ''timestamp'' (from_time w) j) (\<lambda>t.
     Some \<lparr>cap_call_id = call, cap_receiver_id = receiver, cap_answer = answer,
           cap_timestamp = t\<rparr>))))"

definition read_call_rejected_payload :: "wire_env \<Rightarrow> wjson \<Rightarrow> call_rejected_payload option" where
  "read_call_rejected_payload w j =
     Option.bind (required_field ''call_id'' (from_uuid w) j) (\<lambda>call.
     Option.bind (required_field ''receiver_id'' (from_uuid w) j) (\<lambda>receiver.
     Option.bind (required_field ''reason'' from_str j) (\<lambda>reason.
     Option.bind (required_field ''timestamp'' (from_time w) j) (\<lambda>t.
     Some \<lparr>crp_call_id = call, crp_receiver_id = receiver, crp_reason = reason,
           crp_timestamp = t\<rparr>))))"

definition read_call_ice_candidate_payload :: "wire_env \<Rightarrow> wjson \<Rightarrow> call_ice_candidate_payload option" where
  "read_call_ice_candidate_payload w j =
     Option.bind (required_field ''call_id'' (from_uuid w) j) (\<lambda>call.
     Option.bind (required_field ''sender_id'' (from_uuid w) j) (\<lambda>sender.
     Option.bind (required_field ''candidate'' (from_value w) j) (\<lambda>candidate.
     Option.bind (required_field ''timestamp'' (from_time w) j) (\<lambda>t.
     Some \<lparr>icp_call_id = call, icp_sender_id = sender, icp_candidate = candidate,
           icp_timestamp = t\<rparr>))))"

definition read_call_ended_payload :: "wire_env \<Rightarrow> wjson \<Rightarrow> call_ended_payload option" where
  "read_call_ended_payload w j =
     Option.bind (required_field ''call_id'' (from_uuid w) j) (\<lambda>call.
     Option.bind (required_field ''ended_by'' (from_uuid w) j) (\<lambda>u.
     Option.bind (required_field ''status'' from_str j) (\<lambda>status.
     Option.bind (required_field ''timestamp'' (from_time w) j) (\<lambda>t.
     Some \<lparr>cep_call_id = call, cep_ended_by = u, cep_status = status, cep_timestamp = t\<rparr>))))"

definition read_ws_server_payload :: "wire_env \<Rightarrow> string \<Rightarrow> wjson \<Rightarrow> ws_server_message option" where
  "read_ws_server_payload w ty j =
     (if ty = ''new_message'' then map_option SNewMessage (read_new_message_payload w j)
      else if ty = ''message_edited'' then map_option SMessageEdited (read_message_edited_payload w j)
      else if ty = ''message_deleted'' then map_option SMessageDeleted (read_message_deleted_payload w j)
      else if ty = ''reaction_added'' then map_option SReactionAdded (read_reaction_payload w j)
      else if ty = ''reaction_removed'' then map_option SReactionRemoved (read_reaction_payload w j)
      else if ty = ''messages_read'' then map_option SMessagesRead (read_messages_read_payload w j)
      else if ty = ''user_online'' then map_option SUserOnline (read_user_presence_payload w j)
      else if ty = ''user_offline'' then map_option SUserOffline (read_user_presence_payload w j)
      else if ty = ''typing_start'' then map_option STypingStart (read_typing_payload w j)
      else if ty = ''typing_stop'' then map_option STypingStop (read_typing_payload w j)
      else if ty = ''key_changed'' then map_option SKeyChanged (read_key_changed_payload w j)
      else if ty = ''call:incoming'' then map_option SCallIncoming (read_call_incoming_payload w j)
      else if ty = ''call:accepted'' then map_option SCallAccepted (read_call_accepted_payload w j)
      else if ty = ''call:rejected'' then map_option SCallRejected (read_call_rejected_payload w j)
      else if ty = ''call:ice-candidate'' then map_option SCallIceCandidate (read_call_ice_candidate_payload w j)
      else if ty = ''call:ended'' then map_option SCallEnded (read_call_ended_payload w j)
      else None)"

definition read_ws_server_message :: "wire_env \<Rightarrow> wjson \<Rightarrow> ws_server_message option" where
  "read_ws_server_message w = read_tagged (read_ws_server_payload w)"

section \<open>The texts that are sent\<close>

definition group_extra_json :: "wire_env \<Rightarrow> group_extra \<Rightarrow> wjson" where
  "group_extra_json w e =
     (case e of
        ExtraUser u \<Rightarrow> WObj [(''user_id'', to_uuid w u)]
      | ExtraUserRole u role \<Rightarrow> WObj [(''user_id'', to_uuid w u), (''role'', WStr role)]
      | ExtraChat c \<Rightarrow> WObj [(''chat_id'', to_uuid w c)]
      | ExtraOwners u v \<Rightarrow> WObj [(''previous_owner_id'', to_uuid w u), (''new_owner_id'', to_uuid w v)])"

definition new_message_json :: "wire_env \<Rightarrow> uuid \<Rightarrow> uuid \<Rightarrow> uuid option \<Rightarrow> timestamp \<Rightarrow> wjson" where
  "new_message_json w c m sender at =
     WObj [(''type'', WStr ''new_message''), (''chat_id'', to_uuid w c),
           (''message_id'', to_uuid w m), (''sender_id'', to_opt (to_uuid w) sender),
           (''created_at'', to_time w at)]"

definition new_message_for_json :: "wire_env \<Rightarrow> uuid \<Rightarrow> uuid \<Rightarrow> uuid option \<Rightarrow> string option \<Rightarrow> string option \<Rightarrow> string \<Rightarrow>
    timestamp \<Rightarrow> wjson" where
  "new_message_for_json w c m sender content iv ty at =
     WObj [(''type'', WStr ''new_message''),
           (''payload'', WObj [(''chat_id'', to_uuid w c), (''message_id'', to_uuid w m),
             (''sender_id'', to_opt (to_uuid w) sender), (''content_encrypted'', to_opt WStr content),
             (''content_iv'', to_opt WStr iv), (''message_type'', WStr ty)]),
           (''timestamp'', to_rfc3339 w at)]"

definition messages_read_json :: "wire_env \<Rightarrow> uuid \<Rightarrow> uuid \<Rightarrow> timestamp \<Rightarrow> wjson" where
  "messages_read_json w c u up_to =
     WObj [(''type'', WStr ''messages_read''), (''chat_id'', to_uuid w c),
           (''user_id'', to_uuid w u), (''up_to'', to_time w up_to)]"

definition reaction_json :: "wire_env \<Rightarrow> uuid \<Rightarrow> uuid \<Rightarrow> uuid \<Rightarrow> string \<Rightarrow> string \<Rightarrow> wjson" where
  "reaction_json w c m u reaction action =
     WObj [(''type'', WStr ''reaction''), (''chat_id'', to_uuid w c), (''message_id'', to_uuid w m),
           (''user_id'', to_uuid w u), (''reaction'', WStr reaction), (''action'', WStr action)]"

definition group_event_json :: "wire_env \<Rightarrow> string \<Rightarrow> uuid \<Rightarrow> group_extra \<Rightarrow> wjson" where
  "group_event_json w event_type c extra =
     WObj [(''type'', WStr event_type), (''chat_id'', to_uuid w c),
           (''payload'', group_extra_json w extra)]"

definition added_to_group_json :: "wire_env \<Rightarrow> uuid \<Rightarrow> wjson" where
  "added_to_group_json w c = tagged ''added_to_group'' [(''chat_id'', to_uuid w c)]"

fun event_json :: "wire_env \<Rightarrow> event \<Rightarrow> wjson" where
  "event_json w (EvNewMessage c m sender at) = new_message_json w c m sender at"
| "event_json w (EvNewMessageFor c m sender content iv ty at) = new_message_for_json w c m sender content iv ty at"
| "event_json w (EvMessagesRead c u up_to) = messages_read_json w c u up_to"
| "event_json w (EvReaction c m u reaction action) = reaction_json w c m u reaction action"
| "event_json w (EvGroup event_type c extra) = group_event_json w event_type c extra"
| "event_json w (EvAddedToGroup c) = added_to_group_json w c"

definition call_error_json :: "wire_env \<Rightarrow> string \<Rightarrow> timestamp \<Rightarrow> wjson" where
  "call_error_json w message now =
     WObj [(''type'', WStr ''call:error''), (''payload'', WObj [(''message'', WStr message)]),
           (''timestamp'', to_rfc3339 w now)]"

definition call_incoming_json :: "wire_env \<Rightarrow> uuid \<Rightarrow> uuid \<Rightarrow> string \<Rightarrow> json \<Rightarrow> timestamp \<Rightarrow> wjson" where
  "call_incoming_json w i caller ty offer now =
     tagged ''call:incoming'' [(''call_id'', to_uuid w i), (''caller_id'', to_uuid w caller),
       (''call_type'', WStr ty), (''offer'', to_value w offer), (''timestamp'', to_rfc3339 w now)]"

definition call_accepted_json :: "wire_env \<Rightarrow> uuid \<Rightarrow> uuid \<Rightarrow> json \<Rightarrow> timestamp \<Rightarrow> wjson" where
  "call_accepted_json w i receiver answer now =
     tagged ''call:accepted'' [(''call_id'', to_uuid w i), (''receiver_id'', to_uuid w receiver),
       (''answer'', to_value w answer), (''timestamp'', to_rfc3339 w now)]"

definition call_rejected_json :: "wire_env \<Rightarrow> uuid \<Rightarrow> uuid \<Rightarrow> string \<Rightarrow> timestamp \<Rightarrow> wjson" where
  "call_rejected_json w i receiver reason now =
     tagged ''call:rejected'' [(''call_id'', to_uuid w i), (''receiver_id'', to_uuid w receiver),
       (''reason'', WStr reason), (''timestamp'', to_rfc3339 w now)]"

definition ice_candidate_json :: "wire_env \<Rightarrow> uuid \<Rightarrow> uuid \<Rightarrow> json \<Rightarrow> timestamp \<Rightarrow> wjson" where
  "ice_candidate_json w i sender candidate now =
     tagged ''call:ice-candidate'' [(''call_id'', to_uuid w i), (''sender_id'', to_uuid w sender),
       (''candidate'', to_value w candidate), (''timestamp'', to_rfc3339 w now)]"

definition call_ended_json :: "wire_env \<Rightarrow> uuid \<Rightarrow> uuid \<Rightarrow> string \<Rightarrow> timestamp \<Rightarrow> wjson" where
  "call_ended_json w i u status now =
     tagged ''call:ended'' [(''call_id'', to_uuid w i), (''ended_by'', to_uuid w u),
       (''status'', WStr status), (''timestamp'', to_rfc3339 w now)]"

fun call_signal_json :: "wire_env \<Rightarrow> call_signal \<Rightarrow> wjson" where
  "call_signal_json w (CallError message now) = call_error_json w message now"
| "call_signal_json w (CallIncoming i caller ty offer now) = call_incoming_json w i caller ty offer now"
| "call_signal_json w (CallAccepted i receiver answer now) = call_accepted_json w i receiver answer now"
| "call_signal_json w (CallRejected i receiver reason now) = call_rejected_json w i receiver reason now"
| "call_signal_json w (IceCandidate i sender candidate now) = ice_candidate_json w i sender candidate now"
| "call_signal_json w (CallEnded i u status now) = call_ended_json w i u status now"

definition typing_json :: "wire_env \<Rightarrow> bool \<Rightarrow> uuid \<Rightarrow> uuid \<Rightarrow> timestamp \<Rightarrow> wjson" where
  "typing_json w start c u now =
     WObj [(''type'', WStr (if start then ''typing_start'' else ''typing_stop'')),
           (''payload'', WObj [(''chat_id'', to_uuid w c), (''user_id'', to_uuid w u)]),
           (''timestamp'', to_rfc3339 w now)]"

definition sync_item_json :: "wire_env \<Rightarrow> message_row \<Rightarrow> wjson" where
  "sync_item_json w m =
     WObj [(''chat_id'', to_uuid w (m_chat_id m)), (''message_id'', to_uuid w (m_id m)),
           (''sender_id'', to_opt (to_uuid w) (m_sender_id m)),
           (''content_encrypted'', to_opt WStr (m_content_encrypted m)), (''content_iv'', to_opt WStr (m_content_iv m)),
           (''message_type'', WStr (m_message_type m)), (''created_at'', to_time w (m_created_at m))]"

definition sync_response_json :: "wire_env \<Rightarrow> message_row list \<Rightarrow> timestamp \<Rightarrow> wjson" where
  "sync_response_json w ms now =
     WObj [(''type'', WStr ''sync_response''),
           (''payload'', WObj [(''messages'', WArr (map (sync_item_json w) ms))]),
           (''timestamp'', to_rfc3339 w now)]"

fun ws_text_json :: "wire_env \<Rightarrow> ws_text \<Rightarrow> wjson" where
  "ws_text_json w (TextEvent e) = event_json w e"
| "ws_text_json w (TextSignal s) = call_signal_json w s"
| "ws_text_json w (TextTyping start c u now) = typing_json w start c u now"
| "ws_text_json w (TextSync ms now) = sync_response_json w ms now"

lemmas sent_texts [simp] = new_message_json_def new_message_for_json_def messages_read_json_def reaction_json_def
  group_event_json_def added_to_group_json_def call_error_json_def call_incoming_json_def call_accepted_json_def
  call_rejected_json_def ice_candidate_json_def call_ended_json_def

section \<open>Round trips\<close>

lemmas reads_def = read_new_message_payload_def read_message_edited_payload_def
  read_message_deleted_payload_def read_reaction_payload_def read_messages_read_payload_def
  read_user_presence_payload_def read_typing_payload_def read_key_changed_payload_def
  read_call_incoming_payload_def read_call_accepted_payload_def read_call_rejected_payload_def
  read_call_ice_candidate_payload_def read_call_ended_payload_def

lemma read_tagged_simps [simp]:
  "read_tagged f (tagged ty fs) = f ty (WObj fs)"
  by (simp add: read_tagged_def tagged_def required_field_def)

lemma client_message_roundtrip:
  assumes "json_lib w"
  shows "read_ws_client_message w (ws_client_message_json w m) = Some m"
  using assms
  by (cases m) (simp_all add: read_ws_client_message_def read_ws_client_payload_def field_simps to_opt_def
    del: field.simps split: option.split)

lemma server_message_roundtrip:
  assumes "json_lib w"
  shows "read_ws_server_message w (ws_server_message_json w m) = Some m"
  using assms
  by (cases m) (simp_all add: read_ws_server_message_def read_ws_server_payload_def field_simps reads_def
    del: field.simps)

section \<open>What a client that reads the declared messages makes of the texts\<close>

fun declared_signal :: "call_signal \<Rightarrow> ws_server_message option" where
  "declared_signal (CallError message now) = None"
| "declared_signal (CallIncoming i caller ty offer now) =
     Some (SCallIncoming \<lparr>cip_call_id = i, cip_caller_id = caller, cip_call_type = ty, cip_offer = offer,
       cip_timestamp = now\<rparr>)"
| "declared_signal (CallAccepted i receiver answer now) =
     Some (SCallAccepted \<lparr>cap_call_id = i, cap_receiver_id = receiver, cap_answer = answer, cap_timestamp = now\<rparr>)"
| "declared_signal (CallRejected i receiver reason now) =
     Some (SCallRejected \<lparr>crp_call_id = i, crp_receiver_id = receiver, crp_reason = reason, crp_timestamp = now\<rparr>)"
| "declared_signal (IceCandidate i sender candidate now) =
     Some (SCallIceCandidate \<lparr>icp_call_id = i, icp_sender_id = sender, icp_candidate = candidate,
       icp_timestamp = now\<rparr>)"
| "declared_signal (CallEnded i u status now) =
     Some (SCallEnded \<lparr>cep_call_id = i, cep_ended_by = u, cep_status = status, cep_timestamp = now\<rparr>)"

lemmas read_server_simps =
  read_ws_server_message_def read_ws_server_payload_def field_simps reads_def typing_json_def sync_response_json_def

lemma signals_conform:
  assumes "json_lib w"
  shows "read_ws_server_message w (ws_text_json w (TextSignal s)) = declared_signal s"
  using assms by (cases s) (simp_all add: read_server_simps read_tagged_def tagged_def del: field.simps)

lemma typing_conforms:
  assumes "json_lib w"
  shows "read_ws_server_message w (ws_text_json w (TextTyping start c u now)) =
    Some ((if start then STypingStart else STypingStop) \<lparr>tp_chat_id = c, tp_user_id = u\<rparr>)"
  using assms by (simp add: read_server_simps read_tagged_def tagged_def del: field.simps)

text \<open>
  No event of the HTTP handlers is a declared message: the ones of a chat have no payload or a type that
  is not declared, and the new message that the sockets do get has no field \<open>message\<close>.
\<close>

definition group_events :: "string list" where
  "group_events = [''participant_added'', ''participant_removed'', ''key_rotation_required'', ''participant_role_updated'',
     ''key_rotated'', ''ownership_transferred'']"

lemma unread_texts:
  shows "list_all (\<lambda>(k, v). k \<noteq> ''payload'') fs \<Longrightarrow> read_tagged f (WObj fs) = None"
    and "(\<And>p. f ty p = None) \<Longrightarrow> read_tagged f (WObj ((''type'', WStr ty) # fs)) = None"
proof -
  assume "list_all (\<lambda>(k, v). k \<noteq> ''payload'') fs"
  then have "filter (\<lambda>(k, v). k = ''payload'') fs = []"
    by (auto simp: list_all_iff filter_empty_conv)
  then show "read_tagged f (WObj fs) = None"
    by (simp add: read_tagged_def required_field_def split: bind_split)
qed (auto simp: read_tagged_def required_field_def split: bind_split option.splits list.splits)

lemma group_event_unread: "list_all (\<lambda>ty. read_ws_server_payload w ty j = None) group_events"
  by (simp add: group_events_def read_ws_server_payload_def)

lemma events_not_declared:
  assumes "\<And>ty c extra. e = EvGroup ty c extra \<Longrightarrow> ty \<in> set group_events"
  shows "read_ws_server_message w (ws_text_json w (TextEvent e)) = None"
proof (cases e)
  case (EvGroup ty c extra)
  then have "read_ws_server_payload w ty p = None" for p
    using assms group_event_unread [of w p] by (auto simp: list_all_iff)
  then show ?thesis by (simp add: EvGroup read_ws_server_message_def unread_texts(2))
next
  case (EvNewMessageFor c m sender content iv ty at)
  have "read_new_message_payload w (WObj [(''chat_id'', a), (''message_id'', b), (''sender_id'', c),
      (''content_encrypted'', d), (''content_iv'', e), (''message_type'', f)]) = None" for w a b c d e f
    by (cases "from_uuid w a") (simp_all add: read_new_message_payload_def field_simps del: field.simps)
  then show ?thesis
    by (simp add: EvNewMessageFor read_ws_server_message_def read_tagged_def field_simps read_ws_server_payload_def
        del: field.simps)
next
  case (EvAddedToGroup c)
  then show ?thesis by (simp add: read_ws_server_message_def read_ws_server_payload_def)
qed (simp_all add: read_ws_server_message_def unread_texts(1))

lemma sync_and_error_not_declared:
  "read_ws_server_message w (ws_text_json w (TextSync ms now)) = None"
  "read_ws_server_message w (ws_text_json w (TextSignal (CallError message now))) = None"
  by (simp_all add: read_server_simps read_tagged_def del: field.simps)

section \<open>A call is set up over two sockets\<close>

definition text_arrives :: "ws_text \<Rightarrow> uuid \<Rightarrow> socket \<Rightarrow> socket" where
  "text_arrives y u so =
     (if so_writing so \<and> so_subscribed so \<and> so_user so = u then so\<lparr>so_inbox := so_inbox so @ [y]\<rparr> else so)"

lemma text_arrives_same [simp]:
  "so_id (text_arrives y u so) = so_id so" "so_user (text_arrives y u so) = so_user so"
  "so_reading (text_arrives y u so) = so_reading so"
  by (simp_all add: text_arrives_def)

lemma sockets_publish:
  assumes "re_publish_ok (we_redis env) (UserEvents u)"
  shows "ws_sockets (ws_publish env (UserEvents u) y st) = map (text_arrives y u) (ws_sockets st)"
  using assms
  by (auto simp: ws_publish_def broadcast_def update_where_def text_arrives_def listens_def receive_def)

lemma reading_map:
  "(\<And>so. P (f so) = P so) \<Longrightarrow> select_one P (map f xs) = map_option f (select_one P xs)"
  by (induction xs) simp_all

lemma db_performs: "srv_db (ws_srv (fold (perform env c) es st)) = srv_db (ws_srv st)"
proof (induction es arbitrary: st)
  case (Cons e es)
  then show ?case by (cases e) simp_all
qed simp

text \<open>A text frame with the JSON of a client message is that message.\<close>

lemma read_client_frame:
  assumes "json_lib w" "wt_parse t frame = Some (ws_client_message_json w msg)"
    and "select_one (\<lambda>so. so_id so = c \<and> so_reading so) (ws_sockets st) = Some so"
  shows "read_frame (json_ws_env w t env) new_id now c (FrameText frame) st =
    handle_client_message (json_ws_env w t env) new_id now (so_user so) c msg st"
  using assms by (simp add: read_frame_def json_ws_env_def client_message_roundtrip)

text \<open>
  C15. A call is set up over two sockets: when the frame of an initiate on a socket of a has put a call
  into the table, every open socket of b gets, and no other socket gets anything, a text that reads as the
  declared \<open>call:incoming\<close> with the call's id, a, the normalised type and the offer unchanged; and when b
  then sends the accept of that call, every open socket of a gets a text that reads as \<open>call:accepted\<close>
  with the answer unchanged, and the call is answered from that time on.
\<close>

theorem call_set_up:
  assumes lib: "json_lib w" and redis: "\<And>ch. re_publish_ok (we_redis env) ch"
    and good: "call_reachable (srv_db (ws_srv st))"
    and frames: "wt_parse t f1 = Some (ws_client_message_json w (CallInitiate b ty offer))"
      "wt_parse t f2 = Some (ws_client_message_json w (CallAccept i answer))"
    and sockets: "select_one (\<lambda>so. so_id so = c1 \<and> so_reading so) (ws_sockets st) = Some s1" "so_user s1 = a"
      "select_one (\<lambda>so. so_id so = c2 \<and> so_reading so) (ws_sockets st) = Some s2" "so_user s2 = b"
    and st1: "st1 = read_frame (json_ws_env w t env) new1 now1 c1 (FrameText f1) st"
    and st2: "st2 = read_frame (json_ws_env w t env) new2 now2 c2 (FrameText f2) st1"
    and created: "call_view (srv_db (ws_srv st)) i = None" "call_view (srv_db (ws_srv st1)) i \<noteq> None"
  shows "\<exists>y z c.
    ws_sockets st1 = map (text_arrives y b) (ws_sockets st) \<and>
    read_ws_server_message w (ws_text_json w y) =
      Some (SCallIncoming \<lparr>cip_call_id = i, cip_caller_id = a,
        cip_call_type = (if ty = ''video'' then ''video'' else ''audio''), cip_offer = offer, cip_timestamp = now1\<rparr>) \<and>
    ws_sockets st2 = map (text_arrives z a) (ws_sockets st1) \<and>
    read_ws_server_message w (ws_text_json w z) =
      Some (SCallAccepted \<lparr>cap_call_id = i, cap_receiver_id = b, cap_answer = answer, cap_timestamp = now2\<rparr>) \<and>
    call_view (srv_db (ws_srv st2)) i = Some c \<and> cl_status c = Answered \<and> cl_started_at c = Some now2"
proof -
  let ?env = "json_ws_env w t env" and ?d = "srv_db (ws_srv st)" and ?d1 = "srv_db (ws_srv st1)"
  let ?y = "TextSignal (CallIncoming i a (call_type_as_db_str (call_type_of_message ty)) offer now1)"
  let ?z = "TextSignal (CallAccepted i b answer now2)"
  have redis': "re_publish_ok (we_redis ?env) ch" for ch using redis by (simp add: json_ws_env_def)
  have inv: "call_inv ?d" using call_reachable_good [OF good] by (simp add: pg.good_def)
  obtain out d1 where h1: "handle_call_initiate (pg_call_repo new1 now1) now1 a b ty offer ?d = (out, d1)"
    by fastforce
  have e1: "st1 = fold (perform ?env c1) out (st\<lparr>ws_srv := (ws_srv st)\<lparr>srv_db := d1\<rparr>\<rparr>)"
    unfolding st1 read_client_frame [OF lib frames(1) sockets(1)] by (simp add: sockets(2) h1)
  have db: "srv_db (ws_srv (fold (perform ?env c1) es s)) = srv_db (ws_srv s)" for es s
    by (rule db_performs)
  have "d1 \<noteq> ?d" using created e1 db by auto
  with pg.handle_initiate_cases [OF inv h1] obtain c where c: "call_inv d1" "call_view d1 = (call_view ?d)(cl_id c \<mapsto> c)"
      "cl_caller_id c = a" "cl_receiver_id c = b" "cl_status c = Ringing"
      "out = [Publish b (CallIncoming (cl_id c) a (call_type_as_db_str (call_type_of_message ty)) offer now1),
              PushJob (call_push_job b a (call_type_of_message ty) (cl_id c))]"
    by blast
  have d1: "?d1 = d1" by (simp add: e1 db)
  have i: "cl_id c = i" using created d1 c(2) by (auto split: if_splits)
  have y: "ws_sockets st1 = map (text_arrives ?y b) (ws_sockets st)"
    by (simp add: e1 c(6) i sockets_publish [OF redis'])
  have s2: "select_one (\<lambda>so. so_id so = c2 \<and> so_reading so) (ws_sockets st1) = Some (text_arrives ?y b s2)"
    by (simp add: y reading_map sockets(3))
  from pg.accept_cases [of d1 new2 now2 now2 i b] obtain tm d2
    where d2: "accept_call (pg_call_repo new2 now2) now2 i b d1 =
        (Inr (set_status Answered (Some now2) None tm c), d2)"
      "call_view d2 = (call_view d1)(i \<mapsto> set_status Answered (Some now2) None tm c)"
    using c(1,2,4,5) i by auto
  have e2: "st2 = ws_publish ?env (UserEvents a) ?z (st1\<lparr>ws_srv := (ws_srv st1)\<lparr>srv_db := d2\<rparr>\<rparr>)"
    unfolding st2 read_client_frame [OF lib frames(2) s2]
    by (simp add: sockets(4) handle_call_accept_def d1 d2(1) c(3))
  have z: "ws_sockets st2 = map (text_arrives ?z a) (ws_sockets st1)"
    by (simp add: e2 sockets_publish [OF redis'])
  have "call_view (srv_db (ws_srv st2)) i = Some (set_status Answered (Some now2) None tm c)"
    by (simp add: e2 d2(2))
  then have "call_view (srv_db (ws_srv st2)) i = Some (set_status Answered (Some now2) None tm c) \<and>
      cl_started_at (set_status Answered (Some now2) None tm c) = Some now2"
    by (simp add: coalesce_def)
  moreover have "call_type_as_db_str (call_type_of_message ty) = (if ty = ''video'' then ''video'' else ''audio'')"
    by (simp add: call_type_of_message_def)
  ultimately show ?thesis
    using y z signals_conform [OF lib]
    by (intro exI [of _ ?y] exI [of _ ?z] exI [of _ "set_status Answered (Some now2) None tm c"])
      (simp del: ws_text_json.simps list.map_comp)
qed

section \<open>Runs\<close>

definition sample_wire :: wire_env where
  "sample_wire =
     \<lparr>wi_show_uuid = (\<lambda>u. replicate (unat u) CHR ''u''), wi_parse_uuid = (\<lambda>s. Some (of_nat (length s))),
      wi_show_time = (\<lambda>t. if t < 0 then CHR ''-'' # replicate (nat (- t)) CHR ''Z'' else replicate (nat t) CHR ''Z''),
      wi_parse_time = (\<lambda>s. case s of [] \<Rightarrow> Some 0
        | c # s' \<Rightarrow> Some (if c = CHR ''-'' then - int (length s') else int (length s))),
      wi_rfc3339 = (\<lambda>t. if t < 0 then CHR ''-'' # replicate (nat (- t)) CHR ''+'' else replicate (nat t) CHR ''+''),
      wi_json_text = (\<lambda>j. case j of WStr s \<Rightarrow> s | _ \<Rightarrow> []), wi_json_parse = WStr\<rparr>"

lemma sample_wire_lib: "json_lib sample_wire"
proof -
  have "(case replicate n c of [] \<Rightarrow> Some 0
      | d # s' \<Rightarrow> Some (if d = CHR ''-'' then - int (length s') else int (length (replicate n c)))) = Some (int n)"
    if "c \<noteq> CHR ''-''" for n and c :: char
    using that by (cases n) simp_all
  then show ?thesis by (simp add: json_lib_def wire_lib_def sample_wire_def)
qed

definition two_frames :: wire_text where
  "two_frames =
     \<lparr>wt_print = (\<lambda>_. []),
      wt_parse = (\<lambda>s. if s = ''1'' then Some (ws_client_message_json sample_wire (CallInitiate 2 ''video'' ''sdp''))
        else if s = ''2'' then Some (ws_client_message_json sample_wire (CallAccept 9 ''pds'')) else None),
      wt_encode = id, wt_decode = Some\<rparr>"

definition after_initiate :: ws_state where
  "after_initiate =
     read_frame (json_ws_env sample_wire two_frames sample_ws_env) 9 50 7 (FrameText ''1'') two_sockets"

definition after_accept :: ws_state where
  "after_accept =
     read_frame (json_ws_env sample_wire two_frames sample_ws_env) 0 60 8 (FrameText ''2'') after_initiate"

theorem call_set_up_witness:
  "\<exists>y z c.
    ws_sockets after_initiate = map (text_arrives y 2) (ws_sockets two_sockets) \<and>
    read_ws_server_message sample_wire (ws_text_json sample_wire y) =
      Some (SCallIncoming \<lparr>cip_call_id = 9, cip_caller_id = 1, cip_call_type = ''video'', cip_offer = ''sdp'',
        cip_timestamp = 50\<rparr>) \<and>
    ws_sockets after_accept = map (text_arrives z 1) (ws_sockets after_initiate) \<and>
    read_ws_server_message sample_wire (ws_text_json sample_wire z) =
      Some (SCallAccepted \<lparr>cap_call_id = 9, cap_receiver_id = 2, cap_answer = ''pds'', cap_timestamp = 60\<rparr>) \<and>
    call_view (srv_db (ws_srv after_accept)) 9 = Some c \<and> cl_status c = Answered \<and> cl_started_at c = Some 60"
proof -
  have r: "\<And>ch. re_publish_ok (we_redis sample_ws_env) ch" by (simp add: sample_ws_env_def quiet_redis_def)
  have "calls (srv_db (ws_srv two_sockets)) = []" by code_simp
  then have g: "call_reachable (srv_db (ws_srv two_sockets))" by (rule call_reachable.start)
  have s: "select_one (\<lambda>so. so_id so = 7 \<and> so_reading so) (ws_sockets two_sockets) = Some (hd (ws_sockets two_sockets))"
    "so_user (hd (ws_sockets two_sockets)) = 1"
    "select_one (\<lambda>so. so_id so = 8 \<and> so_reading so) (ws_sockets two_sockets) = Some (last (ws_sockets two_sockets))"
    "so_user (last (ws_sockets two_sockets)) = 2"
    by (simp_all add: two_sockets_def open_socket_def no_sockets_def)
  have c: "call_view (srv_db (ws_srv two_sockets)) 9 = None" "call_view (srv_db (ws_srv after_initiate)) 9 \<noteq> None"
    by code_simp+
  have f: "wt_parse two_frames ''1'' = Some (ws_client_message_json sample_wire (CallInitiate 2 ''video'' ''sdp''))"
    "wt_parse two_frames ''2'' = Some (ws_client_message_json sample_wire (CallAccept 9 ''pds''))"
    by (simp_all add: two_frames_def)
  from call_set_up [OF sample_wire_lib r g f s after_initiate_def after_accept_def c]
  show ?thesis by simp
qed

end
