(* ===== verification/PushDelivery.thy ===== *)
theory PushDelivery
  imports WsProps PushWorker
begin

text \<open>
  A message on its way to the phones of its receivers: the handler that accepts it
  (\<open>crates/api/src/handlers/chats/handlers.rs\<close>), the queue, and the worker that serves it
  (\<open>crates/api/src/services/push.rs\<close>), composed.
\<close>

definition queued_jobs :: "outgoing list \<Rightarrow> push_job list" where
  "queued_jobs es = concat (map (\<lambda>e. case e of Queued j \<Rightarrow> [j] | Published ch ev \<Rightarrow> []) es)"

lemma queued_jobs_simps [simp]:
  "queued_jobs [] = []"
  "queued_jobs (Queued j # es) = j # queued_jobs es"
  "queued_jobs (Published ch ev # es) = queued_jobs es"
  by (simp_all add: queued_jobs_def)

definition wakes :: "redis_env \<Rightarrow> timestamp \<Rightarrow> uuid \<Rightarrow> srv \<Rightarrow> uuid \<Rightarrow> bool" where
  "wakes env now c s u \<longleftrightarrow>
     \<not> is_online env now u s \<and> \<not> is_muted now (settings_or_default u c (srv_db s))"

lemma queued_jobs_heard:
  "queued_jobs (concat (map (heard_by env now m s) us)) =
     map (\<lambda>u. new_message_job u m) (filter (wakes env now (m_chat_id m) s) us)"
  by (induction us) (simp_all add: heard_by_def wakes_def queued_jobs_def)

lemma sessions_of_log:
  "map pl_session (push_job_log d job) =
     map us_id (filter (\<lambda>r. us_user_id r = job_user_id job \<and> us_push_token r \<noteq> None) (user_sessions d))"
proof -
  have "map pl_session (concat (map (push_to u) (map (\<lambda>s. \<lparr>pt_id = us_id s, pt_push_token = us_push_token s,
      pt_device_type = Some (us_device_type s)\<rparr>) (filter (\<lambda>r. us_user_id r = u \<and> us_push_token r \<noteq> None) xs)))) =
      map us_id (filter (\<lambda>r. us_user_id r = u \<and> us_push_token r \<noteq> None) xs)" for u xs
    by (induction xs) (auto simp: push_to_def)
  then show ?thesis by (simp add: push_job_log_def push_tokens_def select_where_def)
qed

lemma distinct_by_owner:
  assumes "distinct (map f xs)" "distinct us"
  shows "distinct (concat (map (\<lambda>u. map f (filter (\<lambda>x. g x = u \<and> P x) xs)) us))"
  using assms(2)
proof (induction us)
  case (Cons u us)
  have "x \<notin> set (map f (filter (\<lambda>x. g x = u \<and> P x) xs))"
    if "x \<in> set (concat (map (\<lambda>u. map f (filter (\<lambda>x. g x = u \<and> P x) xs)) us))" for x
    using that Cons.prems assms(1) by (auto simp: distinct_map dest: inj_onD)
  then show ?case
    using Cons assms(1) by (auto simp: distinct_map_filter)
qed simp

lemma log_for_users:
  "a \<in> set (concat (map (push_job_log d) (map (\<lambda>u. new_message_job u m) us))) \<longleftrightarrow>
     (\<exists>r\<in>set (user_sessions d). us_user_id r \<in> set us \<and> us_push_token r \<noteq> None \<and>
        pl_session a = us_id r \<and> pl_device a = device_type_from (us_device_type r) \<and> pl_user a = us_user_id r)"
  by (induction us) (auto simp: push_job_log_exact new_message_job_def)

lemma message_log:
  fixes m us d
  defines "lines \<equiv> concat (map (push_job_log d) (map (\<lambda>u. new_message_job u m) us))"
  assumes "unique_on us_id (user_sessions d)" "distinct us"
  shows "distinct (map pl_session lines)"
    and "r \<in> set (user_sessions d) \<Longrightarrow> us_id r \<in> pl_session ` set lines \<longleftrightarrow>
      us_push_token r \<noteq> None \<and> us_user_id r \<in> set us"
    and "a \<in> set lines \<Longrightarrow> \<exists>r\<in>set (user_sessions d). pl_session a = us_id r \<and> pl_user a = us_user_id r \<and>
      pl_device a = device_type_from (us_device_type r)"
proof -
  have "map pl_session lines = concat (map (\<lambda>u. map us_id
      (filter (\<lambda>r. us_user_id r = u \<and> us_push_token r \<noteq> None) (user_sessions d))) us)"
    by (simp add: lines_def map_concat comp_def sessions_of_log new_message_job_def)
  then show "distinct (map pl_session lines)"
    using distinct_by_owner [of us_id "user_sessions d" us] assms(2,3) by (simp add: unique_on_def)
next
  note mem = log_for_users [of _ d m us, folded lines_def]
  show "us_id r \<in> pl_session ` set lines \<longleftrightarrow>
      us_push_token r \<noteq> None \<and> us_user_id r \<in> set us" if r: "r \<in> set (user_sessions d)"
  proof
    assume "us_id r \<in> pl_session ` set lines"
    then obtain a where a: "a \<in> set lines" "pl_session a = us_id r" by auto
    obtain q where "q \<in> set (user_sessions d)" "us_user_id q \<in> set us" "us_push_token q \<noteq> None" "us_id q = us_id r"
      using a(1) unfolding mem by (metis a(2))
    moreover from this have "q = r" using r unique_on_eq [OF assms(2)] by simp
    ultimately show "us_push_token r \<noteq> None \<and> us_user_id r \<in> set us" by blast
  next
    assume h: "us_push_token r \<noteq> None \<and> us_user_id r \<in> set us"
    let ?a = "\<lparr>pl_session = us_id r, pl_device = device_type_from (us_device_type r), pl_user = us_user_id r\<rparr>"
    have "?a \<in> set lines" unfolding mem using h by (intro bexI [OF _ r]) simp
    then show "us_id r \<in> pl_session ` set lines" by (rule rev_image_eqI) simp
  qed
  show "\<exists>r\<in>set (user_sessions d). pl_session a = us_id r \<and> pl_user a = us_user_id r \<and>
      pl_device a = device_type_from (us_device_type r)" if "a \<in> set lines"
    using that unfolding mem by (elim bexE conjE) (rule bexI, intro conjI)
qed

text \<open>
  C34. From an accepted message to the work of the push worker. A message is accepted while Redis
  works, and its jobs go into a queue that was empty, each written and read back as the same job. Once
  the worker has had as many rounds as there are jobs, without errors of Redis or the database and
  whatever happened to the sessions until then, it has logged exactly one push for every session with a
  push token of every other active participant who has no presence key and has not muted the chat,
  with that session's device type and user, and none for any other session, and the queue is empty.
  (The log line is all that the worker does: the request to the push service is not written yet.)
\<close>

theorem message_wakes_phones:
  assumes redis: "\<And>ch. re_publish_ok env ch" "re_queue_ok env"
    and schema: "chat_schema (srv_db s)" "unique_on us_id (user_sessions d)"
    and queue: "json_faithful pe js" "pu_lpush_error pe = None"
    and sent: "h_send_message env i now auth c nm s = (Inr (201, Some m), s')"
    and rounds: "js = queued_jobs (drop (length (srv_out s)) (srv_out s'))" "length js \<le> n"
  shows "\<exists>lines.
    push_worker pe d n (enqueue_all pe js []) = (lines, []) \<and>
    distinct (map pl_session lines) \<and>
    (\<forall>r\<in>set (user_sessions d). us_id r \<in> pl_session ` set lines \<longleftrightarrow>
        us_push_token r \<noteq> None \<and> us_user_id r \<noteq> auth \<and> active_member (srv_db s) (us_user_id r) c \<and>
        wakes env now c s' (us_user_id r)) \<and>
    (\<forall>a\<in>set lines. \<exists>r\<in>set (user_sessions d). pl_session a = us_id r \<and> pl_user a = us_user_id r \<and>
      pl_device a = device_type_from (us_device_type r))"
proof -
  let ?us = "filter (wakes env now c s')
    (filter (\<lambda>u. u \<noteq> auth) (map cp_user_id (select_where (active_in c) (chat_participants (srv_db s)))))"
  note accepted = send_accepted [OF redis sent]
  have "m_chat_id m = c" using accepted by (simp add: new_message_row_def)
  then have js: "js = map (\<lambda>u. new_message_job u m) ?us"
    using accepted by (simp add: rounds(1) queued_jobs_heard)
  have us: "u \<in> set ?us \<longleftrightarrow> u \<noteq> auth \<and> active_member (srv_db s) u c \<and> wakes env now c s' u" for u
    by (auto simp: active_member_def exists_where_iff set_select_where)
  have "distinct ?us" using unique_map_select [OF schema(1)] by (simp add: distinct_filter)
  note exact = message_log [where m = m, OF schema(2) this, folded js, unfolded us]
  show ?thesis
    using push_worker_fifo [OF queue rounds(2)] exact by blast
qed

definition session_of :: "uuid \<Rightarrow> uuid \<Rightarrow> string option \<Rightarrow> session_row" where
  "session_of i u tok =
     \<lparr>us_id = i, us_user_id = u, us_device_id = ''d'', us_device_name = ''phone'', us_device_type = ''ios'',
      us_push_token = tok, us_ip_address = None, us_last_active_at = 0, us_expires_at = 100\<rparr>"

text \<open>In a group of three user 2 is online and user 3 has two sessions, one of them with a push token.\<close>

definition four_sessions :: db where
  "four_sessions = group_of_three\<lparr>user_sessions :=
     [session_of 31 1 (Some ''t1''), session_of 32 2 (Some ''t2''), session_of 33 3 None, session_of 34 3 (Some ''t3'')]\<rparr>"

definition before_message :: srv where
  "before_message = \<lparr>srv_db = group_of_three,
     srv_redis = redis_set_ex 0 (presence_key quiet_redis 2) ''online'' 60 empty_redis, srv_out = []\<rparr>"

definition after_message :: srv where
  "after_message = snd (h_send_message quiet_redis 100 50 1 10 hello before_message)"

definition one_job_env :: push_env where
  "one_job_env = \<lparr>pu_to_json = (\<lambda>_. Inr ''job''),
     pu_from_json = (\<lambda>_. Inr (new_message_job 3 (new_message_row 100 50 1 10 hello))), pu_lpush_error = None\<rparr>"

theorem message_wakes_phones_witness:
  "\<exists>lines.
    push_worker one_job_env four_sessions 1 (enqueue_all one_job_env (queued_jobs (srv_out after_message)) []) =
      (lines, []) \<and>
    lines = [\<lparr>pl_session = 34, pl_device = Ios, pl_user = 3\<rparr>] \<and> distinct (map pl_session lines)"
proof -
  have r: "\<And>ch. re_publish_ok quiet_redis ch" "re_queue_ok quiet_redis" by (simp_all add: quiet_redis_def)
  have "(case fst (h_send_message quiet_redis 100 50 1 10 hello before_message) of
      Inr (n, Some m) \<Rightarrow> n = 201 | _ \<Rightarrow> False)" by code_simp
  then obtain m where "fst (h_send_message quiet_redis 100 50 1 10 hello before_message) = Inr (201, Some m)"
    by (auto split: sum.splits option.splits)
  then have h: "h_send_message quiet_redis 100 50 1 10 hello before_message = (Inr (201, Some m), after_message)"
    unfolding after_message_def by (metis prod.collapse)
  have js: "queued_jobs (drop (length (srv_out before_message)) (srv_out after_message)) = queued_jobs (srv_out after_message)"
    by (simp add: before_message_def)
  have c: "unique_on us_id (user_sessions four_sessions)" by code_simp
  have d: "chat_schema (srv_db before_message)"
    using group_of_three_schema by (simp add: before_message_def)
  have e: "json_faithful one_job_env (queued_jobs (srv_out after_message))"
    "length (queued_jobs (srv_out after_message)) \<le> 1"
    "fst (push_worker one_job_env four_sessions 1
        (enqueue_all one_job_env (queued_jobs (srv_out after_message)) [])) = [\<lparr>pl_session = 34, pl_device = Ios, pl_user = 3\<rparr>]"
    by code_simp+
  have l: "pu_lpush_error one_job_env = None" by (simp add: one_job_env_def)
  from message_wakes_phones [OF r d c e(1) l h js [symmetric] e(2)] e(3) show ?thesis
    by (metis fst_conv)
qed

end
