(* ===== verification/GroupContract.thy ===== *)
theory GroupContract
  imports MembershipProps ChatList MessageListing Notifications Attachments
begin

text \<open>
  The trait \<open>ChatRepository\<close> (\<open>crates/domain/src/chat/repository.rs\<close>) as a record of operations on a
  state, with \<open>PostgresChatRepository\<close> as an instance: its fields are the operations of the other
  theories at one time, with the id and the random text that the operation would draw.

  The comments of the trait say who may do what in a group. They are the laws of a locale, from which
  it follows for any implementation, and by the interpretation for the one of the code, that nobody
  gains power in a group without an admin or owner.
\<close>

section \<open>The trait\<close>

record 's chat_repository =
  cr_create_private_chat :: "uuid \<Rightarrow> uuid \<Rightarrow> ('s, domain_error, chat) op"
  cr_create_group_chat :: "uuid \<Rightarrow> string \<Rightarrow> uuid list \<Rightarrow> ('s, domain_error, chat) op"
  cr_get_chat_for_user :: "uuid \<Rightarrow> uuid \<Rightarrow> ('s, domain_error, chat option) op"
  cr_list_chats_for_user :: "uuid \<Rightarrow> chat_cursor option \<Rightarrow> int \<Rightarrow> ('s, domain_error, chat_preview list) op"
  cr_send_message :: "uuid \<Rightarrow> uuid \<Rightarrow> new_message \<Rightarrow> ('s, domain_error, message_row) op"
  cr_list_messages ::
    "uuid \<Rightarrow> uuid \<Rightarrow> message_cursor option \<Rightarrow> message_direction \<Rightarrow> int \<Rightarrow> ('s, domain_error, message_row list) op"
  cr_create_pending_attachment :: "new_pending_attachment \<Rightarrow> ('s, domain_error, pending_attachment) op"
  cr_get_pending_attachment_for_user :: "uuid \<Rightarrow> uuid \<Rightarrow> ('s, domain_error, pending_attachment option) op"
  cr_confirm_attachment :: "confirm_attachment_input \<Rightarrow> ('s, domain_error, unit) op"
  cr_verify_participant :: "uuid \<Rightarrow> uuid \<Rightarrow> ('s, domain_error, unit) op"
  cr_verify_message_in_chat :: "uuid \<Rightarrow> uuid \<Rightarrow> ('s, domain_error, unit) op"
  cr_mark_messages_read :: "uuid \<Rightarrow> uuid \<Rightarrow> timestamp \<Rightarrow> ('s, domain_error, nat) op"
  cr_add_reaction :: "uuid \<Rightarrow> uuid \<Rightarrow> string \<Rightarrow> ('s, domain_error, reaction_row) op"
  cr_remove_reaction :: "uuid \<Rightarrow> uuid \<Rightarrow> string \<Rightarrow> ('s, domain_error, bool) op"
  cr_update_chat ::
    "uuid \<Rightarrow> uuid \<Rightarrow> string option \<Rightarrow> string option \<Rightarrow> string option \<Rightarrow> ('s, domain_error, chat) op"
  cr_delete_chat :: "uuid \<Rightarrow> uuid \<Rightarrow> ('s, domain_error, unit) op"
  cr_edit_message :: "uuid \<Rightarrow> uuid \<Rightarrow> string option \<Rightarrow> string option \<Rightarrow> ('s, domain_error, message_row) op"
  cr_delete_message :: "uuid \<Rightarrow> uuid \<Rightarrow> ('s, domain_error, unit) op"
  cr_get_chat_participants :: "uuid \<Rightarrow> ('s, domain_error, uuid list) op"
  cr_list_notifications ::
    "uuid \<Rightarrow> notification_cursor option \<Rightarrow> int \<Rightarrow> ('s, domain_error, notification list) op"
  cr_create_notification :: "new_notification \<Rightarrow> ('s, domain_error, notification) op"
  cr_mark_notification_read :: "uuid \<Rightarrow> uuid \<Rightarrow> ('s, domain_error, unit) op"
  cr_mark_all_notifications_read :: "uuid \<Rightarrow> ('s, domain_error, nat) op"
  cr_delete_read_notifications :: "uuid \<Rightarrow> ('s, domain_error, nat) op"
  cr_get_chat_settings :: "uuid \<Rightarrow> uuid \<Rightarrow> ('s, domain_error, chat_settings_value option) op"
  cr_update_chat_settings ::
    "uuid \<Rightarrow> uuid \<Rightarrow> update_chat_settings_input \<Rightarrow> ('s, domain_error, chat_settings_value) op"
  cr_get_participant_role :: "uuid \<Rightarrow> uuid \<Rightarrow> ('s, domain_error, participant_role option) op"
  cr_get_participants_detail :: "uuid \<Rightarrow> uuid \<Rightarrow> ('s, domain_error, participant_detail list) op"
  cr_add_participant :: "uuid \<Rightarrow> uuid \<Rightarrow> uuid \<Rightarrow> string option \<Rightarrow> ('s, domain_error, participant_detail) op"
  cr_remove_participant :: "uuid \<Rightarrow> uuid \<Rightarrow> uuid \<Rightarrow> ('s, domain_error, bool) op"
  cr_update_participant_role ::
    "uuid \<Rightarrow> uuid \<Rightarrow> uuid \<Rightarrow> participant_role \<Rightarrow> ('s, domain_error, participant_detail) op"
  cr_set_invite_link :: "uuid \<Rightarrow> uuid \<Rightarrow> string option \<Rightarrow> ('s, domain_error, string option) op"
  cr_find_chat_by_slug :: "string \<Rightarrow> ('s, domain_error, chat option) op"
  cr_join_by_invite :: "uuid \<Rightarrow> uuid \<Rightarrow> ('s, domain_error, participant_detail) op"
  cr_rotate_group_key :: "uuid \<Rightarrow> uuid \<Rightarrow> (uuid \<times> string) list \<Rightarrow> ('s, domain_error, nat) op"
  cr_transfer_ownership :: "uuid \<Rightarrow> uuid \<Rightarrow> uuid \<Rightarrow> ('s, domain_error, unit) op"
  cr_list_messages_since :: "uuid \<Rightarrow> timestamp \<Rightarrow> int \<Rightarrow> ('s, domain_error, message_row list) op"

definition pg_chat_repository :: "uuid \<Rightarrow> timestamp \<Rightarrow> string \<Rightarrow> db chat_repository" where
  "pg_chat_repository new_id now random12 =
     \<lparr>cr_create_private_chat = create_private_chat new_id now,
      cr_create_group_chat = create_group_chat new_id now,
      cr_get_chat_for_user = (\<lambda>u c. query (get_chat_for_user u c)),
      cr_list_chats_for_user = (\<lambda>u cur n. query (list_chats_for_user u cur n)),
      cr_send_message = send_message new_id now,
      cr_list_messages = (\<lambda>u c cur dir n. query (list_messages u c cur dir n)),
      cr_create_pending_attachment = create_pending_attachment now,
      cr_get_pending_attachment_for_user = (\<lambda>a u. query (get_pending_attachment_for_user a u)),
      cr_confirm_attachment = confirm_attachment now,
      cr_verify_participant = (\<lambda>u c. query (verify_participant u c)),
      cr_verify_message_in_chat = (\<lambda>m c. query (verify_message_in_chat m c)),
      cr_mark_messages_read = mark_messages_read now,
      cr_add_reaction = add_reaction new_id now,
      cr_remove_reaction = remove_reaction,
      cr_update_chat = update_chat now,
      cr_delete_chat = delete_chat now,
      cr_edit_message = edit_message now,
      cr_delete_message = delete_message now,
      cr_get_chat_participants = (\<lambda>c. query (get_chat_participants c)),
      cr_list_notifications = (\<lambda>u cur n. query (list_notifications u cur n)),
      cr_create_notification = create_notification new_id now,
      cr_mark_notification_read = mark_notification_read now,
      cr_mark_all_notifications_read = mark_all_notifications_read now,
      cr_delete_read_notifications = delete_read_notifications,
      cr_get_chat_settings = (\<lambda>u c. query (get_chat_settings u c)),
      cr_update_chat_settings = update_chat_settings now,
      cr_get_participant_role = (\<lambda>u c. query (get_participant_role u c)),
      cr_get_participants_detail = (\<lambda>u c. query (get_participants_detail u c)),
      cr_add_participant = add_participant now,
      cr_remove_participant = remove_participant now,
      cr_update_participant_role = update_participant_role,
      cr_set_invite_link = set_invite_link now random12,
      cr_find_chat_by_slug = (\<lambda>slug. query (find_chat_by_slug slug)),
      cr_join_by_invite = join_by_invite now,
      cr_rotate_group_key = rotate_group_key,
      cr_transfer_ownership = transfer_ownership,
      cr_list_messages_since = (\<lambda>u t n. query (list_messages_since u t n))\<rparr>"

section \<open>Changes of a group\<close>

datatype group_request =
    AddParticipant uuid "string option"
  | RemoveParticipant uuid
  | ChangeRole uuid participant_role
  | SetInviteLink "string option"
  | JoinByInvite
  | RotateGroupKey "(uuid \<times> string) list"
  | TransferOwnership uuid

fun do_group_request :: "'s chat_repository \<Rightarrow> uuid \<Rightarrow> uuid \<Rightarrow> group_request \<Rightarrow> 's \<Rightarrow> 's" where
  "do_group_request R c actor (AddParticipant u key) s = snd (cr_add_participant R c actor u key s)"
| "do_group_request R c actor (RemoveParticipant u) s = snd (cr_remove_participant R c actor u s)"
| "do_group_request R c actor (ChangeRole u role) s = snd (cr_update_participant_role R c actor u role s)"
| "do_group_request R c actor (SetInviteLink slug) s = snd (cr_set_invite_link R c actor slug s)"
| "do_group_request R c actor JoinByInvite s = snd (cr_join_by_invite R c actor s)"
| "do_group_request R c actor (RotateGroupKey keys) s = snd (cr_rotate_group_key R c actor keys s)"
| "do_group_request R c actor (TransferOwnership u) s = snd (cr_transfer_ownership R c actor u s)"

type_synonym role_map = "uuid \<Rightarrow> uuid \<Rightarrow> participant_role option"

definition with_role :: "uuid \<Rightarrow> uuid \<Rightarrow> participant_role option \<Rightarrow> role_map \<Rightarrow> role_map" where
  "with_role u c r m = (\<lambda>v d. if v = u \<and> d = c then r else m v d)"

text \<open>
  The comments of the trait: what a request may do to the roles. An operation that is refused does
  nothing. Leaving is the one case in which a participant is removed by somebody who does not outrank him.
\<close>

fun allowed :: "uuid \<Rightarrow> uuid \<Rightarrow> group_request \<Rightarrow> role_map \<Rightarrow> role_map \<Rightarrow> bool" where
  "allowed c actor (AddParticipant u key) m m' \<longleftrightarrow>
     (\<exists>r. m actor c = Some r \<and> Admin \<le> r) \<and> m u c = None \<and> m' = with_role u c (Some Member) m"
| "allowed c actor (RemoveParticipant u) m m' \<longleftrightarrow>
     (\<exists>r t. m actor c = Some r \<and> m u c = Some t \<and> (if actor = u then r \<noteq> Owner else t < r)) \<and>
     m' = with_role u c None m"
| "allowed c actor (ChangeRole u role) m m' \<longleftrightarrow>
     (\<exists>r t. m actor c = Some r \<and> m u c = Some t \<and> t < r \<and> role < r) \<and> m' = with_role u c (Some role) m"
| "allowed c actor (SetInviteLink slug) m m' \<longleftrightarrow> m' = m"
| "allowed c actor JoinByInvite m m' \<longleftrightarrow> m actor c = None \<and> m' = with_role actor c (Some Member) m"
| "allowed c actor (RotateGroupKey keys) m m' \<longleftrightarrow> m' = m"
| "allowed c actor (TransferOwnership u) m m' \<longleftrightarrow>
     m actor c = Some Owner \<and> m u c \<noteq> None \<and>
     m' = with_role u c (Some Owner) (with_role actor c (Some Admin) m)"

locale group_roles =
  fixes R :: "'s chat_repository"
    and roles :: "'s \<Rightarrow> role_map"
    and inv :: "'s \<Rightarrow> bool"
  assumes request_law: "inv s \<Longrightarrow>
      inv (do_group_request R c actor req s) \<and>
      (roles (do_group_request R c actor req s) = roles s \<or>
       allowed c actor req (roles s) (roles (do_group_request R c actor req s)))"
begin

definition powerless :: "uuid set \<Rightarrow> uuid \<Rightarrow> 's \<Rightarrow> bool" where
  "powerless A c s \<longleftrightarrow> (\<forall>a\<in>A. \<forall>r. roles s a c = Some r \<longrightarrow> r < Admin)"

lemma powerless_request:
  assumes "inv s" "powerless A c s" "actor \<in> A" and s': "s' = do_group_request R d actor req s"
  shows "inv s'" and "powerless A c s'"
    and "roles s u c = Some r \<Longrightarrow> Admin \<le> r \<Longrightarrow> roles s' u c = Some r"
    and "roles s' u c = Some r \<Longrightarrow> r = Member \<or> (\<exists>r'. roles s u c = Some r' \<and> r \<le> r')"
proof -
  show "inv s'" using request_law [OF assms(1)] s' by simp
  have law: "roles s' = roles s \<or> allowed d actor req (roles s) (roles s')"
    using request_law [OF assms(1)] s' by simp
  have low: "r < Admin" if "roles s actor c = Some r" for r
    using assms(2,3) that by (auto simp: powerless_def)
  have step: "(roles s' u c = roles s u c) \<or>
      (\<forall>r. roles s u c = Some r \<longrightarrow> r < Admin) \<and> (\<forall>r. roles s' u c = Some r \<longrightarrow> r = Member)" for u
  proof (cases "d = c")
    case False
    then show ?thesis using law by (cases req) (auto simp: with_role_def)
  next
    case True
    from law show ?thesis
    proof
      assume a: "allowed d actor req (roles s) (roles s')"
      have *: "t = Member" if "t < r" "r < Admin" for t r :: participant_role
        using that by (cases t; cases r) (simp_all add: role_less_iff)
      show ?thesis
      proof (cases req)
        case (RemoveParticipant v)
        then show ?thesis using a low True * by (auto simp: with_role_def role_less_iff split: if_splits)
      next
        case (ChangeRole v role)
        then show ?thesis using a low True * by (auto simp: with_role_def role_less_iff)
      next
        case (AddParticipant v key)
        then show ?thesis using a low True by (auto simp: with_role_def)
      next
        case (TransferOwnership v)
        then show ?thesis using a low [of Owner] True by (simp add: role_less_iff)
      qed (use a True in \<open>auto simp: with_role_def\<close>)
    qed simp
  qed
  have "Member < Admin" by (simp add: role_less_iff)
  with step assms(2) show "powerless A c s'"
    unfolding powerless_def by (metis)
  show "roles s u c = Some r \<Longrightarrow> Admin \<le> r \<Longrightarrow> roles s' u c = Some r"
    using step [of u] by auto
  show "roles s' u c = Some r \<Longrightarrow> r = Member \<or> (\<exists>r'. roles s u c = Some r' \<and> r \<le> r')"
    using step [of u] by (metis order_refl)
qed

end

section \<open>The operations of the code\<close>

lemma select_one_upsert:
  assumes "\<And>x. Q x \<Longrightarrow> P (f x)" "\<And>x. P x \<Longrightarrow> Q x" "exists_where Q t"
  shows "\<exists>x. Q x \<and> select_one P (update_where Q f t) = Some (f x)"
  using assms(3)
proof (induction t)
  case (Cons x t)
  then show ?case using assms(1,2) by (cases "Q x") (auto simp: exists_where_iff)
qed (simp add: exists_where_iff)

lemma select_one_elsewhere:
  assumes "\<And>x. Q x \<Longrightarrow> \<not> P x \<and> \<not> P (f x)"
  shows "select_one P (update_where Q f t) = select_one P t"
  using assms by (induction t) auto

text \<open>A participant who is inserted or comes back has the role of the new row.\<close>

lemma role_of_insert:
  assumes "insert_participant (DoUpdate f) r d = Inr d'"
    and "\<And>x. same_member r x \<Longrightarrow> same_member r (f x) \<and> cp_left_at (f x) = None \<and> cp_role (f x) = cp_role r"
    and "cp_left_at r = None" "role_from_db_str (cp_role r) = Some Member"
    and "\<not> active_member d (cp_user_id r) (cp_chat_id r)"
  shows "role_of d' = with_role (cp_user_id r) (cp_chat_id r) (Some Member) (role_of d)"
proof (intro ext)
  fix u c
  let ?P = "\<lambda>p. active_in c p \<and> cp_user_id p = u"
  have key: "?P x \<Longrightarrow> (c, u) = (cp_chat_id r, cp_user_id r) \<longleftrightarrow> same_member r x" for x
    by (auto simp: active_in_def same_member_def)
  show "role_of d' u c = with_role (cp_user_id r) (cp_chat_id r) (Some Member) (role_of d) u c"
  proof (cases "exists_where (same_member r) (chat_participants d)")
    case True
    then have d': "chat_participants d' = update_where (same_member r) f (chat_participants d)"
      using assms(1) by (auto simp: insert_participant_def Let_def split: if_splits)
    show ?thesis
    proof (cases "(c, u) = (cp_chat_id r, cp_user_id r)")
      case at: True
      have "\<exists>x. same_member r x \<and> select_one ?P (update_where (same_member r) f (chat_participants d)) = Some (f x)"
        by (rule select_one_upsert)
          (use True at assms(2) key in \<open>auto simp: active_in_def same_member_def exists_where_iff\<close>)
      then show ?thesis using at assms(2,4) by (auto simp: role_of_def d' with_role_def)
    next
      case off: False
      have "select_one ?P (update_where (same_member r) f (chat_participants d)) = select_one ?P (chat_participants d)"
        by (rule select_one_elsewhere) (use off assms(2) in \<open>auto simp: active_in_def same_member_def\<close>)
      then show ?thesis using off by (auto simp: role_of_def d' with_role_def)
    qed
  next
    case False
    then have d': "chat_participants d' = chat_participants d @ [r]"
      using assms(1) by (auto simp: insert_participant_def split: if_splits)
    have "role_of d (cp_user_id r) (cp_chat_id r) = None"
      using assms(5) role_of_active by (cases "role_of d (cp_user_id r) (cp_chat_id r)") auto
    moreover have "select_one (\<lambda>p. active_in (cp_chat_id r) p \<and> cp_user_id p = cp_user_id r) (chat_participants d) = None"
      using assms(5) by (simp add: active_member_def exists_where_iff select_one_None_iff)
    ultimately show ?thesis
      using assms(3,4)
      by (auto simp: role_of_def d' with_role_def select_one_append active_in_def coalesce_def split: option.splits)
  qed
qed

lemma role_from_member: "role_from_db_str ''member'' = Some Member"
  by (simp add: role_from_db_str_def)

lemma roles_add:
  "role_of (snd (add_participant now c actor u key d)) = role_of d \<or>
   allowed c actor (AddParticipant u key) (role_of d) (role_of (snd (add_participant now c actor u key d)))"
proof (cases "snd (add_participant now c actor u key d) = d")
  case False
  with add_participant_db [of now c actor u key d]
  have i: "\<not> active_member d u c" "insert_participant (DoUpdate (\<lambda>p. p\<lparr>cp_left_at := None, cp_role := ''member'',
        cp_encryption_key_enc := key, cp_added_by := Some actor, cp_joined_at := now\<rparr>))
        (new_participant now c u ''member'' key (Some actor)) d = Inr (snd (add_participant now c actor u key d))"
    by auto
  have "\<exists>r. role_of d actor c = Some r \<and> Admin \<le> r"
    using False by (auto simp: add_participant_def run_simps not_less split: option.splits if_splits)
  moreover have "role_of d u c = None" using i(1) role_of_active by (cases "role_of d u c") auto
  moreover have "role_of (snd (add_participant now c actor u key d)) = with_role u c (Some Member) (role_of d)"
    using role_of_insert [OF i(2)] i(1) by (simp add: new_participant_def same_member_def role_from_member)
  ultimately show ?thesis by simp
qed simp

lemma roles_join:
  "role_of (snd (join_by_invite now c u d)) = role_of d \<or>
   allowed c u JoinByInvite (role_of d) (role_of (snd (join_by_invite now c u d)))"
proof (cases "snd (join_by_invite now c u d) = d")
  case False
  with join_by_invite_db [of now c u d]
  have i: "\<not> active_member d u c" "insert_participant (DoUpdate (\<lambda>p. p\<lparr>cp_left_at := None, cp_role := ''member'', cp_joined_at := now\<rparr>))
        (new_participant now c u ''member'' None None) d = Inr (snd (join_by_invite now c u d))"
    by auto
  have "role_of d u c = None" using i(1) role_of_active by (cases "role_of d u c") auto
  moreover have "role_of (snd (join_by_invite now c u d)) = with_role u c (Some Member) (role_of d)"
    using role_of_insert [OF i(2)] i(1) by (simp add: new_participant_def same_member_def role_from_member)
  ultimately show ?thesis by simp
qed simp

lemma roles_remove:
  "role_of (snd (remove_participant now c actor u d)) = role_of d \<or>
   allowed c actor (RemoveParticipant u) (role_of d) (role_of (snd (remove_participant now c actor u d)))"
  using remove_participant_db [of now c actor u d]
proof (elim disjE exE conjE)
  fix ra rt
  assume "role_of d actor c = Some ra" "role_of d u c = Some rt" "if actor = u then ra \<noteq> Owner else rt < ra"
    "snd (remove_participant now c actor u d) = set_left now c u d"
  moreover have "role_of (set_left now c u d) = with_role u c None (role_of d)"
    by (simp add: fun_eq_iff role_of_set_left with_role_def)
  ultimately show ?thesis by simp
qed simp

lemma roles_change:
  "role_of (snd (update_participant_role c actor u role d)) = role_of d \<or>
   allowed c actor (ChangeRole u role) (role_of d) (role_of (snd (update_participant_role c actor u role d)))"
proof -
  have "role_of (d\<lparr>chat_participants := update_where (\<lambda>p. active_in c p \<and> cp_user_id p = u)
      (\<lambda>p. p\<lparr>cp_role := role_as_db_str role\<rparr>) (chat_participants d)\<rparr>) = with_role u c (Some role) (role_of d)"
    if "role_of d u c = Some t" for t
  proof (intro ext)
    fix v e
    have "select_one (\<lambda>p. active_in e p \<and> cp_user_id p = v) (update_where (\<lambda>p. active_in c p \<and> cp_user_id p = u)
        (\<lambda>p. p\<lparr>cp_role := role_as_db_str role\<rparr>) (chat_participants d)) =
      map_option (\<lambda>p. if active_in c p \<and> cp_user_id p = u then p\<lparr>cp_role := role_as_db_str role\<rparr> else p)
        (select_one (\<lambda>p. active_in e p \<and> cp_user_id p = v) (chat_participants d))"
      by (rule select_one_update_same) (simp add: active_in_def)
    then show "role_of (d\<lparr>chat_participants := update_where (\<lambda>p. active_in c p \<and> cp_user_id p = u)
        (\<lambda>p. p\<lparr>cp_role := role_as_db_str role\<rparr>) (chat_participants d)\<rparr>) v e = with_role u c (Some role) (role_of d) v e"
      using that by (auto simp: role_of_def with_role_def active_in_def split: option.splits dest!: select_one_SomeD)
  qed
  then show ?thesis using update_participant_role_db [of c actor u role d] by auto
qed

lemma role_of_cong: "chat_participants d' = chat_participants d \<Longrightarrow> role_of d' = role_of d"
  by (simp add: role_of_def fun_eq_iff)

lemma roles_invite: "role_of (snd (set_invite_link now rnd c actor slug d)) = role_of d"
  by (rule role_of_cong)
    (auto simp: set_invite_link_def run_simps Let_def update_chats_def split: option.split sum.split)

lemma role_of_set_key: "role_of (set_key c u key d) = role_of d"
proof (intro ext)
  fix v e
  have "select_one (\<lambda>p. active_in e p \<and> cp_user_id p = v) (update_where (\<lambda>p. active_in c p \<and> cp_user_id p = u)
      (\<lambda>p. p\<lparr>cp_encryption_key_enc := Some key\<rparr>) (chat_participants d)) =
    map_option (\<lambda>p. if active_in c p \<and> cp_user_id p = u then p\<lparr>cp_encryption_key_enc := Some key\<rparr> else p)
      (select_one (\<lambda>p. active_in e p \<and> cp_user_id p = v) (chat_participants d))"
    by (rule select_one_update_same) (simp add: active_in_def)
  then show "role_of (set_key c u key d) v e = role_of d v e"
    by (auto simp: role_of_def set_key_def split: option.splits)
qed

lemma role_of_set_keys: "role_of (snd (set_keys c ks n d)) = role_of d"
  by (induction c ks n d rule: set_keys.induct) (simp_all add: role_of_set_key)

lemma roles_rotate: "role_of (snd (rotate_group_key c actor keys d)) = role_of d"
  using role_of_set_keys [of c keys 0 d]
  by (auto simp: rotate_group_key_def run_simps transaction_def split: option.split prod.split sum.split)

lemma roles_transfer:
  "role_of (snd (transfer_ownership c actor u d)) = role_of d \<or>
   allowed c actor (TransferOwnership u) (role_of d) (role_of (snd (transfer_ownership c actor u d)))"
proof -
  have "role_of (set_role c u ''owner'' (set_role c actor ''admin'' d)) =
      with_role u c (Some Owner) (with_role actor c (Some Admin) (role_of d))"
    if "role_of d actor c = Some x" "role_of d u c = Some y" for x y
    using that role_of_active
    by (auto simp: fun_eq_iff role_of_set_role with_role_def role_from_db_str_def)
  then show ?thesis using transfer_ownership_db [of c actor u d] by auto
qed

interpretation pg_groups: group_roles "pg_chat_repository new_id now rnd" role_of members_ok
proof
  fix d c actor req
  assume "members_ok d"
  then show "members_ok (do_group_request (pg_chat_repository new_id now rnd) c actor req d) \<and>
    (role_of (do_group_request (pg_chat_repository new_id now rnd) c actor req d) = role_of d \<or>
     allowed c actor req (role_of d) (role_of (do_group_request (pg_chat_repository new_id now rnd) c actor req d)))"
    using roles_add roles_remove roles_change roles_join roles_transfer
    by (cases req)
      (simp_all add: pg_chat_repository_def add_participant_keeps remove_participant_keeps update_participant_role_keeps
        set_invite_link_keeps join_by_invite_keeps rotate_group_key_keeps transfer_ownership_keeps
        roles_invite roles_rotate del: allowed.simps)
qed

section \<open>Runs\<close>

text \<open>Requests of several users for several chats, one after the other.\<close>

record group_call =
  gc_new_id :: uuid
  gc_now :: timestamp
  gc_random :: string
  gc_chat :: uuid
  gc_actor :: uuid
  gc_request :: group_request

fun group_calls :: "group_call list \<Rightarrow> db \<Rightarrow> db" where
  "group_calls [] d = d"
| "group_calls (g # gs) d =
     group_calls gs (do_group_request (pg_chat_repository (gc_new_id g) (gc_now g) (gc_random g))
       (gc_chat g) (gc_actor g) (gc_request g) d)"

definition no_gain :: "uuid \<Rightarrow> role_map \<Rightarrow> role_map \<Rightarrow> bool" where
  "no_gain c m m' \<longleftrightarrow>
     (\<forall>u r. m u c = Some r \<longrightarrow> Admin \<le> r \<longrightarrow> m' u c = Some r) \<and>
     (\<forall>u r. m' u c = Some r \<longrightarrow> r = Member \<or> (\<exists>r'. m u c = Some r' \<and> r \<le> r'))"

lemma le_Member: "r \<le> Member \<Longrightarrow> r = Member" for r :: participant_role
  by (cases r) (simp_all add: role_le_iff)

lemma no_gainD: "no_gain c m m' \<Longrightarrow> m' u c = Some r \<Longrightarrow> r = Member \<or> (\<exists>r'. m u c = Some r' \<and> r \<le> r')"
  unfolding no_gain_def by blast

lemma no_gain_trans:
  assumes "no_gain c m m'" "no_gain c m' m''"
  shows "no_gain c m m''"
  unfolding no_gain_def
proof (intro conjI allI impI)
  fix u r assume "m'' u c = Some r"
  from no_gainD [OF assms(2) this] consider "r = Member" | r' where "m' u c = Some r'" "r \<le> r'" by blast
  then show "r = Member \<or> (\<exists>r'. m u c = Some r' \<and> r \<le> r')"
  proof cases
    case 2
    from no_gainD [OF assms(1) 2(1)] consider "r' = Member" | r'' where "m u c = Some r''" "r' \<le> r''" by blast
    then show ?thesis using 2(2) by cases (auto dest: le_Member intro: order_trans)
  qed simp
qed (use assms in \<open>simp add: no_gain_def\<close>)

lemma no_gain_calls:
  assumes "members_ok d" "\<forall>g\<in>set gs. gc_actor g \<in> A" "pg_groups.powerless A c d"
  shows "no_gain c (role_of d) (role_of (group_calls gs d))"
  using assms
proof (induction gs arbitrary: d)
  case Nil
  then show ?case by (auto simp: no_gain_def)
next
  case (Cons g gs)
  note step = pg_groups.powerless_request [OF Cons.prems(1,3) _ refl, of "gc_actor g"]
  have g: "gc_actor g \<in> A" "\<forall>g\<in>set gs. gc_actor g \<in> A" using Cons.prems(2) by simp_all
  let ?d = "do_group_request (pg_chat_repository (gc_new_id g) (gc_now g) (gc_random g)) (gc_chat g) (gc_actor g)
    (gc_request g) d"
  have "no_gain c (role_of d) (role_of ?d)"
    unfolding no_gain_def using step(3,4) [OF g(1)] by blast
  then show ?case
    using no_gain_trans Cons.IH [OF step(1) [OF g(1)] g(2) step(2) [OF g(1)]] by simp
qed

text \<open>
  C30. Nobody gains power in a group without an admin or owner: however many requests users make who are
  below admin in a chat (or not in it), together and in any order, for this chat and any other, every
  admin and owner of the chat keeps the role, and nobody ends up above the role he had before, except
  that he may have become a plain member.
\<close>

theorem no_escalation:
  assumes "chat_reachable d" "\<forall>g\<in>set gs. gc_actor g \<in> A"
    and "\<forall>a\<in>A. \<forall>r. role_of d a c = Some r \<longrightarrow> r < Admin"
  shows "(\<forall>u r. role_of d u c = Some r \<longrightarrow> Admin \<le> r \<longrightarrow> role_of (group_calls gs d) u c = Some r) \<and>
    (\<forall>u r. role_of (group_calls gs d) u c = Some r \<longrightarrow> r = Member \<or> (\<exists>r'. role_of d u c = Some r' \<and> r \<le> r'))"
  using no_gain_calls [OF chat_reachable_ok [OF assms(1)] assms(2)] assms(3)
  by (simp add: no_gain_def pg_groups.powerless_def)

definition attack :: "group_call list" where
  "attack = map (\<lambda>(u, req). \<lparr>gc_new_id = 0, gc_now = 9, gc_random = ''r'', gc_chat = 10, gc_actor = u, gc_request = req\<rparr>)
     [(2, TransferOwnership 2), (2, ChangeRole 2 Admin), (3, ChangeRole 2 Moderator), (3, RemoveParticipant 1),
      (3, RemoveParticipant 3), (3, JoinByInvite), (2, AddParticipant 3 None)]"

theorem no_escalation_witness:
  "role_of (group_calls attack group_of_three) 1 10 = Some Owner \<and>
   role_of (group_calls attack group_of_three) 3 10 \<notin> {Some Moderator, Some Admin, Some Owner}"
proof -
  have a: "\<forall>g\<in>set attack. gc_actor g \<in> {2, 3}" by (simp add: attack_def)
  have "Member < Admin" by (simp add: role_less_iff)
  then have b: "\<forall>a\<in>{2, 3}. \<forall>r. role_of group_of_three a 10 = Some r \<longrightarrow> r < Admin"
    using group_of_three_roles by auto
  note n = no_escalation [OF group_of_three_reachable a b]
  have "r = Member" if "role_of (group_calls attack group_of_three) 3 10 = Some r" for r
    using n that le_Member group_of_three_roles(3) by fastforce
  then have "role_of (group_calls attack group_of_three) 3 10 \<notin> {Some Moderator, Some Admin, Some Owner}"
    by fastforce
  then show ?thesis using n group_of_three_roles(1) by simp
qed

end
