(* ===== verification/GroupEffects.thy ===== *)
theory GroupEffects
  imports GroupContract
begin

text \<open>
  What a removal and a change of role mean for the members of a group: a removed user is shut out of the
  chat and cannot let himself back in but by the invite link, and a change of role is exactly the
  change that was asked for.
\<close>

section \<open>Without a role there is no access\<close>

lemma schema_role_of:
  assumes "chat_schema d" "active_member d u c"
  shows "\<exists>r. role_of d u c = Some r"
proof -
  from assms(2) obtain p where "select_one (\<lambda>p. active_in c p \<and> cp_user_id p = u) (chat_participants d) = Some p"
    by (fastforce simp: active_member_def exists_where_iff select_one_None_iff
        dest: iffD2 [OF not_None_eq, THEN notE, rotated])
  moreover from this have "p \<in> set (chat_participants d)" by (auto dest: select_one_SomeD)
  ultimately show ?thesis using assms(1) role_value_parses by (auto simp: role_of_def chat_schema_def)
qed

lemma no_role_no_access:
  assumes "chat_schema d" "role_of d u c = None"
  shows "send_message i t u c m d = (Inl (NotFound ''chat not found or not a participant''), d)"
    and "list_messages u c cur dir n d = Inl (NotFound ''chat not found or not a participant'')"
    and "\<exists>us. get_chat_participants c d = Inr us \<and> u \<notin> set us"
proof -
  have out: "\<not> active_member d u c" using schema_role_of assms by fastforce
  then have "chat_of_member d u c = None" by (simp add: chat_of_member_eq)
  then show "send_message i t u c m d = (Inl (NotFound ''chat not found or not a participant''), d)"
    "list_messages u c cur dir n d = Inl (NotFound ''chat not found or not a participant'')"
    by (simp_all add: send_message_def list_messages_def ensure_active_membership_def ensure_active_membership_pool_def
        transaction_def ok_or_def and_then_def query_def)
  show "\<exists>us. get_chat_participants c d = Inr us \<and> u \<notin> set us"
    using out by (auto simp: get_chat_participants_def active_member_def exists_where_iff set_select_where)
qed

text \<open>A user without a role in a chat changes nobody's role in it, except that he may join by the link.\<close>

lemma outsider_request:
  assumes "members_ok d" "role_of d u c = None" "e = c \<longrightarrow> req \<noteq> JoinByInvite"
    and d': "d' = do_group_request (pg_chat_repository i t r) e u req d"
  shows "members_ok d'" and "role_of d' v c = role_of d v c"
proof -
  note law = pg_groups.request_law [OF assms(1), of i t r e u req, folded d']
  show "members_ok d'" using law by simp
  have "role_of d' = role_of d \<or> allowed e u req (role_of d) (role_of d')" using law by simp
  then show "role_of d' v c = role_of d v c"
    using assms(2,3) by (cases "e = c"; cases req) (auto simp: with_role_def)
qed

lemma outsider_calls:
  assumes "members_ok d" "role_of d u c = None"
    and "list_all (\<lambda>g. gc_actor g = u \<and> (gc_chat g = c \<longrightarrow> gc_request g \<noteq> JoinByInvite)) gs"
  shows "members_ok (group_calls gs d) \<and> role_of (group_calls gs d) v c = role_of d v c"
  using assms
proof (induction gs arbitrary: d)
  case (Cons g gs)
  note step = outsider_request [OF Cons.prems(1,2) _ refl, of "gc_chat g" "gc_request g" "gc_new_id g" "gc_now g" "gc_random g"]
  have g: "gc_chat g = c \<longrightarrow> gc_request g \<noteq> JoinByInvite" "gc_actor g = u" using Cons.prems(3) by simp_all
  then show ?case using Cons.IH [OF step(1) [OF g(1)]] step(2) [OF g(1)] Cons.prems by simp
qed simp

section \<open>Removal\<close>

lemma remove_participant_run:
  "remove_participant now c actor target d =
     (case role_of d actor c of
        None \<Rightarrow> (Inl (Unauthorized ''not a member of this chat''), d)
      | Some ra \<Rightarrow>
          (case role_of d target c of
             None \<Rightarrow> (Inl (NotFound ''target user is not a member''), d)
           | Some rt \<Rightarrow>
               if actor = target \<and> ra = Owner
               then (Inl (Validation ''owner must transfer ownership before leaving''), d)
               else if actor \<noteq> target \<and> ra \<le> rt
               then (Inl (Unauthorized ''insufficient role to remove this participant''), d)
               else (Inr True, set_left now c target d)))"
  by (auto simp: remove_participant_def run_simps split: option.split)

text \<open>
  C6. A removal shuts the user out. It succeeds exactly when both are active members and either a user who
  is not the owner leaves or the actor's role is strictly higher than the target's; otherwise nothing
  changes. After it, and however many group requests the removed user makes of which none joins this
  chat by its invite link, all others have the roles in the chat that they had, the removed user has
  none, he can neither write to the chat nor list its messages, and new messages are not addressed to him.
\<close>

theorem removal_shuts_out:
  assumes "chat_reachable d" "remove_participant now c actor target d = (out, d')"
    and "list_all (\<lambda>g. gc_actor g = target \<and> (gc_chat g = c \<longrightarrow> gc_request g \<noteq> JoinByInvite)) gs"
    and "e = group_calls gs d'"
  shows "(is_ok out \<longleftrightarrow> (\<exists>ra rt. role_of d actor c = Some ra \<and> role_of d target c = Some rt \<and>
      (if actor = target then ra \<noteq> Owner else rt < ra))) \<and>
    (if is_ok out then
       role_of d' = with_role target c None (role_of d) \<and> d'\<lparr>chat_participants := chat_participants d\<rparr> = d \<and>
       (\<forall>u. role_of e u c = (if u = target then None else role_of d u c)) \<and>
       send_message i t target c m e = (Inl (NotFound ''chat not found or not a participant''), e) \<and>
       list_messages target c cur dir n e = Inl (NotFound ''chat not found or not a participant'') \<and>
       (\<exists>us. get_chat_participants c e = Inr us \<and> target \<notin> set us)
     else d' = d)"
proof -
  have iff: "is_ok out \<longleftrightarrow> (\<exists>ra rt. role_of d actor c = Some ra \<and> role_of d target c = Some rt \<and>
      (if actor = target then ra \<noteq> Owner else rt < ra))"
    and same: "\<not> is_ok out \<Longrightarrow> d' = d" and left: "is_ok out \<Longrightarrow> d' = set_left now c target d"
    using assms(2) by (auto simp: remove_participant_run not_le split: option.splits if_splits)
  show ?thesis
  proof (cases "is_ok out")
    case True
    have roles: "role_of d' u c' = (if c' = c \<and> u = target then None else role_of d u c')" for u c'
      by (simp add: left [OF True] role_of_set_left)
    have ok: "members_ok d'"
      using remove_participant_keeps [OF chat_reachable_ok [OF assms(1)], of now c actor target] assms(2) by simp
    have calls: "members_ok e" "role_of e v c = role_of d' v c" for v
      using outsider_calls [OF ok _ assms(3)] roles assms(4) by auto
    then have none: "chat_schema e" "role_of e target c = None" using roles by (simp_all add: members_ok_def)
    have "role_of d' = with_role target c None (role_of d)" by (auto simp: fun_eq_iff roles with_role_def)
    moreover have "d'\<lparr>chat_participants := chat_participants d\<rparr> = d" by (simp add: left [OF True] set_left_def)
    moreover have "\<forall>u. role_of e u c = (if u = target then None else role_of d u c)" using calls(2) roles by simp
    ultimately show ?thesis using iff True no_role_no_access [OF none] by simp
  next
    case False
    show ?thesis by (rule conjI [OF iff]) (subst if_not_P [OF False], rule same [OF False])
  qed
qed

definition uninvited :: "group_call list" where
  "uninvited = map (\<lambda>req. \<lparr>gc_new_id = 0, gc_now = 9, gc_random = ''r'', gc_chat = 10, gc_actor = 3, gc_request = req\<rparr>)
     [AddParticipant 3 None, ChangeRole 3 Admin, SetInviteLink None]"

definition after_removal :: db where
  "after_removal = snd (remove_participant 5 10 1 3 group_of_three)"

theorem removal_shuts_out_witness:
  "role_of (group_calls uninvited after_removal) 3 10 = None \<and>
   role_of (group_calls uninvited after_removal) 1 10 = Some Owner \<and>
   fst (send_message 100 9 3 10 hello (group_calls uninvited after_removal)) =
     Inl (NotFound ''chat not found or not a participant'')"
proof -
  have run: "remove_participant 5 10 1 3 group_of_three = (Inr True, after_removal)"
    using group_of_three_roles by (simp add: remove_participant_run after_removal_def role_le_iff)
  have "list_all (\<lambda>g. gc_actor g = 3 \<and> (gc_chat g = 10 \<longrightarrow> gc_request g \<noteq> JoinByInvite)) uninvited"
    by (simp add: uninvited_def)
  from removal_shuts_out [OF group_of_three_reachable run this refl, of 100 9 hello] group_of_three_roles
  show ?thesis by simp
qed

section \<open>Changes of role\<close>

definition role_updated :: "uuid \<Rightarrow> uuid \<Rightarrow> participant_role \<Rightarrow> db \<Rightarrow> db" where
  "role_updated c u new d =
     d\<lparr>chat_participants := update_where (\<lambda>p. active_in c p \<and> cp_user_id p = u)
         (\<lambda>p. p\<lparr>cp_role := role_as_db_str new\<rparr>) (chat_participants d)\<rparr>"

lemma set_active_role_run:
  assumes "role_of d u c = Some r"
  shows "\<exists>p. set_active_role c u new d = (Inr p, role_updated c u new d)"
proof -
  obtain p where "select_one (\<lambda>p. active_in c p \<and> cp_user_id p = u) (chat_participants d) = Some p"
    using assms by (auto simp: role_of_def split: option.splits)
  then have "select_one (\<lambda>p. active_in c p \<and> cp_user_id p = u) (update_where (\<lambda>p. active_in c p \<and> cp_user_id p = u)
      (\<lambda>p. p\<lparr>cp_role := role_as_db_str new\<rparr>) (chat_participants d)) = Some (p\<lparr>cp_role := role_as_db_str new\<rparr>)"
    by (subst select_one_update_same) (auto simp: active_in_def dest: select_one_SomeD)
  then show ?thesis by (simp add: set_active_role_def Let_def detail_of_row_def role_updated_def)
qed

lemma update_participant_role_run:
  shows "role_of d actor c = Some ra \<Longrightarrow> role_of d target c = Some rt \<Longrightarrow> rt < ra \<Longrightarrow> new < ra \<Longrightarrow>
      \<exists>p. update_participant_role c actor target new d = (Inr p, role_updated c target new d)"
    and "\<not> (\<exists>ra rt. role_of d actor c = Some ra \<and> role_of d target c = Some rt \<and> rt < ra \<and> new < ra) \<Longrightarrow>
      \<exists>e. update_participant_role c actor target new d = (Inl e, d)"
  using set_active_role_run [of d target c rt new]
  by (auto simp: update_participant_role_def run_simps not_le split: option.split)

lemma role_of_updated:
  assumes "role_of d u c = Some r"
  shows "role_of (role_updated c u new d) = with_role u c (Some new) (role_of d)"
proof (intro ext)
  fix v e
  have "select_one (\<lambda>p. active_in e p \<and> cp_user_id p = v) (chat_participants (role_updated c u new d)) =
      map_option (\<lambda>p. if active_in c p \<and> cp_user_id p = u then p\<lparr>cp_role := role_as_db_str new\<rparr> else p)
        (select_one (\<lambda>p. active_in e p \<and> cp_user_id p = v) (chat_participants d))"
    unfolding role_updated_def by (simp, rule select_one_update_same) (simp add: active_in_def)
  then show "role_of (role_updated c u new d) v e = with_role u c (Some new) (role_of d) v e"
    using assms by (auto simp: role_of_def with_role_def active_in_def split: option.splits dest!: select_one_SomeD)
qed

text \<open>
  C7. A request to the role endpoint succeeds exactly when it names a role below the actor's own, not
  owner, for an active member whose role is below the actor's. Then exactly the role of that member in
  that chat becomes the one that was named; otherwise nothing changes at all. So no request of this kind
  changes who owns what.
\<close>

theorem role_change_exact:
  assumes "h_update_participant_role env auth c target role s = (out, s')"
  shows "(is_ok out \<longleftrightarrow> (\<exists>ra rt new. role = role_as_db_str new \<and> new \<noteq> Owner \<and> role_of (srv_db s) auth c = Some ra \<and>
      role_of (srv_db s) target c = Some rt \<and> rt < ra \<and> new < ra)) \<and>
    (if is_ok out then
       (\<exists>new. role = role_as_db_str new \<and>
          role_of (srv_db s') = with_role target c (Some new) (role_of (srv_db s)) \<and>
          (srv_db s')\<lparr>chat_participants := chat_participants (srv_db s)\<rparr> = srv_db s)
     else s' = s) \<and>
    (\<forall>u e. role_of (srv_db s') u e = Some Owner \<longleftrightarrow> role_of (srv_db s) u e = Some Owner)"
proof (cases "\<exists>new. role = role_as_db_str new \<and> new \<noteq> Owner")
  case False
  then have "\<not> is_ok out \<and> s' = s"
    using assms by (auto simp: h_update_participant_role_def throw_def role_from_db_str_Some split: option.splits if_splits)
  then show ?thesis using False by auto
next
  case True
  then obtain new where new: "role = role_as_db_str new" "new \<noteq> Owner" by blast
  then have h: "h_update_participant_role env auth c target role = and_then (on_db (update_participant_role c auth target new)) (\<lambda>p.
      and_then (publish_group_event env c ''participant_role_updated'' (ExtraUserRole target (role_as_db_str new))) (\<lambda>_.
      ret (200, participant_to_response p)))"
    by (simp add: h_update_participant_role_def)
  show ?thesis
  proof (cases "\<exists>ra rt. role_of (srv_db s) auth c = Some ra \<and> role_of (srv_db s) target c = Some rt \<and> rt < ra \<and> new < ra")
    case True
    then obtain ra rt where r: "role_of (srv_db s) auth c = Some ra" "role_of (srv_db s) target c = Some rt" "rt < ra" "new < ra"
      by blast
    obtain p where p: "update_participant_role c auth target new (srv_db s) = (Inr p, role_updated c target new (srv_db s))"
      using update_participant_role_run(1) [OF r] by blast
    then have "is_ok out" "srv_db s' = role_updated c target new (srv_db s)"
      using assms by (auto simp: h and_then_def on_db_def publish_group_event_def publish_quiet_def ret_def)
    moreover have "rt \<noteq> Owner" using r(3) by auto
    ultimately show ?thesis
      using r new role_of_updated [OF r(2), of new]
      by (auto simp: with_role_def) (auto simp: role_updated_def)
  next
    case no: False
    then obtain e where "update_participant_role c auth target new (srv_db s) = (Inl e, srv_db s)"
      using update_participant_role_run(2) by blast
    then have "\<not> is_ok out \<and> s' = s" using assms by (auto simp: h and_then_def on_db_def)
    then show ?thesis using no new by (auto simp: role_as_db_str_inject)
  qed
qed

definition before_promotion :: srv where
  "before_promotion = \<lparr>srv_db = group_of_three, srv_redis = empty_redis, srv_out = []\<rparr>"

theorem role_change_exact_witness:
  "role_of (srv_db (snd (h_update_participant_role quiet_redis 1 10 2 ''admin'' before_promotion))) 2 10 = Some Admin \<and>
   h_update_participant_role quiet_redis 2 10 1 ''member'' before_promotion =
     (fst (h_update_participant_role quiet_redis 2 10 1 ''member'' before_promotion), before_promotion)"
proof -
  have a: "is_ok (fst (h_update_participant_role quiet_redis 1 10 2 ''admin'' before_promotion))"
    "\<not> is_ok (fst (h_update_participant_role quiet_redis 2 10 1 ''member'' before_promotion))"
    by code_simp+
  have "''admin'' = role_as_db_str new \<longleftrightarrow> new = Admin" for new by (cases new) simp_all
  then show ?thesis
    using role_change_exact [OF prod.collapse [symmetric], of quiet_redis 1 10 2 "''admin''" before_promotion]
      role_change_exact [OF prod.collapse [symmetric], of quiet_redis 2 10 1 "''member''" before_promotion] a
    by (auto simp: with_role_def prod_eq_iff)
qed

end
