(* ===== verification/Repositories.thy ===== *)
theory Repositories
  imports Stories Keys Contacts
begin

text \<open>
  The other repository traits of \<open>crates/domain/src/\<close> as records of operations, with the PostgreSQL
  implementations as instances: stories, users, contacts and keys. (\<open>CallRepository\<close> is in Calls,
  \<open>ChatRepository\<close> in GroupContract.) A field that only reads has its state unchanged.

  The errors of the story traits are boxed; for the implementation of the code they are errors of sqlx.
\<close>

section \<open>Stories\<close>

record ('s, 'e) story_repository =
  sr_create :: "uuid \<Rightarrow> string \<Rightarrow> string \<Rightarrow> string option \<Rightarrow> string \<Rightarrow> ('s, 'e, story) op"
  sr_find_by_id :: "uuid \<Rightarrow> ('s, 'e, story option) op"
  sr_find_by_user :: "uuid \<Rightarrow> ('s, 'e, story list) op"
  sr_delete :: "uuid \<Rightarrow> uuid \<Rightarrow> ('s, 'e, unit) op"
  sr_add_privacy_exception :: "uuid \<Rightarrow> uuid \<Rightarrow> bool \<Rightarrow> ('s, 'e, unit) op"
  sr_list_privacy_exceptions :: "uuid \<Rightarrow> ('s, 'e, story_privacy_exception list) op"
  sr_remove_privacy_exception :: "uuid \<Rightarrow> uuid \<Rightarrow> ('s, 'e, unit) op"
  sr_mark_viewed :: "uuid \<Rightarrow> uuid \<Rightarrow> ('s, 'e, unit) op"
  sr_add_reaction :: "uuid \<Rightarrow> uuid \<Rightarrow> string \<Rightarrow> ('s, 'e, unit) op"
  sr_remove_reaction :: "uuid \<Rightarrow> uuid \<Rightarrow> ('s, 'e, unit) op"
  sr_get_views :: "uuid \<Rightarrow> ('s, 'e, story_view list) op"
  sr_get_views_with_user :: "uuid \<Rightarrow> ('s, 'e, story_view_with_user list) op"
  sr_has_viewed :: "uuid \<Rightarrow> uuid \<Rightarrow> ('s, 'e, bool) op"
  sr_can_user_view_story :: "uuid \<Rightarrow> uuid \<Rightarrow> ('s, 'e, bool) op"

record ('s, 'e) active_story_repository =
  ar_list_for_user :: "uuid \<Rightarrow> ('s, 'e, story_with_user list) op"
  ar_list_my_stories :: "uuid \<Rightarrow> ('s, 'e, story_with_user list) op"

definition pg_story_repository :: "uuid \<Rightarrow> timestamp \<Rightarrow> (db, sqlx_error) story_repository" where
  "pg_story_repository new_id now =
     \<lparr>sr_create = story_create new_id now, sr_find_by_id = story_find now, sr_find_by_user = story_find_by_user now,
      sr_delete = story_delete now, sr_add_privacy_exception = add_privacy_exception,
      sr_list_privacy_exceptions = list_privacy_exceptions, sr_remove_privacy_exception = remove_privacy_exception,
      sr_mark_viewed = mark_viewed new_id now, sr_add_reaction = story_add_reaction new_id now,
      sr_remove_reaction = story_remove_reaction now, sr_get_views = get_views,
      sr_get_views_with_user = get_views_with_user, sr_has_viewed = has_viewed,
      sr_can_user_view_story = can_user_view_story now\<rparr>"

definition pg_active_story_repository :: "timestamp \<Rightarrow> (db, sqlx_error) active_story_repository" where
  "pg_active_story_repository now =
     \<lparr>ar_list_for_user = list_for_user now, ar_list_my_stories = story_list_mine now\<rparr>"

section \<open>Users, contacts and keys\<close>

record 's user_repository =
  ur_create :: "user \<Rightarrow> ('s, domain_error, unit) op"
  ur_find_by_id :: "uuid \<Rightarrow> ('s, domain_error, user option) op"
  ur_find_by_phone :: "phone_number \<Rightarrow> ('s, domain_error, user option) op"
  ur_find_by_username :: "username \<Rightarrow> ('s, domain_error, user option) op"
  ur_update :: "user \<Rightarrow> ('s, domain_error, unit) op"
  ur_delete_soft :: "uuid \<Rightarrow> ('s, domain_error, unit) op"
  ur_update_last_seen :: "uuid \<Rightarrow> chrono_time \<Rightarrow> ('s, domain_error, unit) op"

definition pg_user_repository :: "user_env \<Rightarrow> timestamp \<Rightarrow> srv user_repository" where
  "pg_user_repository env now =
     \<lparr>ur_create = create_user env now, ur_find_by_id = (\<lambda>u. read_db (find_by_id env u)),
      ur_find_by_phone = (\<lambda>p. read_db (find_by_phone env p)),
      ur_find_by_username = (\<lambda>n. read_db (find_by_username env n)), ur_update = update_user_entity env now,
      ur_delete_soft = delete_soft env now, ur_update_last_seen = update_last_seen now\<rparr>"

record 's contact_repository =
  kr_create :: "contact \<Rightarrow> ('s, domain_error, unit) op"
  kr_find_by_id :: "uuid \<Rightarrow> ('s, domain_error, contact option) op"
  kr_find_by_owner_and_phone :: "uuid \<Rightarrow> phone_number \<Rightarrow> ('s, domain_error, contact option) op"
  kr_find_all_by_owner :: "uuid \<Rightarrow> ('s, domain_error, contact list) op"
  kr_find_favorites :: "uuid \<Rightarrow> ('s, domain_error, contact list) op"
  kr_update :: "contact \<Rightarrow> ('s, domain_error, unit) op"
  kr_delete :: "uuid \<Rightarrow> ('s, domain_error, unit) op"
  kr_delete_by_owner :: "uuid \<Rightarrow> ('s, domain_error, unit) op"

definition pg_contact_repository :: "user_env \<Rightarrow> db contact_repository" where
  "pg_contact_repository env =
     \<lparr>kr_create = contact_repo_create, kr_find_by_id = (\<lambda>i. query (contact_repo_find_by_id i)),
      kr_find_by_owner_and_phone = (\<lambda>ow p. query (contact_repo_find_by_owner_and_phone ow p)),
      kr_find_all_by_owner = (\<lambda>ow. query (contact_repo_find_all_by_owner env ow)),
      kr_find_favorites = (\<lambda>ow. query (find_favorites env ow)), kr_update = contact_repo_update,
      kr_delete = contact_repo_delete, kr_delete_by_owner = delete_by_owner\<rparr>"

record 's key_repository =
  yr_upsert_keys :: "uuid \<Rightarrow> string \<Rightarrow> signed_prekey \<Rightarrow> ('s, domain_error, unit) op"
  yr_add_one_time_prekeys :: "uuid \<Rightarrow> one_time_prekey list \<Rightarrow> ('s, domain_error, unit) op"
  yr_get_keys :: "uuid \<Rightarrow> ('s, domain_error, user_keys_value option) op"
  yr_get_prekey_count :: "uuid \<Rightarrow> ('s, domain_error, int) op"
  yr_is_blocked :: "uuid \<Rightarrow> uuid \<Rightarrow> ('s, domain_error, bool) op"
  yr_get_public_key_bundle :: "uuid \<Rightarrow> ('s, domain_error, key_bundle option) op"

definition pg_key_repository :: "timestamp \<Rightarrow> db key_repository" where
  "pg_key_repository now =
     \<lparr>yr_upsert_keys = upsert_keys now, yr_add_one_time_prekeys = add_one_time_prekeys now,
      yr_get_keys = (\<lambda>u. query (get_keys u)), yr_get_prekey_count = (\<lambda>u. query (get_prekey_count u)),
      yr_is_blocked = (\<lambda>u v. query (is_blocked u v)), yr_get_public_key_bundle = get_public_key_bundle now\<rparr>"

section \<open>What is seen stays seen\<close>

text \<open>The requests of users to a story repository, and the question that the rings of the feed ask.\<close>

datatype story_request =
    CreateStory uuid string string "string option" string
  | DeleteStory uuid uuid
  | AddException uuid uuid bool
  | RemoveException uuid uuid
  | MarkViewed uuid uuid
  | AddReaction uuid uuid string
  | RemoveReaction uuid uuid

fun do_story_request :: "('s, 'e) story_repository \<Rightarrow> story_request \<Rightarrow> 's \<Rightarrow> ('e + unit) \<times> 's" where
  "do_story_request R (CreateStory u url ty caption privacy) s =
     (case sr_create R u url ty caption privacy s of (Inl e, s') \<Rightarrow> (Inl e, s') | (Inr x, s') \<Rightarrow> (Inr (), s'))"
| "do_story_request R (DeleteStory i u) s = sr_delete R i u s"
| "do_story_request R (AddException i u b) s = sr_add_privacy_exception R i u b s"
| "do_story_request R (RemoveException i u) s = sr_remove_privacy_exception R i u s"
| "do_story_request R (MarkViewed i u) s = sr_mark_viewed R i u s"
| "do_story_request R (AddReaction i u x) s = sr_add_reaction R i u x s"
| "do_story_request R (RemoveReaction i u) s = sr_remove_reaction R i u s"

definition seen_request :: "uuid \<Rightarrow> uuid \<Rightarrow> story_request \<Rightarrow> bool" where
  "seen_request i u req \<longleftrightarrow> req = MarkViewed i u \<or> (\<exists>x. req = AddReaction i u x)"

locale seen_stories =
  fixes repos :: "'t \<Rightarrow> ('s, 'e) story_repository"
  assumes asks: "snd (sr_has_viewed (repos t) i u s) = s \<and>
      fst (sr_has_viewed (repos t) i u s) = fst (sr_has_viewed (repos t') i u s)"
    and keeps: "fst (sr_has_viewed (repos t) i u s) = Inr True \<Longrightarrow>
      fst (sr_has_viewed (repos t) i u (snd (do_story_request (repos t') req s))) = Inr True"
    and marks: "seen_request i u req \<Longrightarrow> fst (do_story_request (repos t) req s) = Inr () \<Longrightarrow>
      fst (sr_has_viewed (repos t) i u (snd (do_story_request (repos t) req s))) = Inr True"
begin

fun story_requests :: "('t \<times> story_request) list \<Rightarrow> 's \<Rightarrow> 's" where
  "story_requests [] s = s"
| "story_requests ((t, req) # rs) s = story_requests rs (snd (do_story_request (repos t) req s))"

lemma stays_seen:
  "fst (sr_has_viewed (repos t) i u s) = Inr True \<Longrightarrow>
   fst (sr_has_viewed (repos t) i u (story_requests rs s)) = Inr True"
  by (induction rs s rule: story_requests.induct) (simp_all add: keeps)

text \<open>From the first view or reaction that succeeded on, the story is seen, whatever is asked in between.\<close>

lemma seen_for_good:
  assumes "seen_request i u req" "fst (do_story_request (repos t) req s) = Inr ()"
  shows "fst (sr_has_viewed (repos t') i u (story_requests rs (snd (do_story_request (repos t) req s)))) = Inr True"
  using stays_seen [OF marks [OF assms]] asks by metis

end

lemma viewed_upsert:
  assumes "upsert_view new_id now i u x upd d = Inr d'" "\<And>v. view_by i' u' (upd v) = view_by i' u' v"
  shows "viewed_by d' i' u' \<longleftrightarrow> viewed_by d i' u' \<or> (i' = i \<and> u' = u)"
proof (cases "exists_where (view_by i u) (story_views d)")
  case True
  then have "viewed_by d' i' u' = viewed_by d i' u'"
    using assms by (auto simp: upsert_view_def viewed_by_def exists_where_update_same)
  then show ?thesis using True by (auto simp: viewed_by_def)
next
  case False
  then have "story_views d' = story_views d @
      [\<lparr>sv_id = new_id, sv_story_id = i, sv_viewer_id = u, sv_reaction = x, sv_viewed_at = now\<rparr>]"
    using assms(1) by (auto simp: upsert_view_def split: if_splits)
  then show ?thesis by (auto simp: viewed_by_def exists_where_iff view_by_def)
qed

lemma viewed_execute:
  assumes "\<And>v. view_by i' u' (upd v) = view_by i' u' v"
  shows "viewed_by (snd (execute (upsert_view new_id now i u x upd) d)) i' u' \<longleftrightarrow>
    viewed_by d i' u' \<or> (fst (execute (upsert_view new_id now i u x upd) d) = Inr () \<and> i' = i \<and> u' = u)"
  using viewed_upsert [OF _ assms] by (cases "upsert_view new_id now i u x upd d") (auto simp: execute_def)

lemma view_by_same [simp]:
  "view_by i u (v\<lparr>sv_viewed_at := t\<rparr>) = view_by i u v"
  "view_by i u (v\<lparr>sv_reaction := y\<rparr>) = view_by i u v"
  by (simp_all add: view_by_def)

lemma viewed_remove_reaction: "viewed_by (snd (story_remove_reaction now i u d)) i' u' = viewed_by d i' u'"
  by (simp add: story_remove_reaction_def viewed_by_def exists_where_update_same)

lemma viewed_cong: "story_views d' = story_views d \<Longrightarrow> viewed_by d' = viewed_by d"
  by (simp add: viewed_by_def fun_eq_iff)

lemma views_elsewhere:
  "story_views (snd (story_create new_id now u url ty caption privacy d)) = story_views d"
  "story_views (snd (story_delete now i u d)) = story_views d"
  "story_views (snd (add_privacy_exception i u b d)) = story_views d"
  "story_views (snd (remove_privacy_exception i u d)) = story_views d"
  by (simp_all add: story_create_def story_delete_def add_privacy_exception_def remove_privacy_exception_def
      execute_def Let_def split: sum.split)

lemma viewed_request:
  "viewed_by (snd (do_story_request (pg_story_repository new_id now) req d)) i u \<longleftrightarrow>
     viewed_by d i u \<or>
     (seen_request i u req \<and> fst (do_story_request (pg_story_repository new_id now) req d) = Inr ())"
proof (cases req)
  case (CreateStory v url ty caption privacy)
  have "snd (do_story_request (pg_story_repository new_id now) req d) =
      snd (story_create new_id now v url ty caption privacy d)"
    by (simp add: CreateStory pg_story_repository_def split: prod.split sum.split)
  then show ?thesis by (simp add: CreateStory seen_request_def viewed_cong [OF views_elsewhere(1)])
qed (auto simp: pg_story_repository_def seen_request_def mark_viewed_def story_add_reaction_def viewed_execute
  viewed_remove_reaction viewed_cong [OF views_elsewhere(2)] viewed_cong [OF views_elsewhere(3)]
  viewed_cong [OF views_elsewhere(4)])

lemma pg_has_viewed: "sr_has_viewed (pg_story_repository new_id now) i u d = (Inr (viewed_by d i u), d)"
  by (simp add: pg_story_repository_def has_viewed_def query_def)

interpretation pg_views: seen_stories "\<lambda>(new_id, now). pg_story_repository new_id now"
  by unfold_locales (auto simp: pg_has_viewed viewed_request split: prod.splits)

text \<open>The code's own repository, at any times and with any ids.\<close>

lemma pg_seen_for_good:
  assumes "seen_request i u req" "fst (do_story_request (pg_story_repository new_id now) req d) = Inr ()"
  shows "fst (has_viewed i u (pg_views.story_requests rs (snd (do_story_request (pg_story_repository new_id now) req d)))) =
    Inr True"
  using pg_views.seen_for_good [of i u req "(new_id, now)" d "(new_id, now)" rs] assms
  by (simp add: pg_story_repository_def has_viewed_def)

end
