(* ===== verification/ApiWire.thy ===== *)
theory ApiWire
  imports Json AuthProps GroupChats Contacts Stories Keys Attachments Turn
begin

text \<open>
  The JSON of the other requests and responses: \<open>dto.rs\<close> of the modules of \<open>crates/api/src/handlers/\<close>
  (groups, contacts, stories, users, keys, blocks, attachments), the structs of \<open>auth/mod.rs\<close> and
  \<open>calls/mod.rs\<close>, and the objects that handlers build with \<open>json!\<close>. The reader of a request gives the
  arguments of its handler.
\<close>

section \<open>Authentication\<close>

text \<open>\<open>deserialize_string_or_number\<close>: what \<open>deserialize_any\<close> gives the visitor.\<close>

definition json_value_of :: "wjson \<Rightarrow> json_value" where
  "json_value_of j =
     (case j of WStr s \<Rightarrow> JString s | WInt n \<Rightarrow> JInt n | WFloat s \<Rightarrow> JFloat s | _ \<Rightarrow> JOther)"

definition from_string_or_number :: "wjson \<Rightarrow> string option" where
  "from_string_or_number j = string_or_number (json_value_of j)"

definition read_device_parts :: "wjson \<Rightarrow> device_parts option" where
  "read_device_parts j =
     Option.bind (optional_field ''device_id'' from_str j) (\<lambda>i.
     Option.bind (optional_field ''device_name'' from_str j) (\<lambda>name.
     Option.bind (optional_field ''device_type'' from_str j) (\<lambda>ty.
     Option.bind (optional_field ''push_token'' from_str j) (\<lambda>tok.
     Some \<lparr>dp_id = i, dp_name = name, dp_type = ty, dp_push_token = tok\<rparr>))))"

definition read_phone_code :: "wjson \<Rightarrow> (string \<times> string) option" where
  "read_phone_code j =
     Option.bind (required_field ''phone'' from_string_or_number j) (\<lambda>phone.
     map_option (Pair phone) (required_field ''code'' from_string_or_number j))"

definition read_register_request :: "wjson \<Rightarrow> (string \<times> string \<times> string \<times> string) option" where
  "read_register_request j =
     Option.bind (required_field ''phone'' from_string_or_number j) (\<lambda>phone.
     Option.bind (required_field ''device_id'' from_str j) (\<lambda>i.
     Option.bind (required_field ''device_name'' from_str j) (\<lambda>name.
     Option.bind (required_field ''device_type'' from_str j) (\<lambda>ty. Some (phone, i, name, ty)))))"

definition read_verify_phone_request :: "wjson \<Rightarrow> (string \<times> string \<times> device_parts) option" where
  "read_verify_phone_request j =
     Option.bind (read_phone_code j) (\<lambda>(phone, code).
     map_option (\<lambda>p. (phone, code, p)) (read_device_parts j))"

definition read_login_request :: "wjson \<Rightarrow> (string \<times> string \<times> string \<times> string \<times> string option) option" where
  "read_login_request j =
     Option.bind (read_register_request j) (\<lambda>(phone, i, name, ty).
     map_option (\<lambda>tok. (phone, i, name, ty, tok)) (optional_field ''push_token'' from_str j))"

definition read_login_verify_request :: "wjson \<Rightarrow> (string \<times> string \<times> device_parts) option" where
  "read_login_verify_request j =
     Option.bind (read_phone_code j) (\<lambda>(phone, code).
     map_option (\<lambda>p. (phone, code, p)) (read_device_parts j))"

definition read_refresh_request :: "wjson \<Rightarrow> string option" where
  "read_refresh_request j = required_field ''refresh_token'' from_str j"

definition read_recover_request :: "wjson \<Rightarrow> string option" where
  "read_recover_request j = required_field ''phone'' from_string_or_number j"

definition read_recover_verify_request :: "wjson \<Rightarrow> (string \<times> string) option" where
  "read_recover_verify_request j = read_phone_code j"

definition read_two_factor_setup_request :: "wjson \<Rightarrow> string option" where
  "read_two_factor_setup_request j = required_field ''code'' from_string_or_number j"

definition read_two_factor_challenge_request :: "wjson \<Rightarrow> (string \<times> string \<times> device_parts) option" where
  "read_two_factor_challenge_request j =
     Option.bind (required_field ''temp_token'' from_str j) (\<lambda>token.
     Option.bind (required_field ''code'' from_string_or_number j) (\<lambda>code.
     map_option (\<lambda>p. (token, code, p)) (read_device_parts j)))"

definition auth_response_json :: "wire_env \<Rightarrow> auth_response \<Rightarrow> wjson" where
  "auth_response_json w a =
     WObj [(''access_token'', WStr (ar_access_token a)), (''refresh_token'', WStr (ar_refresh_token a)),
           (''expires_in'', WInt (ar_expires_in a)),
           (''user'', WObj [(''id'', to_uuid w (ar_user_id a)), (''phone'', WStr (ar_phone a)),
             (''username'', to_opt WStr (ar_username a))])]"

definition session_response_json :: "wire_env \<Rightarrow> session_response \<Rightarrow> wjson" where
  "session_response_json w s =
     WObj [(''id'', to_uuid w (sn_id s)), (''device_name'', WStr (sn_device_name s)),
           (''device_type'', WStr (sn_device_type s)), (''ip_address'', to_opt WStr (sn_ip_address s)),
           (''last_active_at'', to_rfc3339 w (sn_last_active_at s)), (''is_current'', WBool (sn_is_current s))]"

fun auth_body_json :: "wire_env \<Rightarrow> auth_body \<Rightarrow> wjson" where
  "auth_body_json w (MessageBody m) = WObj [(''message'', WStr m)]"
| "auth_body_json w (TokensBody a) = auth_response_json w a"
| "auth_body_json w (TwoFaBody t) = WObj [(''two_fa_required'', WBool True), (''temp_token'', WStr t)]"
| "auth_body_json w (RecoverBody t) = WObj [(''recover_token'', WStr t)]"
| "auth_body_json w (SetupBody c) = WObj [(''message'', WStr ''2FA setup code generated''), (''code'', WStr c)]"
| "auth_body_json w (SessionsBody ss) = WObj [(''sessions'', WArr (map (session_response_json w) ss))]"

section \<open>Groups\<close>

definition read_add_participant_request :: "wire_env \<Rightarrow> wjson \<Rightarrow> (uuid \<times> string option) option" where
  "read_add_participant_request w j =
     Option.bind (required_field ''user_id'' (from_uuid w) j) (\<lambda>u.
     map_option (Pair u) (optional_field ''encryption_key_enc'' from_str j))"

definition read_update_role_request :: "wjson \<Rightarrow> string option" where
  "read_update_role_request j = required_field ''role'' from_str j"

definition read_key_entry :: "wire_env \<Rightarrow> wjson \<Rightarrow> (uuid \<times> string) option" where
  "read_key_entry w j =
     Option.bind (required_field ''user_id'' (from_uuid w) j) (\<lambda>u.
     map_option (Pair u) (required_field ''encryption_key_enc'' from_str j))"

definition read_rotate_key_request :: "wire_env \<Rightarrow> wjson \<Rightarrow> (uuid \<times> string) list option" where
  "read_rotate_key_request w j = required_field ''keys'' (from_list (read_key_entry w)) j"

definition read_transfer_ownership_request :: "wire_env \<Rightarrow> wjson \<Rightarrow> uuid option" where
  "read_transfer_ownership_request w j = required_field ''new_owner_id'' (from_uuid w) j"

text \<open>\<open>#[serde(skip_serializing_if = "Option::is_none")]\<close>\<close>

definition present_field :: "string \<Rightarrow> ('a \<Rightarrow> wjson) \<Rightarrow> 'a option \<Rightarrow> (string \<times> wjson) list" where
  "present_field n f v = (case v of None \<Rightarrow> [] | Some x \<Rightarrow> [(n, f x)])"

definition participant_response_json :: "wire_env \<Rightarrow> participant_response \<Rightarrow> wjson" where
  "participant_response_json w p =
     WObj ([(''user_id'', to_uuid w (pr_user_id p)), (''chat_id'', to_uuid w (pr_chat_id p)), (''role'', WStr (pr_role p))] @
       present_field ''encryption_key_enc'' WStr (pr_encryption_key_enc p) @
       [(''added_by'', to_opt (to_uuid w) (pr_added_by p)), (''joined_at'', to_time w (pr_joined_at p))])"

definition add_participant_response_json :: "wire_env \<Rightarrow> participant_response \<times> bool \<Rightarrow> wjson" where
  "add_participant_response_json w r =
     WObj [(''participant'', participant_response_json w (fst r)), (''key_rotation_required'', WBool (snd r))]"

definition remove_participant_response_json :: "bool \<times> bool \<Rightarrow> wjson" where
  "remove_participant_response_json r = WObj [(''removed'', WBool (fst r)), (''key_rotation_required'', WBool (snd r))]"

definition update_role_response_json :: "wire_env \<Rightarrow> participant_response \<Rightarrow> wjson" where
  "update_role_response_json w p = WObj [(''participant'', participant_response_json w p)]"

definition list_participants_response_json :: "wire_env \<Rightarrow> participant_response list \<times> nat \<Rightarrow> wjson" where
  "list_participants_response_json w r =
     WObj [(''participants'', WArr (map (participant_response_json w) (fst r))), (''count'', WInt (int (snd r)))]"

definition invite_link_response_json :: "string \<Rightarrow> wjson" where
  "invite_link_response_json l = WObj [(''invite_link'', WStr l)]"

definition delete_invite_link_response_json :: "bool \<Rightarrow> wjson" where
  "delete_invite_link_response_json b = WObj [(''deleted'', WBool b)]"

definition join_group_response_json :: "wire_env \<Rightarrow> participant_response \<times> bool \<Rightarrow> wjson" where
  "join_group_response_json w r =
     WObj [(''participant'', participant_response_json w (fst r)), (''key_rotation_required'', WBool (snd r))]"

definition rotate_key_response_json :: "nat \<Rightarrow> wjson" where
  "rotate_key_response_json n = WObj [(''updated_count'', WInt (int n))]"

definition transfer_ownership_response_json :: "bool \<Rightarrow> wjson" where
  "transfer_ownership_response_json b = WObj [(''transferred'', WBool b)]"

section \<open>Contacts, users and blocks\<close>

definition contact_response_json :: "wire_env \<Rightarrow> contact_response \<Rightarrow> wjson" where
  "contact_response_json w c =
     WObj [(''id'', to_uuid w (contact_response.cr_id c)), (''contact_id'', to_opt (to_uuid w) (cr_contact_id c)),
           (''phone'', WStr (cr_phone c)), (''nickname'', to_opt WStr (cr_nickname c)),
           (''is_favorite'', WBool (cr_is_favorite c)), (''created_at'', to_rfc3339 w (cr_created_at c))]"

definition read_sync_phones_request :: "wjson \<Rightarrow> string list option" where
  "read_sync_phones_request j = required_field ''phones'' (from_list from_str) j"

definition sync_match_json :: "wire_env \<Rightarrow> sync_match \<Rightarrow> wjson" where
  "sync_match_json w m =
     WObj [(''hash'', WStr (sm_hash m)), (''user_id'', to_uuid w (sm_user_id m)),
           (''username'', to_opt WStr (sm_username m)), (''display_name'', to_opt WStr (sm_display_name m))]"

definition sync_phones_response_json :: "wire_env \<Rightarrow> sync_match list \<Rightarrow> wjson" where
  "sync_phones_response_json w ms = WObj [(''matches'', WArr (map (sync_match_json w) ms))]"

definition read_create_contact_request :: "wjson \<Rightarrow> (string \<times> string option) option" where
  "read_create_contact_request j =
     Option.bind (required_field ''phone'' from_str j) (\<lambda>phone.
     map_option (Pair phone) (optional_field ''nickname'' from_str j))"

definition read_update_contact_request :: "wjson \<Rightarrow> (string option \<times> bool option) option" where
  "read_update_contact_request j =
     Option.bind (optional_field ''nickname'' from_str j) (\<lambda>nickname.
     map_option (Pair nickname) (optional_field ''is_favorite'' from_bool j))"

definition user_search_result_json :: "wire_env \<Rightarrow> user_search_result \<Rightarrow> wjson" where
  "user_search_result_json w u =
     WObj [(''id'', to_uuid w (sr_id u)), (''username'', to_opt WStr (sr_username u)),
           (''display_name'', WStr (sr_display_name u)), (''avatar_url'', to_opt WStr (sr_avatar_url u))]"

definition user_profile_response_json :: "wire_env \<Rightarrow> profile \<Rightarrow> wjson" where
  "user_profile_response_json w p =
     WObj [(''id'', to_uuid w (pf_id p)), (''username'', to_opt WStr (pf_username p)),
           (''display_name'', WStr (pf_display_name p)), (''bio'', to_opt WStr (pf_bio p)),
           (''avatar_url'', to_opt WStr (pf_avatar_url p)), (''status_text'', to_opt WStr (pf_status_text p))]"

definition block_response_json :: "wire_env \<Rightarrow> block_response \<Rightarrow> wjson" where
  "block_response_json w b =
     WObj [(''id'', to_uuid w (br_id b)), (''blocked_id'', to_uuid w (br_blocked_id b)),
           (''created_at'', to_rfc3339 w (br_created_at b))]"

definition block_list_response_json :: "wire_env \<Rightarrow> block_response list \<Rightarrow> wjson" where
  "block_list_response_json w bs = WObj [(''blocks'', WArr (map (block_response_json w) bs))]"

text \<open>The body of an answer that is an error text or a value.\<close>

definition answer_json :: "('a \<Rightarrow> wjson) \<Rightarrow> string + 'a \<Rightarrow> wjson" where
  "answer_json f a = (case a of Inl e \<Rightarrow> WObj [(''error'', WStr e)] | Inr x \<Rightarrow> f x)"

section \<open>Stories\<close>

definition read_create_story_request :: "wire_env \<Rightarrow> wjson \<Rightarrow> create_story_request option" where
  "read_create_story_request w j =
     Option.bind (required_field ''content_url'' from_str j) (\<lambda>url.
     Option.bind (required_field ''content_type'' from_str j) (\<lambda>ty.
     Option.bind (optional_field ''caption'' from_str j) (\<lambda>caption.
     Option.bind (required_field ''privacy'' from_str j) (\<lambda>privacy.
     Option.bind (optional_field ''exceptions'' (from_list (from_uuid w)) j) (\<lambda>exceptions.
     Some \<lparr>cr_content_url = url, cr_content_type = ty, cr_caption = caption, cr_privacy = privacy,
           cr_exceptions = exceptions\<rparr>)))))"

definition create_story_response_json :: "wire_env \<Rightarrow> uuid \<times> timestamp \<Rightarrow> wjson" where
  "create_story_response_json w r = WObj [(''id'', to_uuid w (fst r)), (''expires_at'', to_rfc3339 w (snd r))]"

definition user_story_item_json :: "wire_env \<Rightarrow> user_story_item \<Rightarrow> wjson" where
  "user_story_item_json w s =
     WObj [(''id'', to_uuid w (si_id s)), (''content_url'', WStr (si_content_url s)),
           (''content_type'', WStr (si_content_type s)), (''caption'', to_opt WStr (si_caption s)),
           (''privacy'', WStr (si_privacy s)), (''created_at'', to_rfc3339 w (si_created_at s)),
           (''expires_at'', to_rfc3339 w (si_expires_at s)), (''has_viewed'', WBool (si_has_viewed s))]"

definition grouped_stories_json :: "wire_env \<Rightarrow> grouped_stories \<Rightarrow> wjson" where
  "grouped_stories_json w g =
     WObj [(''user_id'', to_uuid w (gr_user_id g)), (''username'', to_opt WStr (gr_username g)),
           (''display_name'', to_opt WStr (gr_display_name g)), (''avatar_url'', to_opt WStr (gr_avatar_url g)),
           (''stories'', WArr (map (user_story_item_json w) (gr_stories g)))]"

definition story_with_user_json :: "wire_env \<Rightarrow> story_with_user \<Rightarrow> wjson" where
  "story_with_user_json w s =
     WObj [(''id'', to_uuid w (sw_id s)), (''user_id'', to_uuid w (sw_user_id s)),
           (''content_url'', WStr (sw_content_url s)), (''content_type'', WStr (sw_content_type s)),
           (''caption'', to_opt WStr (sw_caption s)), (''privacy'', WStr (sw_privacy s)),
           (''created_at'', to_rfc3339 w (sw_created_at s)), (''expires_at'', to_rfc3339 w (sw_expires_at s)),
           (''username'', to_opt WStr (sw_username s)), (''display_name'', to_opt WStr (sw_display_name s)),
           (''avatar_url'', to_opt WStr (sw_avatar_url s)), (''has_viewed'', WBool (sw_has_viewed s))]"

definition read_react_to_story_request :: "wjson \<Rightarrow> string option" where
  "read_react_to_story_request j = required_field ''reaction'' from_str j"

definition story_view_response_json :: "wire_env \<Rightarrow> story_view_with_user \<Rightarrow> wjson" where
  "story_view_response_json w v =
     WObj [(''viewer_id'', to_uuid w (vu_viewer_id v)), (''display_name'', to_opt WStr (vu_display_name v)),
           (''avatar_url'', to_opt WStr (vu_avatar_url v)), (''reaction'', to_opt WStr (vu_reaction v)),
           (''viewed_at'', to_rfc3339 w (vu_viewed_at v))]"

section \<open>Keys\<close>

definition read_signed_prekey :: "wjson \<Rightarrow> signed_prekey option" where
  "read_signed_prekey j =
     Option.bind (required_field ''id'' from_i32 j) (\<lambda>i.
     Option.bind (required_field ''key'' from_str j) (\<lambda>key.
     Option.bind (required_field ''signature'' from_str j) (\<lambda>sig.
     Some \<lparr>sp_id = i, sp_key = key, sp_signature = sig\<rparr>)))"

definition read_one_time_prekey :: "wjson \<Rightarrow> one_time_prekey option" where
  "read_one_time_prekey j =
     Option.bind (required_field ''id'' from_i32 j) (\<lambda>i.
     Option.bind (required_field ''key'' from_str j) (\<lambda>key. Some \<lparr>op_id = i, op_key = key\<rparr>))"

definition read_upload_keys_request :: "wjson \<Rightarrow> (string \<times> signed_prekey \<times> one_time_prekey list) option" where
  "read_upload_keys_request j =
     Option.bind (required_field ''identity_key'' from_str j) (\<lambda>identity.
     Option.bind (required_field ''signed_prekey'' read_signed_prekey j) (\<lambda>sp.
     Option.bind (default_field ''one_time_prekeys'' (from_list read_one_time_prekey) [] j) (\<lambda>ps.
     Some (identity, sp, ps))))"

definition signed_prekey_json :: "signed_prekey \<Rightarrow> wjson" where
  "signed_prekey_json sp =
     WObj [(''id'', WInt (sp_id sp)), (''key'', WStr (sp_key sp)), (''signature'', WStr (sp_signature sp))]"

definition one_time_prekey_json :: "one_time_prekey \<Rightarrow> wjson" where
  "one_time_prekey_json p = WObj [(''id'', WInt (op_id p)), (''key'', WStr (op_key p))]"

definition upload_keys_response_json :: "int \<Rightarrow> wjson" where
  "upload_keys_response_json n = WObj [(''prekey_count'', WInt n)]"

definition prekey_count_response_json :: "int \<Rightarrow> wjson" where
  "prekey_count_response_json n = WObj [(''count'', WInt n)]"

text \<open>\<open>counted\<close> is the body of the count that the handler answers with.\<close>

fun key_body_json :: "(int \<Rightarrow> wjson) \<Rightarrow> key_body \<Rightarrow> wjson" where
  "key_body_json counted (KeyError e) = WObj [(''error'', WStr e)]"
| "key_body_json counted (KeyCount n) = counted n"
| "key_body_json counted (KeyBundle identity sp p) =
     WObj [(''identity_key'', WStr identity), (''signed_prekey'', signed_prekey_json sp),
           (''one_time_prekey'', to_opt one_time_prekey_json p)]"
| "key_body_json counted (KeyFingerprint fp yours theirs) =
     WObj [(''fingerprint'', WStr fp), (''your_key'', WStr yours), (''their_key'', WStr theirs),
           (''key_changed'', WNull), (''changed_at'', WNull)]"

section \<open>Attachments and TURN\<close>

fun from_i64 :: "wjson \<Rightarrow> int option" where
  "from_i64 (WInt n) = (if - (2 ^ 63) \<le> n \<and> n < 2 ^ 63 then Some n else None)"
| "from_i64 _ = None"

definition read_upload_url_request :: "wire_env \<Rightarrow> wjson \<Rightarrow> upload_url_request option" where
  "read_upload_url_request w j =
     Option.bind (required_field ''file_type'' from_str j) (\<lambda>ty.
     Option.bind (required_field ''file_size'' from_i64 j) (\<lambda>size.
     Option.bind (optional_field ''chat_id'' (from_uuid w) j) (\<lambda>chat.
     Option.bind (optional_field ''file_name'' from_str j) (\<lambda>name.
     Some \<lparr>ur_file_type = ty, ur_file_size = size, ur_chat_id = chat, ur_file_name = name\<rparr>))))"

definition upload_url_response_json :: "wire_env \<Rightarrow> upload_url_response \<Rightarrow> wjson" where
  "upload_url_response_json w r =
     WObj [(''upload_url'', WStr (us_upload_url r)), (''file_url'', WStr (us_file_url r)),
           (''attachment_id'', to_uuid w (us_attachment_id r)), (''expires_at'', to_time w (us_url_expires_at r))]"

definition read_confirm_attachment_request :: "wire_env \<Rightarrow> wjson \<Rightarrow> confirm_attachment_request option" where
  "read_confirm_attachment_request w j =
     Option.bind (required_field ''attachment_id'' (from_uuid w) j) (\<lambda>a.
     Option.bind (required_field ''message_id'' (from_uuid w) j) (\<lambda>m.
     Option.bind (optional_field ''encryption_key_enc'' from_str j) (\<lambda>key.
     Option.bind (optional_field ''encryption_iv'' from_str j) (\<lambda>iv.
     Some \<lparr>cf_attachment_id = a, cf_message_id = m, cf_encryption_key_enc = key, cf_encryption_iv = iv\<rparr>))))"

definition ice_server_json :: "ice_server \<Rightarrow> wjson" where
  "ice_server_json s =
     WObj ([(''urls'', WArr (map WStr (is_urls s)))] @ present_field ''username'' WStr (is_username s) @
       present_field ''credential'' WStr (is_credential s))"

definition turn_credentials_response_json :: "turn_credentials_response \<Rightarrow> wjson" where
  "turn_credentials_response_json r =
     WObj [(''ice_servers'', WArr (map ice_server_json (tr_ice_servers r))), (''expires_at'', WInt (sint (tr_expires_at r)))]"

section \<open>Lemmas\<close>

lemma prekeys_roundtrip:
  "- (2 ^ 31) \<le> sp_id sp \<Longrightarrow> sp_id sp < 2 ^ 31 \<Longrightarrow> read_signed_prekey (signed_prekey_json sp) = Some sp"
  "- (2 ^ 31) \<le> op_id p \<Longrightarrow> op_id p < 2 ^ 31 \<Longrightarrow> read_one_time_prekey (one_time_prekey_json p) = Some p"
  by (simp_all add: read_signed_prekey_def signed_prekey_json_def read_one_time_prekey_def one_time_prekey_json_def
      field_simps del: field.simps)

text \<open>
  The bundle of a user has the form of an upload: another server would store the same identity key and signed prekey
  from it, and no one-time prekeys, since the field has another name.
\<close>

lemma bundle_as_upload:
  assumes "- (2 ^ 31) \<le> sp_id sp" "sp_id sp < 2 ^ 31"
  shows "read_upload_keys_request (key_body_json counted (KeyBundle identity sp p)) = Some (identity, sp, [])"
  using prekeys_roundtrip(1) [OF assms]
  by (simp add: read_upload_keys_request_def default_field_def field_simps del: field.simps)

text \<open>A member without a group key has no field \<open>encryption_key_enc\<close>, and a client reads it back as no key.\<close>

lemma participant_key_roundtrip:
  "optional_field ''encryption_key_enc'' from_str (participant_response_json w p) = Some (pr_encryption_key_enc p)"
  by (cases "pr_encryption_key_enc p")
    (simp_all add: participant_response_json_def present_field_def field_simps del: field.simps)

text \<open>
  The tokens of a login can be used as they come: the refresh token of a response is the one that a refresh
  request made from the same object carries.
\<close>

lemma refresh_from_response:
  "read_refresh_request (auth_body_json w (TokensBody a)) = Some (ar_refresh_token a)"
  by (simp add: read_refresh_request_def auth_response_json_def field_simps del: field.simps)

text \<open>Numbers are accepted as codes and phones, but a phone number that is sent as a number has no plus sign.\<close>

lemma numeric_code_accepted: "from_string_or_number (WInt n) = Some (int_to_string n)"
  by (simp add: from_string_or_number_def json_value_of_def)

lemma numeric_phone_has_no_plus:
  assumes "read_recover_request (WObj [(''phone'', WInt n)]) = Some p"
  shows "\<exists>e. phone_number_new p = Inl (Validation e)"
proof -
  have "string_or_number (JInt n) = Some p"
    using assms by (simp add: read_recover_request_def field_simps from_string_or_number_def json_value_of_def del: field.simps)
  then show ?thesis using numeric_phone_rejected by blast
qed

end
