(* ===== verification/RepoTests.thy ===== *)
theory RepoTests
  imports ApiWire
begin

text \<open>
  The tests of the repository on the model: \<open>crates/infrastructure/src/repositories/user_tests.rs\<close> and
  \<open>contact_tests.rs\<close>, the tests of the value objects (\<open>crates/domain/src/user/value_objects.rs\<close>) and of the
  flexible strings (\<open>crates/api/src/handlers/auth/mod.rs\<close>). A test is a boolean that is false when an
  \<open>expect\<close>, an \<open>unwrap\<close> or an assertion of it fails. They pass with every id and at every time that the code
  could draw, with every hash of a phone number, and whatever Unicode counts as alphanumeric.
\<close>

section \<open>Users\<close>

text \<open>An operation that is expected to succeed, and an option that is unwrapped.\<close>

definition expect :: "('s, 'e, 'a) op \<Rightarrow> ('a \<Rightarrow> 's \<Rightarrow> bool) \<Rightarrow> 's \<Rightarrow> bool" where
  "expect f k s = (case f s of (Inl e, s') \<Rightarrow> False | (Inr x, s') \<Rightarrow> k x s')"

definition unwrap :: "('a \<Rightarrow> 's \<Rightarrow> bool) \<Rightarrow> 'a option \<Rightarrow> 's \<Rightarrow> bool" where
  "unwrap k v s = (case v of None \<Rightarrow> False | Some x \<Rightarrow> k x s)"

definition with_value :: "'e + 'a \<Rightarrow> ('a \<Rightarrow> 's \<Rightarrow> bool) \<Rightarrow> 's \<Rightarrow> bool" where
  "with_value v k s = (case v of Inl e \<Rightarrow> False | Inr x \<Rightarrow> k x s)"

definition new_test_user ::
  "user_env \<Rightarrow> (string \<Rightarrow> string) \<Rightarrow> uuid \<Rightarrow> timestamp \<Rightarrow> string \<Rightarrow> phone_number \<Rightarrow> email option \<Rightarrow> (user \<Rightarrow> srv \<Rightarrow> bool) \<Rightarrow> srv \<Rightarrow> bool"
where
  "new_test_user env hash i now name phone em k =
     with_value (username_new (ue_alphanumeric env) name) (\<lambda>un. k (user_new hash i (of_micros now) (Some un) phone em))"

definition test_create_user :: "user_env \<Rightarrow> (string \<Rightarrow> string) \<Rightarrow> uuid \<Rightarrow> timestamp \<Rightarrow> srv \<Rightarrow> bool" where
  "test_create_user env hash i now =
     with_value (phone_number_new ''+573001111111'') (\<lambda>phone.
     with_value (email_new ''test@example.com'') (\<lambda>em.
     new_test_user env hash i now ''testuser_create'' phone (Some em) (\<lambda>user.
     expect (create_user env now user) (\<lambda>_.
     expect (read_db (find_by_id env (usr_id user))) (unwrap (\<lambda>found s.
       phone_str (usr_phone found) = ''+573001111111''))))))"

definition test_find_by_phone :: "user_env \<Rightarrow> (string \<Rightarrow> string) \<Rightarrow> uuid \<Rightarrow> timestamp \<Rightarrow> srv \<Rightarrow> bool" where
  "test_find_by_phone env hash i now =
     with_value (phone_number_new ''+573001222222'') (\<lambda>phone.
     new_test_user env hash i now ''testuser_phone'' phone None (\<lambda>user.
     expect (create_user env now user) (\<lambda>_.
     expect (read_db (find_by_phone env phone)) (unwrap (\<lambda>found s.
       phone_str (usr_phone found) = ''+573001222222'')))))"

definition test_update_user :: "user_env \<Rightarrow> (string \<Rightarrow> string) \<Rightarrow> uuid \<Rightarrow> timestamp \<Rightarrow> srv \<Rightarrow> bool" where
  "test_update_user env hash i now =
     with_value (phone_number_new ''+573001333333'') (\<lambda>phone.
     new_test_user env hash i now ''testuser_update'' phone None (\<lambda>user.
     expect (create_user env now user) (\<lambda>_.
     expect (read_db (find_by_phone env phone)) (unwrap (\<lambda>found.
     expect (update_user_entity env now (found\<lparr>usr_status_text := ''Updated status''\<rparr>)) (\<lambda>_.
     expect (read_db (find_by_phone env phone)) (unwrap (\<lambda>updated s.
       usr_status_text updated = ''Updated status''))))))))"

definition test_delete_soft_user :: "user_env \<Rightarrow> (string \<Rightarrow> string) \<Rightarrow> uuid \<Rightarrow> timestamp \<Rightarrow> srv \<Rightarrow> bool" where
  "test_delete_soft_user env hash i now =
     with_value (phone_number_new ''+573001444444'') (\<lambda>phone.
     new_test_user env hash i now ''testuser_delete'' phone None (\<lambda>user.
     expect (create_user env now user) (\<lambda>_.
     expect (delete_soft env now (usr_id user)) (\<lambda>_.
     expect (read_db (find_by_id env (usr_id user))) (\<lambda>found s. found = None)))))"

section \<open>Contacts\<close>

text \<open>The owner comes from a statement that binds the id, the phone and the hash; the rest are the defaults of 002.\<close>

definition insert_owner :: "uuid \<Rightarrow> timestamp \<Rightarrow> string \<Rightarrow> string \<Rightarrow> (db, domain_error, unit) op" where
  "insert_owner i now phone hash =
     sql (insert_user \<lparr>u_id = i, u_username = None, u_phone = phone, u_phone_hash = hash, u_email = None,
       u_avatar_url = None, u_status_text = Some '''', u_two_fa_enabled = False, u_two_fa_secret = None,
       u_is_active = True, u_last_seen_at = None, u_created_at = now, u_updated_at = now, u_deleted_at = None\<rparr>)"

definition test_create_contact :: "uuid \<Rightarrow> uuid \<Rightarrow> timestamp \<Rightarrow> db \<Rightarrow> bool" where
  "test_create_contact owner i now =
     expect (insert_owner owner now ''+573000000001'' ''dummy_hash_1'') (\<lambda>_.
     with_value (phone_number_new ''+573001111111'') (\<lambda>phone.
     expect (contact_repo_create (contact_new i now owner phone None)) (\<lambda>_.
     expect (query (contact_repo_find_by_owner_and_phone owner phone)) (unwrap (\<lambda>found d.
       phone_str (ct_phone found) = ''+573001111111'')))))"

definition test_find_all_by_owner :: "user_env \<Rightarrow> uuid \<Rightarrow> uuid \<Rightarrow> uuid \<Rightarrow> timestamp \<Rightarrow> db \<Rightarrow> bool" where
  "test_find_all_by_owner env owner i j now =
     expect (insert_owner owner now ''+573000000002'' ''dummy_hash_2'') (\<lambda>_.
     with_value (phone_number_new ''+573001111111'') (\<lambda>phone1.
     with_value (phone_number_new ''+573001222222'') (\<lambda>phone2.
     expect (contact_repo_create (contact_new i now owner phone1 None)) (\<lambda>_.
     expect (contact_repo_create (contact_new j now owner phone2 None)) (\<lambda>_.
     expect (query (contact_repo_find_all_by_owner env owner)) (\<lambda>all_rows d. length all_rows = 2))))))"

definition test_update_contact :: "uuid \<Rightarrow> uuid \<Rightarrow> timestamp \<Rightarrow> db \<Rightarrow> bool" where
  "test_update_contact owner i now =
     expect (insert_owner owner now ''+573000000003'' ''dummy_hash_3'') (\<lambda>_.
     with_value (phone_number_new ''+573001333333'') (\<lambda>phone.
     expect (contact_repo_create (contact_new i now owner phone None)) (\<lambda>_.
     expect (query (contact_repo_find_by_owner_and_phone owner phone)) (unwrap (\<lambda>found.
     expect (contact_repo_update (set_favorite True found)) (\<lambda>_.
     expect (query (contact_repo_find_by_owner_and_phone owner phone)) (unwrap (\<lambda>updated d.
       ct_is_favorite updated))))))))"

definition test_delete_contact :: "uuid \<Rightarrow> uuid \<Rightarrow> timestamp \<Rightarrow> db \<Rightarrow> bool" where
  "test_delete_contact owner i now =
     expect (insert_owner owner now ''+573000000004'' ''dummy_hash_4'') (\<lambda>_.
     with_value (phone_number_new ''+573001444444'') (\<lambda>phone.
     expect (contact_repo_create (contact_new i now owner phone None)) (\<lambda>_.
     expect (query (contact_repo_find_by_owner_and_phone owner phone)) (unwrap (\<lambda>found.
     expect (contact_repo_delete (ct_id found)) (\<lambda>_.
     expect (query (contact_repo_find_by_id (ct_id found))) (\<lambda>deleted d. deleted = None)))))))"

section \<open>Value objects and flexible strings\<close>

definition test_email_validation :: bool where
  "test_email_validation \<longleftrightarrow> is_ok (email_new ''test@example.com'') \<and> \<not> is_ok (email_new ''invalid-email'')"

definition test_phone_validation :: bool where
  "test_phone_validation \<longleftrightarrow>
     is_ok (phone_number_new ''+573001234567'') \<and> \<not> is_ok (phone_number_new ''3001234567'') \<and>
     \<not> is_ok (phone_number_new ''+1234'')"

definition test_username_validation :: "(string \<Rightarrow> bool) \<Rightarrow> bool" where
  "test_username_validation uni \<longleftrightarrow>
     is_ok (username_new uni ''julio_dev'') \<and> \<not> is_ok (username_new uni ''ju'') \<and>
     \<not> is_ok (username_new uni ''invalid name!'')"

definition flexible_login :: "wjson \<Rightarrow> wjson \<Rightarrow> (string \<times> string) option" where
  "flexible_login phone code =
     map_option (\<lambda>(p, c, d). (p, c))
       (read_login_verify_request (WObj [(''phone'', phone), (''code'', code), (''device_id'', WStr ''test-device''),
         (''device_name'', WStr ''Test Device''), (''device_type'', WStr ''iOS'')]))"

definition test_flexible_deserialization :: bool where
  "test_flexible_deserialization \<longleftrightarrow>
     flexible_login (WStr ''+573001234567'') (WStr ''123456'') = Some (''+573001234567'', ''123456'') \<and>
     flexible_login (WInt 573001234567) (WInt 123456) = Some (''573001234567'', ''123456'')"

section \<open>They pass\<close>

lemmas test_steps = expect_def unwrap_def with_value_def new_test_user_def

lemma test_phones:
  "phone_ok ''+573001111111''" "phone_ok ''+573001222222''" "phone_ok ''+573001333333''" "phone_ok ''+573001444444''"
  "phone_ok ''+573000000001''" "phone_ok ''+573000000002''" "phone_ok ''+573000000003''" "phone_ok ''+573000000004''"
  by code_simp+

lemma test_names:
  "username_ok uni ''testuser_create''" "username_ok uni ''testuser_phone''" "username_ok uni ''testuser_update''"
  "username_ok uni ''testuser_delete''" "username_ok uni ''julio_dev''"
  by code_simp+

lemma test_email: "email_new ''test@example.com'' = Inr (Email ''test@example.com'')"
  by (simp add: email_new_def)

lemmas test_values = test_phones test_names test_email normalize_e164_id phone_number_new_def username_new_def

lemmas user_steps = create_user_def update_user_entity_def delete_soft_def if_redis_def sql_on_db_def on_db_def sql_def
  execute_def map_sqlx_def read_db_def and_then_def insert_user_def row_of_user_def user_new_def find_by_id_def
  find_by_phone_def find_user_def opt_new_def user_of_row_def update_user_def set_user_def touch_user_def ret_def
  no_users_def empty_db_def Let_def exists_where_iff users_clash_def

lemma user_tests_pass:
  assumes "\<not> ue_has_redis env"
  shows "test_create_user env hash i now no_users" "test_find_by_phone env hash i now no_users"
    "test_update_user env hash i now no_users" "test_delete_soft_user env hash i now no_users"
proof -
  show "test_create_user env hash i now no_users"
    unfolding test_create_user_def test_steps using assms by (simp add: test_values user_steps)
  show "test_find_by_phone env hash i now no_users"
    unfolding test_find_by_phone_def test_steps using assms by (simp add: test_values user_steps)
  show "test_update_user env hash i now no_users"
    unfolding test_update_user_def test_steps using assms by (simp add: test_values user_steps)
  show "test_delete_soft_user env hash i now no_users"
    unfolding test_delete_soft_user_def test_steps using assms by (simp add: test_values user_steps)
qed

lemmas contact_steps = insert_owner_def contact_repo_create_def contact_repo_find_by_owner_and_phone_def
  contact_repo_find_by_id_def contact_repo_find_all_by_owner_def contact_repo_update_def contact_repo_delete_def
  contact_new_def set_favorite_def insert_contact_def update_contact_row_def contact_fks_def contact_of_row_def
  row_of_contact_def query_def user_exists_def

lemma collected_length:
  assumes "list_all (\<lambda>x. is_ok (f x)) xs" "length xs = n"
  shows "case collect_results (map f xs) of Inl e \<Rightarrow> False | Inr ys \<Rightarrow> length ys = n"
  using assms by (induction xs arbitrary: n) (auto simp: is_ok_iff split: sum.splits)

lemma contact_tests_pass:
  assumes "i \<noteq> j"
  shows "test_create_contact ow i now empty_db" "test_find_all_by_owner env ow i j now empty_db"
    "test_update_contact ow i now empty_db" "test_delete_contact ow i now empty_db"
proof -
  show "test_create_contact ow i now empty_db"
    unfolding test_create_contact_def test_steps by (simp add: test_values user_steps contact_steps)
  show "test_find_all_by_owner env ow i j now empty_db"
    unfolding test_find_all_by_owner_def test_steps using assms
    by (simp add: test_values user_steps contact_steps contact_order_def)
      (rule collected_length, auto simp: list_all_iff test_values contact_steps select_where_def)
  show "test_update_contact ow i now empty_db"
    unfolding test_update_contact_def test_steps by (simp add: test_values user_steps contact_steps)
  show "test_delete_contact ow i now empty_db"
    unfolding test_delete_contact_def test_steps by (simp add: test_values user_steps contact_steps delete_where_def)
qed

lemma value_tests_pass: "test_email_validation" "test_phone_validation" "test_username_validation uni"
  by code_simp+

lemma test_numbers:
  "int_to_string 573001234567 = ''573001234567''" "int_to_string 123456 = ''123456''"
  by (simp_all add: int_to_string_def nat_to_string.simps digit_char_def char_of_def bit_Suc_0_iff)

lemma flexible_test_passes: "test_flexible_deserialization"
  by (simp add: test_flexible_deserialization_def flexible_login_def read_login_verify_request_def read_phone_code_def
      read_device_parts_def field_simps from_string_or_number_def json_value_of_def test_numbers del: field.simps)

end
