(* ===== verification/Metrics.thy ===== *)
theory Metrics
  imports WsProps
begin

text \<open>
  The metrics (\<open>crates/api/src/services/metrics.rs\<close>), the worker of \<open>crates/api/src/main.rs\<close> that sets
  three of them every 15 seconds, and the gauge of open WebSockets. The registry is the list of the names
  it holds; the prometheus library is a parameter. Bucket bounds and durations are in
  microseconds, and a histogram is the list of what was observed.
\<close>

section \<open>Definitions\<close>

record histogram =
  hi_name :: string
  hi_buckets :: "int list"
  hi_observed :: "int list"

record metrics =
  mt_messages_sent_total :: u64
  mt_auth_attempts_total :: u64
  mt_push_notifications_sent :: u64
  mt_active_ws_connections :: i64
  mt_db_pool_idle :: i64
  mt_db_pool_active :: i64
  mt_redis_connected_clients :: i64
  mt_http_request_duration :: histogram
  mt_db_query_duration :: histogram
  mt_registry :: "string list"

text \<open>
  The prometheus library is a parameter: what it answers to the options of a counter or gauge, to those of a
  histogram, and to the registration of a name in a registry; \<open>None\<close> is no error.
\<close>

record prometheus =
  pm_opts :: "string \<Rightarrow> string \<Rightarrow> string option"
  pm_histogram :: "string \<Rightarrow> string \<Rightarrow> int list \<Rightarrow> string option"
  pm_register :: "string \<Rightarrow> string list \<Rightarrow> string option"

definition with_opts :: "prometheus \<Rightarrow> string \<Rightarrow> string \<Rightarrow> string + string" where
  "with_opts pm name help = (case pm_opts pm name help of Some e \<Rightarrow> Inl e | None \<Rightarrow> Inr name)"

definition histogram_with_opts :: "prometheus \<Rightarrow> string \<Rightarrow> string \<Rightarrow> int list \<Rightarrow> string + histogram" where
  "histogram_with_opts pm name help bounds =
     (case pm_histogram pm name help bounds of
        Some e \<Rightarrow> Inl e
      | None \<Rightarrow> Inr \<lparr>hi_name = name, hi_buckets = bounds, hi_observed = []\<rparr>)"

fun register_all :: "prometheus \<Rightarrow> string list \<Rightarrow> string list \<Rightarrow> string + string list" where
  "register_all pm [] reg = Inr reg"
| "register_all pm (n # ns) reg =
     (case pm_register pm n reg of Some e \<Rightarrow> Inl e | None \<Rightarrow> register_all pm ns (reg @ [n]))"

definition counter_opts :: "(string \<times> string) list" where
  "counter_opts =
     [(''messages_sent_total'', ''Total number of messages sent by type''),
      (''auth_attempts_total'', ''Total number of authentication attempts''),
      (''push_notifications_sent'', ''Total number of push notifications sent''),
      (''active_ws_connections'', ''Number of active WebSocket connections''),
      (''db_pool_idle'', ''Number of idle database connections''),
      (''db_pool_active'', ''Number of active database connections''),
      (''redis_connected_clients'', ''Number of connected Redis clients'')]"

definition metrics_new :: "prometheus \<Rightarrow> string + metrics" where
  "metrics_new pm =
     (case collect_results (map (\<lambda>(n, h). with_opts pm n h) counter_opts) of
        Inl e \<Rightarrow> Inl e
      | Inr names \<Rightarrow>
     (case histogram_with_opts pm ''http_request_duration_seconds'' ''HTTP request duration in seconds''
             [5000, 10000, 25000, 50000, 100000, 250000, 500000, 1000000, 2500000, 5000000] of
        Inl e \<Rightarrow> Inl e
      | Inr http \<Rightarrow>
     (case histogram_with_opts pm ''db_query_duration_seconds'' ''Database query duration in seconds''
             [1000, 5000, 10000, 25000, 50000, 100000, 250000, 500000, 1000000] of
        Inl e \<Rightarrow> Inl e
      | Inr query_time \<Rightarrow>
     (case register_all pm (names @ [hi_name http, hi_name query_time]) [] of
        Inl e \<Rightarrow> Inl e
      | Inr reg \<Rightarrow>
          Inr \<lparr>mt_messages_sent_total = 0, mt_auth_attempts_total = 0, mt_push_notifications_sent = 0,
               mt_active_ws_connections = 0, mt_db_pool_idle = 0, mt_db_pool_active = 0,
               mt_redis_connected_clients = 0, mt_http_request_duration = http, mt_db_query_duration = query_time,
               mt_registry = reg\<rparr>))))"

definition create_metrics :: "prometheus \<Rightarrow> string + metrics" where
  "create_metrics pm = metrics_new pm"

definition observe :: "int \<Rightarrow> histogram \<Rightarrow> histogram" where
  "observe d h = h\<lparr>hi_observed := hi_observed h @ [d]\<rparr>"

text \<open>The middleware records the time of every request.\<close>

definition record_request :: "int \<Rightarrow> metrics \<Rightarrow> metrics" where
  "record_request latency m = m\<lparr>mt_http_request_duration := observe latency (mt_http_request_duration m)\<rparr>"

definition count_auth_attempt :: "metrics \<Rightarrow> metrics" where
  "count_auth_attempt m = m\<lparr>mt_auth_attempts_total := mt_auth_attempts_total m + 1\<rparr>"

definition count_message :: "metrics \<Rightarrow> metrics" where
  "count_message m = m\<lparr>mt_messages_sent_total := mt_messages_sent_total m + 1\<rparr>"

section \<open>The worker\<close>

text \<open>\<open>str::lines\<close>: lines end with \<open>\n\<close> or \<open>\r\n\<close>; the last may have no ending.\<close>

definition newline :: char where "newline = CHR 0x0A"

fun split_lines :: "string \<Rightarrow> string \<Rightarrow> string list" where
  "split_lines cur [] = (if cur = [] then [] else [rev cur])"
| "split_lines cur (c # s) =
     (if c = newline
      then rev (if cur \<noteq> [] \<and> hd cur = CHR 0x0D then tl cur else cur) # split_lines [] s
      else split_lines (c # cur) s)"

definition text_lines :: "string \<Rightarrow> string list" where
  "text_lines s = split_lines [] s"

definition strip_prefix :: "string \<Rightarrow> string \<Rightarrow> string option" where
  "strip_prefix p s = (if starts_with p s then Some (drop (length p) s) else None)"

definition digits_value :: "string \<Rightarrow> nat" where
  "digits_value s = foldl (\<lambda>n c. 10 * n + (of_char c - 48)) 0 s"

definition parse_digits :: "string \<Rightarrow> nat option" where
  "parse_digits s = (if s \<noteq> [] \<and> list_all is_ascii_digit s then Some (digits_value s) else None)"

text \<open>\<open>str::parse::<i64>\<close>\<close>

definition parse_i64 :: "string \<Rightarrow> int option" where
  "parse_i64 s =
     Option.bind
       (if starts_with ''-'' s then map_option (\<lambda>n. - int n) (parse_digits (tl s))
        else map_option int (parse_digits (if starts_with ''+'' s then tl s else s)))
       (\<lambda>n. if - (2 ^ 63) \<le> n \<and> n < 2 ^ 63 then Some n else None)"

definition client_count :: "string \<Rightarrow> int option" where
  "client_count line = Option.bind (strip_prefix ''connected_clients:'' line) (\<lambda>s. parse_i64 (trim s))"

definition set_clients :: "string \<Rightarrow> metrics \<Rightarrow> metrics" where
  "set_clients line m =
     (case client_count line of None \<Rightarrow> m | Some n \<Rightarrow> m\<lparr>mt_redis_connected_clients := word_of_int n\<rparr>)"

text \<open>One round: the connections of the pool and the idle ones among them, and the answer to \<open>INFO clients\<close>, if any.\<close>

definition metrics_round :: "nat \<Rightarrow> nat \<Rightarrow> string option \<Rightarrow> metrics \<Rightarrow> metrics" where
  "metrics_round pool idle info m =
     (let m1 = m\<lparr>mt_db_pool_active := of_nat pool, mt_db_pool_idle := of_nat idle\<rparr>
      in case info of None \<Rightarrow> m1 | Some txt \<Rightarrow> fold set_clients (text_lines txt) m1)"

section \<open>Properties\<close>

lemma starts_with_Cons: "starts_with [x] (c # s) \<longleftrightarrow> c = x"
  by (auto simp: starts_with_def)

lemma is_ascii_digit_signs: "is_ascii_digit c \<Longrightarrow> c \<noteq> CHR ''-'' \<and> c \<noteq> CHR ''+''"
  by (auto simp: is_ascii_digit_def)

text \<open>
  What the library documents: a name of letters, digits, \<open>_\<close> and \<open>:\<close> with a help text is accepted, bucket bounds
  that increase too, and a name that the registry does not have yet is registered.
\<close>

definition metric_start :: "char \<Rightarrow> bool" where
  "metric_start c \<longleftrightarrow> is_ascii_alphanumeric c \<and> \<not> is_ascii_digit c \<or> c \<in> {CHR ''_'', CHR '':''}"

definition metric_name_ok :: "string \<Rightarrow> bool" where
  "metric_name_ok s \<longleftrightarrow> s \<noteq> [] \<and> metric_start (hd s) \<and> list_all (\<lambda>c. metric_start c \<or> is_ascii_digit c) s"

definition prometheus_lib :: "prometheus \<Rightarrow> bool" where
  "prometheus_lib pm \<longleftrightarrow>
     (\<forall>n h. metric_name_ok n \<longrightarrow> h \<noteq> [] \<longrightarrow> pm_opts pm n h = None) \<and>
     (\<forall>n h bs. metric_name_ok n \<longrightarrow> h \<noteq> [] \<longrightarrow> bs \<noteq> [] \<longrightarrow> sorted_wrt (<) bs \<longrightarrow> pm_histogram pm n h bs = None) \<and>
     (\<forall>n reg. n \<notin> set reg \<longrightarrow> pm_register pm n reg = None)"

definition prometheus_model :: prometheus where
  "prometheus_model =
     \<lparr>pm_opts = (\<lambda>n h. if metric_name_ok n \<and> h \<noteq> [] then None else Some n),
      pm_histogram = (\<lambda>n h bs. if metric_name_ok n \<and> h \<noteq> [] \<and> sorted_wrt (<) bs then None else Some n),
      pm_register = (\<lambda>n reg. if n \<in> set reg then Some n else None)\<rparr>"

lemma prometheus_model_lib: "prometheus_lib prometheus_model"
  by (simp add: prometheus_lib_def prometheus_model_def)

lemma register_all_distinct:
  assumes "prometheus_lib pm"
  shows "distinct ns \<Longrightarrow> set ns \<inter> set reg = {} \<Longrightarrow> register_all pm ns reg = Inr (reg @ ns)"
proof (induction ns arbitrary: reg)
  case (Cons n ns)
  then have "pm_register pm n reg = None" using assms by (simp add: prometheus_lib_def)
  then show ?case using Cons.IH [of "reg @ [n]"] Cons.prems by simp
qed simp

text \<open>The \<open>expect\<close> of \<open>main\<close> holds: the names are well-formed and different and the buckets increase.\<close>

lemma create_metrics_never_fails:
  assumes "prometheus_lib pm"
  shows "\<exists>m. create_metrics pm = Inr m \<and> length (mt_registry m) = 9 \<and> distinct (mt_registry m)"
proof -
  have names: "list_all (\<lambda>(n, h). metric_name_ok n \<and> h \<noteq> []) counter_opts"
    "metric_name_ok ''http_request_duration_seconds''" "metric_name_ok ''db_query_duration_seconds''"
    by code_simp+
  have distinct: "distinct (map fst counter_opts @ [''http_request_duration_seconds'', ''db_query_duration_seconds''])"
    by code_simp
  have lib: "metric_name_ok n \<Longrightarrow> h \<noteq> [] \<Longrightarrow> pm_opts pm n h = None"
    "metric_name_ok n \<Longrightarrow> h \<noteq> [] \<Longrightarrow> bs \<noteq> [] \<Longrightarrow> sorted_wrt (<) bs \<Longrightarrow> pm_histogram pm n h bs = None" for n h bs
    using assms by (simp_all add: prometheus_lib_def)
  have counters: "list_all (\<lambda>(n, h). metric_name_ok n \<and> h \<noteq> []) xs \<Longrightarrow>
      collect_results (map (\<lambda>(n, h). with_opts pm n h) xs) = Inr (map fst xs)" for xs
    by (induction xs) (auto simp: with_opts_def lib)
  have "length (map fst counter_opts) = 7" by (simp add: counter_opts_def)
  then show ?thesis
    using names distinct register_all_distinct [OF assms distinct, of "[]"]
    by (simp add: create_metrics_def metrics_new_def counters histogram_with_opts_def lib)
qed

lemma create_metrics_never_fails_witness:
  "\<exists>m. create_metrics prometheus_model = Inr m \<and> length (mt_registry m) = 9 \<and> distinct (mt_registry m)"
  by (rule create_metrics_never_fails [OF prometheus_model_lib])

lemma digits_value_snoc: "digits_value (s @ [c]) = 10 * digits_value s + (of_char c - 48)"
  by (simp add: digits_value_def)

lemma digit_char_value: "(of_char (digit_char n) :: nat) - 48 = n mod 10"
  by (simp add: digit_char_def)

lemma digits_value_string: "digits_value (nat_to_string n) = n"
proof (induction n rule: nat_to_string.induct)
  case (1 n)
  show ?case
  proof (cases "n < 10")
    case True
    then show ?thesis by (subst nat_to_string.simps) (simp add: digits_value_def digit_char_value)
  next
    case False
    then have "digits_value (nat_to_string n) = 10 * (n div 10) + n mod 10"
      using 1 by (subst nat_to_string.simps) (simp add: digits_value_snoc digit_char_value)
    then show ?thesis by simp
  qed
qed

lemma parse_digits_string: "parse_digits (nat_to_string n) = Some n"
proof -
  have "nat_to_string n \<noteq> []" by (subst nat_to_string.simps) simp
  then show ?thesis by (simp add: parse_digits_def nat_to_string_digits digits_value_string)
qed

text \<open>Parsing reads back what \<open>to_string\<close> writes.\<close>

lemma parse_i64_string:
  assumes "0 \<le> n" "n < 2 ^ 63"
  shows "parse_i64 (int_to_string n) = Some n"
proof -
  have "nat_to_string m \<noteq> []" "list_all is_ascii_digit (nat_to_string m)" for m
    by (subst nat_to_string.simps, simp) (rule nat_to_string_digits)
  then have "\<exists>c s. nat_to_string m = c # s \<and> is_ascii_digit c" for m
    by (metis list.exhaust list.pred_inject(2))
  then have "\<not> starts_with ''-'' (nat_to_string m)" "\<not> starts_with ''+'' (nat_to_string m)" for m
    by (metis is_ascii_digit_signs starts_with_Cons)+
  then show ?thesis
    using assms by (simp add: parse_i64_def int_to_string_def parse_digits_string)
qed

text \<open>
  What the worker shows as active connections is all the connections of the pool: with every one of them idle it
  is not zero, although the help text says the number of active ones.
\<close>

lemma pool_gauge_counts_idle: "mt_db_pool_active (metrics_round 5 5 None m) = 5 \<and> mt_db_pool_idle (metrics_round 5 5 None m) = 5"
  by (simp add: metrics_round_def)

text \<open>The count of clients in an answer of Redis; an answer without the line leaves the gauge.\<close>

lemma clients_from_info:
  "mt_redis_connected_clients (metrics_round 5 2 (Some (''# Clients'' @ [CHR 0x0D, newline] @ ''connected_clients:17'' @
     [CHR 0x0D, newline] @ ''blocked_clients:3'' @ [CHR 0x0D, newline])) m) = 17"
proof -
  have "text_lines (''# Clients'' @ [CHR 0x0D, newline] @ ''connected_clients:17'' @ [CHR 0x0D, newline] @
      ''blocked_clients:3'' @ [CHR 0x0D, newline]) = [''# Clients'', ''connected_clients:17'', ''blocked_clients:3'']"
    "client_count ''# Clients'' = None" "client_count ''connected_clients:17'' = Some 17"
    "client_count ''blocked_clients:3'' = None"
    by code_simp+
  then show ?thesis by (simp add: metrics_round_def set_clients_def)
qed

section \<open>The gauge of open WebSockets\<close>

text \<open>It goes up when a socket is set up and down when its reader ends.\<close>

definition ends_reader :: "ws_state \<Rightarrow> nat \<Rightarrow> ws_frame \<Rightarrow> bool" where
  "ends_reader st c frame \<longleftrightarrow>
     select_one (\<lambda>so. so_id so = c \<and> so_reading so) (ws_sockets st) \<noteq> None \<and> (frame = FrameClose \<or> frame = FrameError)"

fun gauge_step :: "ws_request \<Rightarrow> ws_state \<Rightarrow> metrics \<Rightarrow> metrics" where
  "gauge_step (OpenSocket c u sub_ok) st m = m\<lparr>mt_active_ws_connections := mt_active_ws_connections m + 1\<rparr>"
| "gauge_step (Frame new_id c frame) st m =
     (if ends_reader st c frame then m\<lparr>mt_active_ws_connections := mt_active_ws_connections m - 1\<rparr> else m)"
| "gauge_step req st m = m"

fun gauge_run :: "ws_env \<Rightarrow> (timestamp \<times> ws_request) list \<Rightarrow> ws_state \<times> metrics \<Rightarrow> ws_state \<times> metrics" where
  "gauge_run env [] x = x"
| "gauge_run env ((now, req) # rs) (st, m) = gauge_run env rs (snd (ws_use env now req st), gauge_step req st m)"

definition readers :: "ws_state \<Rightarrow> nat" where
  "readers st = count_where so_reading (ws_sockets st)"

definition flags :: "ws_state \<Rightarrow> (nat \<times> bool) list" where
  "flags st = map (\<lambda>so. (so_id so, so_reading so)) (ws_sockets st)"

fun opened :: "(timestamp \<times> ws_request) list \<Rightarrow> nat list" where
  "opened [] = []"
| "opened ((now, OpenSocket c u sub_ok) # rs) = c # opened rs"
| "opened (r # rs) = opened rs"

lemma readers_flags: "readers st = count_where snd (flags st)"
  by (simp add: readers_def flags_def count_where_def filter_map comp_def)

lemma flags_map:
  "(\<And>so. so_id (f so) = so_id so \<and> so_reading (f so) = so_reading so) \<Longrightarrow>
   map (\<lambda>so. (so_id so, so_reading so)) (update_where P f sos) = map (\<lambda>so. (so_id so, so_reading so)) sos"
  by (simp add: update_where_def)

lemma receive_flags [simp]: "so_id (receive y so) = so_id so" "so_reading (receive y so) = so_reading so"
  by (simp_all add: receive_def)

lemma flags_quiet [simp]:
  "flags (send_text c y st) = flags st" "flags (ws_publish env ch y st) = flags st"
  "flags (st\<lparr>ws_srv := s\<rparr>) = flags st" "flags (st\<lparr>ws_timers := ts\<rparr>) = flags st"
  "flags (st\<lparr>ws_connections := cs\<rparr>) = flags st" "flags (retain_open u st) = flags st"
  "flags (drop_if_empty u st) = flags st"
  by (simp_all add: flags_def send_text_def on_socket_def ws_publish_def broadcast_def flags_map retain_open_def
      drop_if_empty_def split: option.split)

lemma flags_fold: "(\<And>x st. flags (f x st) = flags st) \<Longrightarrow> flags (fold f xs st) = flags st"
  by (induction xs arbitrary: st) simp_all

lemma flags_perform [simp]: "flags (perform env c e st) = flags st"
  by (cases e) simp_all

lemma flags_message [simp]: "flags (handle_client_message env new_id now u c msg st) = flags st"
  by (cases msg)
    (simp_all add: handle_typing_start_def handle_typing_stop_def handle_sync_request_def Let_def flags_fold
      split: option.split sum.split prod.split)

lemma flags_timers [simp]: "flags (fire_timers env now st) = flags st"
  unfolding fire_timers_def by (subst flags_fold) auto

lemma flags_write [simp]: "flags (write_frame c ok st) = flags st"
  unfolding flags_def write_frame_def on_socket_def
  by (simp, rule flags_map) (simp add: write_next_def split: list.split)

lemma flags_handshake [simp]:
  "flags (snd (ws_admit env y st)) = flags st" "flags (ws_delete_ticket ok ticket st) = flags st"
  "flags (st\<lparr>ws_handshakes := hs\<rparr>) = flags st" "flags (snd (create_ws_ticket env ok now ticket u st)) = flags st"
  by (simp_all add: ws_admit_def ws_delete_ticket_def create_ws_ticket_def Let_def split: option.split)
    (simp add: flags_def)

lemma flags_delete [simp]: "flags (snd (ws_use env now (TicketDelete h ok) st)) = flags st"
proof (cases "ws_handshakes st h")
  case (Some y)
  have *: "flags (snd (case ws_admit env z st' of (Inl e, st'') \<Rightarrow> (Rejected e, st'') | (Inr u, st'') \<Rightarrow> (Accepted ticket u, st''))) =
      flags st'" for z st' ticket
  proof -
    obtain r s' where e: "ws_admit env z st' = (r, s')" by fastforce
    then have "flags s' = flags st'" by (metis flags_handshake(1) snd_conv)
    then show ?thesis by (cases r) (simp_all add: e)
  qed
  show ?thesis using Some by (cases y) (simp add: *)
qed simp

declare ws_use.simps(3) [simp del]

lemma flags_close:
  "flags (close_reader env now c u st) = map (\<lambda>(i, r). (i, r \<and> i \<noteq> c)) (flags st)"
  by (auto simp: close_reader_def Let_def) (auto simp: flags_def on_socket_def update_where_def)

lemma flags_ids: "map fst (flags st) = map so_id (ws_sockets st)"
  by (simp add: flags_def comp_def)

text \<open>The reader that a frame ends was counted once: it is the only socket of that id.\<close>

lemma count_ended:
  "distinct (map fst xs) \<Longrightarrow> (c, True) \<in> set xs \<Longrightarrow>
   Suc (count_where snd (map (\<lambda>(i, r). (i, r \<and> i \<noteq> c)) xs)) = count_where snd xs"
proof (induction xs)
  case (Cons x xs)
  have same: "c \<notin> fst ` set xs \<Longrightarrow> map (\<lambda>(i, r). (i, r \<and> i \<noteq> c)) xs = xs"
    by (rule map_idI) force
  show ?case using Cons same by (cases x) (auto simp: image_iff)
qed simp

lemma flags_frame:
  "flags (read_frame env new_id now c frame st) =
     (if ends_reader st c frame then map (\<lambda>(i, r). (i, r \<and> i \<noteq> c)) (flags st) else flags st)"
  by (auto simp: read_frame_def ends_reader_def flags_close split: option.split ws_frame.split)

lemma gauge_frame:
  assumes "distinct (map so_id (ws_sockets st))" "mt_active_ws_connections m = of_nat (readers st)"
  shows "mt_active_ws_connections (gauge_step (Frame i c frame) st m) = of_nat (readers (read_frame env i now c frame st))"
proof (cases "ends_reader st c frame")
  case True
  then obtain so where "so \<in> set (ws_sockets st)" "so_id so = c" "so_reading so"
    by (auto simp: ends_reader_def dest: select_one_SomeD)
  then have "(c, True) \<in> set (flags st)" by (auto simp: flags_def intro!: image_eqI)
  then have "Suc (readers (read_frame env i now c frame st)) = readers st"
    using True assms(1) count_ended [of "flags st" c] by (simp add: readers_flags flags_frame flags_ids)
  then have "of_nat (readers st) = (of_nat (readers (read_frame env i now c frame st)) + 1 :: i64)"
    by (metis of_nat_Suc add.commute)
  then show ?thesis using True assms(2) by simp
qed (simp add: assms readers_flags flags_frame)

lemma flags_use:
  "\<not> (\<exists>c u ok. req = OpenSocket c u ok) \<Longrightarrow> map fst (flags (snd (ws_use env now req st))) = map fst (flags st)"
  "flags (open_socket env now c u ok st) = flags st @ [(c, True)]"
proof -
  show "flags (open_socket env now c u ok st) = flags st @ [(c, True)]" by (simp add: flags_def open_socket_def)
  show "map fst (flags (snd (ws_use env now req st))) = map fst (flags st)" if "\<not> (\<exists>c u ok. req = OpenSocket c u ok)"
    using that
    by (cases req) (auto simp: flags_frame create_ws_ticket_def Let_def comp_def case_prod_beta
        split: prod.split sum.split)
qed

text \<open>
  The gauge shows how many readers run, whatever the clients send, when sockets have ids of their own: it goes down
  once for each, however the connection ends.
\<close>

lemma gauge_counts_readers:
  assumes "distinct (map so_id (ws_sockets st) @ opened rs)"
    and "mt_active_ws_connections m = of_nat (readers st)"
  shows "mt_active_ws_connections (snd (gauge_run env rs (st, m))) = of_nat (readers (fst (gauge_run env rs (st, m))))"
  using assms
proof (induction rs arbitrary: st m)
  case (Cons r rs)
  obtain now req where r: "r = (now, req)" by (cases r)
  let ?st = "snd (ws_use env now req st)" and ?m = "gauge_step req st m"
  have gauge: "mt_active_ws_connections ?m = of_nat (readers ?st)"
  proof (cases req)
    case (Frame i c frame)
    then show ?thesis using Cons.prems gauge_frame [of st m i c frame env now] by simp
  qed (use Cons.prems in \<open>auto simp: readers_flags flags_use count_where_append create_ws_ticket_def Let_def
      case_prod_beta split: prod.split sum.split\<close>)
  have "distinct (map so_id (ws_sockets ?st) @ opened rs)"
    using Cons.prems(1) flags_use(1) [of req env now st] flags_use(2) [of env now _ _ _ st] r
    by (cases req) (auto simp: flags_ids [symmetric])
  then show ?case using Cons.IH gauge r by simp
qed simp

lemma gauge_starts_right: "create_metrics pm = Inr m \<Longrightarrow> mt_active_ws_connections m = 0"
  by (auto simp: create_metrics_def metrics_new_def split: sum.splits)

end
