(* ===== verification/Spec2Isabelle.thy ===== *)
theory Spec2Isabelle
  imports Otp Contacts AuthSample KeyProps StoryFeed WsProps Attachments PhoneHash Turn PushWorker Routes Wire
    WsWire PushDelivery GroupContract GroupEffects Repositories RepoTests Metrics
begin

text \<open>
  Verification development of the Mesty messenger backend, a Rust workspace of four crates under
  \<open>src/crates\<close>: \<open>domain\<close> (entities, repository traits, the call service), \<open>infrastructure\<close> (the
  PostgreSQL repositories and the Redis caches), \<open>api\<close> (HTTP and WebSocket handlers, middleware and
  services) and \<open>shared\<close> (errors, configuration, hashes). The tables, triggers, views and functions of
  \<open>src/migrations\<close> are part of the model, because the repositories rely on them.

  \<^bold>\<open>How the parts work together.\<close> An HTTP request finds its route, passes the authentication layer of its
  group and enters a handler (\<open>Routes\<close>, \<open>Auth\<close>). A handler checks its input, runs repository operations on
  the database and commands on Redis, and publishes events on Redis channels or queues push jobs. The
  sockets of connected clients subscribe to the channel of their user (\<open>Ws\<close>); the push worker empties the
  queue (\<open>PushWorker\<close>). Calls are signalled over the socket (\<open>CallSignaling\<close>) and stored by the call
  service (\<open>Calls\<close>).

  \<^bold>\<open>Conventions.\<close> A fallible operation returns \<open>error + value\<close> with the state it leaves (\<open>op\<close> in \<open>Prelude\<close>;
  \<open>and_then\<close> is the operator \<open>?\<close>, \<open>transaction\<close> rolls back). A table is the list of its rows, a SQL statement a
  function on it that checks the constraints in the order of PostgreSQL (trigger, CHECK, UNIQUE, foreign
  key). A handler acts on \<open>srv\<close>: the database, the keys of Redis and the list of what was sent out. Fresh
  UUIDs, \<open>NOW()\<close> and random texts are arguments; one operation sees one time, and Redis has the time of the
  application. A string is the list of its UTF-8 bytes, a time the number of microseconds since 1970, as the
  columns have it; the entity of a user has nanoseconds (\<open>chrono_time\<close>), which storing it cuts. A
  number stays a machine word where its width matters (\<open>Calls\<close>, \<open>Otp\<close>, \<open>Turn\<close>) and is an \<open>int\<close> otherwise.
  Third-party code (signatures, digests, Base64, JSON text, the object store, the search for a route) is
  an argument, and what is relied on is a named hypothesis (\<open>auth_lib\<close>, \<open>codec_ok\<close>, \<open>wire_lib\<close>, \<open>json_lib\<close>,
  \<open>json_faithful\<close>, \<open>prometheus_lib\<close>, the locale \<open>path_router\<close>) with an instance that shows it can hold.
\<close>

section \<open>The theories\<close>

text \<open>
  \<^bold>\<open>Foundations.\<close>
  \<^item> \<open>Prelude\<close>: base types, fallible operations, tables and unique keys. Its lemmas on updates, lookups and
    counts carry the proofs about the repositories.
  \<^item> \<open>Errors\<close>: \<open>shared/src/error.rs\<close>, \<open>api/src/error.rs\<close>, \<open>api/src/services/error.rs\<close>: the error types, the
    SQLSTATE translation and the HTTP answers.
  \<^item> \<open>Database\<close>: the tables of the migrations. \<open>Text\<close>: trimming, decimal texts, characters.
  \<^item> \<open>Json\<close>: JSON trees, and the fields that serde's derived code reads and writes.
  \<^item> \<open>Redis\<close>: the commands the code uses, with expiry. \<open>Server\<close>: the state of a handler, publications, the
    push queue.

  \<^bold>\<open>Calls.\<close> \<open>Calls\<close> has the entities, the repository trait as a record of functions, the service over any
  repository (locale \<open>call_store\<close>, interpreted on the PostgreSQL repository). \<open>CallSignaling\<close> has the five call
  messages of the socket; its lemmas give the invariant that no user is in two active calls and that every
  stored call is well-formed, who can answer a call, and what a hangup does. Interleaved runs show what the
  missing locks allow. \<open>Turn\<close> has the time-limited TURN credentials and when a TURN server accepts them.

  \<^bold>\<open>Chats and groups.\<close> \<open>Chats\<close> and \<open>GroupChats\<close> have the membership operations of
  \<open>infrastructure/src/repositories/chat.rs\<close> and the group handlers; \<open>Membership\<close> proves that each keeps the
  invariant (schema, one active owner per group, at most two plain members in a private chat), and
  \<open>MembershipProps\<close> has the reachable states and what a transfer does. \<open>GroupContract\<close> has the whole trait \<open>ChatRepository\<close> with the PostgreSQL repository as an instance; the rules that its
  comments state are the laws of the locale \<open>group_roles\<close>, from which it follows that users below admin cannot
  raise one another. \<open>GroupEffects\<close> shows that a removal shuts the user out, whatever group requests he makes
  afterwards, and which roles a role change changes.

  \<^bold>\<open>Lists.\<close> \<open>Paging\<close> has the cursor codec, the shape of a list handler and the locale \<open>keyset_source\<close>, whose
  lemmas say that following the cursors ends and returns every row once. It is interpreted on the chat list
  (\<open>ChatList\<close>), on messages (\<open>MessageListing\<close>) and on notifications (\<open>Notifications\<close>). The fuel of \<open>follow\<close> is
  the number of requests of the client; the theorems give a number that is enough, one more than the number of rows.

  \<^bold>\<open>Messages.\<close> \<open>Messages\<close> has sending, editing, deleting, read marks and reactions with the stored function of
  migration 014 and the handlers with their events. \<open>MessageProps\<close> has the invariant of the message tables as
  rule induction over a step relation, and who may do what. \<open>MessageListing\<close> has the two directions of paging
  and the fan-out of a new message. \<open>Attachments\<close> has the upload in two steps and the lifecycle rule of the
  object store. \<open>Notifications\<close> has the in-app notifications.

  \<^bold>\<open>People.\<close> \<open>Users\<close> has the value objects, the repository with its triggers, sessions and the set of phone
  hashes; \<open>UserDirectory\<close> search, profiles with their cache and blocks; \<open>Contacts\<close> the address book and contact
  discovery, which is exact for the hashes that Redis holds; \<open>PhoneHash\<close> the hashes of phone numbers and the
  migration of old ones at every start, with the accounts that discovery finds after it, whichever of its
  commands reach Redis. \<open>Repositories\<close> has the other repository traits with their instances, and in the locale
  \<open>seen_stories\<close> that a story which was viewed stays viewed.

  \<^bold>\<open>Authentication.\<close> \<open>OneTime\<close> is the locale of a value that may be used once; it is interpreted on one-time
  codes (\<open>Otp\<close>) and refresh tokens (\<open>AuthProps\<close>). \<open>RateLimit\<close> has the two limiters and
  how many requests they admit in any window. \<open>Tokens\<close> and \<open>Auth\<close> have the tokens, all handlers of
  \<open>api/src/handlers/auth\<close> and the middleware; \<open>AuthProps\<close> states when a protected route is entered and where
  revocation stops; \<open>AuthSample\<close> runs the handlers in a concrete environment. \<open>Routes\<close> has the route table
  of \<open>api/src/routes.rs\<close>, that it has no conflicts, and that every handler but eleven is behind the middleware.

  \<^bold>\<open>Keys.\<close> \<open>Keys\<close> has the upload and distribution of keys for end-to-end encryption with the function of
  migration 011; \<open>KeyProps\<close> shows that a one-time prekey leaves the server once.

  \<^bold>\<open>Stories.\<close> \<open>Stories\<close> has the repository and the handlers; \<open>StoryProps\<close> an abstract bulletin board with
  audiences and the proof that the handlers refine it; \<open>StoryFeed\<close> that the feed is the visible part of it.

  \<^bold>\<open>Sockets and pushes.\<close> \<open>Ws\<close> has tickets, the handshake, the three tasks of a socket and the messages of a
  client as steps that may interleave; \<open>WsProps\<close> which handshakes a ticket lets in, in any order of the steps,
  and that a message reaches exactly the sockets of the other participants. \<open>PushWorker\<close> has the queue and
  the worker's rounds, whose only effect is the log; \<open>PushDelivery\<close> composes it with the sending of a
  message: for which sessions a push is logged. The rounds are the fuel of \<open>push_worker\<close>; as many as jobs were queued are enough.

  \<^bold>\<open>JSON.\<close> \<open>Wire\<close> has the requests, responses and cursors of the chat handlers and shows that the code's
  cursors satisfy \<open>codec_ok\<close>; \<open>ApiWire\<close> has those of the other modules. \<open>WsWire\<close> has the socket messages that
  \<open>ws/dto.rs\<close> declares, with both directions of serde, and the texts that are really sent; its lemmas say which of
  them a client can read by the declaration, and that a call is set up over the JSON of two sockets.

  \<^bold>\<open>Metrics and configuration.\<close> \<open>Metrics\<close> has the metrics of \<open>services/metrics.rs\<close>, the worker of \<open>main.rs\<close> that
  sets three of them, and that the gauge of open sockets counts the readers that run. \<open>Config\<close> has the
  configuration records, their defaults and the treatment of the keys. \<open>RepoTests\<close> has the tests of the
  repository, which pass on the model.
\<close>

section \<open>Simplifications\<close>

text \<open>
  \<^item> A statement of SQL does not fail for reasons of the connection (pool, network); a command of Redis fails
    on a value of another kind, and publications, the push queue, the hash migration and the socket tickets
    have a switch for failure. A message text that quotes a library error leaves the quotation out where nothing depends on it.
  \<^item> Row level security does not apply, because the service connects as the owner of the tables.
  \<^item> A join on a primary key is a lookup. \<open>LIMIT 1\<close> without \<open>ORDER BY\<close> takes the table's order. A \<open>BIGSERIAL\<close> is
    the next number. The one length limit of the schema, 64 characters for \<open>phone_hash\<close>, is what 32 bytes in
    hexadecimal need.
  \<^item> A handler runs without other requests in between, except where a theory states the interleaving
    (\<open>CallSignaling\<close>, \<open>Ws\<close>).
  \<^item> The channel of a socket is unbounded, because its sender waits when it is full.
  \<^item> The record of a response keeps a time that it has as text as a time; the JSON of the response has the text.
  \<^item> A struct is read from a JSON object; that serde also takes an array of its fields is left out.
\<close>

section \<open>Not modelled\<close>

text \<open>
  \<^item> The rest of \<open>api/src/main.rs\<close>, and the construction of repositories and states in \<open>api/src/routes.rs\<close>:
    connecting to the services and passing the connections on.
  \<^item> The text format in which prometheus prints the registry, the log lines and the set-up of the log writer.
  \<^item> The AWS client behind \<open>api/src/services/storage.rs\<close>; what it answers is an argument.
  \<^item> The message types for FCM and APNs in \<open>api/src/services/push.rs\<close>, which nothing uses yet.
  \<^item> \<open>api/src/bin/make_bundle.rs\<close>, which prints random keys; \<open>api/src/handlers/auth/dto.rs\<close>, which no module includes;
    the test of \<open>shared/src/config.rs\<close>, which reads the environment.
\<close>

end
